(* ===== verification/Go_Prelude.thy ===== *)
theory Go_Prelude
  imports Main "HOL-Library.Word" "HOL-Library.AList"
begin

text \<open>
  What every component of the model shares: the errors of package \<open>domain\<close> and the way
  \<open>errors.Is\<close> looks through wrapping, results as sums, the sequencing of calls that thread a
  state, the width of \<open>int64\<close>, the binary64 bit patterns of prices, and generic lemmas on
  association lists, maps and slices of lists.
\<close>

section \<open>Collections of facts\<close>

named_theorems go_defs \<open>unfolding rules of the small Go helpers\<close>
named_theorems op_defs \<open>unfolding rules of the sequencing combinators\<close>

section \<open>Machine integers\<close>

type_synonym u8 = "8 word"
type_synonym u16 = "16 word"
type_synonym u32 = "32 word"
type_synonym u64 = "64 word"

text \<open>
  \<open>int\<close> and \<open>int64\<close> are 64 bits wide on every platform the service is built for.  Values that
  the code only counts up from small numbers are \<open>int\<close> or \<open>nat\<close> here; where a value can leave
  the range, \<open>wrap64\<close> writes the two's complement wrap-around out.
\<close>

definition wrap64 :: "int \<Rightarrow> int" where
  "wrap64 x = signed_take_bit 63 x"

definition fits64 :: "int \<Rightarrow> bool" where
  "fits64 x \<longleftrightarrow> - (2 ^ 63) \<le> x \<and> x < 2 ^ 63"

lemma wrap64_fits [simp]: "fits64 x \<Longrightarrow> wrap64 x = x"
  by (simp add: wrap64_def fits64_def signed_take_bit_int_eq_self)

lemma fits64_wrap64: "fits64 (wrap64 x)"
  using signed_take_bit_int_less_exp [of 63 x] signed_take_bit_int_greater_eq_minus_exp [of 63 x]
  by (simp add: wrap64_def fits64_def)

text \<open>
  A \<open>float64\<close> is its IEEE 754 bit pattern.  The service copies prices and compares them with
  zero; both are exact on bit patterns (the two zeros are the patterns \<open>0\<close> and \<open>2 ^ 63\<close>).
\<close>

type_synonym float64 = "64 word"

definition float_is_zero :: "float64 \<Rightarrow> bool" where
  "float_is_zero b \<longleftrightarrow> b = 0 \<or> b = 0x8000000000000000"

section \<open>Errors\<close>

text \<open>
  The sentinels of \<^verbatim>\<open>internal/domain/errors.go\<close> and \<^verbatim>\<open>internal/source/pool.go\<close>, the two errors a
  context reports, \<open>fmt.Errorf\<close> with \<open>%w\<close> (\<open>Wrapped\<close>: the text behind the wrapped error,
  \<open>Prefixed\<close>: the text before it) and any other error with its text.  \<open>GoPanic\<close> stands for a
  run-time panic: the call does not return.
\<close>

datatype go_error =
    ErrUnsupportedCapability
  | ErrInvalidRequest
  | ErrRateLimited
  | ErrNoData
  | ErrUpstreamUnavailable
  | CtxCanceled
  | CtxDeadlineExceeded
  | ErrPoolClosed
  | ErrInvalidLease
  | ErrLeaseReleased
  | ErrUnknownHost
  | Wrapped go_error string
  | Prefixed string go_error
  | OtherError string
  | GoPanic string

fun errors_is :: "go_error \<Rightarrow> go_error \<Rightarrow> bool" where
  "errors_is (Wrapped e s) target = (Wrapped e s = target \<or> errors_is e target)"
| "errors_is (Prefixed s e) target = (Prefixed s e = target \<or> errors_is e target)"
| "errors_is e target = (e = target)"

lemma errors_is_refl [simp]: "errors_is e e"
  by (cases e) auto

fun err_text :: "go_error \<Rightarrow> string" where
  "err_text ErrUnsupportedCapability = ''marketdata: unsupported capability''"
| "err_text ErrInvalidRequest = ''marketdata: invalid request''"
| "err_text ErrRateLimited = ''marketdata: rate limited''"
| "err_text ErrNoData = ''marketdata: no data''"
| "err_text ErrUpstreamUnavailable = ''marketdata: upstream unavailable''"
| "err_text CtxCanceled = ''context canceled''"
| "err_text CtxDeadlineExceeded = ''context deadline exceeded''"
| "err_text ErrPoolClosed = ''source pool closed''"
| "err_text ErrInvalidLease = ''source pool invalid lease''"
| "err_text ErrLeaseReleased = ''source pool lease already released''"
| "err_text ErrUnknownHost = ''source pool unknown host''"
| "err_text (Wrapped e s) = err_text e @ '': '' @ s"
| "err_text (Prefixed s e) = s @ '': '' @ err_text e"
| "err_text (OtherError s) = s"
| "err_text (GoPanic s) = ''panic: '' @ s"

type_synonym 'a result = "go_error + 'a"

section \<open>Calls that thread a state\<close>

text \<open>
  A method of a stateful component takes the component's state and returns a result and the
  new state.  \<open>bnd\<close> is \<open>if err != nil { return err }\<close>: the continuation runs on success only.
  \<open>ignore_err\<close> is the assignment of an error to the blank identifier.
\<close>

type_synonym ('w, 'a) op = "'w \<Rightarrow> 'a result \<times> 'w"

definition ret :: "'a \<Rightarrow> ('w, 'a) op" where
  "ret x w = (Inr x, w)"

definition fail :: "go_error \<Rightarrow> ('w, 'a) op" where
  "fail e w = (Inl e, w)"

definition bnd :: "('w, 'a) op \<Rightarrow> ('a \<Rightarrow> ('w, 'b) op) \<Rightarrow> ('w, 'b) op" where
  "bnd m f w = (case m w of (Inl e, w') \<Rightarrow> (Inl e, w') | (Inr x, w') \<Rightarrow> f x w')"

definition lift_result :: "'a result \<Rightarrow> ('w, 'a) op" where
  "lift_result r w = (r, w)"

text \<open>A panic is not an error: neither a handler nor the blank identifier stops it.\<close>

fun is_panic :: "go_error \<Rightarrow> bool" where
  "is_panic (GoPanic s) = True"
| "is_panic e = False"

definition catch :: "('w, 'a) op \<Rightarrow> (go_error \<Rightarrow> ('w, 'b) op) \<Rightarrow> ('a \<Rightarrow> ('w, 'b) op) \<Rightarrow> ('w, 'b) op" where
  "catch m h f w =
     (case m w of
        (Inl e, w') \<Rightarrow> if is_panic e then (Inl e, w') else h e w'
      | (Inr x, w') \<Rightarrow> f x w')"

definition ignore_err :: "('w, 'a) op \<Rightarrow> ('w, unit) op" where
  "ignore_err m w =
     (case m w of
        (Inl e, w') \<Rightarrow> if is_panic e then (Inl e, w') else (Inr (), w')
      | (Inr x, w') \<Rightarrow> (Inr (), w'))"

text \<open>\<open>if err := check(); err != nil { return err }\<close> with the rest of the method behind it.\<close>

definition guard :: "go_error option \<Rightarrow> ('w, 'a) op \<Rightarrow> ('w, 'a) op" where
  "guard c m w = (case c of None \<Rightarrow> m w | Some e \<Rightarrow> (Inl e, w))"

lemma guard_simps [simp]: "guard None m w = m w" "guard (Some e) m w = (Inl e, w)"
  by (simp_all add: guard_def)

lemma guard_Inr: "guard c m w = (Inr x, w') \<longleftrightarrow> c = None \<and> m w = (Inr x, w')"
  by (cases c) auto

lemma guard_Inl: "guard c m w = (Inl e, w') \<longleftrightarrow> (c = Some e \<and> w' = w) \<or> (c = None \<and> m w = (Inl e, w'))"
  by (cases c) auto

declare ret_def [op_defs] fail_def [op_defs] bnd_def [op_defs] lift_result_def [op_defs]
  catch_def [op_defs] ignore_err_def [op_defs]

lemma bnd_ret [simp]: "bnd (ret x) f = f x"
  by (simp add: fun_eq_iff op_defs)

lemma bnd_fail [simp]: "bnd (fail e) f = fail e"
  by (simp add: fun_eq_iff op_defs)

lemma bnd_assoc: "bnd (bnd m f) g = bnd m (\<lambda>x. bnd (f x) g)"
  by (auto simp: fun_eq_iff op_defs split: sum.splits prod.splits)

lemma bnd_eq_Inr:
  "bnd m f w = (Inr y, w'') \<longleftrightarrow> (\<exists>x w'. m w = (Inr x, w') \<and> f x w' = (Inr y, w''))"
  by (auto simp: op_defs split: sum.splits prod.splits)

section \<open>Slices of lists\<close>

text \<open>\<open>xs[from:to]\<close> for \<open>from <= to <= len(xs)\<close>.\<close>

definition subslice :: "nat \<Rightarrow> nat \<Rightarrow> 'a list \<Rightarrow> 'a list" where
  "subslice from to xs = take (to - from) (drop from xs)"

lemma length_subslice [simp]: "to \<le> length xs \<Longrightarrow> length (subslice from to xs) = to - from"
  by (simp add: subslice_def)

lemma set_subslice: "set (subslice from to xs) \<subseteq> set xs"
  by (auto simp: subslice_def dest: in_set_takeD in_set_dropD)

lemma sorted_wrt_subslice: "sorted_wrt P xs \<Longrightarrow> sorted_wrt P (subslice from to xs)"
  by (simp add: subslice_def)

section \<open>Maps built by a loop of assignments\<close>

text \<open>\<open>for x in xs: m[key(x)] = val(x)\<close>\<close>

fun put_all :: "('x \<Rightarrow> 'k) \<Rightarrow> ('x \<Rightarrow> 'v) \<Rightarrow> 'x list \<Rightarrow> ('k \<rightharpoonup> 'v) \<Rightarrow> ('k \<rightharpoonup> 'v)" where
  "put_all k v [] m = m"
| "put_all k v (x # xs) m = put_all k v xs (m(k x \<mapsto> v x))"

lemma put_all_append: "put_all k v (xs @ ys) m = put_all k v ys (put_all k v xs m)"
  by (induction xs arbitrary: m) auto

lemma put_all_other: "key \<notin> k ` set xs \<Longrightarrow> put_all k v xs m key = m key"
  by (induction xs arbitrary: m) auto

lemma put_all_last:
  "put_all k v (xs @ [x]) m (k x) = Some (v x)"
  by (simp add: put_all_append)

lemma put_all_hit:
  "key \<in> k ` set xs \<Longrightarrow> \<exists>x \<in> set xs. k x = key \<and> put_all k v xs m key = Some (v x)"
proof (induction xs arbitrary: m)
  case (Cons x xs)
  show ?case
  proof (cases "key \<in> k ` set xs")
    case True
    then show ?thesis using Cons.IH by auto
  next
    case False
    then show ?thesis using Cons.prems by (auto simp: put_all_other)
  qed
qed simp

lemma put_all_distinct:
  "distinct (map k xs) \<Longrightarrow> x \<in> set xs \<Longrightarrow> put_all k v xs m (k x) = Some (v x)"
proof (induction xs arbitrary: m)
  case (Cons y ys)
  then show ?case by (cases "x = y") (auto simp: put_all_other rev_image_eqI)
qed simp

lemma put_all_dom: "dom (put_all k v xs m) = dom m \<union> k ` set xs"
  by (induction xs arbitrary: m) auto

section \<open>Loops over a slice\<close>

text \<open>A loop that returns at the first element whose check fails and collects the others.\<close>

fun collect :: "('x \<Rightarrow> 'y result) \<Rightarrow> 'x list \<Rightarrow> 'y list result" where
  "collect f [] = Inr []"
| "collect f (x # xs) =
     (case f x of Inl e \<Rightarrow> Inl e
      | Inr y \<Rightarrow> (case collect f xs of Inl e \<Rightarrow> Inl e | Inr ys \<Rightarrow> Inr (y # ys)))"

lemma collect_Inr: "collect f xs = Inr ys \<longleftrightarrow> list_all2 (\<lambda>x y. f x = Inr y) xs ys"
proof (induction xs arbitrary: ys)
  case (Cons x xs)
  show ?case by (cases ys) (auto split: sum.splits simp flip: Cons.IH)
qed auto

lemma collect_all: "(\<And>x. x \<in> set xs \<Longrightarrow> f x = Inr (g x)) \<Longrightarrow> collect f xs = Inr (map g xs)"
  by (induction xs) auto

lemma collect_Inl: "collect f xs = Inl e \<Longrightarrow> \<exists>x \<in> set xs. f x = Inl e"
  by (induction xs) (auto split: sum.splits)

lemma collect_length: "collect f xs = Inr ys \<Longrightarrow> length ys = length xs"
  by (auto simp: collect_Inr dest: list_all2_lengthD)

text \<open>\<open>grouped[key(x)] = append(grouped[key(x)], x)\<close>, with the keys in order of first use.\<close>

fun group_add :: "'k \<Rightarrow> 'x \<Rightarrow> ('k \<times> 'x list) list \<Rightarrow> ('k \<times> 'x list) list" where
  "group_add k x [] = [(k, [x])]"
| "group_add k x ((j, xs) # gs) = (if j = k then (j, xs @ [x]) # gs else (j, xs) # group_add k x gs)"

fun group_all :: "('x \<Rightarrow> 'k) \<Rightarrow> 'x list \<Rightarrow> ('k \<times> 'x list) list \<Rightarrow> ('k \<times> 'x list) list" where
  "group_all kf [] gs = gs"
| "group_all kf (x # xs) gs = group_all kf xs (group_add (kf x) x gs)"

text \<open>\<open>for key, items := range grouped { m[key] = f(m[key], items) }\<close>\<close>

fun apply_groups :: "('v list \<Rightarrow> 'x list \<Rightarrow> 'v list) \<Rightarrow> ('k \<times> 'x list) list \<Rightarrow> ('k \<rightharpoonup> 'v list) \<Rightarrow> ('k \<rightharpoonup> 'v list)" where
  "apply_groups f [] m = m"
| "apply_groups f ((k, xs) # gs) m =
     apply_groups f gs (m(k \<mapsto> f (case m k of None \<Rightarrow> [] | Some vs \<Rightarrow> vs) xs))"

definition get_list :: "('k \<rightharpoonup> 'v list) \<Rightarrow> 'k \<Rightarrow> 'v list" where
  "get_list m k = (case m k of None \<Rightarrow> [] | Some vs \<Rightarrow> vs)"

lemma get_list_upd [simp]: "get_list (m(k \<mapsto> v)) j = (if j = k then v else get_list m j)"
  by (simp add: get_list_def)

lemma group_add_get: "get_list (map_of (group_add k x gs)) j = get_list (map_of gs) j @ (if j = k then [x] else [])"
  by (induction gs) (auto simp: get_list_def)

lemma group_add_keys: "fst ` set (group_add k x gs) = insert k (fst ` set gs)"
  by (induction k x gs rule: group_add.induct) (simp_all add: insert_commute)

lemma group_add_distinct: "distinct (map fst gs) \<Longrightarrow> distinct (map fst (group_add k x gs))"
proof (induction gs)
  case (Cons g gs)
  then show ?case using group_add_keys [of k x gs] by (cases g) auto
qed simp

lemma group_all_get: "get_list (map_of (group_all kf xs gs)) j = get_list (map_of gs) j @ filter (\<lambda>x. kf x = j) xs"
  by (induction xs arbitrary: gs) (auto simp: group_add_get)

lemma group_all_distinct: "distinct (map fst gs) \<Longrightarrow> distinct (map fst (group_all kf xs gs))"
  by (induction xs arbitrary: gs) (auto simp: group_add_distinct)

lemma group_all_keys: "fst ` set (group_all kf xs gs) = fst ` set gs \<union> kf ` set xs"
  by (induction xs arbitrary: gs) (auto simp: group_add_keys)

lemma apply_groups_other: "k \<notin> fst ` set gs \<Longrightarrow> apply_groups f gs m k = m k"
  by (induction gs arbitrary: m) auto

lemma apply_groups_get:
  "distinct (map fst gs) \<Longrightarrow> k \<in> fst ` set gs \<Longrightarrow>
   get_list (apply_groups f gs m) k = f (get_list m k) (get_list (map_of gs) k)"
proof (induction gs arbitrary: m)
  case (Cons g gs)
  obtain j xs where g: "g = (j, xs)" by fastforce
  show ?case
  proof (cases "j = k")
    case True
    with Cons.prems g have "k \<notin> fst ` set gs" by auto
    then show ?thesis by (simp add: g True get_list_def apply_groups_other)
  next
    case False
    with Cons g show ?thesis by (simp add: get_list_def)
  qed
qed simp

text \<open>The two loops together: each key's list is merged with the new elements of that key.\<close>

definition group_merge :: "('v list \<Rightarrow> 'x list \<Rightarrow> 'v list) \<Rightarrow> ('x \<Rightarrow> 'k) \<Rightarrow> 'x list \<Rightarrow> ('k \<rightharpoonup> 'v list) \<Rightarrow> ('k \<rightharpoonup> 'v list)" where
  "group_merge f kf xs m = apply_groups f (group_all kf xs []) m"

lemma group_merge_get:
  "get_list (group_merge f kf xs m) k =
     (if k \<in> kf ` set xs then f (get_list m k) (filter (\<lambda>x. kf x = k) xs) else get_list m k)"
proof (cases "k \<in> kf ` set xs")
  case True
  then show ?thesis
    by (simp add: group_merge_def apply_groups_get group_all_distinct group_all_keys group_all_get)
      (simp add: get_list_def)
next
  case False
  then have "apply_groups f (group_all kf xs []) m k = m k"
    by (intro apply_groups_other) (simp add: group_all_keys)
  with False show ?thesis by (simp add: group_merge_def get_list_def)
qed

end
