(* ===== verification/Go_Strings.thy ===== *)
theory Go_Strings
  imports Go_Prelude "HOL-Library.Char_ord" "HOL-Library.List_Lexorder"
begin

text \<open>
  The functions of packages \<open>strings\<close> and \<open>strconv\<close> the service uses, on Go strings: sequences of
  bytes, one \<open>char\<close> per byte.  \<open>TrimSpace\<close> removes every Unicode space in its UTF-8 form.
  \<open>ToUpper\<close> and \<open>ToLower\<close> change the ASCII letters and keep the bytes from 128 up, which is what
  Go does on text whose other characters have no case (such as the Chinese mode names).
\<close>

section \<open>TrimSpace\<close>

definition ascii_space :: "char \<Rightarrow> bool" where
  "ascii_space c \<longleftrightarrow> c \<in> set [CHR '' '', CHR 0x09, CHR 0x0A, CHR 0x0B, CHR 0x0C, CHR 0x0D]"

text \<open>The last byte of U+2000 to U+200A, U+2028, U+2029 and U+202F after \<open>E2 80\<close>.\<close>

definition e280_space :: "char \<Rightarrow> bool" where
  "e280_space c \<longleftrightarrow> c \<in> set [CHR 0x80, CHR 0x81, CHR 0x82, CHR 0x83, CHR 0x84, CHR 0x85, CHR 0x86,
     CHR 0x87, CHR 0x88, CHR 0x89, CHR 0x8A, CHR 0xA8, CHR 0xA9, CHR 0xAF]"

definition space2 :: "char \<Rightarrow> char \<Rightarrow> bool" where
  "space2 c d \<longleftrightarrow> c = CHR 0xC2 \<and> (d = CHR 0x85 \<or> d = CHR 0xA0)"

definition space3 :: "char \<Rightarrow> char \<Rightarrow> char \<Rightarrow> bool" where
  "space3 c d e \<longleftrightarrow>
     c = CHR 0xE1 \<and> d = CHR 0x9A \<and> e = CHR 0x80 \<or>
     c = CHR 0xE2 \<and> (d = CHR 0x80 \<and> e280_space e \<or> d = CHR 0x81 \<and> e = CHR 0x9F) \<or>
     c = CHR 0xE3 \<and> d = CHR 0x80 \<and> e = CHR 0x80"

text \<open>The rest of the string after one leading space, if there is one.\<close>

definition drop_space :: "string \<Rightarrow> string option" where
  "drop_space s =
     (case s of [] \<Rightarrow> None
      | c # s1 \<Rightarrow> if ascii_space c then Some s1 else
        (case s1 of [] \<Rightarrow> None
         | d # s2 \<Rightarrow> if space2 c d then Some s2 else
           (case s2 of [] \<Rightarrow> None
            | e # s3 \<Rightarrow> if space3 c d e then Some s3 else None)))"

text \<open>The same at the end, on the reversed string.\<close>

definition drop_space_rev :: "string \<Rightarrow> string option" where
  "drop_space_rev s =
     (case s of [] \<Rightarrow> None
      | c # s1 \<Rightarrow> if ascii_space c then Some s1 else
        (case s1 of [] \<Rightarrow> None
         | d # s2 \<Rightarrow> if space2 d c then Some s2 else
           (case s2 of [] \<Rightarrow> None
            | e # s3 \<Rightarrow> if space3 e d c then Some s3 else None)))"

lemma drop_space_shorter: "drop_space s = Some t \<Longrightarrow> length t < length s"
  by (auto simp: drop_space_def split: list.splits if_splits)

lemma drop_space_rev_shorter: "drop_space_rev s = Some t \<Longrightarrow> length t < length s"
  by (auto simp: drop_space_rev_def split: list.splits if_splits)

lemma drop_space_rev_suffix: "drop_space_rev s = Some t \<Longrightarrow> \<exists>u. s = u @ t"
proof -
  assume a: "drop_space_rev s = Some t"
  have "s = take (length s - length t) s @ t"
    using a by (auto simp: drop_space_rev_def split: list.splits if_splits)
  then show ?thesis by blast
qed

lemma drop_space_append: "drop_space (s @ t) = None \<Longrightarrow> drop_space s = None"
  by (cases s; cases "tl s"; cases "tl (tl s)") (auto simp: drop_space_def split: if_splits)

function trim_left :: "string \<Rightarrow> string" where
  "trim_left s = (case drop_space s of None \<Rightarrow> s | Some t \<Rightarrow> trim_left t)"
  by pat_completeness auto
termination
  by (relation "measure length") (auto dest: drop_space_shorter)

function trim_rev :: "string \<Rightarrow> string" where
  "trim_rev s = (case drop_space_rev s of None \<Rightarrow> s | Some t \<Rightarrow> trim_rev t)"
  by pat_completeness auto
termination
  by (relation "measure length") (auto dest: drop_space_rev_shorter)

declare trim_left.simps [simp del] trim_rev.simps [simp del]

definition trim_space :: "string \<Rightarrow> string" where
  "trim_space s = rev (trim_rev (rev (trim_left s)))"

lemma trim_left_done: "drop_space (trim_left s) = None"
  by (induction s rule: trim_left.induct) (subst trim_left.simps, auto split: option.splits)

lemma trim_rev_done: "drop_space_rev (trim_rev s) = None"
  by (induction s rule: trim_rev.induct) (subst trim_rev.simps, auto split: option.splits)

lemma trim_left_id: "drop_space s = None \<Longrightarrow> trim_left s = s"
  by (subst trim_left.simps) simp

lemma trim_rev_id: "drop_space_rev s = None \<Longrightarrow> trim_rev s = s"
  by (subst trim_rev.simps) simp

lemma trim_rev_suffix: "\<exists>u. s = u @ trim_rev s"
proof (induction s rule: trim_rev.induct)
  case (1 s)
  show ?case
  proof (cases "drop_space_rev s")
    case None
    then show ?thesis by (simp add: trim_rev_id)
  next
    case (Some t)
    then obtain u v where "s = u @ t" "t = v @ trim_rev t"
      using drop_space_rev_suffix "1.IH" by blast
    then have "s = (u @ v) @ trim_rev t" by simp
    moreover from Some have "trim_rev s = trim_rev t" by (subst trim_rev.simps) simp
    ultimately show ?thesis by metis
  qed
qed

lemma trim_space_id:
  "drop_space s = None \<Longrightarrow> drop_space_rev (rev s) = None \<Longrightarrow> trim_space s = s"
  by (simp add: trim_space_def trim_left_id trim_rev_id)

lemma trim_space_fixed:
  "drop_space (trim_space s) = None" "drop_space_rev (rev (trim_space s)) = None"
proof -
  obtain u where "rev (trim_left s) = u @ trim_rev (rev (trim_left s))"
    using trim_rev_suffix by blast
  then have "trim_left s = trim_space s @ rev u"
    by (metis rev_append rev_rev_ident trim_space_def)
  then show "drop_space (trim_space s) = None"
    by (metis drop_space_append trim_left_done)
  show "drop_space_rev (rev (trim_space s)) = None"
    by (simp add: trim_space_def trim_rev_done)
qed

lemma trim_space_idem [simp]: "trim_space (trim_space s) = trim_space s"
  by (intro trim_space_id trim_space_fixed)

lemma trim_space_Nil [simp]: "trim_space [] = []"
  by (rule trim_space_id) (simp_all add: drop_space_def drop_space_rev_def)

lemma char_eq_code: "c = d \<longleftrightarrow> (of_char c :: nat) = of_char d"
  by simp

lemma ascii_space_code: "ascii_space c \<longleftrightarrow> (of_char c :: nat) \<in> {32, 9, 10, 11, 12, 13}"
  by (simp only: ascii_space_def list.set insert_iff empty_iff char_eq_code) simp

lemma e280_space_code:
  "e280_space c \<Longrightarrow> 128 \<le> (of_char c :: nat)"
  by (simp only: e280_space_def list.set insert_iff empty_iff char_eq_code) auto

lemma space2_code: "space2 c d \<Longrightarrow> 128 \<le> (of_char c :: nat) \<and> 128 \<le> (of_char d :: nat)"
  by (simp only: space2_def char_eq_code) auto

lemma space3_code: "space3 c d e \<Longrightarrow> 128 \<le> (of_char c :: nat) \<and> 128 \<le> (of_char e :: nat)"
  using e280_space_code [of e] by (simp only: space3_def char_eq_code) auto

text \<open>A string that begins and ends with ASCII bytes that are no spaces is not changed.\<close>

definition ascii_visible :: "char \<Rightarrow> bool" where
  "ascii_visible c \<longleftrightarrow> 32 < (of_char c :: nat) \<and> (of_char c :: nat) < 128"

lemma drop_space_visible: "ascii_visible c \<Longrightarrow> drop_space (c # s) = None"
  by (auto simp: ascii_visible_def drop_space_def ascii_space_code split: list.splits
      dest: space2_code space3_code)

lemma drop_space_rev_visible: "ascii_visible c \<Longrightarrow> drop_space_rev (c # s) = None"
  by (auto simp: ascii_visible_def drop_space_rev_def ascii_space_code split: list.splits
      dest: space2_code space3_code)

lemma trim_space_visible:
  "s \<noteq> [] \<Longrightarrow> ascii_visible (hd s) \<Longrightarrow> ascii_visible (last s) \<Longrightarrow> trim_space s = s"
proof (rule trim_space_id)
  assume a: "s \<noteq> []" "ascii_visible (hd s)" "ascii_visible (last s)"
  then show "drop_space s = None" by (cases s) (auto simp: drop_space_visible)
  from a have "rev s = last s # tl (rev s)"
    by (metis hd_rev list.exhaust_sel rev_is_Nil_conv)
  with a show "drop_space_rev (rev s) = None" by (metis drop_space_rev_visible)
qed

section \<open>Case\<close>

definition upper_char :: "char \<Rightarrow> char" where
  "upper_char c = (let n = (of_char c :: nat) in if 97 \<le> n \<and> n \<le> 122 then char_of (n - 32) else c)"

definition lower_char :: "char \<Rightarrow> char" where
  "lower_char c = (let n = (of_char c :: nat) in if 65 \<le> n \<and> n \<le> 90 then char_of (n + 32) else c)"

definition to_upper :: "string \<Rightarrow> string" where
  "to_upper s = map upper_char s"

definition to_lower :: "string \<Rightarrow> string" where
  "to_lower s = map lower_char s"

lemma upper_char_idem [simp]: "upper_char (upper_char c) = upper_char c"
  by (auto simp: upper_char_def Let_def)

lemma to_upper_idem [simp]: "to_upper (to_upper s) = to_upper s"
  by (simp add: to_upper_def)

lemma to_upper_Nil [simp]: "to_upper [] = []" "to_upper s = [] \<longleftrightarrow> s = []"
  by (simp_all add: to_upper_def)

lemma length_to_upper [simp]: "length (to_upper s) = length s"
  by (simp add: to_upper_def)

lemma upper_char_high: "128 \<le> (of_char c :: nat) \<Longrightarrow> upper_char c = c"
  by (simp add: upper_char_def)

lemma upper_char_eq_high:
  "128 \<le> (of_char d :: nat) \<Longrightarrow> upper_char c = d \<longleftrightarrow> c = d"
  by (auto simp: upper_char_def Let_def)

lemma ascii_space_upper [simp]: "ascii_space (upper_char c) = ascii_space c"
  by (auto simp: ascii_space_code upper_char_def Let_def)

lemma space_upper [simp]:
  "space2 (upper_char c) (upper_char d) = space2 c d"
  "space3 (upper_char c) (upper_char d) (upper_char e) = space3 c d e"
  by (simp_all add: space2_def space3_def e280_space_def upper_char_eq_high)

lemma drop_space_upper: "drop_space (to_upper s) = map_option to_upper (drop_space s)"
  by (auto simp: drop_space_def to_upper_def split: list.splits)

lemma drop_space_rev_upper: "drop_space_rev (to_upper s) = map_option to_upper (drop_space_rev s)"
  by (auto simp: drop_space_rev_def to_upper_def split: list.splits)

lemma trim_space_upper_fixed: "trim_space (to_upper (trim_space s)) = to_upper (trim_space s)"
proof (rule trim_space_id)
  show "drop_space (to_upper (trim_space s)) = None"
    by (simp add: drop_space_upper trim_space_fixed)
  have "rev (to_upper (trim_space s)) = to_upper (rev (trim_space s))"
    by (simp add: to_upper_def rev_map)
  then show "drop_space_rev (rev (to_upper (trim_space s))) = None"
    by (simp add: drop_space_rev_upper trim_space_fixed)
qed

section \<open>Split, Cut, Join, HasPrefix, HasSuffix\<close>

text \<open>\<open>strings.Split\<close> and \<open>strings.Cut\<close> with a separator of one byte, \<open>strings.Join\<close>.\<close>

fun split_on :: "char \<Rightarrow> string \<Rightarrow> string list" where
  "split_on sep [] = [[]]"
| "split_on sep (c # cs) =
     (if c = sep then [] # split_on sep cs
      else case split_on sep cs of [] \<Rightarrow> [[c]] | w # ws \<Rightarrow> (c # w) # ws)"

fun cut :: "char \<Rightarrow> string \<Rightarrow> (string \<times> string) option" where
  "cut sep [] = None"
| "cut sep (c # cs) =
     (if c = sep then Some ([], cs)
      else map_option (\<lambda>(l, r). (c # l, r)) (cut sep cs))"

fun join :: "string \<Rightarrow> string list \<Rightarrow> string" where
  "join sep [] = []"
| "join sep [w] = w"
| "join sep (w # v # ws) = w @ sep @ join sep (v # ws)"

definition has_prefix :: "string \<Rightarrow> string \<Rightarrow> bool" where
  "has_prefix s p \<longleftrightarrow> take (length p) s = p"

definition has_suffix :: "string \<Rightarrow> string \<Rightarrow> bool" where
  "has_suffix s p \<longleftrightarrow> length p \<le> length s \<and> drop (length s - length p) s = p"

lemma split_on_nonempty [simp]: "split_on sep s \<noteq> []"
  by (cases s) (auto split: list.splits)

lemma cut_append: "sep \<notin> set l \<Longrightarrow> cut sep (l @ sep # r) = Some (l, r)"
  by (induction l) auto

lemma cut_None: "sep \<notin> set s \<Longrightarrow> cut sep s = None"
  by (induction s) auto

lemma split_on_none: "sep \<notin> set s \<Longrightarrow> split_on sep s = [s]"
  by (induction s) auto

lemma split_on_append: "sep \<notin> set l \<Longrightarrow> split_on sep (l @ sep # r) = l # split_on sep r"
  by (induction l) auto

lemma split_on_join:
  "ws \<noteq> [] \<Longrightarrow> \<forall>w \<in> set ws. sep \<notin> set w \<Longrightarrow> split_on sep (join [sep] ws) = ws"
proof (induction "[sep]" ws rule: join.induct)
  case (2 w)
  then show ?case by (simp add: split_on_none)
next
  case (3 w v ws)
  then show ?case by (simp add: split_on_append)
qed simp

lemma join_inj:
  "length ws = length vs \<Longrightarrow> \<forall>w \<in> set ws \<union> set vs. sep \<notin> set w \<Longrightarrow>
   join [sep] ws = join [sep] vs \<Longrightarrow> ws = vs"
  by (cases "ws = []") (simp, metis UnCI length_0_conv split_on_join)

lemma sep_unique:
  fixes sep :: char
  assumes "sep \<notin> set l" and "sep \<notin> set l'"
  shows "l @ sep # r = l' @ sep # r' \<longleftrightarrow> l = l' \<and> r = r'"
proof
  assume "l @ sep # r = l' @ sep # r'"
  then have "cut sep (l @ sep # r) = cut sep (l' @ sep # r')" by (rule arg_cong)
  then show "l = l' \<and> r = r'" by (simp add: cut_append assms)
qed simp

section \<open>Decimal numbers\<close>

definition digit_char :: "nat \<Rightarrow> char" where
  "digit_char d = char_of (48 + d)"

fun nat_dec :: "nat \<Rightarrow> string" where
  "nat_dec n = (if n < 10 then [digit_char n] else nat_dec (n div 10) @ [digit_char (n mod 10)])"

declare nat_dec.simps [simp del]

text \<open>\<open>strconv.Itoa\<close>, \<open>strconv.FormatInt(_, 10)\<close> and the verb \<open>%d\<close>.\<close>

definition int_dec :: "int \<Rightarrow> string" where
  "int_dec i = (if i < 0 then ''-'' @ nat_dec (nat (- i)) else nat_dec (nat i))"

definition is_digit :: "char \<Rightarrow> bool" where
  "is_digit c \<longleftrightarrow> 48 \<le> (of_char c :: nat) \<and> (of_char c :: nat) \<le> 57"

definition dec_val :: "string \<Rightarrow> nat" where
  "dec_val s = foldl (\<lambda>a c. 10 * a + (of_char c - 48)) 0 s"

text \<open>\<open>strconv.ParseUint(s, 10, bits)\<close>: digits only, at least one, and no overflow.\<close>

definition parse_uint :: "nat \<Rightarrow> string \<Rightarrow> nat option" where
  "parse_uint bits s =
     (if s \<noteq> [] \<and> list_all is_digit s \<and> dec_val s < 2 ^ bits then Some (dec_val s) else None)"

lemma of_digit_char [simp]: "d < 10 \<Longrightarrow> (of_char (digit_char d) :: nat) = 48 + d"
  by (simp add: digit_char_def)

lemma dec_val_snoc [simp]: "dec_val (s @ [c]) = 10 * dec_val s + (of_char c - 48)"
  by (simp add: dec_val_def)

lemma dec_val_nat_dec [simp]: "dec_val (nat_dec n) = n"
proof (induction n rule: nat_dec.induct)
  case (1 n)
  show ?case
  proof (cases "n < 10")
    case True
    then show ?thesis by (simp add: nat_dec.simps [of n] dec_val_def)
  next
    case False
    with 1 show ?thesis by (simp add: nat_dec.simps [of n])
  qed
qed

lemma nat_dec_digits: "c \<in> set (nat_dec n) \<Longrightarrow> is_digit c"
proof (induction n rule: nat_dec.induct)
  case (1 n)
  then show ?case
    by (cases "n < 10") (auto simp: nat_dec.simps [of n] is_digit_def)
qed

lemma nat_dec_nonempty [simp]: "nat_dec n \<noteq> []"
  by (subst nat_dec.simps) simp

lemma nat_dec_inj [simp]: "nat_dec m = nat_dec n \<longleftrightarrow> m = n"
  by (metis dec_val_nat_dec)

lemma parse_uint_nat_dec: "n < 2 ^ bits \<Longrightarrow> parse_uint bits (nat_dec n) = Some n"
  by (simp add: parse_uint_def list_all_iff nat_dec_digits)

lemma minus_no_digit: "CHR ''-'' \<notin> set (nat_dec n)"
  using nat_dec_digits [of "CHR ''-''" n] by (auto simp: is_digit_def)

lemma nat_dec_no_minus: "nat_dec n \<noteq> CHR ''-'' # s"
  by (metis list.set_intros(1) minus_no_digit)

lemma int_dec_inj [simp]: "int_dec i = int_dec j \<longleftrightarrow> i = j"
  using nat_dec_no_minus nat_dec_no_minus [THEN not_sym]
  by (cases "i < 0"; cases "j < 0") (simp_all add: int_dec_def eq_nat_nat_iff)

lemma int_dec_chars: "c \<in> set (int_dec i) \<Longrightarrow> is_digit c \<or> c = CHR ''-''"
  by (auto simp: int_dec_def nat_dec_digits split: if_splits)

lemma int_dec_no_bar [simp]: "CHR ''|'' \<notin> set (int_dec i)" "CHR '','' \<notin> set (int_dec i)"
  using int_dec_chars [of "CHR ''|''" i] int_dec_chars [of "CHR '',''" i]
  by (auto simp: is_digit_def)

text \<open>The verb \<open>%t\<close>.\<close>

definition bool_text :: "bool \<Rightarrow> string" where
  "bool_text b = (if b then ''true'' else ''false'')"

lemma bool_text_inj [simp]: "bool_text a = bool_text b \<longleftrightarrow> a = b"
  by (simp add: bool_text_def)

lemma bool_text_no_bar [simp]: "CHR ''|'' \<notin> set (bool_text b)"
  by (simp add: bool_text_def)

text \<open>The verb \<open>%q\<close>; bytes above 127 are taken to belong to printable runes.\<close>

definition hex_lower :: "nat \<Rightarrow> char" where
  "hex_lower d = ''0123456789abcdef'' ! d"

definition quote_char :: "char \<Rightarrow> string" where
  "quote_char c =
     (let n = of_char c :: nat in
      if n = 34 then [char_of (92::nat), c]
      else if n = 92 then [c, c]
      else if n = 7 then [char_of (92::nat), CHR ''a'']
      else if n = 8 then [char_of (92::nat), CHR ''b'']
      else if n = 12 then [char_of (92::nat), CHR ''f'']
      else if n = 10 then [char_of (92::nat), CHR ''n'']
      else if n = 13 then [char_of (92::nat), CHR ''r'']
      else if n = 9 then [char_of (92::nat), CHR ''t'']
      else if n = 11 then [char_of (92::nat), CHR ''v'']
      else if n < 32 \<or> n = 127 then [char_of (92::nat), CHR ''x'', hex_lower (n div 16), hex_lower (n mod 16)]
      else [c])"

definition go_quote :: "string \<Rightarrow> string" where
  "go_quote s = [char_of (34::nat)] @ concat (map quote_char s) @ [char_of (34::nat)]"

lemma digit_visible: "is_digit c \<Longrightarrow> ascii_visible c"
  by (simp add: is_digit_def ascii_visible_def)

end
