(* ===== verification/Go_Time.thy ===== *)
theory Go_Time
  imports Go_Strings
begin

text \<open>
  Package \<open>time\<close> as the service uses it.  A \<open>Time\<close> is its instant, in nanoseconds since the zero
  time (1 January of year 1, 00:00 UTC), and its location, a fixed offset from UTC in
  nanoseconds (the exchanges' zones have had no daylight saving since 1991).  A \<open>Duration\<close> is an
  \<open>int64\<close> of nanoseconds.  \<open>Date\<close> is the proleptic Gregorian calendar.
\<close>

section \<open>Instants\<close>

record gotime =
  t_nanos :: int
  t_zone :: int

definition zero_time :: gotime where
  "zero_time = \<lparr>t_nanos = 0, t_zone = 0\<rparr>"

definition is_zero :: "gotime \<Rightarrow> bool" where
  "is_zero t \<longleftrightarrow> t_nanos t = 0"

definition before :: "gotime \<Rightarrow> gotime \<Rightarrow> bool" where
  "before s t \<longleftrightarrow> t_nanos s < t_nanos t"

definition after :: "gotime \<Rightarrow> gotime \<Rightarrow> bool" where
  "after s t \<longleftrightarrow> t_nanos s > t_nanos t"

definition time_equal :: "gotime \<Rightarrow> gotime \<Rightarrow> bool" where
  "time_equal s t \<longleftrightarrow> t_nanos s = t_nanos t"

definition time_add :: "gotime \<Rightarrow> int \<Rightarrow> gotime" where
  "time_add t d = t\<lparr>t_nanos := t_nanos t + d\<rparr>"

text \<open>\<open>Sub\<close> saturates at the ends of \<open>Duration\<close>.\<close>

definition time_sub :: "gotime \<Rightarrow> gotime \<Rightarrow> int" where
  "time_sub s t = max (- (2 ^ 63)) (min (2 ^ 63 - 1) (t_nanos s - t_nanos t))"

text \<open>\<open>UnixNano\<close> counts from 1970 in an \<open>int64\<close>, which wraps around outside the years 1678 to 2262.\<close>

definition unix_epoch :: int where
  "unix_epoch = 62135596800 * 1000000000"

definition unix_nano :: "gotime \<Rightarrow> int" where
  "unix_nano t = wrap64 (t_nanos t - unix_epoch)"

definition nano_range :: "gotime \<Rightarrow> bool" where
  "nano_range t \<longleftrightarrow> fits64 (t_nanos t - unix_epoch)"

lemmas time_defs [go_defs] = is_zero_def before_def after_def time_equal_def time_add_def

lemma zero_time_simps [simp]: "t_nanos zero_time = 0" "t_zone zero_time = 0" "is_zero zero_time"
  by (simp_all add: zero_time_def is_zero_def)

lemma unix_nano_inj:
  "nano_range s \<Longrightarrow> nano_range t \<Longrightarrow> unix_nano s = unix_nano t \<longleftrightarrow> t_nanos s = t_nanos t"
  by (simp add: unix_nano_def nano_range_def)

lemma time_sub_gt: "0 \<le> g \<Longrightarrow> g < 2 ^ 63 - 1 \<Longrightarrow> time_sub s t > g \<longleftrightarrow> t_nanos s - t_nanos t > g"
  by (auto simp: time_sub_def)

section \<open>Calendar days\<close>

definition second :: int where "second = 1000000000"
definition day_ns :: int where "day_ns = 86400 * 1000000000"

text \<open>The day of a time in its own location: days since 1 January of year 1.\<close>

definition local_day :: "gotime \<Rightarrow> int" where
  "local_day t = (t_nanos t + t_zone t) div day_ns"

text \<open>Midnight of a day in a location, and \<open>AddDate(0, 0, n)\<close>.\<close>

definition midnight :: "int \<Rightarrow> int \<Rightarrow> gotime" where
  "midnight zone d = \<lparr>t_nanos = d * day_ns - zone, t_zone = zone\<rparr>"

definition add_days :: "gotime \<Rightarrow> int \<Rightarrow> gotime" where
  "add_days t n = t\<lparr>t_nanos := t_nanos t + n * day_ns\<rparr>"

lemma day_ns_pos [simp]: "0 < day_ns" "day_ns \<noteq> 0"
  by (simp_all add: day_ns_def)

lemma local_day_midnight [simp]: "local_day (midnight z d) = d"
  by (simp add: local_day_def midnight_def)

lemma midnight_zone [simp]: "t_zone (midnight z d) = z"
  by (simp add: midnight_def)

lemma local_day_add_days [simp]: "local_day (add_days t n) = local_day t + n"
proof -
  have "t_nanos (add_days t n) + t_zone (add_days t n) = (t_nanos t + t_zone t) + n * day_ns"
    by (simp add: add_days_def)
  then show ?thesis by (simp add: local_day_def)
qed

lemma add_days_midnight: "add_days (midnight z d) n = midnight z (d + n)"
  by (simp add: add_days_def midnight_def algebra_simps)

lemma midnight_le: "t_nanos (midnight (t_zone t) (local_day t)) \<le> t_nanos t"
  using minus_mod_eq_div_mult [of "t_nanos t + t_zone t" day_ns]
    pos_mod_sign [OF day_ns_pos(1), of "t_nanos t + t_zone t"]
  unfolding midnight_def local_day_def gotime.simps by linarith

lemma midnight_gt: "t_nanos t < t_nanos (midnight (t_zone t) (local_day t)) + day_ns"
  using minus_mod_eq_div_mult [of "t_nanos t + t_zone t" day_ns]
    pos_mod_bound [OF day_ns_pos(1), of "t_nanos t + t_zone t"]
  unfolding midnight_def local_day_def gotime.simps by linarith

lemma midnight_less_iff: "t_nanos (midnight z d) < t_nanos (midnight z e) \<longleftrightarrow> d < e"
  by (simp add: midnight_def)

section \<open>The Gregorian calendar\<close>

definition is_leap :: "int \<Rightarrow> bool" where
  "is_leap y \<longleftrightarrow> y mod 4 = 0 \<and> (y mod 100 \<noteq> 0 \<or> y mod 400 = 0)"

definition year_yday :: "int \<Rightarrow> int \<times> int" where
  "year_yday d =
     (let n400 = d div 146097; r400 = d mod 146097;
          n100 = min 3 (r400 div 36524); r100 = r400 - 36524 * n100;
          n4 = r100 div 1461; r4 = r100 mod 1461;
          n1 = min 3 (r4 div 365)
      in (400 * n400 + 100 * n100 + 4 * n4 + n1 + 1, r4 - 365 * n1))"

definition days_before_year :: "int \<Rightarrow> int" where
  "days_before_year y = 365 * (y - 1) + (y - 1) div 4 - (y - 1) div 100 + (y - 1) div 400"

definition month_start :: "bool \<Rightarrow> nat \<Rightarrow> int" where
  "month_start leap m =
     [0, 31, 59, 90, 120, 151, 181, 212, 243, 273, 304, 334] ! (m - 1) + (if leap \<and> m > 2 then 1 else 0)"

text \<open>The month of a day of the year: the last one that has begun.\<close>

fun month_from :: "bool \<Rightarrow> int \<Rightarrow> nat \<Rightarrow> nat" where
  "month_from leap yd 0 = 1"
| "month_from leap yd (Suc m) = (if month_start leap (Suc m) \<le> yd then Suc m else month_from leap yd m)"

definition month_of :: "bool \<Rightarrow> int \<Rightarrow> nat" where
  "month_of leap yd = month_from leap yd 12"

text \<open>\<open>t.Date()\<close>: year, month (1 to 12) and day of the month.\<close>

definition civil :: "int \<Rightarrow> int \<times> nat \<times> nat" where
  "civil d = (let (y, yd) = year_yday d; m = month_of (is_leap y) yd
              in (y, m, nat (yd - month_start (is_leap y) m + 1)))"

lemma div_rest: "0 \<le> r \<Longrightarrow> r < n \<Longrightarrow> x = n * q + r \<Longrightarrow> x div n = q" for r n q x :: int
  by simp

lemma mod_small: "0 < k \<Longrightarrow> k \<le> n \<Longrightarrow> k mod n = 0 \<longleftrightarrow> k = n" for k n :: int
  by (cases "k = n") auto

lemma year_yday_days:
  assumes "year_yday d = (y, yd)"
  shows "days_before_year y + yd = d" and "0 \<le> yd" and "yd < 365 + (if is_leap y then 1 else 0)"
proof -
  define n400 r400 where n400: "n400 = d div 146097" and r400: "r400 = d mod 146097"
  define n100 where n100: "n100 = min 3 (r400 div 36524)"
  define r100 where r100: "r100 = r400 - 36524 * n100"
  define n4 r4 where n4: "n4 = r100 div 1461" and r4: "r4 = r100 mod 1461"
  define n1 where n1: "n1 = min 3 (r4 div 365)"
  have "400 * n400 + 100 * n100 + 4 * n4 + n1 + 1 = y \<and> r4 - 365 * n1 = yd"
    using assms by (simp only: year_yday_def Let_def prod.inject n400 [symmetric] r400 [symmetric]
      n100 [symmetric] r100 [symmetric] n4 [symmetric] r4 [symmetric] n1 [symmetric])
  then have y: "y = 400 * n400 + 100 * n100 + 4 * n4 + n1 + 1" and yd: "yd = r4 - 365 * n1" by auto
  have d: "d = 146097 * n400 + r400" "0 \<le> r400" "r400 < 146097"
    by (simp_all add: n400 r400)
  define q s where q: "q = r400 div 36524" and s: "s = r400 mod 36524"
  have qs: "r400 = 36524 * q + s" "0 \<le> s" "s < 36524" by (simp_all add: q s)
  with d(2,3) have qb: "0 \<le> q" "q \<le> 4" "q = 4 \<longrightarrow> s = 0" by linarith+
  have n100r: "0 \<le> n100" "n100 \<le> 3" "0 \<le> r100" "r100 \<le> 36524" "n100 < 3 \<longrightarrow> r100 < 36524"
    using qs qb by (auto simp: n100 r100 q [symmetric])
  have n4r: "r100 = 1461 * n4 + r4" "0 \<le> r4" "r4 < 1461" "0 \<le> n4" "n4 \<le> 24"
    using n100r(3,4) by (auto simp: n4 r4)
  have n4l: "n4 = 24 \<longrightarrow> r4 < 1460 \<or> n100 = 3"
    using n4r(1,2) n100r(2,4,5) by linarith
  define u v where u: "u = r4 div 365" and v: "v = r4 mod 365"
  have uv: "r4 = 365 * u + v" "0 \<le> v" "v < 365" by (simp_all add: u v)
  with n4r(2,3) have ub: "0 \<le> u" "u \<le> 4" "u = 4 \<longrightarrow> v = 0" by linarith+
  have n1r: "0 \<le> n1" "n1 \<le> 3" "0 \<le> yd" "yd \<le> 365" "n1 < 3 \<longrightarrow> yd < 365"
    using uv ub by (auto simp: n1 yd u [symmetric])
  have div4: "(y - 1) div 4 = 100 * n400 + 25 * n100 + n4"
    by (rule div_rest [of n1]) (use n1r(1,2) in \<open>simp_all add: y\<close>)
  have div100: "(y - 1) div 100 = 4 * n400 + n100"
    by (rule div_rest [of "4 * n4 + n1"]) (use n1r(1,2) n4r(4,5) in \<open>simp_all add: y\<close>)
  have div400: "(y - 1) div 400 = n400"
    by (rule div_rest [of "100 * n100 + 4 * n4 + n1"])
      (use n1r(1,2) n4r(4,5) n100r(1,2) in \<open>simp_all add: y\<close>)
  show "days_before_year y + yd = d"
    unfolding days_before_year_def div4 div100 div400 yd using d(1) n4r(1) y r100
    by (simp add: algebra_simps)
  show "0 \<le> yd" by (fact n1r)
  have leap: "is_leap y \<longleftrightarrow> n1 = 3 \<and> (n4 \<noteq> 24 \<or> n100 = 3)"
  proof -
    have y4: "y = n1 + 1 + 4 * (100 * n400 + 25 * n100 + n4)" by (simp add: y)
    have m4: "y mod 4 = (n1 + 1) mod 4" unfolding y4 by (rule mod_mult_self2)
    have a: "y mod 4 = 0 \<longleftrightarrow> n1 = 3" unfolding m4 using n1r(1,2) by presburger
    have y100: "y = 4 * n4 + n1 + 1 + 100 * (4 * n400 + n100)" by (simp add: y)
    have m100: "y mod 100 = (4 * n4 + n1 + 1) mod 100" unfolding y100 by (rule mod_mult_self2)
    have "y mod 100 = 0 \<longleftrightarrow> 4 * n4 + n1 + 1 = 100"
      unfolding m100 by (rule mod_small) (use n4r(4,5) n1r(1,2) in linarith)+
    also have k: "\<dots> \<longleftrightarrow> n1 = 3 \<and> n4 = 24" using n4r(4,5) n1r(1,2) by presburger
    finally have b: "y mod 100 = 0 \<longleftrightarrow> n1 = 3 \<and> n4 = 24" .
    have y400: "y = 100 * n100 + 4 * n4 + n1 + 1 + 400 * n400" by (simp add: y)
    have m400: "y mod 400 = (100 * n100 + 4 * n4 + n1 + 1) mod 400"
      unfolding y400 by (rule mod_mult_self2)
    have "y mod 400 = 0 \<longleftrightarrow> 100 * n100 + 4 * n4 + n1 + 1 = 400" unfolding m400
      by (rule mod_small) (use n100r(1,2) n4r(4,5) n1r(1,2) in linarith)+
    also have "\<dots> \<longleftrightarrow> n100 = 3 \<and> 4 * n4 + n1 + 1 = 100"
    proof
      assume a: "100 * n100 + 4 * n4 + n1 + 1 = 400"
      then have "n100 = 3" using n100r(1,2) n4r(4,5) n1r(1,2) by linarith
      with a show "n100 = 3 \<and> 4 * n4 + n1 + 1 = 100" by simp
    qed simp
    also have "\<dots> \<longleftrightarrow> n1 = 3 \<and> n4 = 24 \<and> n100 = 3" using k by auto
    finally have c: "y mod 400 = 0 \<longleftrightarrow> n1 = 3 \<and> n4 = 24 \<and> n100 = 3" .
    show ?thesis unfolding is_leap_def a b c by auto
  qed
  show "yd < 365 + (if is_leap y then 1 else 0)"
    using n1r n4r n4l leap by (auto simp: yd)
qed

lemma year_yday_inj: "year_yday d = year_yday e \<longleftrightarrow> d = e"
  by (metis surj_pair year_yday_days(1))

lemma month_of_props:
  assumes "0 \<le> yd" and "yd < 365 + (if leap then 1 else 0)"
  shows "1 \<le> month_of leap yd" and "month_of leap yd \<le> 12"
    and "month_start leap (month_of leap yd) \<le> yd"
    and "yd < month_start leap (month_of leap yd) + 31"
proof -
  have num: "12 = Suc (Suc (Suc (Suc (Suc (Suc (Suc (Suc (Suc (Suc (Suc (Suc 0)))))))))))" by simp
  have "1 \<le> month_of leap yd \<and> month_of leap yd \<le> 12 \<and>
      month_start leap (month_of leap yd) \<le> yd \<and> yd < month_start leap (month_of leap yd) + 31"
    using assms unfolding month_of_def num month_from.simps month_start_def
    by (cases leap) (simp_all split: if_split)
  then show "1 \<le> month_of leap yd" and "month_of leap yd \<le> 12"
    and "month_start leap (month_of leap yd) \<le> yd"
    and "yd < month_start leap (month_of leap yd) + 31" by auto
qed

lemma civil_bounds:
  assumes "civil d = (y, m, dd)"
  shows "1 \<le> m" "m \<le> 12" "1 \<le> dd" "dd \<le> 31"
proof -
  obtain y' yd where yy: "year_yday d = (y', yd)" by fastforce
  note b = year_yday_days(2,3) [OF yy]
  note mp = month_of_props [OF b]
  from assms yy have "m = month_of (is_leap y') yd" "dd = nat (yd - month_start (is_leap y') m + 1)"
    by (auto simp: civil_def Let_def)
  with mp show "1 \<le> m" "m \<le> 12" "1 \<le> dd" "dd \<le> 31" by auto
qed

lemma civil_inj: "civil d = civil e \<longleftrightarrow> d = e"
proof
  assume eq: "civil d = civil e"
  obtain y yd where d: "year_yday d = (y, yd)" by fastforce
  obtain z zd where e: "year_yday e = (z, zd)" by fastforce
  note md = month_of_props [OF year_yday_days(2,3) [OF d]]
  note me = month_of_props [OF year_yday_days(2,3) [OF e]]
  from eq d e have yz: "y = z" and "month_of (is_leap y) yd = month_of (is_leap z) zd"
    and "nat (yd - month_start (is_leap y) (month_of (is_leap y) yd) + 1) =
         nat (zd - month_start (is_leap z) (month_of (is_leap z) zd) + 1)"
    by (auto simp: civil_def Let_def)
  with md(3) me(3) have "yd = zd" by (auto simp: eq_nat_nat_iff)
  with d e yz show "d = e" using year_yday_inj by metis
qed simp

section \<open>Layouts\<close>

text \<open>A number with leading zeros, as the layouts write years, months and days.\<close>

definition pad :: "nat \<Rightarrow> nat \<Rightarrow> string" where
  "pad w n = replicate (w - length (nat_dec n)) CHR ''0'' @ nat_dec n"

definition year_text :: "int \<Rightarrow> string" where
  "year_text y = (if y < 0 then ''-'' @ pad 4 (nat (- y)) else pad 4 (nat y))"

text \<open>The layouts \<^verbatim>\<open>20060102\<close> and \<^verbatim>\<open>2006-01-02\<close>.\<close>

definition format_compact :: "gotime \<Rightarrow> string" where
  "format_compact t = (let (y, m, d) = civil (local_day t) in year_text y @ pad 2 m @ pad 2 d)"

definition format_dashed :: "gotime \<Rightarrow> string" where
  "format_dashed t = (let (y, m, d) = civil (local_day t)
                      in year_text y @ ''-'' @ pad 2 m @ ''-'' @ pad 2 d)"

lemma dec_val_append: "dec_val (s @ t) = dec_val s * 10 ^ length t + dec_val t"
proof (induction t rule: rev_induct)
  case (snoc c t)
  have "dec_val (s @ t @ [c]) = 10 * dec_val (s @ t) + (of_char c - 48)"
    using dec_val_snoc [of "s @ t" c] by simp
  with snoc show ?case by (simp add: algebra_simps)
qed (simp add: dec_val_def)

lemma dec_val_zeros [simp]: "dec_val (replicate n CHR ''0'') = 0"
  by (induction n) (simp_all add: dec_val_def)

lemma dec_val_pad [simp]: "dec_val (pad w n) = n"
  by (simp add: pad_def dec_val_append)

lemma pad_inj [simp]: "pad w n = pad w k \<longleftrightarrow> n = k"
  by (metis dec_val_pad)

lemma pad_chars: "c \<in> set (pad w n) \<Longrightarrow> is_digit c"
  by (auto simp: pad_def nat_dec_digits is_digit_def split: if_splits dest: nat_dec_digits)

lemma length_nat_dec_small: "n < 100 \<Longrightarrow> length (nat_dec n) \<le> 2"
proof -
  assume "n < 100"
  then have "n div 10 < 10" by linarith
  then show ?thesis by (simp add: nat_dec.simps [of n] nat_dec.simps [of "n div 10"])
qed

lemma length_pad2: "n < 100 \<Longrightarrow> length (pad 2 n) = 2"
  using length_nat_dec_small [of n] by (simp add: pad_def)

lemma year_text_inj [simp]: "year_text y = year_text z \<longleftrightarrow> y = z"
proof -
  have "pad 4 n \<noteq> CHR ''-'' # s" for n s
    using pad_chars [of "CHR ''-''" 4 n] by (auto simp: is_digit_def)
  note np = this this [THEN not_sym]
  show ?thesis
    by (cases "y < 0"; cases "z < 0") (simp_all add: year_text_def np eq_nat_nat_iff)
qed

lemma format_compact_inj: "format_compact s = format_compact t \<longleftrightarrow> local_day s = local_day t"
proof
  assume eq: "format_compact s = format_compact t"
  obtain y m d where s: "civil (local_day s) = (y, m, d)" by (cases "civil (local_day s)") auto
  obtain z k e where t: "civil (local_day t) = (z, k, e)" by (cases "civil (local_day t)") auto
  note b = civil_bounds [OF s] civil_bounds [OF t]
  have len: "length (pad 2 m @ pad 2 d) = length (pad 2 k @ pad 2 e)"
    using b by (simp add: length_pad2)
  from eq have "year_text y @ (pad 2 m @ pad 2 d) = year_text z @ (pad 2 k @ pad 2 e)"
    by (simp add: format_compact_def s t)
  then have a: "year_text y = year_text z" "pad 2 m @ pad 2 d = pad 2 k @ pad 2 e"
    using len by (metis append_eq_append_conv)+
  have "length (pad 2 m) = length (pad 2 k)" using b by (simp add: length_pad2)
  with a(2) have "pad 2 m = pad 2 k" "pad 2 d = pad 2 e" by auto
  with a(1) s t show "local_day s = local_day t" by (metis civil_inj pad_inj year_text_inj)
qed (simp add: format_compact_def)

lemma year_text_chars: "c \<in> set (year_text y) \<Longrightarrow> is_digit c \<or> c = CHR ''-''"
  by (auto simp: year_text_def dest: pad_chars split: if_splits)

lemma format_compact_chars: "c \<in> set (format_compact t) \<Longrightarrow> is_digit c \<or> c = CHR ''-''"
  by (auto simp: format_compact_def split: prod.splits dest: pad_chars year_text_chars)

lemma format_compact_no_bar [simp]: "CHR ''|'' \<notin> set (format_compact t)"
  using format_compact_chars [of "CHR ''|''" t] by (auto simp: is_digit_def)

lemma format_compact_nonempty [simp]: "format_compact t \<noteq> []"
  by (auto simp: format_compact_def pad_def split: prod.splits)

end
