(* ===== verification/Go_Date.thy ===== *)
theory Go_Date
  imports Go_Time
begin

text \<open>
  \<open>time.ParseInLocation\<close> with the layout \<^verbatim>\<open>2006-01-02\<close>, which the HTTP interface and the trading
  calendar read dates with, and its round trip with \<open>Format\<close>.
\<close>

definition month_days :: "bool \<Rightarrow> nat \<Rightarrow> nat" where
  "month_days leap m = (if leap \<and> m = 2 then 29 else [31, 28, 31, 30, 31, 30, 31, 31, 30, 31, 30, 31] ! (m - 1))"

definition date_day :: "int \<Rightarrow> nat \<Rightarrow> nat \<Rightarrow> int" where
  "date_day y m d = days_before_year y + month_start (is_leap y) m + int d - 1"

text \<open>Four digits, two digits, two digits with dashes between them and nothing after; the month from
  1 to 12 and a day the month has.\<close>

definition parse_dashed :: "int \<Rightarrow> string \<Rightarrow> gotime option" where
  "parse_dashed zone s =
     (let ys = take 4 s; ms = take 2 (drop 5 s); ds = take 2 (drop 8 s);
          y = int (dec_val ys); m = dec_val ms; d = dec_val ds
      in if length s = 10 \<and> list_all is_digit (ys @ ms @ ds) \<and> s ! 4 = CHR ''-'' \<and> s ! 7 = CHR ''-'' \<and>
            1 \<le> m \<and> m \<le> 12 \<and> 1 \<le> d \<and> d \<le> month_days (is_leap y) m
         then Some (midnight zone (date_day y m d)) else None)"

lemma month_from_max: "j \<le> m \<Longrightarrow> month_from leap yd m < j \<Longrightarrow> yd < month_start leap j"
proof (induction m)
  case (Suc m)
  then show ?case by (cases "j = Suc m") (auto split: if_splits)
qed simp

lemma month_start_next:
  assumes "1 \<le> k" and "k < 12"
  shows "month_start leap (Suc k) = month_start leap k + int (month_days leap k)"
proof -
  have "k \<in> set [1, 2, 3, 4, 5, 6, 7, 8, 9, 10, 11]" using assms unfolding list.set insert_iff empty_iff by presburger
  then show ?thesis by (auto simp: month_start_def month_days_def)
qed

lemma month_of_days:
  assumes "0 \<le> yd" and "yd < 365 + (if leap then 1 else 0)"
  shows "yd < month_start leap (month_of leap yd) + int (month_days leap (month_of leap yd))"
proof (cases "month_of leap yd < 12")
  case True
  moreover from this have "yd < month_start leap (Suc (month_of leap yd))"
    using month_from_max [of "Suc (month_of leap yd)" 12 leap yd] by (simp add: month_of_def)
  ultimately show ?thesis using month_start_next month_of_props(1) [OF assms] by metis
next
  case False
  then have "month_of leap yd = 12" using month_of_props(2) [OF assms] by simp
  then show ?thesis using assms(2) by (simp add: month_start_def month_days_def split: if_splits)
qed

lemma civil_date_day:
  assumes "civil d = (y, m, dd)"
  shows "date_day y m dd = d" and "dd \<le> month_days (is_leap y) m"
proof -
  obtain y' yd where yy: "year_yday d = (y', yd)" by fastforce
  note b = year_yday_days [OF yy]
  note mp = month_of_props [OF b(2,3)] month_of_days [OF b(2,3)]
  have e: "y = y'" "m = month_of (is_leap y) yd" "dd = nat (yd - month_start (is_leap y) m + 1)"
    using assms yy by (auto simp: civil_def Let_def)
  then have "int dd = yd - month_start (is_leap y) m + 1" using mp(3) by simp
  then show "date_day y m dd = d" "dd \<le> month_days (is_leap y) m"
    using b(1) mp e by (auto simp: date_day_def)
qed

lemma length_nat_dec: "0 < k \<Longrightarrow> n < 10 ^ k \<Longrightarrow> length (nat_dec n) \<le> k"
proof (induction k arbitrary: n)
  case (Suc k)
  show ?case
  proof (cases "n < 10")
    case True
    then show ?thesis by (simp add: nat_dec.simps [of n])
  next
    case False
    then have "k \<noteq> 0" using Suc.prems(2) by (cases k) auto
    moreover have "n div 10 < 10 ^ k" using Suc.prems(2) by simp
    ultimately have "length (nat_dec (n div 10)) \<le> k" using Suc.IH by simp
    then show ?thesis using False by (simp add: nat_dec.simps [of n])
  qed
qed simp

lemma length_pad: "0 < w \<Longrightarrow> n < 10 ^ w \<Longrightarrow> length (pad w n) = w"
  using length_nat_dec [of w n] by (simp add: pad_def)

lemma dashed_parts:
  assumes "length y = 4" and "length m = 2" and "length d = 2"
  shows "take 4 (y @ ''-'' @ m @ ''-'' @ d) = y" "take 2 (drop 5 (y @ ''-'' @ m @ ''-'' @ d)) = m"
    "take 2 (drop 8 (y @ ''-'' @ m @ ''-'' @ d)) = d" "(y @ ''-'' @ m @ ''-'' @ d) ! 4 = CHR ''-''"
    "(y @ ''-'' @ m @ ''-'' @ d) ! 7 = CHR ''-''" "length (y @ ''-'' @ m @ ''-'' @ d) = 10"
  using assms by (simp_all add: nth_append)

lemma pad_all_digits: "list_all is_digit (pad w n)"
  by (auto simp: list_all_iff dest: pad_chars)

lemma parse_format_dashed:
  assumes "civil (local_day t) = (y, m, d)" and "0 \<le> y" and "y \<le> 9999"
  shows "parse_dashed zone (format_dashed t) = Some (midnight zone (local_day t))"
proof -
  note b = civil_bounds [OF assms(1)] and c = civil_date_day [OF assms(1)]
  have l: "length (pad 4 (nat y)) = 4" "length (pad 2 m) = 2" "length (pad 2 d) = 2"
    using assms(2,3) b by (simp_all add: length_pad)
  have f: "format_dashed t = pad 4 (nat y) @ ''-'' @ pad 2 m @ ''-'' @ pad 2 d"
    using assms by (simp add: format_dashed_def year_text_def)
  show ?thesis
    unfolding f parse_dashed_def dashed_parts [OF l] Let_def
    using assms(2) b c by (simp add: pad_all_digits)
qed

end
