(* ===== verification/Sql_Time.thy ===== *)
theory Sql_Time
  imports Go_Date Go_Prelude
begin

text \<open>
  How \<^verbatim>\<open>internal/storage/sql_store.go\<close> reads a time a database driver hands over: \<open>timeValue.Scan\<close>
  and \<open>timeValue.parse\<close>, which tries seven layouts of package \<open>time\<close> in turn.  A layout is the list
  of its elements; \<open>parse_chunks\<close> is the loop of \<open>time.ParseInLocation\<close> over them.
\<close>

section \<open>Layouts\<close>

datatype chunk = Lit char | LYear | LMonth | LDay | LHour | LMinute | LSecond | LFrac | LZoneZ | LZoneNum

definition date_chunks :: "chunk list" where
  "date_chunks = [LYear, Lit CHR ''-'', LMonth, Lit CHR ''-'', LDay]"

definition clock_chunks :: "chunk list" where
  "clock_chunks = [LHour, Lit CHR '':'', LMinute, Lit CHR '':'', LSecond]"

definition rfc3339_nano :: "chunk list" where
  "rfc3339_nano = date_chunks @ [Lit CHR ''T''] @ clock_chunks @ [LFrac, LZoneZ]"

definition rfc3339 :: "chunk list" where
  "rfc3339 = date_chunks @ [Lit CHR ''T''] @ clock_chunks @ [LZoneZ]"

definition space_nano_zone :: "chunk list" where
  "space_nano_zone = date_chunks @ [Lit CHR '' ''] @ clock_chunks @ [LFrac, LZoneNum]"

definition space_zone :: "chunk list" where
  "space_zone = date_chunks @ [Lit CHR '' ''] @ clock_chunks @ [LZoneNum]"

definition space_nano :: "chunk list" where
  "space_nano = date_chunks @ [Lit CHR '' ''] @ clock_chunks @ [LFrac]"

definition space_clock :: "chunk list" where
  "space_clock = date_chunks @ [Lit CHR '' ''] @ clock_chunks"

definition time_layouts :: "chunk list list" where
  "time_layouts = [rfc3339_nano, rfc3339, space_nano_zone, space_zone, space_nano, space_clock, date_chunks]"

section \<open>Parsing\<close>

record clock_fields =
  cl_year :: nat
  cl_month :: nat
  cl_day :: nat
  cl_hour :: nat
  cl_minute :: nat
  cl_second :: nat
  cl_nanos :: nat
  cl_offset :: "int option"

definition no_fields :: clock_fields where
  "no_fields = \<lparr>cl_year = 0, cl_month = 1, cl_day = 1, cl_hour = 0, cl_minute = 0, cl_second = 0,
     cl_nanos = 0, cl_offset = None\<rparr>"

text \<open>Two digits; with \<open>fixed\<close> false one digit will do.\<close>

fun getnum :: "bool \<Rightarrow> string \<Rightarrow> (nat \<times> string) option" where
  "getnum fixed (a # b # s) =
     (if \<not> is_digit a then None
      else if is_digit b then Some (dec_val [a, b], s)
      else if fixed then None else Some (dec_val [a], b # s))"
| "getnum fixed [a] = (if is_digit a \<and> \<not> fixed then Some (dec_val [a], []) else None)"
| "getnum fixed [] = None"

definition is_point :: "char \<Rightarrow> bool" where
  "is_point c \<longleftrightarrow> c = CHR ''.'' \<or> c = CHR '',''"

text \<open>A fraction of a second: any number of digits, of which nine count.\<close>

fun get_fraction :: "string \<Rightarrow> (nat \<times> string) option" where
  "get_fraction (p # a # s) =
     (if is_point p \<and> is_digit a
      then let ds = takeWhile is_digit (a # s); used = take 9 ds
           in Some (dec_val used * 10 ^ (9 - length used), dropWhile is_digit (a # s))
      else None)"
| "get_fraction s = None"

text \<open>\<^verbatim>\<open>-07:00\<close>: a sign, two digits, a colon, two digits; seconds east of UTC.\<close>

definition get_offset :: "string \<Rightarrow> (int \<times> string) option" where
  "get_offset s =
     (if length s < 6 \<or> s ! 3 \<noteq> CHR '':'' then None
      else case (getnum True (take 2 (drop 1 s)), getnum True (take 2 (drop 4 s))) of
        (Some (hh, _), Some (mm, _)) \<Rightarrow>
          if 24 < hh \<or> 60 < mm then None
          else if hd s = CHR ''+'' then Some (int ((hh * 60 + mm) * 60), drop 6 s)
          else if hd s = CHR ''-'' then Some (- int ((hh * 60 + mm) * 60), drop 6 s)
          else None
      | _ \<Rightarrow> None)"

definition below :: "nat \<Rightarrow> (nat \<times> string) option \<Rightarrow> (nat \<times> string) option" where
  "below bound r = (case r of None \<Rightarrow> None | Some (n, s) \<Rightarrow> if n < bound then Some (n, s) else None)"

text \<open>One element of the layout; \<open>cs\<close> are the elements behind it.\<close>

fun parse_chunk :: "chunk \<Rightarrow> chunk list \<Rightarrow> string \<Rightarrow> clock_fields \<Rightarrow> (clock_fields \<times> string) option" where
  "parse_chunk (Lit c) cs s f =
     (if c = CHR '' ''
      then if s \<noteq> [] \<and> hd s \<noteq> CHR '' '' then None else Some (f, dropWhile (\<lambda>x. x = CHR '' '') s)
      else if s = [] \<or> hd s \<noteq> c then None else Some (f, tl s))"
| "parse_chunk LYear cs s f =
     (if length s < 4 \<or> \<not> list_all is_digit (take 4 s) then None
      else Some (f\<lparr>cl_year := dec_val (take 4 s)\<rparr>, drop 4 s))"
| "parse_chunk LMonth cs s f =
     (case below 13 (getnum True s) of
        None \<Rightarrow> None | Some (n, r) \<Rightarrow> if n = 0 then None else Some (f\<lparr>cl_month := n\<rparr>, r))"
| "parse_chunk LDay cs s f = map_option (\<lambda>(n, r). (f\<lparr>cl_day := n\<rparr>, r)) (getnum True s)"
| "parse_chunk LHour cs s f = map_option (\<lambda>(n, r). (f\<lparr>cl_hour := n\<rparr>, r)) (below 24 (getnum False s))"
| "parse_chunk LMinute cs s f = map_option (\<lambda>(n, r). (f\<lparr>cl_minute := n\<rparr>, r)) (below 60 (getnum True s))"
| "parse_chunk LSecond cs s f =
     (case below 60 (getnum True s) of
        None \<Rightarrow> None
      | Some (n, r) \<Rightarrow>
          (case get_fraction r of
             Some (ns, r') \<Rightarrow>
               if cs \<noteq> [] \<and> hd cs = LFrac then Some (f\<lparr>cl_second := n\<rparr>, r)
               else Some (f\<lparr>cl_second := n, cl_nanos := ns\<rparr>, r')
           | None \<Rightarrow> Some (f\<lparr>cl_second := n\<rparr>, r)))"
| "parse_chunk LFrac cs s f =
     (case get_fraction s of None \<Rightarrow> Some (f, s) | Some (ns, r) \<Rightarrow> Some (f\<lparr>cl_nanos := ns\<rparr>, r))"
| "parse_chunk LZoneZ cs s f =
     (if s \<noteq> [] \<and> hd s = CHR ''Z'' then Some (f\<lparr>cl_offset := Some 0\<rparr>, tl s)
      else map_option (\<lambda>(off, r). (f\<lparr>cl_offset := Some off\<rparr>, r)) (get_offset s))"
| "parse_chunk LZoneNum cs s f = map_option (\<lambda>(off, r). (f\<lparr>cl_offset := Some off\<rparr>, r)) (get_offset s)"

fun parse_chunks :: "chunk list \<Rightarrow> string \<Rightarrow> clock_fields \<Rightarrow> clock_fields option" where
  "parse_chunks [] s f = (if s = [] then Some f else None)"
| "parse_chunks (c # cs) s f =
     (case parse_chunk c cs s f of None \<Rightarrow> None | Some (f', r) \<Rightarrow> parse_chunks cs r f')"

text \<open>The instant of the fields; without an offset they are read in the location \<open>local\<close>.\<close>

definition fields_time :: "int \<Rightarrow> clock_fields \<Rightarrow> gotime option" where
  "fields_time local f =
     (if cl_day f < 1 \<or> month_days (is_leap (int (cl_year f))) (cl_month f) < cl_day f then None
      else let zone = (case cl_offset f of None \<Rightarrow> local | Some off \<Rightarrow> off * second);
               day = date_day (int (cl_year f)) (cl_month f) (cl_day f);
               secs = int ((cl_hour f * 60 + cl_minute f) * 60 + cl_second f)
           in Some \<lparr>t_nanos = day * day_ns + secs * second + int (cl_nanos f) - zone, t_zone = zone\<rparr>)"

definition parse_in_location :: "int \<Rightarrow> chunk list \<Rightarrow> string \<Rightarrow> gotime option" where
  "parse_in_location local layout s = Option.bind (parse_chunks layout s no_fields) (fields_time local)"

section \<open>The value a driver hands over\<close>

text \<open>\<open>DvOther\<close> carries the name \<open>%T\<close> prints for any other type.\<close>

datatype driver_value = DvNull | DvTime gotime | DvText string | DvBytes string | DvOther string

text \<open>A scanned time with its flag \<open>Valid\<close>; \<open>local\<close> is the offset of \<open>time.Local\<close>.\<close>

fun first_layout :: "int \<Rightarrow> string \<Rightarrow> chunk list list \<Rightarrow> gotime option" where
  "first_layout local s [] = None"
| "first_layout local s (l # ls) =
     (case parse_in_location local l s of Some t \<Rightarrow> Some t | None \<Rightarrow> first_layout local s ls)"

definition time_value_parse :: "int \<Rightarrow> string \<Rightarrow> (gotime \<times> bool) result" where
  "time_value_parse local text =
     (let raw = trim_space text in
      if raw = [] then Inr (zero_time, False)
      else case first_layout local raw time_layouts of
             Some t \<Rightarrow> Inr (t, True)
           | None \<Rightarrow> Inl (OtherError (''parse time '' @ go_quote raw)))"

fun time_value_scan :: "int \<Rightarrow> driver_value \<Rightarrow> (gotime \<times> bool) result" where
  "time_value_scan local DvNull = Inr (zero_time, False)"
| "time_value_scan local (DvTime t) = Inr (t, True)"
| "time_value_scan local (DvText s) = time_value_parse local s"
| "time_value_scan local (DvBytes s) = time_value_parse local s"
| "time_value_scan local (DvOther ty) = Inl (OtherError (''unsupported time value '' @ ty))"

section \<open>The text a layout writes\<close>

definition day_second :: "gotime \<Rightarrow> nat" where
  "day_second t = nat (((t_nanos t + t_zone t) mod day_ns) div second)"

definition day_fraction :: "gotime \<Rightarrow> nat" where
  "day_fraction t = nat ((t_nanos t + t_zone t) mod second)"

definition offset_minutes :: "gotime \<Rightarrow> nat" where
  "offset_minutes t = nat (\<bar>t_zone t\<bar> div (60 * second))"

definition fraction_text :: "nat \<Rightarrow> string" where
  "fraction_text ns = (if ns = 0 then [] else CHR ''.'' # rev (dropWhile (\<lambda>c. c = CHR ''0'') (rev (pad 9 ns))))"

definition offset_text :: "gotime \<Rightarrow> string" where
  "offset_text t = (if t_zone t < 0 then CHR ''-'' else CHR ''+'') #
     pad 2 (offset_minutes t div 60) @ CHR '':'' # pad 2 (offset_minutes t mod 60)"

fun format_chunk :: "gotime \<Rightarrow> chunk \<Rightarrow> string" where
  "format_chunk t (Lit c) = [c]"
| "format_chunk t LYear = year_text (fst (civil (local_day t)))"
| "format_chunk t LMonth = pad 2 (fst (snd (civil (local_day t))))"
| "format_chunk t LDay = pad 2 (snd (snd (civil (local_day t))))"
| "format_chunk t LHour = pad 2 (day_second t div 3600)"
| "format_chunk t LMinute = pad 2 (day_second t div 60 mod 60)"
| "format_chunk t LSecond = pad 2 (day_second t mod 60)"
| "format_chunk t LFrac = fraction_text (day_fraction t)"
| "format_chunk t LZoneZ = (if t_zone t = 0 then ''Z'' else offset_text t)"
| "format_chunk t LZoneNum = offset_text t"

definition format_layout :: "chunk list \<Rightarrow> gotime \<Rightarrow> string" where
  "format_layout layout t = concat (map (format_chunk t) layout)"

section \<open>Reading back what a layout wrote\<close>

lemma pad2: "n < 100 \<Longrightarrow> pad 2 n = [digit_char (n div 10), digit_char (n mod 10)]"
proof -
  assume "n < 100"
  then have "n div 10 < 10" by linarith
  moreover have "digit_char 0 = CHR ''0''" by (simp add: char_eq_code)
  ultimately show ?thesis
    by (cases "n < 10") (simp_all add: pad_def nat_dec.simps [of n] nat_dec.simps [of "n div 10"])
qed

lemma is_digit_digit_char [simp]: "d < 10 \<Longrightarrow> is_digit (digit_char d)"
  by (simp add: is_digit_def)

lemma digit_neq [simp]:
  "is_digit c \<Longrightarrow> c \<noteq> CHR '':''" "is_digit c \<Longrightarrow> c \<noteq> CHR '' ''" "is_digit c \<Longrightarrow> c \<noteq> CHR ''T''"
  "is_digit c \<Longrightarrow> c \<noteq> CHR ''Z''"
  by (auto simp: is_digit_def)

lemma getnum_pad [simp]: "n < 100 \<Longrightarrow> getnum fixed (pad 2 n @ s) = Some (n, s)"
proof -
  assume n: "n < 100"
  then have "n div 10 < 10" by linarith
  then show ?thesis using n by (simp add: pad2 dec_val_def)
qed

lemma getnum_pad_end: "n < 100 \<Longrightarrow> getnum fixed (pad 2 n) = Some (n, [])"
  using getnum_pad [of n fixed "[]"] by simp

lemma trimmed_zeros:
  "\<exists>k. s = rev (dropWhile (\<lambda>c. c = CHR ''0'') (rev s)) @ replicate k CHR ''0''"
proof -
  have "takeWhile (\<lambda>c. c = CHR ''0'') (rev s) = replicate k CHR ''0''"
    if "k = length (takeWhile (\<lambda>c. c = CHR ''0'') (rev s))" for k
    using that by (auto intro: replicate_eqI dest: set_takeWhileD)
  then have "rev s = replicate (length (takeWhile (\<lambda>c. c = CHR ''0'') (rev s))) CHR ''0'' @
      dropWhile (\<lambda>c. c = CHR ''0'') (rev s)"
    by (metis takeWhile_dropWhile_id)
  then have "s = rev (dropWhile (\<lambda>c. c = CHR ''0'') (rev s)) @
      replicate (length (takeWhile (\<lambda>c. c = CHR ''0'') (rev s))) CHR ''0''"
    by (metis rev_append rev_replicate rev_rev_ident)
  then show ?thesis by blast
qed

definition no_fraction :: "string \<Rightarrow> bool" where
  "no_fraction s \<longleftrightarrow> s = [] \<or> (\<not> is_point (hd s) \<and> \<not> is_digit (hd s))"

lemma get_fraction_none: "no_fraction s \<Longrightarrow> get_fraction s = None"
  by (cases s rule: get_fraction.cases) (auto simp: no_fraction_def)

lemma get_fraction_text:
  assumes "ns < 10 ^ 9" and "ns \<noteq> 0" and "no_fraction s"
  shows "get_fraction (fraction_text ns @ s) = Some (ns, s)"
proof -
  define us where "us = rev (dropWhile (\<lambda>c. c = CHR ''0'') (rev (pad 9 ns)))"
  obtain k where k: "pad 9 ns = us @ replicate k CHR ''0''"
    using trimmed_zeros [of "pad 9 ns"] unfolding us_def by blast
  have l: "length (pad 9 ns) = 9" using assms(1) length_pad [of 9 ns] by simp
  then have lk: "length us + k = 9" using k by simp
  have v: "ns = dec_val us * 10 ^ k"
    using arg_cong [OF k, of dec_val] by (simp add: dec_val_append)
  have dig: "list_all is_digit us"
    using k pad_all_digits [of 9 ns] by (metis list_all_append)
  from v assms(2) have "us \<noteq> []" by (cases us) (auto simp: dec_val_def)
  then obtain a vs where us: "us = a # vs" by (cases us) auto
  have tw: "takeWhile is_digit (us @ s) = us" "dropWhile is_digit (us @ s) = s"
    using dig assms(3) by (cases s; auto simp: no_fraction_def list_all_iff takeWhile_append dropWhile_append)+
  have "fraction_text ns @ s = CHR ''.'' # a # (vs @ s)"
    using assms(2) us by (simp add: fraction_text_def us_def)
  moreover have "is_digit a" using dig us by simp
  moreover have "dec_val (take 9 us) * 10 ^ (9 - length (take 9 us)) = ns"
    using lk v by (simp add: min_def le_add_diff_inverse2)
      (metis add_diff_cancel_left' le_add1 lk take_all_iff)
  ultimately show ?thesis using tw us by (simp add: is_point_def Let_def)
qed

lemma get_offset_text:
  assumes "offset_minutes t \<le> 24 * 60"
  shows "get_offset (offset_text t @ s) =
    Some ((if t_zone t < 0 then - 1 else 1) * int (offset_minutes t * 60), s)"
proof -
  let ?m = "offset_minutes t"
  have b: "?m div 60 < 25" "?m mod 60 < 60" using assms by auto
  then have g: "getnum True (pad 2 (?m div 60)) = Some (?m div 60, [])"
    "getnum True (pad 2 (?m mod 60)) = Some (?m mod 60, [])"
    by (simp_all add: getnum_pad_end)
  have l: "length (pad 2 (?m div 60)) = 2" "length (pad 2 (?m mod 60)) = 2"
    using b by (simp_all add: length_pad2)
  have parts: "take 2 (drop 1 (offset_text t @ s)) = pad 2 (?m div 60)"
    "take 2 (drop 4 (offset_text t @ s)) = pad 2 (?m mod 60)"
    "(offset_text t @ s) ! 3 = CHR '':''" "drop 6 (offset_text t @ s) = s" "\<not> length (offset_text t @ s) < 6"
    using l by (simp_all add: offset_text_def nth_append)
  have hd: "hd (offset_text t @ s) = (if t_zone t < 0 then CHR ''-'' else CHR ''+'')"
    by (simp add: offset_text_def)
  have e: "(?m div 60 * 60 + ?m mod 60) * 60 = ?m * 60" by simp
  show ?thesis
    unfolding get_offset_def parts(1-4) hd g option.case prod.case e
    using b parts(5) by (simp del: length_append)
qed

text \<open>Times a driver can write: four digits of the year, an offset of whole minutes up to a day.\<close>

definition writable :: "gotime \<Rightarrow> bool" where
  "writable t \<longleftrightarrow> 0 \<le> fst (civil (local_day t)) \<and> fst (civil (local_day t)) \<le> 9999 \<and>
     t_zone t mod (60 * second) = 0 \<and> \<bar>t_zone t\<bar> \<le> 24 * 3600 * second"

lemma day_second_parts:
  "day_second t < 86400" "day_fraction t < 10 ^ 9"
  "local_day t * day_ns + int (day_second t) * second + int (day_fraction t) = t_nanos t + t_zone t"
proof -
  let ?n = "t_nanos t + t_zone t"
  have e: "day_ns = 86400 * second" by (simp add: day_ns_def second_def)
  have r: "0 \<le> ?n mod day_ns" "?n mod day_ns < 86400 * second"
    using day_ns_pos(1) by (simp_all add: e [symmetric])
  then show "day_second t < 86400" "day_fraction t < 10 ^ 9"
    by (simp_all add: day_second_def day_fraction_def second_def nat_less_iff)
  have "?n mod second = ?n mod day_ns mod second" by (simp add: e mod_mod_cancel)
  moreover have "?n mod day_ns = ?n mod day_ns div second * second + ?n mod day_ns mod second" by simp
  moreover have "?n = ?n div day_ns * day_ns + ?n mod day_ns" by simp
  ultimately have "?n = ?n div day_ns * day_ns + ?n mod day_ns div second * second + ?n mod second"
    by linarith
  then show "local_day t * day_ns + int (day_second t) * second + int (day_fraction t) = ?n"
    using r by (simp add: local_day_def day_second_def day_fraction_def second_def pos_imp_zdiv_nonneg_iff)
qed

lemma clock_fields_bounds [simp]:
  "day_second t div 3600 < 24" "day_second t div 60 mod 60 < 60" "day_second t mod 60 < 60"
proof -
  show "day_second t div 3600 < 24"
    using less_mult_imp_div_less [of "day_second t" 24 3600] day_second_parts(1) [of t] by linarith
qed (rule mod_less_divisor; simp)+

lemma clock_split: "(n div 3600 * 60 + n div 60 mod 60) * 60 + n mod 60 = n" for n :: nat
proof -
  have "n div 3600 * 60 + n div 60 mod 60 = n div 60"
    using div_mult2_eq [of n 60 60] by simp
  then show ?thesis by simp
qed

lemma parse_date_chunks:
  assumes "writable t"
  shows "parse_chunks (date_chunks @ cs) (format_layout date_chunks t @ s) f =
    parse_chunks cs s (f\<lparr>cl_year := nat (fst (civil (local_day t))),
      cl_month := fst (snd (civil (local_day t))), cl_day := snd (snd (civil (local_day t)))\<rparr>)"
proof -
  obtain y m d where c: "civil (local_day t) = (y, m, d)" by (cases "civil (local_day t)") auto
  have b: "0 \<le> y" "nat y \<le> 9999" "1 \<le> m" "m < 13" "m < 100" "1 \<le> d" "d < 100"
    using assms civil_bounds [OF c] by (auto simp: writable_def c)
  then have y: "length (pad 4 (nat y)) = 4" by (simp add: length_pad)
  then show ?thesis
    using b unfolding date_chunks_def format_layout_def
    by (simp add: c year_text_def pad_all_digits below_def)
qed

lemma parse_clock_chunks:
  assumes "(cs \<noteq> [] \<and> hd cs = LFrac) \<or> get_fraction s = None"
  shows "parse_chunks (clock_chunks @ cs) (format_layout clock_chunks t @ s) f =
    parse_chunks cs s (f\<lparr>cl_hour := day_second t div 3600, cl_minute := day_second t div 60 mod 60,
      cl_second := day_second t mod 60\<rparr>)"
proof -
  have b: "day_second t div 3600 < 100" "day_second t div 60 mod 60 < 100" "day_second t mod 60 < 100"
    using clock_fields_bounds [of t] by linarith+
  show ?thesis
    using assms b unfolding clock_chunks_def format_layout_def
    by (auto simp: below_def split: option.splits prod.splits)
qed

lemma offset_minutes_zone:
  assumes "writable t"
  shows "(if t_zone t < 0 then - 1 else 1) * int (offset_minutes t * 60) * second = t_zone t"
    and "offset_minutes t \<le> 24 * 60"
proof -
  obtain q where q: "t_zone t = 60 * second * q"
    using assms unfolding writable_def by (metis mod_0_imp_dvd dvdE)
  have s: "0 < second" by (simp add: second_def)
  have "\<bar>t_zone t\<bar> div (60 * second) = \<bar>q\<bar>"
    using s by (simp add: q abs_mult)
  then have m: "int (offset_minutes t) = \<bar>q\<bar>" by (simp add: offset_minutes_def)
  have "t_zone t < 0 \<longleftrightarrow> q < 0" using s by (simp add: q mult_less_0_iff)
  then show "(if t_zone t < 0 then - 1 else 1) * int (offset_minutes t * 60) * second = t_zone t"
    using m q by simp
  have "60 * second * \<bar>q\<bar> \<le> 24 * 3600 * second"
    using assms s by (simp add: writable_def q abs_mult)
  then have "\<bar>q\<bar> \<le> 24 * 60" by (simp add: second_def)
  with m show "offset_minutes t \<le> 24 * 60" by linarith
qed

text \<open>The fields of a time are read back to the time, in its own location or in the local one.\<close>

definition fields_of :: "gotime \<Rightarrow> int option \<Rightarrow> clock_fields" where
  "fields_of t off = \<lparr>cl_year = nat (fst (civil (local_day t))), cl_month = fst (snd (civil (local_day t))),
     cl_day = snd (snd (civil (local_day t))), cl_hour = day_second t div 3600,
     cl_minute = day_second t div 60 mod 60, cl_second = day_second t mod 60,
     cl_nanos = day_fraction t, cl_offset = off\<rparr>"

lemma fields_time_of:
  assumes "writable t" and "(case off of None \<Rightarrow> local | Some z \<Rightarrow> z * second) = t_zone t"
  shows "fields_time local (fields_of t off) = Some t"
proof -
  obtain y m d where c: "civil (local_day t) = (y, m, d)" by (cases "civil (local_day t)") auto
  have y: "0 \<le> y" using assms(1) by (simp add: writable_def c)
  note cd = civil_date_day [OF c] and cb = civil_bounds [OF c]
  show ?thesis
    unfolding fields_time_def fields_of_def clock_fields.simps c fst_conv snd_conv assms(2) clock_split Let_def
    using cd cb y by (simp add: day_second_parts(3))
qed

lemma no_fraction_offset: "no_fraction (offset_text t @ s)"
  by (simp add: no_fraction_def offset_text_def is_point_def is_digit_def)

lemma date_then_rejects:
  assumes "writable t" and "s = [] \<or> hd s \<noteq> CHR ''T''"
  shows "parse_chunks (date_chunks @ Lit CHR ''T'' # cs) (format_layout date_chunks t @ s) f = None"
  using assms(2) unfolding parse_date_chunks [OF assms(1)] by simp

lemma parse_frac_zone:
  assumes "writable t" and "c = LZoneNum \<or> c = LZoneZ"
  shows "parse_chunks [LFrac, c] (fraction_text (day_fraction t) @ offset_text t) f =
    Some (f\<lparr>cl_nanos := (if day_fraction t = 0 then cl_nanos f else day_fraction t),
      cl_offset := Some ((if t_zone t < 0 then - 1 else 1) * int (offset_minutes t * 60))\<rparr>)"
proof -
  have o: "get_offset (offset_text t) = Some ((if t_zone t < 0 then - 1 else 1) * int (offset_minutes t * 60), [])"
    using get_offset_text [of t "[]"] offset_minutes_zone [OF assms(1)] by simp
  have n: "no_fraction (offset_text t)" using no_fraction_offset [of t "[]"] by simp
  have z: "hd (offset_text t) \<noteq> CHR ''Z''" by (simp add: offset_text_def)
  show ?thesis
  proof (cases "day_fraction t = 0")
    case True
    then show ?thesis using assms(2) z
      by (auto simp: fraction_text_def get_fraction_none [OF n] o simp del: of_nat_mult)
  next
    case False
    from get_fraction_text [OF day_second_parts(2) False n] False z assms(2) show ?thesis
      by (auto simp: o simp del: of_nat_mult)
  qed
qed

lemma format_layout_append: "format_layout (xs @ ys) t = format_layout xs t @ format_layout ys t"
  by (simp add: format_layout_def)

lemma clock_text_hd:
  obtains c s where "format_layout clock_chunks t = c # s" and "is_digit c"
proof
  have "day_second t div 3600 < 100" and "day_second t div 3600 div 10 < 10"
    using clock_fields_bounds(1) [of t] by linarith+
  then show "format_layout clock_chunks t = digit_char (day_second t div 3600 div 10) #
      tl (format_layout clock_chunks t)"
    and "is_digit (digit_char (day_second t div 3600 div 10))"
    by (simp_all add: format_layout_def clock_chunks_def pad2)
qed

lemma clock_text_no_space:
  "dropWhile (\<lambda>x. x = CHR '' '') (format_layout clock_chunks t @ x) = format_layout clock_chunks t @ x"
  by (rule clock_text_hd [of t]) simp

lemma parse_clock_fraction:
  assumes "cs = [] \<or> hd cs \<noteq> LFrac" and "get_fraction s = Some (ns, r)"
  shows "parse_chunks (clock_chunks @ cs) (format_layout clock_chunks t @ s) f =
    parse_chunks cs r (f\<lparr>cl_hour := day_second t div 3600, cl_minute := day_second t div 60 mod 60,
      cl_second := day_second t mod 60, cl_nanos := ns\<rparr>)"
proof -
  have b: "day_second t div 3600 < 100" "day_second t div 60 mod 60 < 100" "day_second t mod 60 < 100"
    using clock_fields_bounds [of t] by linarith+
  show ?thesis
    using assms b unfolding clock_chunks_def format_layout_def by (auto simp: below_def)
qed

lemma parse_space_clock:
  assumes "(cs \<noteq> [] \<and> hd cs = LFrac) \<or> get_fraction s = None"
  shows "parse_chunks (Lit CHR '' '' # clock_chunks @ cs) (CHR '' '' # format_layout clock_chunks t @ s) f =
    parse_chunks cs s (f\<lparr>cl_hour := day_second t div 3600, cl_minute := day_second t div 60 mod 60,
      cl_second := day_second t mod 60\<rparr>)"
  using parse_clock_chunks [OF assms] by (simp add: clock_text_no_space)

lemma parse_T_clock:
  assumes "(cs \<noteq> [] \<and> hd cs = LFrac) \<or> get_fraction s = None"
  shows "parse_chunks (Lit CHR ''T'' # clock_chunks @ cs) (CHR ''T'' # format_layout clock_chunks t @ s) f =
    parse_chunks cs s (f\<lparr>cl_hour := day_second t div 3600, cl_minute := day_second t div 60 mod 60,
      cl_second := day_second t mod 60\<rparr>)"
  using parse_clock_chunks [OF assms] by simp

text \<open>The fields after date and clock.\<close>

definition clocked :: "gotime \<Rightarrow> clock_fields" where
  "clocked t = no_fields\<lparr>cl_year := nat (fst (civil (local_day t))),
      cl_month := fst (snd (civil (local_day t))), cl_day := snd (snd (civil (local_day t))),
      cl_hour := day_second t div 3600, cl_minute := day_second t div 60 mod 60, cl_second := day_second t mod 60\<rparr>"

lemma parse_date_space_clock:
  assumes "writable t" and "(cs \<noteq> [] \<and> hd cs = LFrac) \<or> get_fraction s = None"
  shows "parse_chunks (date_chunks @ Lit CHR '' '' # clock_chunks @ cs)
      (format_layout date_chunks t @ CHR '' '' # format_layout clock_chunks t @ s) no_fields =
    parse_chunks cs s (clocked t)"
  unfolding parse_date_chunks [OF assms(1)] parse_space_clock [OF assms(2)] clocked_def ..

lemma parse_date_T_clock:
  assumes "writable t" and "(cs \<noteq> [] \<and> hd cs = LFrac) \<or> get_fraction s = None"
  shows "parse_chunks (date_chunks @ Lit CHR ''T'' # clock_chunks @ cs)
      (format_layout date_chunks t @ CHR ''T'' # format_layout clock_chunks t @ s) no_fields =
    parse_chunks cs s (clocked t)"
  unfolding parse_date_chunks [OF assms(1)] parse_T_clock [OF assms(2)] clocked_def ..

lemma clocked_fields:
  "(clocked t)\<lparr>cl_nanos := (if day_fraction t = 0 then cl_nanos (clocked t) else day_fraction t), cl_offset := off\<rparr> =
   fields_of t off"
  by (simp add: clocked_def no_fields_def fields_of_def)

lemma layout_texts:
  "format_layout space_nano_zone t = format_layout date_chunks t @
     CHR '' '' # format_layout clock_chunks t @ fraction_text (day_fraction t) @ offset_text t"
  "format_layout rfc3339_nano t = format_layout date_chunks t @
     CHR ''T'' # format_layout clock_chunks t @ fraction_text (day_fraction t) @ format_chunk t LZoneZ"
  "format_layout space_nano t = format_layout date_chunks t @
     CHR '' '' # format_layout clock_chunks t @ fraction_text (day_fraction t)"
  by (simp_all add: space_nano_zone_def rfc3339_nano_def space_nano_def format_layout_def)

lemma layout_chunks:
  "space_nano_zone = date_chunks @ Lit CHR '' '' # clock_chunks @ [LFrac, LZoneNum]"
  "space_zone = date_chunks @ Lit CHR '' '' # clock_chunks @ [LZoneNum]"
  "space_nano = date_chunks @ Lit CHR '' '' # clock_chunks @ [LFrac]"
  "rfc3339_nano = date_chunks @ Lit CHR ''T'' # clock_chunks @ [LFrac, LZoneZ]"
  "rfc3339 = date_chunks @ Lit CHR ''T'' # clock_chunks @ [LZoneZ]"
  by (simp_all add: space_nano_zone_def space_zone_def space_nano_def rfc3339_nano_def rfc3339_def)

lemma parse_space_nano_zone:
  assumes "writable t"
  shows "parse_in_location local space_nano_zone (format_layout space_nano_zone t) = Some t"
proof -
  let ?off = "(if t_zone t < 0 then - 1 else 1) * int (offset_minutes t * 60)"
  have "parse_chunks space_nano_zone (format_layout space_nano_zone t) no_fields = Some (fields_of t (Some ?off))"
    unfolding layout_texts unfolding layout_chunks
    by (subst parse_date_space_clock [OF assms]) (simp_all only: parse_frac_zone [OF assms] clocked_fields list.sel simp_thms list.distinct)
  then show ?thesis
    using fields_time_of [OF assms, where off = "Some ?off"] offset_minutes_zone(1) [OF assms]
    by (simp add: parse_in_location_def)
qed

lemma parse_rfc3339_nano:
  assumes "writable t"
  shows "parse_in_location local rfc3339_nano (format_layout rfc3339_nano t) = Some t"
proof -
  let ?off = "(if t_zone t < 0 then - 1 else 1) * int (offset_minutes t * 60)"
  have "parse_chunks rfc3339_nano (format_layout rfc3339_nano t) no_fields = Some (fields_of t (Some ?off))"
  proof (cases "t_zone t = 0")
    case True
    have n: "no_fraction ''Z''" by (simp add: no_fraction_def is_point_def is_digit_def)
    have "parse_chunks [LFrac, LZoneZ] (fraction_text (day_fraction t) @ ''Z'') f =
      Some (f\<lparr>cl_nanos := (if day_fraction t = 0 then cl_nanos f else day_fraction t), cl_offset := Some 0\<rparr>)" for f
      by (cases "day_fraction t = 0")
        (simp_all add: fraction_text_def [of 0] get_fraction_none [OF n] get_fraction_text [OF day_second_parts(2) _ n])
    then have z: "parse_chunks [LFrac, LZoneZ] (fraction_text (day_fraction t) @ format_chunk t LZoneZ) f =
      Some (f\<lparr>cl_nanos := (if day_fraction t = 0 then cl_nanos f else day_fraction t), cl_offset := Some ?off\<rparr>)" for f
      using True by (simp add: offset_minutes_def)
    show ?thesis
      unfolding layout_texts unfolding layout_chunks
      by (subst parse_date_T_clock [OF assms]) (simp_all only: z clocked_fields list.sel simp_thms list.distinct)
  next
    case False
    then have z: "format_chunk t LZoneZ = offset_text t" by simp
    show ?thesis
      unfolding layout_texts z unfolding layout_chunks
      by (subst parse_date_T_clock [OF assms])
        (simp_all only: parse_frac_zone [OF assms] clocked_fields list.sel simp_thms list.distinct)
  qed
  then show ?thesis
    using fields_time_of [OF assms, where off = "Some ?off"] offset_minutes_zone(1) [OF assms]
    by (simp add: parse_in_location_def)
qed

lemma parse_space_nano:
  assumes "writable t" and "t_zone t = local"
  shows "parse_in_location local space_nano (format_layout space_nano t) = Some t"
proof -
  have n: "no_fraction []" by (simp add: no_fraction_def)
  have z: "parse_chunks [LFrac] (fraction_text (day_fraction t)) (clocked t) = Some (fields_of t None)"
    using get_fraction_text [OF day_second_parts(2) _ n]
    by (cases "day_fraction t = 0")
      (simp_all add: fraction_text_def [of 0] clocked_def no_fields_def fields_of_def)
  have "parse_chunks space_nano (format_layout space_nano t) no_fields = Some (fields_of t None)"
    unfolding layout_texts unfolding layout_chunks
    by (subst parse_date_space_clock [OF assms(1)]) (simp_all only: z list.sel simp_thms list.distinct)
  then show ?thesis
    using fields_time_of [OF assms(1), where off = None] assms(2)
    by (simp add: parse_in_location_def)
qed

text \<open>What the earlier layouts make of these texts.\<close>

lemma T_layouts_reject:
  assumes "writable t" and "s = [] \<or> hd s \<noteq> CHR ''T''"
  shows "parse_in_location local rfc3339_nano (format_layout date_chunks t @ s) = None"
    and "parse_in_location local rfc3339 (format_layout date_chunks t @ s) = None"
  unfolding layout_chunks parse_in_location_def date_then_rejects [OF assms] by simp_all

lemma zone_layouts_reject:
  assumes "writable t"
  shows "parse_in_location local space_nano_zone (format_layout space_nano t) = None"
    and "parse_in_location local space_zone (format_layout space_nano t) = None"
proof -
  have n: "no_fraction []" by (simp add: no_fraction_def)
  have o: "get_offset [] = None" by (simp add: get_offset_def)
  have z: "parse_chunks [LFrac, LZoneNum] (fraction_text (day_fraction t)) (clocked t) = None"
    using get_fraction_text [OF day_second_parts(2) _ n]
    by (cases "day_fraction t = 0") (simp_all add: fraction_text_def [of 0] o)
  show "parse_in_location local space_nano_zone (format_layout space_nano t) = None"
    unfolding parse_in_location_def layout_texts unfolding layout_chunks
    by (subst parse_date_space_clock [OF assms]) (simp_all only: z list.sel simp_thms list.distinct bind.bind_lzero)
  show "parse_in_location local space_zone (format_layout space_nano t) = None"
  proof (cases "day_fraction t = 0")
    case True
    have "parse_chunks space_zone (format_layout space_nano t) no_fields = None"
      unfolding layout_texts True unfolding layout_chunks
      by (subst parse_date_space_clock [OF assms]) (simp_all add: fraction_text_def o)
    then show ?thesis by (simp add: parse_in_location_def)
  next
    case False
    then have g: "get_fraction (fraction_text (day_fraction t)) = Some (day_fraction t, [])"
      using get_fraction_text [OF day_second_parts(2) _ n] by simp
    have "parse_chunks space_zone (format_layout space_nano t) no_fields = None"
      unfolding layout_texts unfolding layout_chunks parse_date_chunks [OF assms]
      using parse_clock_fraction [OF _ g, of "[LZoneNum]"] by (simp add: clock_text_no_space o)
    then show ?thesis by (simp add: parse_in_location_def)
  qed
qed

lemma format_dashed_layout: "format_layout date_chunks t = format_dashed t"
  by (simp add: format_layout_def date_chunks_def format_dashed_def split: prod.splits)

lemma clock_layouts_reject_date:
  assumes "writable t" and "cs = LHour # ds"
  shows "parse_in_location local (date_chunks @ Lit CHR '' '' # cs) (format_layout date_chunks t) = None"
  using parse_date_chunks [OF assms(1), of _ "[]"] assms(2)
  by (simp add: parse_in_location_def below_def)

lemma parse_date_layout:
  assumes "writable t"
  shows "parse_in_location local date_chunks (format_layout date_chunks t) = Some (midnight local (local_day t))"
proof -
  obtain y m d where c: "civil (local_day t) = (y, m, d)" by (cases "civil (local_day t)") auto
  have y: "0 \<le> y" using assms(1) by (simp add: writable_def c)
  note cd = civil_date_day [OF c] and cb = civil_bounds [OF c]
  show ?thesis
    using parse_date_chunks [OF assms, of "[]" "[]"] cd cb y
    by (simp add: parse_in_location_def c fields_time_def no_fields_def midnight_def)
qed

text \<open>None of the texts begins or ends with a space.\<close>

lemma date_text_hd:
  assumes "writable t"
  shows "format_layout date_chunks t \<noteq> []" and "ascii_visible (hd (format_layout date_chunks t))"
proof -
  obtain y m d where c: "civil (local_day t) = (y, m, d)" by (cases "civil (local_day t)") auto
  have y: "\<not> y < 0" using assms(1) by (simp add: writable_def c)
  have p: "pad 4 (nat y) \<noteq> []" by (simp add: pad_def)
  have e: "format_layout date_chunks t = pad 4 (nat y) @ ''-'' @ pad 2 m @ ''-'' @ pad 2 d"
    using y by (simp add: format_dashed_layout format_dashed_def c year_text_def)
  from e p show "format_layout date_chunks t \<noteq> []" by simp
  from p have "hd (pad 4 (nat y)) \<in> set (pad 4 (nat y))" by simp
  then have "is_digit (hd (pad 4 (nat y)))" by (rule pad_chars)
  then show "ascii_visible (hd (format_layout date_chunks t))"
    unfolding e hd_append2 [OF p] by (rule digit_visible)
qed

lemma trimmed_date_text:
  assumes "writable t" and "s \<noteq> []" and "ascii_visible (last s)"
  shows "trim_space (format_layout date_chunks t @ s) = format_layout date_chunks t @ s"
  using assms date_text_hd [OF assms(1)] by (intro trim_space_visible) simp_all

lemma last_pad: "ascii_visible (last (pad w n))"
proof -
  have "last (pad w n) \<in> set (pad w n)" by (simp add: pad_def)
  then show ?thesis by (intro digit_visible pad_chars)
qed

lemma pad_nonempty [simp]: "pad w n \<noteq> []"
  by (simp add: pad_def)

lemma last_offset_text: "offset_text t \<noteq> []" "ascii_visible (last (offset_text t))"
  using last_pad by (simp_all add: offset_text_def)

lemma last_fraction: "d \<noteq> 0 \<Longrightarrow> d < 10 ^ 9 \<Longrightarrow> ascii_visible (last (fraction_text d))" 
proof -
  assume d: "d \<noteq> 0" "d < 10 ^ 9"
  have "set (dropWhile (\<lambda>c. c = CHR ''0'') (rev (pad 9 d))) \<subseteq> set (pad 9 d)"
    by (metis set_dropWhileD set_rev subsetI)
  then have "set (fraction_text d) \<subseteq> insert CHR ''.'' (set (pad 9 d))" using d by (auto simp: fraction_text_def)
  moreover have "last (fraction_text d) \<in> set (fraction_text d)"
    using d by (intro last_in_set) (simp add: fraction_text_def)
  ultimately consider "last (fraction_text d) = CHR ''.''" | "last (fraction_text d) \<in> set (pad 9 d)"
    by (metis insertE subsetD)
  then show ?thesis
  proof cases
    case 1
    then show ?thesis by (simp add: ascii_visible_def)
  next
    case 2
    then show ?thesis by (intro digit_visible pad_chars)
  qed
qed

lemma clock_text_last: "format_layout clock_chunks t \<noteq> []" "ascii_visible (last (format_layout clock_chunks t))"
  using last_pad by (simp_all add: format_layout_def clock_chunks_def)

lemma scan_first:
  assumes "trim_space s = s" and "s \<noteq> []" and "first_layout local s time_layouts = Some t"
  shows "time_value_scan local (DvText s) = Inr (t, True)"
  using assms by (simp add: time_value_parse_def)

lemma scan_space_nano_zone:
  assumes "writable t"
  shows "time_value_scan local (DvText (format_layout space_nano_zone t)) = Inr (t, True)"
proof (rule scan_first)
  show "trim_space (format_layout space_nano_zone t) = format_layout space_nano_zone t"
    unfolding layout_texts using last_offset_text by (intro trimmed_date_text [OF assms]) simp_all
  show "format_layout space_nano_zone t \<noteq> []" by (simp add: layout_texts)
  have "parse_in_location local rfc3339_nano (format_layout space_nano_zone t) = None"
    "parse_in_location local rfc3339 (format_layout space_nano_zone t) = None"
    unfolding layout_texts by (rule T_layouts_reject [OF assms]; simp)+
  then show "first_layout local (format_layout space_nano_zone t) time_layouts = Some t"
    by (simp add: time_layouts_def parse_space_nano_zone [OF assms])
qed

lemma scan_rfc3339_nano:
  assumes "writable t"
  shows "time_value_scan local (DvText (format_layout rfc3339_nano t)) = Inr (t, True)"
proof (rule scan_first)
  have "ascii_visible CHR ''Z''" by (simp add: ascii_visible_def)
  then show "trim_space (format_layout rfc3339_nano t) = format_layout rfc3339_nano t"
    unfolding layout_texts using last_offset_text by (intro trimmed_date_text [OF assms]) simp_all
  show "format_layout rfc3339_nano t \<noteq> []" by (simp add: layout_texts)
  show "first_layout local (format_layout rfc3339_nano t) time_layouts = Some t"
    by (simp add: time_layouts_def parse_rfc3339_nano [OF assms])
qed

lemma scan_space_nano:
  assumes "writable t" and "t_zone t = local"
  shows "time_value_scan local (DvText (format_layout space_nano t)) = Inr (t, True)"
proof (rule scan_first)
  show "trim_space (format_layout space_nano t) = format_layout space_nano t"
  proof (cases "day_fraction t = 0")
    case True
    then show ?thesis unfolding layout_texts using clock_text_last
      by (intro trimmed_date_text [OF assms(1)]) (simp_all add: fraction_text_def)
  next
    case False
    then have "fraction_text (day_fraction t) \<noteq> []" by (simp add: fraction_text_def)
    then show ?thesis unfolding layout_texts using last_fraction [OF False day_second_parts(2)]
      by (intro trimmed_date_text [OF assms(1)]) simp_all
  qed
  show "format_layout space_nano t \<noteq> []" by (simp add: layout_texts)
  have "parse_in_location local rfc3339_nano (format_layout space_nano t) = None"
    "parse_in_location local rfc3339 (format_layout space_nano t) = None"
    unfolding layout_texts by (rule T_layouts_reject [OF assms(1)]; simp)+
  then show "first_layout local (format_layout space_nano t) time_layouts = Some t"
    by (simp add: time_layouts_def zone_layouts_reject [OF assms(1)] parse_space_nano [OF assms])
qed

lemma scan_date:
  assumes "writable t"
  shows "time_value_scan local (DvText (format_layout date_chunks t)) = Inr (midnight local (local_day t), True)"
proof (rule scan_first)
  show "format_layout date_chunks t \<noteq> []" using date_text_hd [OF assms] by blast
  have "ascii_visible (last (format_layout date_chunks t))"
    using last_pad by (simp add: format_dashed_layout format_dashed_def split: prod.splits)
  then show "trim_space (format_layout date_chunks t) = format_layout date_chunks t"
    using date_text_hd [OF assms] by (intro trim_space_visible)
  have "parse_in_location local rfc3339_nano (format_layout date_chunks t) = None"
    "parse_in_location local rfc3339 (format_layout date_chunks t) = None"
    using T_layouts_reject [OF assms, of "[]"] by simp_all
  moreover have "parse_in_location local l (format_layout date_chunks t) = None"
    if "l \<in> set [space_nano_zone, space_zone, space_nano, space_clock]" for l
    using that clock_layouts_reject_date [OF assms]
    by (auto simp: space_nano_zone_def space_zone_def space_nano_def space_clock_def clock_chunks_def)
  ultimately show "first_layout local (format_layout date_chunks t) time_layouts = Some (midnight local (local_day t))"
    by (simp add: time_layouts_def parse_date_layout [OF assms])
qed


text \<open>Half past nine and a quarter of a second on 25 June 2026 in Shanghai, read by a server in UTC.\<close>

definition sample_instant :: gotime where
  "sample_instant = \<lparr>t_nanos = 63917947800250000000, t_zone = 28800000000000\<rparr>"

lemma sample_writable: "writable sample_instant"
  by (simp add: writable_def sample_instant_def local_day_def day_ns_def civil_def year_yday_def second_def Let_def)


end
