(* ===== verification/Domain.thy ===== *)
theory Domain
  imports Go_Time
begin

text \<open>
  Package \<^verbatim>\<open>internal/domain\<close>: the data the service owns (\<^verbatim>\<open>types.go\<close>, \<^verbatim>\<open>provider.go\<close>), the parsing of
  markets, periods and adjustment modes and the normalisation of dates (\<^verbatim>\<open>parse.go\<close>).  The named
  string types of the source (\<open>Market\<close>, \<open>Period\<close>, \<open>AdjustType\<close>, the statuses) stay strings,
  because the code stores and compares values outside their constants, above all the empty one.
\<close>

section \<open>Data\<close>

abbreviation "MarketUnknown \<equiv> ([] :: string)"
abbreviation "MarketSH \<equiv> ''SH''"
abbreviation "MarketSZ \<equiv> ''SZ''"
abbreviation "MarketBJ \<equiv> ''BJ''"
abbreviation "MarketHK \<equiv> ''HK''"
abbreviation "MarketUS \<equiv> ''US''"

record symbol =
  s_market :: string
  s_code :: string
  s_name :: string
  s_type :: string
  s_status :: string

text \<open>\<open>Symbol{Market: m, Code: c}\<close>\<close>

definition mk_symbol :: "string \<Rightarrow> string \<Rightarrow> symbol" where
  "mk_symbol m c = \<lparr>s_market = m, s_code = c, s_name = [], s_type = [], s_status = []\<rparr>"

record level =
  l_price :: float64
  l_volume :: int

record quote =
  q_symbol :: symbol
  q_last_price :: float64
  q_open :: float64
  q_high :: float64
  q_low :: float64
  q_pre_close :: float64
  q_volume :: int
  q_amount :: float64
  q_bid_levels :: "level list"
  q_ask_levels :: "level list"
  q_quote_time :: gotime
  q_source_time :: gotime
  q_cached :: bool

record order_book =
  ob_symbol :: symbol
  ob_bid_levels :: "level list"
  ob_ask_levels :: "level list"
  ob_source_time :: gotime
  ob_cached :: bool

record tick =
  tk_symbol :: symbol
  tk_trade_date :: gotime
  tk_trade_time :: gotime
  tk_price :: float64
  tk_volume :: int
  tk_amount :: float64
  tk_direction :: string
  tk_sequence :: int
  tk_source :: string
  tk_cached :: bool

abbreviation "PeriodUnknown \<equiv> ([] :: string)"
abbreviation "Period1Min \<equiv> ''1m''"
abbreviation "Period5Min \<equiv> ''5m''"
abbreviation "Period15Min \<equiv> ''15m''"
abbreviation "Period30Min \<equiv> ''30m''"
abbreviation "Period1Hour \<equiv> ''1h''"
abbreviation "PeriodDay \<equiv> ''day''"
abbreviation "PeriodWeek \<equiv> ''week''"
abbreviation "PeriodMonth \<equiv> ''month''"
abbreviation "PeriodQuarter \<equiv> ''quarter''"
abbreviation "PeriodYear \<equiv> ''year''"

abbreviation "AdjustNone \<equiv> ''none''"
abbreviation "AdjustQFQ \<equiv> ''qfq''"
abbreviation "AdjustHFQ \<equiv> ''hfq''"

record bar =
  b_symbol :: symbol
  b_period :: string
  b_adjust :: string
  b_time :: gotime
  b_open :: float64
  b_high :: float64
  b_low :: float64
  b_close :: float64
  b_volume :: float64
  b_amount :: float64
  b_source :: string

text \<open>The dynamic values of \<open>map[string]any\<close> fields.\<close>

datatype go_any = AnyString string | AnyFloat float64 | AnyInt int | AnyBool bool | AnyNil

record xdxr_event =
  x_symbol :: symbol
  x_event_date :: gotime
  x_event_type :: string
  x_cash_dividend :: float64
  x_bonus_share :: float64
  x_allotment_price :: float64
  x_allotment_ratio :: float64
  x_raw_fields :: "string \<rightharpoonup> go_any"

record trading_session =
  ts_open_minutes :: u16
  ts_close_minutes :: u16
  ts_open :: string
  ts_close :: string

record trading_day_info =
  td_today :: gotime
  td_today_string :: string
  td_is_trading :: bool
  td_latest :: gotime
  td_latest_string :: string
  td_previous :: gotime
  td_previous_string :: string
  td_sessions :: "trading_session list"
  td_alt_sessions :: "trading_session list"
  td_source_time :: gotime
  td_cached :: bool

record finance_info =
  f_symbol :: symbol
  f_fields :: "string \<rightharpoonup> go_any"
  f_source_time :: gotime
  f_cached :: bool

record security_info =
  si_symbol :: symbol
  si_fields :: "string \<rightharpoonup> go_any"
  si_cached :: bool

abbreviation "CoverageMissing \<equiv> ''missing''"
abbreviation "CoveragePartial \<equiv> ''partial''"
abbreviation "CoverageCovered \<equiv> ''covered''"
abbreviation "CoverageFailed \<equiv> ''failed''"

abbreviation "DatasetHistoryTick \<equiv> ''history_tick''"
abbreviation "DatasetKLine \<equiv> ''kline''"
abbreviation "DatasetAdjustedKLine \<equiv> ''adjusted_kline''"

record history_coverage =
  hc_dataset :: string
  hc_symbol :: symbol
  hc_trade_date :: gotime
  hc_period :: string
  hc_adjust :: string
  hc_status :: string
  hc_row_count :: int
  hc_checksum :: string
  hc_source_address :: string
  hc_last_fetch :: gotime
  hc_last_error :: string

abbreviation "BackfillPending \<equiv> ''pending''"
abbreviation "BackfillRunning \<equiv> ''running''"
abbreviation "BackfillSuccess \<equiv> ''success''"
abbreviation "BackfillFailed \<equiv> ''failed''"
abbreviation "BackfillRetrying \<equiv> ''retrying''"

record backfill_task =
  bt_id :: string
  bt_dataset :: string
  bt_symbol :: symbol
  bt_start :: gotime
  bt_end :: gotime
  bt_period :: string
  bt_adjust :: string
  bt_priority :: int
  bt_status :: string
  bt_retry_count :: int
  bt_next_retry :: gotime
  bt_error :: string
  bt_created :: gotime
  bt_updated :: gotime

section \<open>Requests\<close>

record tick_request =
  tr_start :: u16
  tr_count :: u16
  tr_cursor :: string
  tr_full :: bool
  tr_force :: bool

record history_tick_request =
  ht_trade_date :: gotime
  ht_start :: u16
  ht_count :: u16
  ht_full :: bool
  ht_with_flag :: bool
  ht_force :: bool

record kline_request =
  k_period :: string
  k_start :: u16
  k_count :: u16
  k_times :: u16
  k_start_date :: gotime
  k_end_date :: gotime
  k_force :: bool

record security_query =
  sq_markets :: "string list"
  sq_symbols :: "symbol list"
  sq_types :: "string list"
  sq_start :: u32
  sq_count :: u32
  sq_refresh :: bool

record coverage_request =
  cr_dataset :: string
  cr_symbol :: symbol
  cr_trade_date :: gotime
  cr_period :: string
  cr_adjust :: string

record history_tick_query =
  hq_symbol :: symbol
  hq_trade_date :: gotime
  hq_start :: int
  hq_limit :: int

record bar_query =
  bq_symbol :: symbol
  bq_period :: string
  bq_adjust :: string
  bq_start :: gotime
  bq_end :: gotime

record backfill_filter =
  bf_dataset :: string
  bf_symbol :: symbol
  bf_status :: string

section \<open>Symbols\<close>

definition normalize_market :: "string \<Rightarrow> string" where
  "normalize_market m = to_upper (trim_space m)"

definition normalize_code :: "string \<Rightarrow> string" where
  "normalize_code c = trim_space c"

definition validate_symbol :: "symbol \<Rightarrow> go_error option" where
  "validate_symbol s =
     (if s_market s = MarketUnknown then Some ErrInvalidRequest
      else if s_code s = [] then Some ErrInvalidRequest else None)"

text \<open>\<open>NewSymbol\<close> returns the symbol with the error of its validation; every caller drops the
  symbol when there is an error.\<close>

definition new_symbol :: "string \<Rightarrow> string \<Rightarrow> symbol result" where
  "new_symbol m c =
     (let s = mk_symbol (normalize_market m) (normalize_code c)
      in case validate_symbol s of None \<Rightarrow> Inr s | Some e \<Rightarrow> Inl e)"

definition symbol_key :: "symbol \<Rightarrow> string" where
  "symbol_key s =
     (let market = normalize_market (s_market s); code = normalize_code (s_code s)
      in if market = MarketUnknown then code else market @ '':'' @ code)"

section \<open>Parsing\<close>

definition known_markets :: "string list" where
  "known_markets = [MarketSH, MarketSZ, MarketBJ, MarketHK, MarketUS]"

definition parse_market :: "string \<Rightarrow> string result" where
  "parse_market v = (let m = normalize_market v in if m \<in> set known_markets then Inr m else Inl ErrInvalidRequest)"

definition parse_period :: "string \<Rightarrow> string result" where
  "parse_period v =
     (let w = to_lower (trim_space v) in
      if w \<in> set [''1m'', ''1min'', ''minute'', ''min1''] then Inr Period1Min
      else if w \<in> set [''5m'', ''5min'', ''min5''] then Inr Period5Min
      else if w \<in> set [''15m'', ''15min'', ''min15''] then Inr Period15Min
      else if w \<in> set [''30m'', ''30min'', ''min30''] then Inr Period30Min
      else if w \<in> set [''1h'', ''60m'', ''60min'', ''hour''] then Inr Period1Hour
      else if w \<in> set [''day'', ''daily'', ''d'', ''1d''] then Inr PeriodDay
      else if w \<in> set [''week'', ''weekly'', ''w''] then Inr PeriodWeek
      else if w \<in> set [''month'', ''monthly'', ''m''] then Inr PeriodMonth
      else if w \<in> set [''quarter'', ''quarterly'', ''q''] then Inr PeriodQuarter
      else if w \<in> set [''year'', ''yearly'', ''y''] then Inr PeriodYear
      else Inl ErrInvalidRequest)"

text \<open>The Chinese names of the modes, in UTF-8.\<close>

definition no_adjust_zh :: string where
  "no_adjust_zh = [CHR 0xE4, CHR 0xB8, CHR 0x8D, CHR 0xE5, CHR 0xA4, CHR 0x8D, CHR 0xE6, CHR 0x9D, CHR 0x83]"
definition front_adjust_zh :: string where
  "front_adjust_zh = [CHR 0xE5, CHR 0x89, CHR 0x8D, CHR 0xE5, CHR 0xA4, CHR 0x8D, CHR 0xE6, CHR 0x9D, CHR 0x83]"
definition back_adjust_zh :: string where
  "back_adjust_zh = [CHR 0xE5, CHR 0x90, CHR 0x8E, CHR 0xE5, CHR 0xA4, CHR 0x8D, CHR 0xE6, CHR 0x9D, CHR 0x83]"

definition parse_adjust_type :: "string \<Rightarrow> string result" where
  "parse_adjust_type v =
     (let w = to_lower (trim_space v) in
      if w \<in> set [[], ''none'', ''raw'', no_adjust_zh] then Inr AdjustNone
      else if w \<in> set [''qfq'', ''front'', front_adjust_zh] then Inr AdjustQFQ
      else if w \<in> set [''hfq'', ''back'', back_adjust_zh] then Inr AdjustHFQ
      else Inl ErrInvalidRequest)"

text \<open>\<open>NormalizeDate\<close>: midnight of the day of \<open>t\<close> in its location; the zero time stays.\<close>

definition normalize_date :: "gotime \<Rightarrow> gotime" where
  "normalize_date t = (if is_zero t then zero_time else midnight (t_zone t) (local_day t))"

text \<open>\<open>dateKey\<close> of the stores.\<close>

definition date_key :: "gotime \<Rightarrow> string" where
  "date_key t = (let date = normalize_date t in if is_zero date then [] else format_compact date)"

section \<open>Facts\<close>

lemma normalize_market_idem [simp]: "normalize_market (normalize_market m) = normalize_market m"
  by (simp add: normalize_market_def trim_space_upper_fixed)

lemma normalize_code_idem [simp]: "normalize_code (normalize_code c) = normalize_code c"
  by (simp add: normalize_code_def)

lemma known_markets_normal: "m \<in> set known_markets \<Longrightarrow> normalize_market m = m"
proof -
  assume m: "m \<in> set known_markets"
  then have "trim_space m = m"
    by (intro trim_space_visible) (auto simp: known_markets_def ascii_visible_def)
  moreover have "to_upper m = m"
    using m by (auto simp: known_markets_def to_upper_def upper_char_def)
  ultimately show ?thesis by (simp add: normalize_market_def)
qed

lemma parse_market_Inr: "parse_market v = Inr m \<longleftrightarrow> normalize_market v = m \<and> m \<in> set known_markets"
  by (auto simp: parse_market_def Let_def)

lemma new_symbol_Inr:
  "new_symbol m c = Inr s \<longleftrightarrow>
     s = mk_symbol (normalize_market m) (normalize_code c) \<and>
     normalize_market m \<noteq> [] \<and> normalize_code c \<noteq> []"
  by (auto simp: new_symbol_def validate_symbol_def mk_symbol_def Let_def)

lemma mk_symbol_simps [simp]:
  "s_market (mk_symbol m c) = m" "s_code (mk_symbol m c) = c"
  by (simp_all add: mk_symbol_def)

lemma normalize_date_local_day:
  "\<not> is_zero t \<Longrightarrow> local_day (normalize_date t) = local_day t"
  by (simp add: normalize_date_def)

lemma normalize_date_idem:
  "t_nanos (normalize_date (normalize_date t)) = t_nanos (normalize_date t)"
  by (cases "is_zero t"; cases "is_zero (midnight (t_zone t) (local_day t))")
    (simp_all add: normalize_date_def, simp add: is_zero_def)

lemma normalize_date_fixed [simp]:
  "\<not> is_zero (normalize_date t) \<Longrightarrow> normalize_date (normalize_date t) = normalize_date t"
  by (cases "is_zero t") (simp_all add: normalize_date_def)

lemma normalize_date_zero [simp]: "is_zero t \<Longrightarrow> normalize_date t = zero_time"
  by (simp add: normalize_date_def)

lemma normalize_date_nonzero: "\<not> is_zero (normalize_date t) \<Longrightarrow> \<not> is_zero t"
  by (auto simp: normalize_date_def)

lemma date_key_inj:
  assumes "\<not> is_zero (normalize_date s)" and "\<not> is_zero (normalize_date t)"
  shows "date_key s = date_key t \<longleftrightarrow> local_day s = local_day t"
  using assms normalize_date_nonzero [OF assms(1)] normalize_date_nonzero [OF assms(2)]
  by (simp add: date_key_def Let_def format_compact_inj normalize_date_local_day)

lemma date_key_normalize [simp]: "date_key (normalize_date t) = date_key t"
  by (cases "is_zero (normalize_date t)") (simp_all add: date_key_def Let_def)

lemma date_key_no_bar [simp]: "CHR ''|'' \<notin> set (date_key t)"
  by (simp add: date_key_def Let_def)

lemma date_key_eq_Nil: "date_key t = [] \<longleftrightarrow> is_zero (normalize_date t)"
  by (simp add: date_key_def Let_def)

lemma symbol_key_inj:
  assumes "CHR '':'' \<notin> set (normalize_market (s_market s))" "CHR '':'' \<notin> set (normalize_market (s_market t))"
    and "normalize_market (s_market s) \<noteq> []" "normalize_market (s_market t) \<noteq> []"
  shows "symbol_key s = symbol_key t \<longleftrightarrow>
    normalize_market (s_market s) = normalize_market (s_market t) \<and>
    normalize_code (s_code s) = normalize_code (s_code t)"
  using assms by (simp add: symbol_key_def Let_def sep_unique)

lemma known_market_no_colon: "m \<in> set known_markets \<Longrightarrow> CHR '':'' \<notin> set m \<and> m \<noteq> []"
  by (auto simp: known_markets_def)

section \<open>Properties\<close>

text \<open>
  C1: the cache and store key of a symbol loses nothing.  For any two symbols that \<open>ParseMarket\<close>
  and \<open>NewSymbol\<close> accept, whatever spelling of market and code they came from, the keys are equal
  exactly when the symbols are.
\<close>

theorem symbol_key_faithful:
  assumes "parse_market v = Inr m" and "new_symbol m c = Inr s"
    and "parse_market v' = Inr m'" and "new_symbol m' c' = Inr s'"
  shows "symbol_key s = symbol_key s' \<longleftrightarrow> s = s'"
proof -
  from assms have s: "s = mk_symbol m (normalize_code c)" "s' = mk_symbol m' (normalize_code c')"
    and k: "m \<in> set known_markets" "m' \<in> set known_markets"
    by (auto simp: parse_market_Inr new_symbol_Inr known_markets_normal)
  from k have n: "normalize_market m = m" "normalize_market m' = m'"
    by (simp_all add: known_markets_normal)
  note col = known_market_no_colon [OF k(1)] known_market_no_colon [OF k(2)]
  show ?thesis using symbol_key_inj [of s s'] col n by (auto simp: s mk_symbol_def)
qed

theorem symbol_key_faithful_witness:
  "parse_market '' sh '' = Inr ''SH'' \<and>
   (symbol_key (mk_symbol ''SH'' ''600000'') = symbol_key (mk_symbol ''SZ'' ''000001'') \<longleftrightarrow>
    mk_symbol ''SH'' ''600000'' = mk_symbol ''SZ'' ''000001'')"
proof -
  have t: "trim_space '' sh '' = ''sh''" "trim_space ''SZ'' = ''SZ''" "trim_space ''SH'' = ''SH''"
    "trim_space ''600000'' = ''600000''" "trim_space ''000001'' = ''000001''"
    by code_simp+
  have u: "to_upper ''sh'' = ''SH''" "to_upper ''SZ'' = ''SZ''" "to_upper ''SH'' = ''SH''"
    by code_simp+
  have p: "parse_market '' sh '' = Inr ''SH''" "parse_market ''SZ'' = Inr ''SZ''"
    by (simp_all add: parse_market_Inr normalize_market_def t u known_markets_def)
  have n: "new_symbol ''SH'' ''600000'' = Inr (mk_symbol ''SH'' ''600000'')"
    "new_symbol ''SZ'' ''000001'' = Inr (mk_symbol ''SZ'' ''000001'')"
    by (simp_all add: new_symbol_Inr normalize_market_def normalize_code_def t u)
  show ?thesis using symbol_key_faithful [OF p(1) n(1) p(2) n(2)] p(1) by blast
qed

text \<open>
  The date part of every store key identifies the calendar day.  \<open>dateKey\<close> of two times is
  the same text exactly when both fall on the same day of their own locations (or both normalise
  to the zero time), although the key is built from year, month and day of the Gregorian calendar.
\<close>

theorem date_key_faithful:
  "date_key s = date_key t \<longleftrightarrow>
     (if is_zero (normalize_date s) \<or> is_zero (normalize_date t)
      then is_zero (normalize_date s) \<and> is_zero (normalize_date t)
      else local_day s = local_day t)"
  by (metis date_key_eq_Nil date_key_inj)

end
