(* ===== verification/Sql_Schema.thy ===== *)
theory Sql_Schema
  imports Domain
begin

text \<open>
  \<^verbatim>\<open>internal/storage/schema.go\<close>: the tables each SQL dialect creates, with the statements of
  \<^verbatim>\<open>internal/storage/sql_store.go\<close> typed against them; \<open>bind\<close>, the choice of driver and the default
  data source of \<^verbatim>\<open>sql_store.go\<close>.  A DDL statement is its table, columns and keys; \<open>ddl_text\<close> writes
  it as the source has it, byte for byte.
\<close>

section \<open>Dialects\<close>

abbreviation "DialectPostgres \<equiv> ''postgres''"
abbreviation "DialectMySQL \<equiv> ''mysql''"
abbreviation "DialectSQLite \<equiv> ''sqlite''"

definition driver_name :: "string \<Rightarrow> string result" where
  "driver_name dialect =
     (if dialect = DialectSQLite \<or> dialect = [] then Inr ''sqlite''
      else if dialect = DialectPostgres then Inr ''postgres''
      else if dialect = DialectMySQL then Inr ''mysql''
      else Inl (OtherError (''unsupported storage dialect '' @ go_quote dialect)))"

definition default_sqlite_dsn :: string where
  "default_sqlite_dsn = ''file:marketdata.sqlite?_pragma=foreign_keys(1)&_time_format=sqlite''"

definition default_dsn :: "string \<Rightarrow> string" where
  "default_dsn dialect = (if dialect = DialectSQLite \<or> dialect = [] then default_sqlite_dsn else [])"

section \<open>Placeholders\<close>

fun bind_loop :: "nat \<Rightarrow> string \<Rightarrow> string" where
  "bind_loop arg [] = []"
| "bind_loop arg (c # s) =
     (if c = CHR ''?'' then CHR ''$'' # nat_dec arg @ bind_loop (arg + 1) s else c # bind_loop arg s)"

definition bind_query :: "string \<Rightarrow> string \<Rightarrow> string" where
  "bind_query dialect query = (if dialect \<noteq> DialectPostgres then query else bind_loop 1 query)"

text \<open>The pieces between the placeholders, with \<open>$n\<close> before the piece behind the \<open>n\<close>-th one.\<close>

fun number_pieces :: "nat \<Rightarrow> string list \<Rightarrow> string" where
  "number_pieces arg [] = []"
| "number_pieces arg (p # ps) = ''$'' @ nat_dec arg @ p @ number_pieces (arg + 1) ps"

lemma bind_loop_pieces:
  "bind_loop arg s = hd (split_on CHR ''?'' s) @ number_pieces arg (tl (split_on CHR ''?'' s))"
proof (induction s arbitrary: arg)
  case (Cons c s)
  then show ?case by (cases "split_on CHR ''?'' s") auto
qed simp

text \<open>
  The placeholders of a query are numbered from 1 in the order they stand for Postgres, the text
  between them and the queries of the other dialects are left alone.
\<close>

theorem placeholders_numbered:
  "bind_query dialect query =
     (if dialect = DialectPostgres
      then hd (split_on CHR ''?'' query) @ number_pieces 1 (tl (split_on CHR ''?'' query)) else query)"
  by (simp add: bind_query_def bind_loop_pieces)

section \<open>Tables\<close>

datatype column_attr = NotNull | PrimaryColumn | DefaultTo string | OnUpdate string

text \<open>A unique key may have a name, which is empty where the source gives none.\<close>

datatype table_item =
    Column string string "column_attr list"
  | PrimaryKey "string list"
  | UniqueKey string "string list"
  | IndexKey string "string list"

datatype ddl = CreateTable string "table_item list" | CreateIndex string string "string list"

definition quoted :: "string \<Rightarrow> string" where
  "quoted s = CHR 0x27 # s @ [CHR 0x27]"

fun attr_text :: "column_attr \<Rightarrow> string" where
  "attr_text NotNull = '' NOT NULL''"
| "attr_text PrimaryColumn = '' PRIMARY KEY''"
| "attr_text (DefaultTo v) = '' DEFAULT '' @ v"
| "attr_text (OnUpdate v) = '' ON UPDATE '' @ v"

definition column_list :: "string list \<Rightarrow> string" where
  "column_list cs = ''('' @ join '', '' cs @ '')''"

fun item_text :: "table_item \<Rightarrow> string" where
  "item_text (Column name ty attrs) = name @ '' '' @ ty @ concat (map attr_text attrs)"
| "item_text (PrimaryKey cs) = ''PRIMARY KEY '' @ column_list cs"
| "item_text (UniqueKey name cs) =
     ''UNIQUE '' @ (if name = [] then [] else ''KEY '' @ name @ '' '') @ column_list cs"
| "item_text (IndexKey name cs) = ''KEY '' @ name @ '' '' @ column_list cs"

fun ddl_text :: "ddl \<Rightarrow> string" where
  "ddl_text (CreateTable name items) =
     ''CREATE TABLE IF NOT EXISTS '' @ name @ '' ('' @ [CHR 0x0A] @ ''    '' @
     join ('','' @ [CHR 0x0A] @ ''    '') (map item_text items) @ [CHR 0x0A] @ '');''"
| "ddl_text (CreateIndex name table cs) =
     ''CREATE INDEX IF NOT EXISTS '' @ name @ '' ON '' @ table @ '' '' @ column_list cs @ '';''"

record migration =
  mg_id :: string
  mg_description :: string
  mg_statements :: "ddl list"

definition required_tables :: "string list" where
  "required_tables = [''securities'', ''trading_days'', ''history_ticks'', ''kline_bars'',
     ''history_coverage'', ''xdxr_events'', ''finance_snapshots'', ''backfill_tasks'']"

definition postgres_statements :: "ddl list" where
  "postgres_statements = [
    CreateTable ''securities'' [
      Column ''market'' ''TEXT'' [NotNull],
      Column ''code'' ''TEXT'' [NotNull],
      Column ''name'' ''TEXT'' [NotNull, DefaultTo (quoted [])],
      Column ''type'' ''TEXT'' [NotNull, DefaultTo (quoted ''unknown'')],
      Column ''status'' ''TEXT'' [NotNull, DefaultTo (quoted ''unknown'')],
      Column ''fields'' ''JSONB'' [NotNull, DefaultTo (quoted ''{}'' @ ''::jsonb'')],
      Column ''updated_at'' ''TIMESTAMPTZ'' [NotNull, DefaultTo ''now()''],
      PrimaryKey [''market'', ''code'']],
    CreateTable ''trading_days'' [
      Column ''market'' ''TEXT'' [NotNull],
      Column ''trade_date'' ''DATE'' [NotNull],
      Column ''is_open'' ''BOOLEAN'' [NotNull],
      Column ''updated_at'' ''TIMESTAMPTZ'' [NotNull, DefaultTo ''now()''],
      PrimaryKey [''market'', ''trade_date'']],
    CreateTable ''history_ticks'' [
      Column ''market'' ''TEXT'' [NotNull],
      Column ''code'' ''TEXT'' [NotNull],
      Column ''trade_date'' ''DATE'' [NotNull],
      Column ''trade_time'' ''TIMESTAMPTZ'' [NotNull],
      Column ''price'' ''NUMERIC(20, 6)'' [NotNull],
      Column ''volume'' ''BIGINT'' [NotNull],
      Column ''amount'' ''NUMERIC(24, 6)'' [NotNull, DefaultTo ''0''],
      Column ''direction'' ''TEXT'' [NotNull, DefaultTo (quoted ''unknown'')],
      Column ''sequence'' ''BIGINT'' [NotNull, DefaultTo ''0''],
      Column ''source'' ''TEXT'' [NotNull, DefaultTo (quoted [])],
      Column ''source_address'' ''TEXT'' [NotNull, DefaultTo (quoted [])],
      Column ''fetch_time'' ''TIMESTAMPTZ'' [],
      Column ''checksum'' ''TEXT'' [NotNull, DefaultTo (quoted [])],
      PrimaryKey [''market'', ''code'', ''trade_date'', ''trade_time'', ''sequence'']],
    CreateIndex ''history_ticks_symbol_time_idx'' ''history_ticks'' [''market'', ''code'', ''trade_date'', ''trade_time''],
    CreateTable ''kline_bars'' [
      Column ''market'' ''TEXT'' [NotNull],
      Column ''code'' ''TEXT'' [NotNull],
      Column ''period'' ''TEXT'' [NotNull],
      Column ''adjust_type'' ''TEXT'' [NotNull, DefaultTo (quoted ''none'')],
      Column ''bar_time'' ''TIMESTAMPTZ'' [NotNull],
      Column ''open'' ''NUMERIC(20, 6)'' [NotNull],
      Column ''high'' ''NUMERIC(20, 6)'' [NotNull],
      Column ''low'' ''NUMERIC(20, 6)'' [NotNull],
      Column ''close'' ''NUMERIC(20, 6)'' [NotNull],
      Column ''volume'' ''NUMERIC(24, 6)'' [NotNull, DefaultTo ''0''],
      Column ''amount'' ''NUMERIC(24, 6)'' [NotNull, DefaultTo ''0''],
      Column ''source'' ''TEXT'' [NotNull, DefaultTo (quoted [])],
      Column ''source_address'' ''TEXT'' [NotNull, DefaultTo (quoted [])],
      Column ''fetch_time'' ''TIMESTAMPTZ'' [],
      Column ''checksum'' ''TEXT'' [NotNull, DefaultTo (quoted [])],
      PrimaryKey [''market'', ''code'', ''period'', ''adjust_type'', ''bar_time'']],
    CreateIndex ''kline_bars_symbol_range_idx'' ''kline_bars'' [''market'', ''code'', ''period'', ''adjust_type'', ''bar_time''],
    CreateTable ''history_coverage'' [
      Column ''dataset'' ''TEXT'' [NotNull],
      Column ''market'' ''TEXT'' [NotNull],
      Column ''code'' ''TEXT'' [NotNull],
      Column ''trade_date'' ''DATE'' [NotNull, DefaultTo (''DATE '' @ quoted ''1970-01-01'')],
      Column ''period'' ''TEXT'' [NotNull, DefaultTo (quoted [])],
      Column ''adjust_type'' ''TEXT'' [NotNull, DefaultTo (quoted ''none'')],
      Column ''status'' ''TEXT'' [NotNull],
      Column ''row_count'' ''BIGINT'' [NotNull, DefaultTo ''0''],
      Column ''checksum'' ''TEXT'' [NotNull, DefaultTo (quoted [])],
      Column ''source_address'' ''TEXT'' [NotNull, DefaultTo (quoted [])],
      Column ''last_fetch_time'' ''TIMESTAMPTZ'' [],
      Column ''last_error'' ''TEXT'' [NotNull, DefaultTo (quoted [])],
      Column ''updated_at'' ''TIMESTAMPTZ'' [NotNull, DefaultTo ''now()''],
      PrimaryKey [''dataset'', ''market'', ''code'', ''trade_date'', ''period'', ''adjust_type'']],
    CreateTable ''xdxr_events'' [
      Column ''market'' ''TEXT'' [NotNull],
      Column ''code'' ''TEXT'' [NotNull],
      Column ''event_date'' ''DATE'' [NotNull],
      Column ''event_type'' ''TEXT'' [NotNull, DefaultTo (quoted [])],
      Column ''cash_dividend'' ''NUMERIC(20, 6)'' [NotNull, DefaultTo ''0''],
      Column ''bonus_share'' ''NUMERIC(20, 6)'' [NotNull, DefaultTo ''0''],
      Column ''allotment_price'' ''NUMERIC(20, 6)'' [NotNull, DefaultTo ''0''],
      Column ''allotment_ratio'' ''NUMERIC(20, 6)'' [NotNull, DefaultTo ''0''],
      Column ''raw_fields'' ''JSONB'' [NotNull, DefaultTo (quoted ''{}'' @ ''::jsonb'')],
      Column ''updated_at'' ''TIMESTAMPTZ'' [NotNull, DefaultTo ''now()''],
      PrimaryKey [''market'', ''code'', ''event_date'', ''event_type'']],
    CreateTable ''finance_snapshots'' [
      Column ''market'' ''TEXT'' [NotNull],
      Column ''code'' ''TEXT'' [NotNull],
      Column ''fields'' ''JSONB'' [NotNull, DefaultTo (quoted ''{}'' @ ''::jsonb'')],
      Column ''source_time'' ''TIMESTAMPTZ'' [],
      Column ''updated_at'' ''TIMESTAMPTZ'' [NotNull, DefaultTo ''now()''],
      PrimaryKey [''market'', ''code'']],
    CreateTable ''backfill_tasks'' [
      Column ''task_id'' ''TEXT'' [PrimaryColumn],
      Column ''dataset'' ''TEXT'' [NotNull],
      Column ''market'' ''TEXT'' [NotNull],
      Column ''code'' ''TEXT'' [NotNull],
      Column ''start_date'' ''DATE'' [NotNull],
      Column ''end_date'' ''DATE'' [NotNull],
      Column ''period'' ''TEXT'' [NotNull, DefaultTo (quoted [])],
      Column ''adjust_type'' ''TEXT'' [NotNull, DefaultTo (quoted ''none'')],
      Column ''priority'' ''INTEGER'' [NotNull, DefaultTo ''0''],
      Column ''status'' ''TEXT'' [NotNull],
      Column ''retry_count'' ''INTEGER'' [NotNull, DefaultTo ''0''],
      Column ''next_retry_time'' ''TIMESTAMPTZ'' [],
      Column ''error_message'' ''TEXT'' [NotNull, DefaultTo (quoted [])],
      Column ''created_at'' ''TIMESTAMPTZ'' [NotNull, DefaultTo ''now()''],
      Column ''updated_at'' ''TIMESTAMPTZ'' [NotNull, DefaultTo ''now()''],
      UniqueKey [] [''dataset'', ''market'', ''code'', ''start_date'', ''end_date'', ''period'', ''adjust_type'']],
    CreateIndex ''backfill_tasks_pick_idx'' ''backfill_tasks'' [''status'', ''priority DESC'', ''created_at'']]"

definition mysql_statements :: "ddl list" where
  "mysql_statements = [
    CreateTable ''securities'' [
      Column ''market'' ''VARCHAR(16)'' [NotNull],
      Column ''code'' ''VARCHAR(32)'' [NotNull],
      Column ''name'' ''VARCHAR(128)'' [NotNull, DefaultTo (quoted [])],
      Column ''type'' ''VARCHAR(32)'' [NotNull, DefaultTo (quoted ''unknown'')],
      Column ''status'' ''VARCHAR(32)'' [NotNull, DefaultTo (quoted ''unknown'')],
      Column ''fields'' ''JSON'' [NotNull],
      Column ''updated_at'' ''TIMESTAMP'' [NotNull, DefaultTo ''CURRENT_TIMESTAMP'', OnUpdate ''CURRENT_TIMESTAMP''],
      PrimaryKey [''market'', ''code'']],
    CreateTable ''trading_days'' [
      Column ''market'' ''VARCHAR(16)'' [NotNull],
      Column ''trade_date'' ''DATE'' [NotNull],
      Column ''is_open'' ''BOOLEAN'' [NotNull],
      Column ''updated_at'' ''TIMESTAMP'' [NotNull, DefaultTo ''CURRENT_TIMESTAMP'', OnUpdate ''CURRENT_TIMESTAMP''],
      PrimaryKey [''market'', ''trade_date'']],
    CreateTable ''history_ticks'' [
      Column ''market'' ''VARCHAR(16)'' [NotNull],
      Column ''code'' ''VARCHAR(32)'' [NotNull],
      Column ''trade_date'' ''DATE'' [NotNull],
      Column ''trade_time'' ''DATETIME(3)'' [NotNull],
      Column ''price'' ''DECIMAL(20, 6)'' [NotNull],
      Column ''volume'' ''BIGINT'' [NotNull],
      Column ''amount'' ''DECIMAL(24, 6)'' [NotNull, DefaultTo ''0''],
      Column ''direction'' ''VARCHAR(32)'' [NotNull, DefaultTo (quoted ''unknown'')],
      Column ''sequence'' ''BIGINT'' [NotNull, DefaultTo ''0''],
      Column ''source'' ''VARCHAR(32)'' [NotNull, DefaultTo (quoted [])],
      Column ''source_address'' ''VARCHAR(255)'' [NotNull, DefaultTo (quoted [])],
      Column ''fetch_time'' ''DATETIME(3)'' [],
      Column ''checksum'' ''VARCHAR(128)'' [NotNull, DefaultTo (quoted [])],
      PrimaryKey [''market'', ''code'', ''trade_date'', ''trade_time'', ''sequence''],
      IndexKey ''history_ticks_symbol_time_idx'' [''market'', ''code'', ''trade_date'', ''trade_time'']],
    CreateTable ''kline_bars'' [
      Column ''market'' ''VARCHAR(16)'' [NotNull],
      Column ''code'' ''VARCHAR(32)'' [NotNull],
      Column ''period'' ''VARCHAR(16)'' [NotNull],
      Column ''adjust_type'' ''VARCHAR(16)'' [NotNull, DefaultTo (quoted ''none'')],
      Column ''bar_time'' ''DATETIME(3)'' [NotNull],
      Column ''open'' ''DECIMAL(20, 6)'' [NotNull],
      Column ''high'' ''DECIMAL(20, 6)'' [NotNull],
      Column ''low'' ''DECIMAL(20, 6)'' [NotNull],
      Column ''close'' ''DECIMAL(20, 6)'' [NotNull],
      Column ''volume'' ''DECIMAL(24, 6)'' [NotNull, DefaultTo ''0''],
      Column ''amount'' ''DECIMAL(24, 6)'' [NotNull, DefaultTo ''0''],
      Column ''source'' ''VARCHAR(32)'' [NotNull, DefaultTo (quoted [])],
      Column ''source_address'' ''VARCHAR(255)'' [NotNull, DefaultTo (quoted [])],
      Column ''fetch_time'' ''DATETIME(3)'' [],
      Column ''checksum'' ''VARCHAR(128)'' [NotNull, DefaultTo (quoted [])],
      PrimaryKey [''market'', ''code'', ''period'', ''adjust_type'', ''bar_time''],
      IndexKey ''kline_bars_symbol_range_idx'' [''market'', ''code'', ''period'', ''adjust_type'', ''bar_time'']],
    CreateTable ''history_coverage'' [
      Column ''dataset'' ''VARCHAR(32)'' [NotNull],
      Column ''market'' ''VARCHAR(16)'' [NotNull],
      Column ''code'' ''VARCHAR(32)'' [NotNull],
      Column ''trade_date'' ''DATE'' [NotNull, DefaultTo (quoted ''1970-01-01'')],
      Column ''period'' ''VARCHAR(16)'' [NotNull, DefaultTo (quoted [])],
      Column ''adjust_type'' ''VARCHAR(16)'' [NotNull, DefaultTo (quoted ''none'')],
      Column ''status'' ''VARCHAR(32)'' [NotNull],
      Column ''row_count'' ''BIGINT'' [NotNull, DefaultTo ''0''],
      Column ''checksum'' ''VARCHAR(128)'' [NotNull, DefaultTo (quoted [])],
      Column ''source_address'' ''VARCHAR(255)'' [NotNull, DefaultTo (quoted [])],
      Column ''last_fetch_time'' ''DATETIME(3)'' [],
      Column ''last_error'' ''TEXT'' [NotNull],
      Column ''updated_at'' ''TIMESTAMP'' [NotNull, DefaultTo ''CURRENT_TIMESTAMP'', OnUpdate ''CURRENT_TIMESTAMP''],
      PrimaryKey [''dataset'', ''market'', ''code'', ''trade_date'', ''period'', ''adjust_type'']],
    CreateTable ''xdxr_events'' [
      Column ''market'' ''VARCHAR(16)'' [NotNull],
      Column ''code'' ''VARCHAR(32)'' [NotNull],
      Column ''event_date'' ''DATE'' [NotNull],
      Column ''event_type'' ''VARCHAR(64)'' [NotNull, DefaultTo (quoted [])],
      Column ''cash_dividend'' ''DECIMAL(20, 6)'' [NotNull, DefaultTo ''0''],
      Column ''bonus_share'' ''DECIMAL(20, 6)'' [NotNull, DefaultTo ''0''],
      Column ''allotment_price'' ''DECIMAL(20, 6)'' [NotNull, DefaultTo ''0''],
      Column ''allotment_ratio'' ''DECIMAL(20, 6)'' [NotNull, DefaultTo ''0''],
      Column ''raw_fields'' ''JSON'' [NotNull],
      Column ''updated_at'' ''TIMESTAMP'' [NotNull, DefaultTo ''CURRENT_TIMESTAMP'', OnUpdate ''CURRENT_TIMESTAMP''],
      PrimaryKey [''market'', ''code'', ''event_date'', ''event_type'']],
    CreateTable ''finance_snapshots'' [
      Column ''market'' ''VARCHAR(16)'' [NotNull],
      Column ''code'' ''VARCHAR(32)'' [NotNull],
      Column ''fields'' ''JSON'' [NotNull],
      Column ''source_time'' ''DATETIME(3)'' [],
      Column ''updated_at'' ''TIMESTAMP'' [NotNull, DefaultTo ''CURRENT_TIMESTAMP'', OnUpdate ''CURRENT_TIMESTAMP''],
      PrimaryKey [''market'', ''code'']],
    CreateTable ''backfill_tasks'' [
      Column ''task_id'' ''VARCHAR(64)'' [NotNull, PrimaryColumn],
      Column ''dataset'' ''VARCHAR(32)'' [NotNull],
      Column ''market'' ''VARCHAR(16)'' [NotNull],
      Column ''code'' ''VARCHAR(32)'' [NotNull],
      Column ''start_date'' ''DATE'' [NotNull],
      Column ''end_date'' ''DATE'' [NotNull],
      Column ''period'' ''VARCHAR(16)'' [NotNull, DefaultTo (quoted [])],
      Column ''adjust_type'' ''VARCHAR(16)'' [NotNull, DefaultTo (quoted ''none'')],
      Column ''priority'' ''INT'' [NotNull, DefaultTo ''0''],
      Column ''status'' ''VARCHAR(32)'' [NotNull],
      Column ''retry_count'' ''INT'' [NotNull, DefaultTo ''0''],
      Column ''next_retry_time'' ''DATETIME(3)'' [],
      Column ''error_message'' ''TEXT'' [NotNull],
      Column ''created_at'' ''TIMESTAMP'' [NotNull, DefaultTo ''CURRENT_TIMESTAMP''],
      Column ''updated_at'' ''TIMESTAMP'' [NotNull, DefaultTo ''CURRENT_TIMESTAMP'', OnUpdate ''CURRENT_TIMESTAMP''],
      UniqueKey ''backfill_tasks_dedupe_idx'' [''dataset'', ''market'', ''code'', ''start_date'', ''end_date'', ''period'', ''adjust_type''],
      IndexKey ''backfill_tasks_pick_idx'' [''status'', ''priority'', ''created_at'']]]"

definition sqlite_statements :: "ddl list" where
  "sqlite_statements = [
    CreateTable ''securities'' [
      Column ''market'' ''TEXT'' [NotNull],
      Column ''code'' ''TEXT'' [NotNull],
      Column ''name'' ''TEXT'' [NotNull, DefaultTo (quoted [])],
      Column ''type'' ''TEXT'' [NotNull, DefaultTo (quoted ''unknown'')],
      Column ''status'' ''TEXT'' [NotNull, DefaultTo (quoted ''unknown'')],
      Column ''fields'' ''TEXT'' [NotNull, DefaultTo (quoted ''{}'')],
      Column ''updated_at'' ''DATETIME'' [NotNull, DefaultTo ''CURRENT_TIMESTAMP''],
      PrimaryKey [''market'', ''code'']],
    CreateTable ''trading_days'' [
      Column ''market'' ''TEXT'' [NotNull],
      Column ''trade_date'' ''DATE'' [NotNull],
      Column ''is_open'' ''BOOLEAN'' [NotNull],
      Column ''updated_at'' ''DATETIME'' [NotNull, DefaultTo ''CURRENT_TIMESTAMP''],
      PrimaryKey [''market'', ''trade_date'']],
    CreateTable ''history_ticks'' [
      Column ''market'' ''TEXT'' [NotNull],
      Column ''code'' ''TEXT'' [NotNull],
      Column ''trade_date'' ''DATE'' [NotNull],
      Column ''trade_time'' ''DATETIME'' [NotNull],
      Column ''price'' ''REAL'' [NotNull],
      Column ''volume'' ''INTEGER'' [NotNull],
      Column ''amount'' ''REAL'' [NotNull, DefaultTo ''0''],
      Column ''direction'' ''TEXT'' [NotNull, DefaultTo (quoted ''unknown'')],
      Column ''sequence'' ''INTEGER'' [NotNull, DefaultTo ''0''],
      Column ''source'' ''TEXT'' [NotNull, DefaultTo (quoted [])],
      Column ''source_address'' ''TEXT'' [NotNull, DefaultTo (quoted [])],
      Column ''fetch_time'' ''DATETIME'' [],
      Column ''checksum'' ''TEXT'' [NotNull, DefaultTo (quoted [])],
      PrimaryKey [''market'', ''code'', ''trade_date'', ''trade_time'', ''sequence'']],
    CreateIndex ''history_ticks_symbol_time_idx'' ''history_ticks'' [''market'', ''code'', ''trade_date'', ''trade_time''],
    CreateTable ''kline_bars'' [
      Column ''market'' ''TEXT'' [NotNull],
      Column ''code'' ''TEXT'' [NotNull],
      Column ''period'' ''TEXT'' [NotNull],
      Column ''adjust_type'' ''TEXT'' [NotNull, DefaultTo (quoted ''none'')],
      Column ''bar_time'' ''DATETIME'' [NotNull],
      Column ''open'' ''REAL'' [NotNull],
      Column ''high'' ''REAL'' [NotNull],
      Column ''low'' ''REAL'' [NotNull],
      Column ''close'' ''REAL'' [NotNull],
      Column ''volume'' ''REAL'' [NotNull, DefaultTo ''0''],
      Column ''amount'' ''REAL'' [NotNull, DefaultTo ''0''],
      Column ''source'' ''TEXT'' [NotNull, DefaultTo (quoted [])],
      Column ''source_address'' ''TEXT'' [NotNull, DefaultTo (quoted [])],
      Column ''fetch_time'' ''DATETIME'' [],
      Column ''checksum'' ''TEXT'' [NotNull, DefaultTo (quoted [])],
      PrimaryKey [''market'', ''code'', ''period'', ''adjust_type'', ''bar_time'']],
    CreateIndex ''kline_bars_symbol_range_idx'' ''kline_bars'' [''market'', ''code'', ''period'', ''adjust_type'', ''bar_time''],
    CreateTable ''history_coverage'' [
      Column ''dataset'' ''TEXT'' [NotNull],
      Column ''market'' ''TEXT'' [NotNull],
      Column ''code'' ''TEXT'' [NotNull],
      Column ''trade_date'' ''DATE'' [NotNull, DefaultTo (quoted ''1970-01-01'')],
      Column ''period'' ''TEXT'' [NotNull, DefaultTo (quoted [])],
      Column ''adjust_type'' ''TEXT'' [NotNull, DefaultTo (quoted ''none'')],
      Column ''status'' ''TEXT'' [NotNull],
      Column ''row_count'' ''INTEGER'' [NotNull, DefaultTo ''0''],
      Column ''checksum'' ''TEXT'' [NotNull, DefaultTo (quoted [])],
      Column ''source_address'' ''TEXT'' [NotNull, DefaultTo (quoted [])],
      Column ''last_fetch_time'' ''DATETIME'' [],
      Column ''last_error'' ''TEXT'' [NotNull, DefaultTo (quoted [])],
      Column ''updated_at'' ''DATETIME'' [NotNull, DefaultTo ''CURRENT_TIMESTAMP''],
      PrimaryKey [''dataset'', ''market'', ''code'', ''trade_date'', ''period'', ''adjust_type'']],
    CreateTable ''xdxr_events'' [
      Column ''market'' ''TEXT'' [NotNull],
      Column ''code'' ''TEXT'' [NotNull],
      Column ''event_date'' ''DATE'' [NotNull],
      Column ''event_type'' ''TEXT'' [NotNull, DefaultTo (quoted [])],
      Column ''cash_dividend'' ''REAL'' [NotNull, DefaultTo ''0''],
      Column ''bonus_share'' ''REAL'' [NotNull, DefaultTo ''0''],
      Column ''allotment_price'' ''REAL'' [NotNull, DefaultTo ''0''],
      Column ''allotment_ratio'' ''REAL'' [NotNull, DefaultTo ''0''],
      Column ''raw_fields'' ''TEXT'' [NotNull, DefaultTo (quoted ''{}'')],
      Column ''updated_at'' ''DATETIME'' [NotNull, DefaultTo ''CURRENT_TIMESTAMP''],
      PrimaryKey [''market'', ''code'', ''event_date'', ''event_type'']],
    CreateTable ''finance_snapshots'' [
      Column ''market'' ''TEXT'' [NotNull],
      Column ''code'' ''TEXT'' [NotNull],
      Column ''fields'' ''TEXT'' [NotNull, DefaultTo (quoted ''{}'')],
      Column ''source_time'' ''DATETIME'' [],
      Column ''updated_at'' ''DATETIME'' [NotNull, DefaultTo ''CURRENT_TIMESTAMP''],
      PrimaryKey [''market'', ''code'']],
    CreateTable ''backfill_tasks'' [
      Column ''task_id'' ''TEXT'' [PrimaryColumn],
      Column ''dataset'' ''TEXT'' [NotNull],
      Column ''market'' ''TEXT'' [NotNull],
      Column ''code'' ''TEXT'' [NotNull],
      Column ''start_date'' ''DATE'' [NotNull],
      Column ''end_date'' ''DATE'' [NotNull],
      Column ''period'' ''TEXT'' [NotNull, DefaultTo (quoted [])],
      Column ''adjust_type'' ''TEXT'' [NotNull, DefaultTo (quoted ''none'')],
      Column ''priority'' ''INTEGER'' [NotNull, DefaultTo ''0''],
      Column ''status'' ''TEXT'' [NotNull],
      Column ''retry_count'' ''INTEGER'' [NotNull, DefaultTo ''0''],
      Column ''next_retry_time'' ''DATETIME'' [],
      Column ''error_message'' ''TEXT'' [NotNull, DefaultTo (quoted [])],
      Column ''created_at'' ''DATETIME'' [NotNull, DefaultTo ''CURRENT_TIMESTAMP''],
      Column ''updated_at'' ''DATETIME'' [NotNull, DefaultTo ''CURRENT_TIMESTAMP''],
      UniqueKey [] [''dataset'', ''market'', ''code'', ''start_date'', ''end_date'', ''period'', ''adjust_type'']],
    CreateIndex ''backfill_tasks_pick_idx'' ''backfill_tasks'' [''status'', ''priority DESC'', ''created_at'']]"

definition core_migration :: "ddl list \<Rightarrow> migration" where
  "core_migration statements = \<lparr>mg_id = ''001_core_marketdata_tables'',
     mg_description = ''core securities, history, coverage and backfill tables'',
     mg_statements = statements\<rparr>"

definition migrations :: "string \<Rightarrow> migration list result" where
  "migrations dialect =
     (if dialect = DialectPostgres then Inr [core_migration postgres_statements]
      else if dialect = DialectMySQL then Inr [core_migration mysql_statements]
      else if dialect = DialectSQLite then Inr [core_migration sqlite_statements]
      else Inl (OtherError (''unsupported storage dialect '' @ go_quote dialect)))"

section \<open>The statements of the store\<close>

text \<open>
  What a Go value bound to a placeholder, or a column scanned into a Go variable, is: a text, an
  integer, a \<open>float64\<close>, a day, an instant, an instant or \<open>NULL\<close>, \<open>NULL\<close>, or a JSON text.
\<close>

datatype sql_kind = KText | KInt | KNum | KDay | KTime | KTimeOrNull | KNull | KJson

text \<open>An insert: its table, its columns with what is bound to them, and its conflict target (empty
  for a plain insert).\<close>

record sql_insert =
  in_table :: string
  in_columns :: "(string \<times> sql_kind) list"
  in_target :: "string list"

definition security_insert :: sql_insert where
  "security_insert = \<lparr>in_table = ''securities'',
     in_columns = [(''market'', KText), (''code'', KText), (''name'', KText), (''type'', KText),
       (''status'', KText), (''fields'', KJson), (''updated_at'', KTime)],
     in_target = [''market'', ''code'']\<rparr>"

definition coverage_insert :: sql_insert where
  "coverage_insert = \<lparr>in_table = ''history_coverage'',
     in_columns = [(''dataset'', KText), (''market'', KText), (''code'', KText), (''trade_date'', KDay),
       (''period'', KText), (''adjust_type'', KText), (''status'', KText), (''row_count'', KInt),
       (''checksum'', KText), (''source_address'', KText), (''last_fetch_time'', KTimeOrNull),
       (''last_error'', KText), (''updated_at'', KTime)],
     in_target = [''dataset'', ''market'', ''code'', ''trade_date'', ''period'', ''adjust_type'']\<rparr>"

definition tick_insert :: sql_insert where
  "tick_insert = \<lparr>in_table = ''history_ticks'',
     in_columns = [(''market'', KText), (''code'', KText), (''trade_date'', KDay), (''trade_time'', KTime),
       (''price'', KNum), (''volume'', KInt), (''amount'', KNum), (''direction'', KText), (''sequence'', KInt),
       (''source'', KText), (''source_address'', KText), (''fetch_time'', KNull), (''checksum'', KText)],
     in_target = [''market'', ''code'', ''trade_date'', ''trade_time'', ''sequence'']\<rparr>"

definition bar_insert :: sql_insert where
  "bar_insert = \<lparr>in_table = ''kline_bars'',
     in_columns = [(''market'', KText), (''code'', KText), (''period'', KText), (''adjust_type'', KText),
       (''bar_time'', KTime), (''open'', KNum), (''high'', KNum), (''low'', KNum), (''close'', KNum),
       (''volume'', KNum), (''amount'', KNum), (''source'', KText), (''source_address'', KText),
       (''fetch_time'', KNull), (''checksum'', KText)],
     in_target = [''market'', ''code'', ''period'', ''adjust_type'', ''bar_time'']\<rparr>"

definition task_columns :: "(string \<times> sql_kind) list" where
  "task_columns = [(''task_id'', KText), (''dataset'', KText), (''market'', KText), (''code'', KText),
     (''start_date'', KDay), (''end_date'', KDay), (''period'', KText), (''adjust_type'', KText),
     (''priority'', KInt), (''status'', KText), (''retry_count'', KInt), (''next_retry_time'', KTimeOrNull),
     (''error_message'', KText), (''created_at'', KTime), (''updated_at'', KTime)]"

definition task_insert :: sql_insert where
  "task_insert = \<lparr>in_table = ''backfill_tasks'', in_columns = task_columns, in_target = []\<rparr>"

text \<open>The columns \<open>Enqueue\<close> looks a task up by.\<close>

definition task_key_columns :: "string list" where
  "task_key_columns = [''dataset'', ''market'', ''code'', ''start_date'', ''end_date'', ''period'', ''adjust_type'']"

text \<open>The columns each query reads, with what they are scanned into.\<close>

definition coverage_columns :: "(string \<times> sql_kind) list" where
  "coverage_columns = [(''dataset'', KText), (''market'', KText), (''code'', KText), (''trade_date'', KTimeOrNull),
     (''period'', KText), (''adjust_type'', KText), (''status'', KText), (''row_count'', KInt),
     (''checksum'', KText), (''source_address'', KText), (''last_fetch_time'', KTimeOrNull), (''last_error'', KText)]"

definition security_columns :: "(string \<times> sql_kind) list" where
  "security_columns = [(''market'', KText), (''code'', KText), (''name'', KText), (''type'', KText),
     (''status'', KText), (''fields'', KJson)]"

definition tick_columns :: "(string \<times> sql_kind) list" where
  "tick_columns = [(''market'', KText), (''code'', KText), (''trade_date'', KTimeOrNull),
     (''trade_time'', KTimeOrNull), (''price'', KNum), (''volume'', KInt), (''amount'', KNum),
     (''direction'', KText), (''sequence'', KInt), (''source'', KText)]"

definition bar_columns :: "(string \<times> sql_kind) list" where
  "bar_columns = [(''market'', KText), (''code'', KText), (''period'', KText), (''adjust_type'', KText),
     (''bar_time'', KTimeOrNull), (''open'', KNum), (''high'', KNum), (''low'', KNum), (''close'', KNum),
     (''volume'', KNum), (''amount'', KNum), (''source'', KText)]"

definition scanned_task_columns :: "(string \<times> sql_kind) list" where
  "scanned_task_columns = [(''task_id'', KText), (''dataset'', KText), (''market'', KText), (''code'', KText),
     (''start_date'', KTimeOrNull), (''end_date'', KTimeOrNull), (''period'', KText), (''adjust_type'', KText),
     (''priority'', KInt), (''status'', KText), (''retry_count'', KInt), (''next_retry_time'', KTimeOrNull),
     (''error_message'', KText), (''created_at'', KTimeOrNull), (''updated_at'', KTimeOrNull)]"

section \<open>Typing the statements\<close>

text \<open>The kind of values a column type holds, from the SQL dialects' documentation.\<close>

definition type_kind :: "string \<Rightarrow> sql_kind" where
  "type_kind ty =
     (let base = takeWhile (\<lambda>c. c \<noteq> CHR ''('') ty in
      if base \<in> set [''TEXT'', ''VARCHAR''] then KText
      else if base \<in> set [''JSONB'', ''JSON''] then KJson
      else if base \<in> set [''BIGINT'', ''INTEGER'', ''INT''] then KInt
      else if base \<in> set [''NUMERIC'', ''DECIMAL'', ''REAL''] then KNum
      else if base = ''DATE'' then KDay
      else if base \<in> set [''TIMESTAMPTZ'', ''TIMESTAMP'', ''DATETIME''] then KTime
      else KNull)"

fun table_items :: "ddl list \<Rightarrow> string \<Rightarrow> table_item list option" where
  "table_items [] name = None"
| "table_items (CreateTable t items # ds) name = (if t = name then Some items else table_items ds name)"
| "table_items (CreateIndex i t cs # ds) name = table_items ds name"

fun find_column :: "table_item list \<Rightarrow> string \<Rightarrow> (string \<times> column_attr list) option" where
  "find_column [] name = None"
| "find_column (Column c ty attrs # items) name = (if c = name then Some (ty, attrs) else find_column items name)"
| "find_column (PrimaryKey cs # items) name = find_column items name"
| "find_column (UniqueKey u cs # items) name = find_column items name"
| "find_column (IndexKey u cs # items) name = find_column items name"

definition nullable :: "column_attr list \<Rightarrow> bool" where
  "nullable attrs \<longleftrightarrow> NotNull \<notin> set attrs \<and> PrimaryColumn \<notin> set attrs"

text \<open>A bound value fits a column; a JSON text also fits a text column.\<close>

fun bound_fits :: "sql_kind \<Rightarrow> sql_kind \<Rightarrow> bool \<Rightarrow> bool" where
  "bound_fits KTimeOrNull col null \<longleftrightarrow> col = KTime \<and> null"
| "bound_fits KNull col null \<longleftrightarrow> null"
| "bound_fits KJson col null \<longleftrightarrow> col = KJson \<or> col = KText"
| "bound_fits k col null \<longleftrightarrow> k = col"

text \<open>A column can be scanned: only a time value takes a \<open>NULL\<close>.\<close>

fun scan_fits :: "sql_kind \<Rightarrow> sql_kind \<Rightarrow> bool \<Rightarrow> bool" where
  "scan_fits KTimeOrNull col null \<longleftrightarrow> col = KTime \<or> col = KDay"
| "scan_fits KJson col null \<longleftrightarrow> (col = KJson \<or> col = KText) \<and> \<not> null"
| "scan_fits k col null \<longleftrightarrow> k = col \<and> \<not> null"

definition columns_fit :: "(sql_kind \<Rightarrow> sql_kind \<Rightarrow> bool \<Rightarrow> bool) \<Rightarrow> table_item list \<Rightarrow> (string \<times> sql_kind) list \<Rightarrow> bool" where
  "columns_fit fits items cs = list_all (\<lambda>(c, k). case find_column items c of
     None \<Rightarrow> False | Some (ty, attrs) \<Rightarrow> fits k (type_kind ty) (nullable attrs)) cs"

fun unique_targets :: "table_item list \<Rightarrow> string list list" where
  "unique_targets [] = []"
| "unique_targets (Column c ty attrs # items) =
     (if PrimaryColumn \<in> set attrs then [c] # unique_targets items else unique_targets items)"
| "unique_targets (PrimaryKey cs # items) = cs # unique_targets items"
| "unique_targets (UniqueKey u cs # items) = cs # unique_targets items"
| "unique_targets (IndexKey u cs # items) = unique_targets items"

fun is_default :: "column_attr \<Rightarrow> bool" where
  "is_default (DefaultTo v) = True"
| "is_default a = False"

fun needs_value :: "table_item \<Rightarrow> string list" where
  "needs_value (Column c ty attrs) = (if nullable attrs \<or> list_ex is_default attrs then [] else [c])"
| "needs_value item = []"

text \<open>
  An insert is well typed: the table exists, every column does and takes what is bound to it, no
  column that needs a value is left out, and the conflict target is the table's only unique key.
\<close>

definition insert_typed :: "ddl list \<Rightarrow> sql_insert \<Rightarrow> bool" where
  "insert_typed ds i =
     (case table_items ds (in_table i) of
        None \<Rightarrow> False
      | Some items \<Rightarrow>
          columns_fit bound_fits items (in_columns i) \<and>
          list_all (\<lambda>c. c \<in> set (map fst (in_columns i))) (concat (map needs_value items)) \<and>
          distinct (map fst (in_columns i)) \<and>
          (in_target i = [] \<or> unique_targets items = [in_target i]))"

definition query_typed :: "ddl list \<Rightarrow> string \<Rightarrow> (string \<times> sql_kind) list \<Rightarrow> bool" where
  "query_typed ds table cs =
     (case table_items ds table of None \<Rightarrow> False | Some items \<Rightarrow> columns_fit scan_fits items cs)"

fun created_tables :: "ddl list \<Rightarrow> string list" where
  "created_tables [] = []"
| "created_tables (CreateTable t items # ds) = t # created_tables ds"
| "created_tables (CreateIndex i t cs # ds) = created_tables ds"

fun column_names :: "table_item list \<Rightarrow> string list" where
  "column_names [] = []"
| "column_names (Column c ty attrs # items) = c # column_names items"
| "column_names (PrimaryKey cs # items) = column_names items"
| "column_names (UniqueKey u cs # items) = column_names items"
| "column_names (IndexKey u cs # items) = column_names items"

definition schema_typed :: "ddl list \<Rightarrow> bool" where
  "schema_typed ds \<longleftrightarrow>
     created_tables ds = required_tables \<and>
     list_all (insert_typed ds) [security_insert, coverage_insert, tick_insert, bar_insert, task_insert] \<and>
     list_all (\<lambda>(t, cs). query_typed ds t cs) [(''history_coverage'', coverage_columns),
       (''securities'', security_columns), (''history_ticks'', tick_columns), (''kline_bars'', bar_columns),
       (''backfill_tasks'', scanned_task_columns)] \<and>
     map_option unique_targets (table_items ds ''backfill_tasks'') = Some [[''task_id''], task_key_columns]"

definition same_columns :: "ddl list \<Rightarrow> ddl list \<Rightarrow> bool" where
  "same_columns ds es = list_all (\<lambda>t. map_option column_names (table_items ds t) =
     map_option column_names (table_items es t)) required_tables"

lemma schemas_typed:
  "schema_typed postgres_statements" "schema_typed mysql_statements" "schema_typed sqlite_statements"
  by code_simp+

lemma schemas_same_columns:
  "same_columns postgres_statements mysql_statements" "same_columns postgres_statements sqlite_statements"
  by code_simp+


end
