(* ===== verification/Keyed_Merge.thy ===== *)
theory Keyed_Merge
  imports Go_Prelude "HOL-Library.Multiset"
begin

text \<open>
  The merge the history store and the market-data service share: rows are put into a Go map under
  a row key, old rows first and new rows over them, and the values of the map are sorted.  The map
  is the list of its values; a value assigned to a present key replaces the old one in place.  Go
  visits a map in no fixed order, so the locale proves that the sorted result is the same for
  every order of the values.
\<close>

fun upsert :: "('row \<Rightarrow> 'k) \<Rightarrow> 'row \<Rightarrow> 'row list \<Rightarrow> 'row list" where
  "upsert key r [] = [r]"
| "upsert key r (x # xs) = (if key x = key r then r # xs else x # upsert key r xs)"

fun upsert_all :: "('row \<Rightarrow> 'k) \<Rightarrow> 'row list \<Rightarrow> 'row list \<Rightarrow> 'row list" where
  "upsert_all key [] vals = vals"
| "upsert_all key (r # rs) vals = upsert_all key rs (upsert key r vals)"

text \<open>The values of the map after both loops, and the stable sort of the values.\<close>

definition merged_values :: "('row \<Rightarrow> 'k) \<Rightarrow> 'row list \<Rightarrow> 'row list \<Rightarrow> 'row list" where
  "merged_values key old new = upsert_all key new (upsert_all key old [])"

definition merge_rows :: "('row \<Rightarrow> 'k) \<Rightarrow> ('row \<Rightarrow> 'o::linorder) \<Rightarrow> 'row list \<Rightarrow> 'row list \<Rightarrow> 'row list" where
  "merge_rows key sk old new = sort_key sk (merged_values key old new)"

text \<open>A list of rows as a map.\<close>

definition rows_map :: "('row \<Rightarrow> 'k) \<Rightarrow> 'row list \<Rightarrow> ('k \<rightharpoonup> 'row)" where
  "rows_map key rows = map_of (map (\<lambda>r. (key r, r)) rows)"

lemma upsert_keys: "key ` set (upsert key r xs) = insert (key r) (key ` set xs)"
  by (induction xs) auto

lemma upsert_set: "set (upsert key r xs) \<subseteq> insert r (set xs)"
  by (induction xs) auto

lemma upsert_distinct: "distinct (map key xs) \<Longrightarrow> distinct (map key (upsert key r xs))"
proof (induction xs)
  case (Cons x xs)
  then show ?case using upsert_keys [of key r xs] by auto
qed simp

lemma upsert_map: "rows_map key (upsert key r xs) = (rows_map key xs)(key r \<mapsto> r)"
  by (induction xs) (auto simp: rows_map_def fun_eq_iff)

lemma upsert_all_distinct: "distinct (map key xs) \<Longrightarrow> distinct (map key (upsert_all key rs xs))"
  by (induction rs arbitrary: xs) (auto simp: upsert_distinct)

lemma upsert_all_map: "rows_map key (upsert_all key rs xs) = put_all key id rs (rows_map key xs)"
  by (induction rs arbitrary: xs) (auto simp: upsert_map)

lemma upsert_all_set: "set (upsert_all key rs xs) \<subseteq> set rs \<union> set xs"
  by (induction rs arbitrary: xs) (auto dest: upsert_set [THEN subsetD])

lemma upsert_new: "key r \<notin> key ` set xs \<Longrightarrow> upsert key r xs = xs @ [r]"
  by (induction xs) auto

lemma upsert_all_fresh:
  "distinct (map key (xs @ rs)) \<Longrightarrow> upsert_all key rs xs = xs @ rs"
  by (induction rs arbitrary: xs) (auto simp: upsert_new)

lemma merged_values_distinct: "distinct (map key (merged_values key old new))"
  by (simp add: merged_values_def upsert_all_distinct)

lemma rows_map_Nil [simp]: "rows_map key [] = Map.empty"
  by (simp add: rows_map_def)

lemma merged_values_map:
  "rows_map key (merged_values key old new) = put_all key id (old @ new) Map.empty"
  by (simp add: merged_values_def upsert_all_map put_all_append)

lemma rows_map_distinct_some:
  "distinct (map key rows) \<Longrightarrow> rows_map key rows k = Some r \<longleftrightarrow> r \<in> set rows \<and> key r = k"
  by (auto simp: rows_map_def map_of_eq_Some_iff comp_def)

lemma rows_map_perm:
  "distinct (map key xs) \<Longrightarrow> mset xs = mset ys \<Longrightarrow> rows_map key ys = rows_map key xs"
proof
  fix k assume d: "distinct (map key xs)" and m: "mset xs = mset ys"
  then have d': "distinct (map key ys)" by (metis mset_eq_imp_distinct_iff mset_map)
  have s: "set xs = set ys" using m by (rule mset_eq_setD)
  show "rows_map key ys k = rows_map key xs k"
  proof (cases "rows_map key xs k")
    case None
    then have "rows_map key ys k \<noteq> Some r" for r
      using d d' s by (metis option.distinct(1) rows_map_distinct_some)
    with None show ?thesis by (cases "rows_map key ys k") auto
  next
    case (Some r)
    then show ?thesis using d d' s by (metis rows_map_distinct_some)
  qed
qed

lemma merge_rows_map:
  "rows_map key (merge_rows key sk old new) = put_all key id (old @ new) Map.empty"
  by (metis merge_rows_def merged_values_distinct merged_values_map mset_sort rows_map_perm)

lemma merge_rows_distinct: "distinct (map key (merge_rows key sk old new))"
  by (metis merge_rows_def merged_values_distinct mset_eq_imp_distinct_iff mset_map mset_sort)

lemma merge_rows_sorted: "sorted (map sk (merge_rows key sk old new))"
  by (simp add: merge_rows_def)

lemma merge_rows_set: "set (merge_rows key sk old new) \<subseteq> set old \<union> set new"
  using upsert_all_set [of key new "upsert_all key old []"] upsert_all_set [of key old "[]"]
  by (auto simp: merge_rows_def merged_values_def)

section \<open>Rows whose key and order agree\<close>

text \<open>
  The contract a row type gives: on well-formed rows, two rows have the same key exactly when the
  order cannot tell them apart.
\<close>

locale keyed_rows =
  fixes key :: "'row \<Rightarrow> 'k" and sk :: "'row \<Rightarrow> 'o::linorder" and ok :: "'row \<Rightarrow> bool"
  assumes key_iff: "ok r \<Longrightarrow> ok s \<Longrightarrow> key r = key s \<longleftrightarrow> sk r = sk s"
begin

definition rows_ok :: "'row list \<Rightarrow> bool" where
  "rows_ok rows \<longleftrightarrow> list_all ok rows \<and> sorted_wrt (<) (map sk rows)"

lemma distinct_sk: "list_all ok rows \<Longrightarrow> distinct (map key rows) \<longleftrightarrow> distinct (map sk rows)"
  by (induction rows) (auto simp: key_iff list_all_iff image_iff)

lemma rows_ok_distinct: "rows_ok rows \<Longrightarrow> distinct (map key rows)"
  by (simp add: rows_ok_def distinct_sk strict_sorted_iff)

lemma merge_ok:
  assumes "list_all ok old" and "list_all ok new"
  shows "rows_ok (merge_rows key sk old new)"
proof -
  have o: "list_all ok (merge_rows key sk old new)"
    using assms merge_rows_set [of key sk old new] by (auto simp: list_all_iff)
  then have "distinct (map sk (merge_rows key sk old new))"
    using distinct_sk merge_rows_distinct by blast
  with o show ?thesis by (simp add: rows_ok_def strict_sorted_iff merge_rows_sorted)
qed

lemma merge_rows_ok_of:
  assumes "rows_ok old" and "list_all P old" and "list_all ok new" and "list_all P new"
  shows "rows_ok (merge_rows key sk old new) \<and> list_all P (merge_rows key sk old new)"
proof
  show "rows_ok (merge_rows key sk old new)"
    using assms by (intro merge_ok) (simp_all add: rows_ok_def)
  show "list_all P (merge_rows key sk old new)"
    using assms(2,4) merge_rows_set [of key sk old new] by (auto simp: list_all_iff)
qed

lemma merge_order_irrelevant:
  assumes "list_all ok old" and "list_all ok new" and "mset vals = mset (merged_values key old new)"
  shows "sort_key sk vals = merge_rows key sk old new"
proof -
  have a: "list_all ok (merged_values key old new)"
    using assms upsert_all_set [of key new "upsert_all key old []"] upsert_all_set [of key old "[]"]
    by (auto simp: merged_values_def list_all_iff)
  with merged_values_distinct have "distinct (map sk (merged_values key old new))"
    using distinct_sk by blast
  then have "inj_on sk (set vals)"
    by (metis assms(3) distinct_map mset_eq_setD)
  then show ?thesis unfolding merge_rows_def
    by (intro sort_key_inj_key_eq) (simp_all add: assms(3))
qed

lemma merge_Nil: "rows_ok rows \<Longrightarrow> merge_rows key sk rows [] = rows"
proof -
  assume a: "rows_ok rows"
  then have "upsert_all key rows [] = rows" by (simp add: upsert_all_fresh rows_ok_distinct)
  moreover have "sorted (map sk rows)" using a by (simp add: rows_ok_def strict_sorted_iff)
  ultimately show ?thesis by (simp add: merge_rows_def merged_values_def sort_key_id_if_sorted sorted_sort_id)
qed

lemma merge_map:
  "rows_ok old \<Longrightarrow> rows_map key (merge_rows key sk old new) = put_all key id new (rows_map key old)"
proof -
  assume "rows_ok old"
  then have "put_all key id old Map.empty = rows_map key old"
    using upsert_all_map [of key old "[]"] by (simp add: upsert_all_fresh rows_ok_distinct)
  then show ?thesis by (simp add: merge_rows_map put_all_append)
qed

end

end
