(* ===== verification/Sql_Database.thy ===== *)
theory Sql_Database
  imports Sql_Time Sql_Schema Keyed_Merge
begin

text \<open>
  The database under \<^verbatim>\<open>internal/storage/sql_store.go\<close>: the tables, calls that may fail and
  transactions (\<open>withTx\<close>).  The engine is a parameter: \<open>sql_engine\<close> says how it compares text, days
  and instants and what its driver hands back for a cell, and \<open>net\<close> what happens to the \<open>n\<close>-th call.
\<close>

section \<open>Tables\<close>

text \<open>A cell holds the Go value that was bound to it; \<open>NULL\<close> is \<open>None\<close>.\<close>

record security_row =
  rs_market :: string
  rs_code :: string
  rs_name :: string
  rs_type :: string
  rs_status :: string
  rs_fields :: string
  rs_updated :: gotime

record coverage_row =
  rc_dataset :: string
  rc_market :: string
  rc_code :: string
  rc_date :: gotime
  rc_period :: string
  rc_adjust :: string
  rc_status :: string
  rc_row_count :: int
  rc_checksum :: string
  rc_address :: string
  rc_fetch :: "gotime option"
  rc_error :: string
  rc_updated :: gotime

record tick_row =
  rt_market :: string
  rt_code :: string
  rt_date :: gotime
  rt_time :: gotime
  rt_price :: float64
  rt_volume :: int
  rt_amount :: float64
  rt_direction :: string
  rt_sequence :: int
  rt_source :: string
  rt_address :: string
  rt_fetch :: "gotime option"
  rt_checksum :: string

record bar_row =
  rb_market :: string
  rb_code :: string
  rb_period :: string
  rb_adjust :: string
  rb_time :: gotime
  rb_open :: float64
  rb_high :: float64
  rb_low :: float64
  rb_close :: float64
  rb_volume :: float64
  rb_amount :: float64
  rb_source :: string
  rb_address :: string
  rb_fetch :: "gotime option"
  rb_checksum :: string

record task_row =
  ra_id :: string
  ra_dataset :: string
  ra_market :: string
  ra_code :: string
  ra_start :: gotime
  ra_end :: gotime
  ra_period :: string
  ra_adjust :: string
  ra_priority :: int
  ra_status :: string
  ra_retry :: int
  ra_next :: "gotime option"
  ra_error :: string
  ra_created :: gotime
  ra_updated :: gotime

record sql_tables =
  tb_securities :: "security_row list"
  tb_coverage :: "coverage_row list"
  tb_ticks :: "tick_row list"
  tb_bars :: "bar_row list"
  tb_tasks :: "task_row list"

definition empty_tables :: sql_tables where
  "empty_tables = \<lparr>tb_securities = [], tb_coverage = [], tb_ticks = [], tb_bars = [], tb_tasks = []\<rparr>"

section \<open>The engine\<close>

text \<open>
  \<open>en_text\<close>: what a text is compared by (its collation); \<open>en_day\<close>, \<open>en_instant\<close>: what the day and
  instant columns are compared by; \<open>en_day_value\<close>, \<open>en_time_value\<close>: what the driver hands back for
  them; \<open>en_number\<close>: a \<open>float64\<close> after its numeric column; \<open>en_json\<close>: a JSON text after its column;
  \<open>en_duplicate\<close>: the error of a violated unique key; \<open>en_affected\<close>: whether an update that turns
  one row into another counts as an affected row.
\<close>

record sql_engine =
  en_dialect :: string
  en_text :: "string \<Rightarrow> string"
  en_day :: "gotime \<Rightarrow> int"
  en_instant :: "gotime \<Rightarrow> int"
  en_day_value :: "gotime \<Rightarrow> driver_value"
  en_time_value :: "gotime \<Rightarrow> driver_value"
  en_number :: "float64 \<Rightarrow> float64"
  en_json :: "string \<Rightarrow> string"
  en_duplicate :: go_error
  en_affected :: "task_row \<Rightarrow> task_row \<Rightarrow> bool"

text \<open>\<open>timeValue\<close> of a column, its zero value for \<open>NULL\<close>; \<open>nullableTime\<close> of a Go time.\<close>

definition nullable_time :: "gotime \<Rightarrow> gotime option" where
  "nullable_time t = (if is_zero t then None else Some t)"

definition scan_time :: "int \<Rightarrow> driver_value \<Rightarrow> gotime result" where
  "scan_time local v =
     (case time_value_scan local v of Inl e \<Rightarrow> Inl e | Inr (t, valid) \<Rightarrow> Inr (if valid then t else zero_time))"

definition scan_nullable :: "sql_engine \<Rightarrow> int \<Rightarrow> gotime option \<Rightarrow> gotime result" where
  "scan_nullable en local cell =
     scan_time local (case cell of None \<Rightarrow> DvNull | Some t \<Rightarrow> en_time_value en t)"

section \<open>Calls\<close>

text \<open>
  A call is served, refused without an effect, or has its effect while its answer is lost.  The
  state counts the calls.  A statement that fails changes nothing.
\<close>

datatype db_outcome = Served | Refused go_error | Unanswered go_error

record sql_db =
  db_tables :: sql_tables
  db_calls :: nat

definition db_call :: "(nat \<Rightarrow> db_outcome) \<Rightarrow> (sql_tables \<Rightarrow> ('a \<times> sql_tables) result) \<Rightarrow> (sql_db, 'a) op" where
  "db_call net f db =
     (let after = db\<lparr>db_calls := db_calls db + 1\<rparr> in
      case net (db_calls db) of
        Served \<Rightarrow> (case f (db_tables db) of Inl e \<Rightarrow> (Inl e, after) | Inr (x, tb) \<Rightarrow> (Inr x, after\<lparr>db_tables := tb\<rparr>))
      | Refused e \<Rightarrow> (Inl e, after)
      | Unanswered e \<Rightarrow> (case f (db_tables db) of Inl e' \<Rightarrow> (Inl e, after) | Inr (x, tb) \<Rightarrow> (Inl e, after\<lparr>db_tables := tb\<rparr>)))"

text \<open>A query reads the tables.\<close>

definition db_query :: "(nat \<Rightarrow> db_outcome) \<Rightarrow> (sql_tables \<Rightarrow> 'a) \<Rightarrow> (sql_db, 'a) op" where
  "db_query net f = db_call net (\<lambda>tb. Inr (f tb, tb))"

text \<open>The rows of a query: the query itself, a scan of every row and the error \<open>rows.Err\<close> reports.\<close>

definition db_rows :: "(nat \<Rightarrow> db_outcome) \<Rightarrow> (sql_tables \<Rightarrow> 'r list) \<Rightarrow> ('r \<Rightarrow> 'x result) \<Rightarrow> (sql_db, 'x list) op" where
  "db_rows net select scan = bnd (db_query net select) (\<lambda>rows.
     bnd (lift_result (collect scan rows)) (\<lambda>items. bnd (db_query net (\<lambda>tb. ())) (\<lambda>_. ret items)))"

text \<open>\<open>QueryRowContext\<close> and \<open>Scan\<close>: the first row of the query, or \<open>sql.ErrNoRows\<close> as \<open>None\<close>.\<close>

definition db_row :: "(nat \<Rightarrow> db_outcome) \<Rightarrow> (sql_tables \<Rightarrow> 'r list) \<Rightarrow> ('r \<Rightarrow> 'x result) \<Rightarrow> (sql_db, 'x option) op" where
  "db_row net select scan = bnd (db_query net select) (\<lambda>rows.
     case rows of [] \<Rightarrow> ret None | r # rs \<Rightarrow> lift_result (map_sum id Some (scan r)))"

text \<open>
  \<open>withTx\<close>: begin, the body, and commit or roll back.  The error of a rollback is dropped; a commit
  whose answer is lost has taken effect.
\<close>

definition with_tx :: "(nat \<Rightarrow> db_outcome) \<Rightarrow> (sql_db, unit) op \<Rightarrow> (sql_db, unit) op" where
  "with_tx net body = bnd (db_query net (\<lambda>tb. ())) (\<lambda>_ db.
     case body db of
       (Inl e, db') \<Rightarrow> (Inl e, db\<lparr>db_calls := db_calls db' + 1\<rparr>)
     | (Inr _, db') \<Rightarrow>
         (case net (db_calls db') of
            Served \<Rightarrow> (Inr (), db'\<lparr>db_calls := db_calls db' + 1\<rparr>)
          | Refused e \<Rightarrow> (Inl e, db\<lparr>db_calls := db_calls db' + 1\<rparr>)
          | Unanswered e \<Rightarrow> (Inl e, db'\<lparr>db_calls := db_calls db' + 1\<rparr>)))"

text \<open>The loop of a write method over its items, one statement each after the checks of the item.\<close>

fun each_item :: "('x \<Rightarrow> (sql_db, unit) op) \<Rightarrow> 'x list \<Rightarrow> (sql_db, unit) op" where
  "each_item f [] = ret ()"
| "each_item f (x # xs) = bnd (f x) (\<lambda>_. each_item f xs)"

definition db_exec :: "(nat \<Rightarrow> db_outcome) \<Rightarrow> (sql_tables \<Rightarrow> sql_tables) \<Rightarrow> (sql_db, unit) op" where
  "db_exec net f = db_call net (\<lambda>tb. Inr ((), f tb))"

section \<open>What a call and a transaction leave\<close>

lemma db_query_tables: "db_tables (snd (db_query net f db)) = db_tables db"
  by (auto simp: db_query_def db_call_def Let_def split: db_outcome.split)

lemma db_query_pair: "db_query net f db = (r, db') \<Longrightarrow> db_tables db' = db_tables db"
  using db_query_tables [of net f db] by simp

lemma db_query_Inr: "db_query net f db = (Inr x, db') \<Longrightarrow> x = f (db_tables db) \<and> db_tables db' = db_tables db"
  by (auto simp: db_query_def db_call_def Let_def split: db_outcome.splits)

lemma db_exec_Inr: "db_exec net f db = (Inr x, db') \<Longrightarrow> db_tables db' = f (db_tables db)"
  by (auto simp: db_exec_def db_call_def Let_def split: db_outcome.splits)

lemma bnd_lift [simp]: "bnd (lift_result r) f w = (case r of Inl e \<Rightarrow> (Inl e, w) | Inr x \<Rightarrow> f x w)"
  by (simp add: op_defs split: sum.split)

lemma db_rows_Inr:
  assumes "db_rows net select scan db = (Inr items, db')"
  shows "collect scan (select (db_tables db)) = Inr items" and "db_tables db' = db_tables db"
proof -
  obtain rows d where q: "db_query net select db = (Inr rows, d)"
    and r: "(case collect scan rows of Inl e \<Rightarrow> (Inl e, d) | Inr items \<Rightarrow> bnd (db_query net (\<lambda>tb. ())) (\<lambda>_. ret items) d) = (Inr items, db')"
    using assms by (auto simp: db_rows_def bnd_eq_Inr)
  then obtain xs where xs: "collect scan rows = Inr xs" "bnd (db_query net (\<lambda>tb. ())) (\<lambda>_. ret xs) d = (Inr items, db')"
    by (auto split: sum.splits)
  then have "xs = items" "db_tables db' = db_tables d"
    by (auto simp: bnd_eq_Inr ret_def dest: db_query_Inr)
  then show "collect scan (select (db_tables db)) = Inr items" and "db_tables db' = db_tables db"
    using db_query_Inr [OF q] xs by simp_all
qed

lemma db_rows_tables: "db_tables (snd (db_rows net select scan db)) = db_tables db"
  by (auto simp: db_rows_def bnd_def lift_result_def ret_def split: sum.splits prod.splits
      dest!: db_query_pair)

lemma with_tx_tables:
  assumes "\<And>d r d'. body d = (Inr r, d') \<Longrightarrow> db_tables d' = f (db_tables d)"
  shows "db_tables (snd (with_tx net body db)) \<in> {db_tables db, f (db_tables db)}"
    and "fst (with_tx net body db) = Inr () \<Longrightarrow> db_tables (snd (with_tx net body db)) = f (db_tables db)"
proof -
  obtain r1 db1 where q: "db_query net (\<lambda>tb. ()) db = (r1, db1)" by fastforce
  then have t1: "db_tables db1 = db_tables db" using db_query_tables [of net "\<lambda>tb. ()" db] by simp
  obtain r2 db2 where b: "body db1 = (r2, db2)" by fastforce
  have t2: "r2 = Inr x \<Longrightarrow> db_tables db2 = f (db_tables db)" for x
    using assms [of db1 x db2] b t1 by simp
  show "db_tables (snd (with_tx net body db)) \<in> {db_tables db, f (db_tables db)}"
    and "fst (with_tx net body db) = Inr () \<Longrightarrow> db_tables (snd (with_tx net body db)) = f (db_tables db)"
    using t1 t2 by (auto simp: with_tx_def bnd_def q b split: sum.splits db_outcome.splits)
qed

text \<open>The effect of the loop when no statement of it failed.\<close>

lemma each_item_Inr:
  assumes "each_item f xs db = (Inr r, db')"
    and "\<And>x d d'. f x d = (Inr (), d') \<Longrightarrow> ok x \<and> db_tables d' = eff x (db_tables d)"
  shows "list_all ok xs \<and> db_tables db' = fold eff xs (db_tables db)"
  using assms(1)
proof (induction xs arbitrary: db)
  case Nil
  then show ?case by (simp add: ret_def)
next
  case (Cons x xs)
  then obtain d where "f x db = (Inr (), d)" "each_item f xs d = (Inr r, db')"
    by (auto simp: bnd_eq_Inr)
  with Cons.IH [of d] assms(2) [of x db d] show ?case by simp
qed

section \<open>Tables as maps\<close>

text \<open>\<open>INSERT ... ON CONFLICT (key) DO UPDATE\<close>: \<open>upd\<close> makes the new row of the old and the given one.\<close>

fun on_conflict :: "('row \<Rightarrow> 'k) \<Rightarrow> ('row \<Rightarrow> 'row \<Rightarrow> 'row) \<Rightarrow> 'row \<Rightarrow> 'row list \<Rightarrow> 'row list" where
  "on_conflict key upd r [] = [r]"
| "on_conflict key upd r (x # xs) = (if key x = key r then upd x r # xs else x # on_conflict key upd r xs)"

text \<open>The contract of a table: an update on conflict leaves the key of the row alone.\<close>

locale keyed_table =
  fixes key :: "'row \<Rightarrow> 'k" and upd :: "'row \<Rightarrow> 'row \<Rightarrow> 'row"
  assumes key_upd: "key x = key r \<Longrightarrow> key (upd x r) = key r"
begin

definition table_ok :: "'row list \<Rightarrow> bool" where
  "table_ok rows \<longleftrightarrow> distinct (map key rows)"

definition stored :: "'row option \<Rightarrow> 'row \<Rightarrow> 'row" where
  "stored old r = (case old of None \<Rightarrow> r | Some x \<Rightarrow> upd x r)"

lemma on_conflict_keys: "key ` set (on_conflict key upd r rows) = insert (key r) (key ` set rows)"
  by (induction rows) (auto simp: key_upd)

lemma on_conflict_ok: "table_ok rows \<Longrightarrow> table_ok (on_conflict key upd r rows)"
proof (induction rows)
  case (Cons x rows)
  then show ?case using on_conflict_keys [of r rows] by (auto simp: table_ok_def key_upd)
qed (simp add: table_ok_def)

lemma on_conflict_map:
  "rows_map key (on_conflict key upd r rows) = (rows_map key rows)(key r \<mapsto> stored (rows_map key rows (key r)) r)"
  by (induction rows) (auto simp: rows_map_def fun_eq_iff stored_def key_upd)

lemma stored_key: "(\<And>x. old = Some x \<Longrightarrow> key x = key r) \<Longrightarrow> key (stored old r) = key r"
  by (auto simp: stored_def key_upd split: option.split)

lemma fold_on_conflict_ok: "table_ok rows \<Longrightarrow> table_ok (fold (on_conflict key upd) rs rows)"
  by (induction rs arbitrary: rows) (simp_all add: on_conflict_ok)

text \<open>The row of a key after a run of inserts: they are applied in order to the rows of the key only.\<close>

lemma fold_on_conflict_map:
  "rows_map key (fold (on_conflict key upd) rs rows) k =
     fold (\<lambda>r old. Some (stored old r)) (filter (\<lambda>r. key r = k) rs) (rows_map key rows k)"
  by (induction rs arbitrary: rows) (auto simp: on_conflict_map)

text \<open>The rows of a key, before and after an insert.\<close>

lemma on_conflict_filter:
  "filter (\<lambda>x. key x = k) (on_conflict key upd r rows) =
     (if key r = k then (case filter (\<lambda>x. key x = k) rows of [] \<Rightarrow> [r] | x # xs \<Rightarrow> upd x r # xs)
      else filter (\<lambda>x. key x = k) rows)"
proof (induction rows)
  case (Cons x rows)
  then show ?case by (cases "key x = key r") (auto simp: key_upd split: list.split)
qed simp

lemma fold_on_conflict_filter:
  assumes "list_all (\<lambda>r. key r = k) rs" and "filter (\<lambda>x. key x = k) rows = [x]"
  shows "filter (\<lambda>x. key x = k) (fold (on_conflict key upd) rs rows) = [foldl upd x rs]"
  using assms by (induction rs arbitrary: rows x) (simp_all add: on_conflict_filter)

end

text \<open>
  A write that is all or nothing: it leaves the old tables or the full effect, the full effect when it
  succeeds, and the old tables when it fails unless the answer to a call was lost.
\<close>

definition all_or_nothing :: "(nat \<Rightarrow> db_outcome) \<Rightarrow> sql_tables \<Rightarrow> sql_tables \<Rightarrow> unit result \<times> sql_db \<Rightarrow> bool" where
  "all_or_nothing net tb full out \<longleftrightarrow>
     db_tables (snd out) \<in> {tb, full} \<and>
     (fst out = Inr () \<longrightarrow> db_tables (snd out) = full) \<and>
     (fst out \<noteq> Inr () \<and> (\<forall>n e. net n \<noteq> Unanswered e) \<longrightarrow> db_tables (snd out) = tb)"

lemma all_or_nothing_guard:
  "all_or_nothing net (db_tables db) full (m db) \<Longrightarrow> all_or_nothing net (db_tables db) full (guard c m db)"
  by (cases c) (simp_all add: all_or_nothing_def)

lemma all_or_nothing_ret: "all_or_nothing net (db_tables db) (db_tables db) (ret () db)"
  by (simp add: all_or_nothing_def ret_def)

lemma all_or_nothing_tx:
  assumes "\<And>d r d'. body d = (Inr r, d') \<Longrightarrow> db_tables d' = f (db_tables d)"
  shows "all_or_nothing net (db_tables db) (f (db_tables db)) (with_tx net body db)"
proof -
  note t = with_tx_tables [of body f net db, OF assms]
  have "db_tables (snd (with_tx net body db)) = db_tables db"
    if "fst (with_tx net body db) \<noteq> Inr ()" and "\<forall>n e. net n \<noteq> Unanswered e"
  proof -
    obtain r1 db1 where q: "db_query net (\<lambda>tb. ()) db = (r1, db1)" by fastforce
    then have "db_tables db1 = db_tables db" by (rule db_query_pair)
    then show ?thesis
      using that by (auto simp: with_tx_def bnd_def q split: sum.splits db_outcome.splits prod.splits)
  qed
  with t show ?thesis by (auto simp: all_or_nothing_def)
qed

text \<open>A transaction that runs one statement per item.\<close>

lemma all_or_nothing_items:
  assumes "\<And>x d d'. f x d = (Inr (), d') \<Longrightarrow> db_tables d' = eff x (db_tables d)"
  shows "all_or_nothing net (db_tables db) (fold eff xs (db_tables db))
    ((if xs = [] then ret () else with_tx net (each_item f xs)) db)"
proof (cases "xs = []")
  case True
  then show ?thesis using all_or_nothing_ret by simp
next
  case False
  have "db_tables d' = fold eff xs (db_tables d)" if "each_item f xs d = (Inr r, d')" for d r d'
    using each_item_Inr [OF that, where ok = "\<lambda>x. True" and eff = eff] assms by simp
  with False show ?thesis using all_or_nothing_tx [where f = "fold eff xs"] by simp
qed

section \<open>Invariants of the tables\<close>

text \<open>An operation keeps an invariant of the tables, whatever happens to its calls.\<close>

definition keeps :: "(sql_tables \<Rightarrow> bool) \<Rightarrow> (sql_db, 'a) op \<Rightarrow> bool" where
  "keeps P m \<longleftrightarrow> (\<forall>db. P (db_tables db) \<longrightarrow> P (db_tables (snd (m db))))"

named_theorems keeps_rules \<open>invariants of the tables through the combinators\<close>

lemma keeps_ret [keeps_rules]: "keeps P (ret x)"
  by (simp add: keeps_def ret_def)

lemma keeps_fail [keeps_rules]: "keeps P (fail e)"
  by (simp add: keeps_def fail_def)

lemma keeps_lift [keeps_rules]: "keeps P (lift_result r)"
  by (simp add: keeps_def lift_result_def)

lemma keeps_guard [keeps_rules]: "keeps P m \<Longrightarrow> keeps P (guard c m)"
  by (cases c) (simp_all add: keeps_def)

lemma keepsD: "keeps P m \<Longrightarrow> m db = (r, db') \<Longrightarrow> P (db_tables db) \<Longrightarrow> P (db_tables db')"
  unfolding keeps_def by (metis snd_conv)

lemma keepsI: "(\<And>db r db'. P (db_tables db) \<Longrightarrow> m db = (r, db') \<Longrightarrow> P (db_tables db')) \<Longrightarrow> keeps P m"
  unfolding keeps_def by (metis prod.collapse)

lemma keeps_bnd [keeps_rules]:
  assumes "keeps P m" and "\<And>x. keeps P (f x)"
  shows "keeps P (bnd m f)"
proof (rule keepsI)
  fix db r db'
  assume p: "P (db_tables db)" and b: "bnd m f db = (r, db')"
  obtain r1 db1 where m: "m db = (r1, db1)" by fastforce
  with assms(1) p have "P (db_tables db1)" by (blast dest: keepsD)
  with b m show "P (db_tables db')" by (cases r1) (auto simp: bnd_def dest: keepsD [OF assms(2)])
qed

lemma keeps_catch [keeps_rules]:
  assumes "keeps P m" and "\<And>e. keeps P (h e)" and "\<And>x. keeps P (f x)"
  shows "keeps P (catch m h f)"
proof (rule keepsI)
  fix db r db'
  assume p: "P (db_tables db)" and b: "catch m h f db = (r, db')"
  obtain r1 db1 where m: "m db = (r1, db1)" by fastforce
  with assms(1) p have "P (db_tables db1)" by (blast dest: keepsD)
  with b m show "P (db_tables db')"
    by (cases r1) (auto simp: catch_def split: if_splits dest: keepsD [OF assms(2)] keepsD [OF assms(3)])
qed

lemma keeps_call [keeps_rules]:
  "(\<And>tb x tb'. P tb \<Longrightarrow> f tb = Inr (x, tb') \<Longrightarrow> P tb') \<Longrightarrow> keeps P (db_call net f)"
  by (auto simp: keeps_def db_call_def Let_def split: db_outcome.split sum.split)

lemma keeps_query [keeps_rules]: "keeps P (db_query net f)"
  unfolding db_query_def by (rule keeps_call) simp

lemma keeps_row [keeps_rules]: "keeps P (db_row net select scan)"
  unfolding db_row_def by (rule keeps_bnd) (auto intro: keeps_rules split: list.split)

lemma keeps_rows [keeps_rules]: "keeps P (db_rows net select scan)"
  unfolding db_rows_def by (intro keeps_rules)

lemma keeps_tx [keeps_rules]: "keeps P m \<Longrightarrow> keeps P (with_tx net m)"
  unfolding keeps_def
proof (intro allI impI)
  fix db :: sql_db
  assume m: "\<forall>db. P (db_tables db) \<longrightarrow> P (db_tables (snd (m db)))" and p: "P (db_tables db)"
  obtain r1 db1 where q: "db_query net (\<lambda>tb. ()) db = (r1, db1)" by fastforce
  then have t1: "db_tables db1 = db_tables db" by (rule db_query_pair)
  obtain r2 db2 where b: "m db1 = (r2, db2)" by fastforce
  have "P (db_tables db2)" using m [rule_format, of db1] p t1 b by simp
  with p t1 show "P (db_tables (snd (with_tx net m db)))"
    by (auto simp: with_tx_def bnd_def q b split: sum.split db_outcome.split)
qed

end
