(* ===== verification/History_Store.thy ===== *)
theory History_Store
  imports Domain Keyed_Merge "HOL-Library.Product_Lexorder" "HOL-Library.List_Lexorder"
    "HOL-Library.Char_ord"
begin

text \<open>
  \<^verbatim>\<open>internal/history/memory_store.go\<close>, the history half of \<open>MemoryStore\<close>: coverage records,
  securities, ticks and bars.  The backfill half is in \<open>Backfill_Queue\<close>; both halves share the
  record of this theory, as they share the struct of the source.  Each method holds the store's
  lock for the whole of its effect, so a method is one step of the state.
\<close>

section \<open>State\<close>

text \<open>
  \<open>ms_securities\<close> is the list of the values of the securities map, whose key is the symbol key;
  the order of the list is not observable (\<open>query_securities_order\<close>).  The context is passed as
  the error \<open>ctxErr\<close> reports, \<open>None\<close> for a live context; the clock as the time it returns.
\<close>

record memory_store =
  ms_coverage :: "string \<rightharpoonup> history_coverage"
  ms_securities :: "security_info list"
  ms_ticks :: "string \<rightharpoonup> tick list"
  ms_bars :: "string \<rightharpoonup> bar list"
  ms_tasks :: "string \<rightharpoonup> backfill_task"
  ms_task_by_id :: "string \<rightharpoonup> string"
  ms_task_order :: "string list"

definition new_memory_store :: memory_store where
  "new_memory_store = \<lparr>ms_coverage = Map.empty, ms_securities = [], ms_ticks = Map.empty,
     ms_bars = Map.empty, ms_tasks = Map.empty, ms_task_by_id = Map.empty, ms_task_order = []\<rparr>"

section \<open>Keys\<close>

definition coverage_key :: "string \<Rightarrow> symbol \<Rightarrow> gotime \<Rightarrow> string \<Rightarrow> string \<Rightarrow> string" where
  "coverage_key dataset sy trade_date period adjust =
     join ''|'' [dataset, symbol_key sy, date_key trade_date, period, adjust]"

definition tick_row_key :: "tick \<Rightarrow> string" where
  "tick_row_key t = int_dec (unix_nano (tk_trade_time t)) @ ''|'' @ int_dec (tk_sequence t)"

definition tick_key :: "symbol \<Rightarrow> gotime \<Rightarrow> string" where
  "tick_key sy trade_date = join ''|'' [symbol_key sy, date_key trade_date]"

definition bar_key :: "symbol \<Rightarrow> string \<Rightarrow> string \<Rightarrow> string" where
  "bar_key sy period adjust = join ''|'' [symbol_key sy, period, adjust]"

definition bar_row_key :: "bar \<Rightarrow> int" where
  "bar_row_key b = unix_nano (b_time b)"

text \<open>The orders of \<open>sortTicks\<close> and \<open>sortBars\<close>.\<close>

definition tick_order :: "tick \<Rightarrow> int \<times> int" where
  "tick_order t = (t_nanos (tk_trade_time t), tk_sequence t)"

definition bar_order :: "bar \<Rightarrow> int" where
  "bar_order b = t_nanos (b_time b)"

section \<open>Coverage\<close>

definition coverage :: "go_error option \<Rightarrow> coverage_request \<Rightarrow> (memory_store, history_coverage) op" where
  "coverage ctx req = guard ctx (guard (validate_symbol (cr_symbol req)) (\<lambda>s.
     (case ms_coverage s (coverage_key (cr_dataset req) (cr_symbol req) (cr_trade_date req)
        (cr_period req) (cr_adjust req)) of
        Some c \<Rightarrow> (Inr c, s)
      | None \<Rightarrow>
        (Inr \<lparr>hc_dataset = cr_dataset req, hc_symbol = cr_symbol req,
              hc_trade_date = normalize_date (cr_trade_date req), hc_period = cr_period req,
              hc_adjust = cr_adjust req, hc_status = CoverageMissing, hc_row_count = 0,
              hc_checksum = [], hc_source_address = [], hc_last_fetch = zero_time,
              hc_last_error = []\<rparr>, s))))"

definition normalize_coverage :: "history_coverage \<Rightarrow> history_coverage" where
  "normalize_coverage c =
     c\<lparr>hc_trade_date := normalize_date (hc_trade_date c),
       hc_status := (if hc_status c = [] then CoverageCovered else hc_status c)\<rparr>"

definition put_coverage :: "go_error option \<Rightarrow> history_coverage \<Rightarrow> (memory_store, unit) op" where
  "put_coverage ctx cov = guard ctx (guard (validate_symbol (hc_symbol cov)) (\<lambda>s.
     let c = normalize_coverage cov;
         key = coverage_key (hc_dataset c) (hc_symbol c) (hc_trade_date c) (hc_period c) (hc_adjust c)
     in (Inr (), s\<lparr>ms_coverage := (ms_coverage s)(key \<mapsto> c)\<rparr>)))"

section \<open>Securities\<close>

definition security_key :: "security_info \<Rightarrow> string" where
  "security_key item = symbol_key (si_symbol item)"

fun put_securities_loop :: "security_info list \<Rightarrow> (memory_store, unit) op" where
  "put_securities_loop [] s = (Inr (), s)"
| "put_securities_loop (item # items) s =
     (case validate_symbol (si_symbol item) of
        Some e \<Rightarrow> (Inl e, s)
      | None \<Rightarrow> put_securities_loop items
          (s\<lparr>ms_securities := upsert security_key (item\<lparr>si_cached := False\<rparr>) (ms_securities s)\<rparr>))"

definition put_securities :: "go_error option \<Rightarrow> security_info list \<Rightarrow> (memory_store, unit) op" where
  "put_securities ctx items = guard ctx (put_securities_loop items)"

definition security_order :: "security_info \<Rightarrow> string \<times> string" where
  "security_order item = (s_market (si_symbol item), s_code (si_symbol item))"

text \<open>The window \<open>[start, start + count)\<close> of the filtered list; the comparison of \<open>Start\<close> with
  the length is made in 32 bits.\<close>

definition security_window :: "security_query \<Rightarrow> security_info list \<Rightarrow> security_info list" where
  "security_window req out =
     (if word_of_nat (length out) < sq_start req then []
      else let from = unat (sq_start req);
               to = (if 0 < sq_count req \<and> from + unat (sq_count req) < length out
                     then from + unat (sq_count req) else length out)
           in subslice from to out)"

definition security_matches :: "security_query \<Rightarrow> security_info \<Rightarrow> bool" where
  "security_matches req item \<longleftrightarrow>
     (sq_markets req = [] \<or>
        normalize_market (s_market (si_symbol item)) \<in> set (map normalize_market (sq_markets req))) \<and>
     (sq_symbols req = [] \<or> symbol_key (si_symbol item) \<in> set (map symbol_key (sq_symbols req)))"

definition filter_securities :: "security_info list \<Rightarrow> security_query \<Rightarrow> security_info list result" where
  "filter_securities items req =
     (if items = [] then Inl ErrNoData
      else case collect (\<lambda>sy. case validate_symbol sy of Some e \<Rightarrow> Inl e | None \<Rightarrow> Inr ()) (sq_symbols req) of
             Inl e \<Rightarrow> Inl e
           | Inr _ \<Rightarrow> Inr (security_window req (sort_key security_order (filter (security_matches req) items))))"

definition query_securities :: "go_error option \<Rightarrow> security_query \<Rightarrow> (memory_store, security_info list) op" where
  "query_securities ctx req = guard ctx (\<lambda>s.
     (filter_securities (map (\<lambda>item. item\<lparr>si_cached := True\<rparr>) (ms_securities s)) req, s))"

section \<open>Ticks\<close>

text \<open>The check and the normalisation of one tick before it is grouped.\<close>

definition prepare_tick :: "tick \<Rightarrow> tick result" where
  "prepare_tick t =
     (case validate_symbol (tk_symbol t) of
        Some e \<Rightarrow> Inl e
      | None \<Rightarrow>
          let date = (if is_zero (tk_trade_date t) then normalize_date (tk_trade_time t)
                      else normalize_date (tk_trade_date t))
          in if is_zero date then Inl ErrInvalidRequest else Inr (t\<lparr>tk_trade_date := date\<rparr>))"

definition tick_group :: "tick \<Rightarrow> string" where
  "tick_group t = tick_key (tk_symbol t) (tk_trade_date t)"

definition merge_ticks :: "tick list \<Rightarrow> tick list \<Rightarrow> tick list" where
  "merge_ticks = merge_rows tick_row_key tick_order"

definition put_ticks :: "go_error option \<Rightarrow> tick list \<Rightarrow> (memory_store, unit) op" where
  "put_ticks ctx ticks = guard ctx (\<lambda>s.
     (case collect prepare_tick ticks of
        Inl e \<Rightarrow> (Inl e, s)
      | Inr ts \<Rightarrow> (Inr (), s\<lparr>ms_ticks := group_merge merge_ticks tick_group ts (ms_ticks s)\<rparr>)))"

text \<open>\<open>items[start:end]\<close> of \<open>QueryTicks\<close>.  \<open>start + limit\<close> is a 64-bit sum; when it wraps, the
  slice expression panics.\<close>

definition tick_window :: "int \<Rightarrow> int \<Rightarrow> tick list \<Rightarrow> tick list result" where
  "tick_window start limit items =
     (let len = int (length items) in
      if len < start then Inr []
      else let to = (if 0 < limit \<and> wrap64 (start + limit) < len then wrap64 (start + limit) else len)
           in if to < start then Inl (GoPanic ''slice bounds out of range'')
              else Inr (subslice (nat start) (nat to) items))"

definition query_ticks :: "go_error option \<Rightarrow> history_tick_query \<Rightarrow> (memory_store, tick list) op" where
  "query_ticks ctx req = guard ctx (guard (validate_symbol (hq_symbol req)) (\<lambda>s.
     let date = normalize_date (hq_trade_date req) in
     if is_zero date then (Inl ErrInvalidRequest, s)
     else if hq_start req < 0 \<or> hq_limit req < 0 then (Inl ErrInvalidRequest, s)
     else let items = get_list (ms_ticks s) (tick_key (hq_symbol req) date)
          in if items = [] then (Inl ErrNoData, s)
             else (tick_window (hq_start req) (hq_limit req) items, s)))"

section \<open>Bars\<close>

definition prepare_bar :: "bar \<Rightarrow> bar result" where
  "prepare_bar b =
     (case validate_symbol (b_symbol b) of
        Some e \<Rightarrow> Inl e
      | None \<Rightarrow>
          if b_period b = PeriodUnknown \<or> is_zero (b_time b) then Inl ErrInvalidRequest
          else Inr (if b_adjust b = [] then b\<lparr>b_adjust := AdjustNone\<rparr> else b))"

definition bar_group :: "bar \<Rightarrow> string" where
  "bar_group b = bar_key (b_symbol b) (b_period b) (b_adjust b)"

definition merge_bar_rows :: "bar list \<Rightarrow> bar list \<Rightarrow> bar list" where
  "merge_bar_rows = merge_rows bar_row_key bar_order"

definition put_bars :: "go_error option \<Rightarrow> bar list \<Rightarrow> (memory_store, unit) op" where
  "put_bars ctx bars = guard ctx (\<lambda>s.
     (case collect prepare_bar bars of
        Inl e \<Rightarrow> (Inl e, s)
      | Inr bs \<Rightarrow> (Inr (), s\<lparr>ms_bars := group_merge merge_bar_rows bar_group bs (ms_bars s)\<rparr>)))"

definition in_bar_range :: "gotime \<Rightarrow> gotime \<Rightarrow> bar \<Rightarrow> bool" where
  "in_bar_range from to b \<longleftrightarrow>
     \<not> (\<not> is_zero from \<and> before (b_time b) from) \<and> \<not> (\<not> is_zero to \<and> after (b_time b) to)"

definition query_bars :: "go_error option \<Rightarrow> bar_query \<Rightarrow> (memory_store, bar list) op" where
  "query_bars ctx req = guard ctx (guard (validate_symbol (bq_symbol req)) (\<lambda>s.
     if bq_period req = PeriodUnknown then (Inl ErrInvalidRequest, s)
     else let adjust = (if bq_adjust req = [] then AdjustNone else bq_adjust req);
              items = get_list (ms_bars s) (bar_key (bq_symbol req) (bq_period req) adjust)
          in if items = [] then (Inl ErrNoData, s)
             else let out = filter (in_bar_range (bq_start req) (bq_end req)) items
                  in if out = [] then (Inl ErrNoData, s) else (Inr out, s)))"

section \<open>Row keys and orders agree\<close>

text \<open>
  The row key of a tick is \<open>UnixNano\<close> and the sequence number, the order of a stored list is the
  instant and the sequence number.  They agree for times \<open>UnixNano\<close> can represent (1678 to 2262).
\<close>

definition tick_ok :: "tick \<Rightarrow> bool" where
  "tick_ok t = nano_range (tk_trade_time t)"

definition bar_ok :: "bar \<Rightarrow> bool" where
  "bar_ok b = nano_range (b_time b)"

lemma tick_row_key_eq:
  "tick_row_key s = tick_row_key t \<longleftrightarrow>
     unix_nano (tk_trade_time s) = unix_nano (tk_trade_time t) \<and> tk_sequence s = tk_sequence t"
  by (simp add: tick_row_key_def sep_unique)

interpretation tick_rows: keyed_rows tick_row_key tick_order tick_ok
  by unfold_locales (simp add: tick_row_key_eq tick_order_def tick_ok_def unix_nano_inj)

interpretation bar_rows: keyed_rows bar_row_key bar_order bar_ok
  by unfold_locales (simp add: bar_row_key_def bar_order_def bar_ok_def unix_nano_inj)

section \<open>The store invariant\<close>

text \<open>
  Every stored list is strictly sorted, holds rows of its own key only, and no row twice; every
  coverage record has a status and sits under its own key.
\<close>

definition ticks_ok :: "memory_store \<Rightarrow> bool" where
  "ticks_ok s \<longleftrightarrow> (\<forall>k. tick_rows.rows_ok (get_list (ms_ticks s) k) \<and>
     list_all (\<lambda>t. tick_group t = k) (get_list (ms_ticks s) k))"

definition bars_ok :: "memory_store \<Rightarrow> bool" where
  "bars_ok s \<longleftrightarrow> (\<forall>k. bar_rows.rows_ok (get_list (ms_bars s) k) \<and>
     list_all (\<lambda>b. bar_group b = k) (get_list (ms_bars s) k))"

definition coverage_ok :: "memory_store \<Rightarrow> bool" where
  "coverage_ok s \<longleftrightarrow> (\<forall>k c. ms_coverage s k = Some c \<longrightarrow> hc_status c \<noteq> [] \<and>
     coverage_key (hc_dataset c) (hc_symbol c) (hc_trade_date c) (hc_period c) (hc_adjust c) = k)"

definition store_ok :: "memory_store \<Rightarrow> bool" where
  "store_ok s \<longleftrightarrow> ticks_ok s \<and> bars_ok s \<and> coverage_ok s \<and> distinct (map security_key (ms_securities s))"

lemma rows_ok_Nil [simp]: "tick_rows.rows_ok []" "bar_rows.rows_ok []"
  by (simp_all add: tick_rows.rows_ok_def bar_rows.rows_ok_def)

lemma get_list_empty [simp]: "get_list Map.empty k = []"
  by (simp add: get_list_def)

lemma new_memory_store_ok: "store_ok new_memory_store"
  by (simp add: store_ok_def ticks_ok_def bars_ok_def coverage_ok_def new_memory_store_def)

lemma put_coverage_ok: "store_ok s \<Longrightarrow> store_ok (snd (put_coverage ctx c s))"
  by (auto simp: put_coverage_def guard_def Let_def store_ok_def coverage_ok_def ticks_ok_def
      bars_ok_def normalize_coverage_def split: option.split)

lemma put_securities_loop_securities:
  "snd (put_securities_loop items s) =
     s\<lparr>ms_securities := upsert_all security_key
        (map (si_cached_update (\<lambda>_. False)) (takeWhile (\<lambda>i. validate_symbol (si_symbol i) = None) items))
        (ms_securities s)\<rparr>"
  by (induction items arbitrary: s) (auto split: option.split)

lemma put_securities_ok: "store_ok s \<Longrightarrow> store_ok (snd (put_securities ctx items s))"
  by (cases ctx) (simp_all add: put_securities_def put_securities_loop_securities store_ok_def
      coverage_ok_def ticks_ok_def bars_ok_def upsert_all_distinct)

lemma prepare_tick_Inr:
  "prepare_tick t = Inr u \<Longrightarrow>
     u = t\<lparr>tk_trade_date := tk_trade_date u\<rparr> \<and> validate_symbol (tk_symbol t) = None \<and>
     tk_trade_date u = normalize_date (if is_zero (tk_trade_date t) then tk_trade_time t else tk_trade_date t) \<and>
     \<not> is_zero (tk_trade_date u)"
  by (auto simp: prepare_tick_def Let_def split: option.splits if_splits)

lemma prepare_bar_Inr:
  "prepare_bar b = Inr u \<Longrightarrow>
     u = b\<lparr>b_adjust := b_adjust u\<rparr> \<and> validate_symbol (b_symbol b) = None \<and> b_period b \<noteq> [] \<and>
     \<not> is_zero (b_time b) \<and> b_adjust u = (if b_adjust b = [] then AdjustNone else b_adjust b)"
  by (auto simp: prepare_bar_def split: option.splits if_splits)

lemma collect_tick_ok: "collect prepare_tick ticks = Inr ts \<Longrightarrow> list_all tick_ok ticks \<Longrightarrow> list_all tick_ok ts"
proof (induction ticks arbitrary: ts)
  case (Cons t ticks)
  from Cons.prems(1) obtain u us where u: "prepare_tick t = Inr u" "collect prepare_tick ticks = Inr us" "ts = u # us"
    by (auto split: sum.splits)
  have "tk_trade_time u = tk_trade_time t"
    using prepare_tick_Inr [OF u(1)] by (metis tick.select_convs(3) tick.surjective tick.update_convs(2))
  with Cons u show ?case by (simp add: tick_ok_def)
qed simp

lemma collect_bar_ok: "collect prepare_bar bars = Inr bs \<Longrightarrow> list_all bar_ok bars \<Longrightarrow> list_all bar_ok bs"
proof (induction bars arbitrary: bs)
  case (Cons t bars)
  from Cons.prems(1) obtain u us where u: "prepare_bar t = Inr u" "collect prepare_bar bars = Inr us" "bs = u # us"
    by (auto split: sum.splits)
  have "b_time u = b_time t"
    using prepare_bar_Inr [OF u(1)] by (metis bar.select_convs(4) bar.surjective bar.update_convs(3))
  with Cons u show ?case by (simp add: bar_ok_def)
qed simp

text \<open>What the grouped merge does to the list of one key.\<close>

lemma merge_ticks_group:
  assumes "tick_rows.rows_ok old" "list_all (\<lambda>t. tick_group t = k) old" "list_all tick_ok ts"
  shows "tick_rows.rows_ok (merge_ticks old (filter (\<lambda>t. tick_group t = k) ts)) \<and>
    list_all (\<lambda>t. tick_group t = k) (merge_ticks old (filter (\<lambda>t. tick_group t = k) ts))"
  unfolding merge_ticks_def using assms
  by (intro tick_rows.merge_rows_ok_of) (simp_all add: list_all_iff)

lemma merge_bars_group:
  assumes "bar_rows.rows_ok old" "list_all (\<lambda>b. bar_group b = k) old" "list_all bar_ok bs"
  shows "bar_rows.rows_ok (merge_bar_rows old (filter (\<lambda>b. bar_group b = k) bs)) \<and>
    list_all (\<lambda>b. bar_group b = k) (merge_bar_rows old (filter (\<lambda>b. bar_group b = k) bs))"
  unfolding merge_bar_rows_def using assms
  by (intro bar_rows.merge_rows_ok_of) (simp_all add: list_all_iff)

lemma put_ticks_ok: "store_ok s \<Longrightarrow> list_all tick_ok ticks \<Longrightarrow> store_ok (snd (put_ticks ctx ticks s))"
  by (auto simp: put_ticks_def guard_def store_ok_def ticks_ok_def bars_ok_def coverage_ok_def
      group_merge_get merge_ticks_group collect_tick_ok split: option.split sum.split)

lemma put_bars_ok: "store_ok s \<Longrightarrow> list_all bar_ok bars \<Longrightarrow> store_ok (snd (put_bars ctx bars s))"
  by (auto simp: put_bars_def guard_def store_ok_def ticks_ok_def bars_ok_def coverage_ok_def
      group_merge_get merge_bars_group collect_bar_ok split: option.split sum.split)

section \<open>Facts for the properties\<close>

text \<open>What a batch looks like after the loop of checks.\<close>

definition dated_tick :: "tick \<Rightarrow> tick" where
  "dated_tick t = t\<lparr>tk_trade_date :=
     normalize_date (if is_zero (tk_trade_date t) then tk_trade_time t else tk_trade_date t)\<rparr>"

definition adjusted_bar :: "bar \<Rightarrow> bar" where
  "adjusted_bar b = b\<lparr>b_adjust := (if b_adjust b = [] then AdjustNone else b_adjust b)\<rparr>"

lemma prepare_tick_dated: "prepare_tick t = Inr u \<Longrightarrow> u = dated_tick t"
  using prepare_tick_Inr [of t u] by (auto simp: dated_tick_def)

lemma prepare_bar_adjusted: "prepare_bar b = Inr u \<Longrightarrow> u = adjusted_bar b"
  using prepare_bar_Inr [of b u] by (auto simp: adjusted_bar_def)

lemma collect_map: "collect f xs = Inr ys \<Longrightarrow> (\<And>x y. f x = Inr y \<Longrightarrow> y = g x) \<Longrightarrow> ys = map g xs"
  by (induction xs arbitrary: ys) (auto split: sum.splits)

lemma put_ticks_Inr:
  "put_ticks ctx ticks s = (Inr (), s') \<Longrightarrow>
     s' = s\<lparr>ms_ticks := group_merge merge_ticks tick_group (map dated_tick ticks) (ms_ticks s)\<rparr>"
  using collect_map [of prepare_tick ticks _ dated_tick, OF _ prepare_tick_dated]
  by (auto simp: put_ticks_def guard_Inr split: sum.splits)

lemma put_bars_Inr:
  "put_bars ctx bars s = (Inr (), s') \<Longrightarrow>
     s' = s\<lparr>ms_bars := group_merge merge_bar_rows bar_group (map adjusted_bar bars) (ms_bars s)\<rparr>"
  using collect_map [of prepare_bar bars _ adjusted_bar, OF _ prepare_bar_adjusted]
  by (auto simp: put_bars_def guard_Inr split: sum.splits)

lemma tick_key_normalize [simp]: "tick_key sy (normalize_date d) = tick_key sy d"
  by (simp add: tick_key_def)

lemma merged_ticks_map:
  assumes "store_ok s"
  shows "rows_map tick_row_key (get_list (group_merge merge_ticks tick_group ts (ms_ticks s)) k) =
    put_all tick_row_key id (filter (\<lambda>t. tick_group t = k) ts) (rows_map tick_row_key (get_list (ms_ticks s) k))"
proof -
  have e: "k \<notin> tick_group ` set ts \<Longrightarrow> filter (\<lambda>t. tick_group t = k) ts = []"
    by (auto simp: filter_empty_conv)
  show ?thesis using assms
    by (cases "k \<in> tick_group ` set ts")
      (simp_all add: group_merge_get merge_ticks_def tick_rows.merge_map store_ok_def ticks_ok_def e)
qed

lemma merged_bars_map:
  assumes "store_ok s"
  shows "rows_map bar_row_key (get_list (group_merge merge_bar_rows bar_group bs (ms_bars s)) k) =
    put_all bar_row_key id (filter (\<lambda>b. bar_group b = k) bs) (rows_map bar_row_key (get_list (ms_bars s) k))"
proof -
  have e: "k \<notin> bar_group ` set bs \<Longrightarrow> filter (\<lambda>b. bar_group b = k) bs = []"
    by (auto simp: filter_empty_conv)
  show ?thesis using assms
    by (cases "k \<in> bar_group ` set bs")
      (simp_all add: group_merge_get merge_bar_rows_def bar_rows.merge_map store_ok_def bars_ok_def e)
qed

lemma tick_window_all: "tick_window 0 0 items = Inr items"
  by (simp add: tick_window_def subslice_def)

lemma tick_window_page:
  assumes "0 < n" and "int from + int n < 2 ^ 63"
  shows "tick_window (int from) (int n) items = Inr (take n (drop from items))"
proof -
  have w: "wrap64 (int from + int n) = int (from + n)"
    using assms by (simp add: fits64_def)
  consider "length items < from" | "from \<le> length items" "from + n < length items"
    | "from \<le> length items" "length items \<le> from + n" by linarith
  then show ?thesis
  proof cases
    case 1
    then show ?thesis by (simp add: tick_window_def)
  next
    case 2
    then have "tick_window (int from) (int n) items = Inr (subslice from (from + n) items)"
      using assms(1) unfolding tick_window_def Let_def w by (simp add: nat_int_add)
    then show ?thesis by (simp add: subslice_def)
  next
    case 3
    then have "tick_window (int from) (int n) items = Inr (subslice from (length items) items)"
      unfolding tick_window_def Let_def w by simp
    then show ?thesis using 3 by (simp add: subslice_def)
  qed
qed

lemma pages_concat: "concat (map (\<lambda>i. take n (drop (i * n) xs)) [0..<m]) = take (m * n) xs"
proof (induction m)
  case (Suc m)
  have "take (Suc m * n) xs = take (m * n) xs @ take n (drop (m * n) xs)"
    by (simp add: take_add [symmetric] add.commute)
  with Suc show ?case by simp
qed simp

lemma put_securities_loop_result:
  "fst (put_securities_loop items s) =
     (case dropWhile (\<lambda>i. validate_symbol (si_symbol i) = None) items of
         [] \<Rightarrow> Inr () | bad # rest \<Rightarrow> Inl (the (validate_symbol (si_symbol bad))))"
  by (induction items arbitrary: s) (auto split: option.split)

lemma security_order_key: "security_order a = security_order b \<Longrightarrow> security_key a = security_key b"
  by (simp add: security_order_def security_key_def symbol_key_def)

lemma security_order_inj: "distinct (map security_key items) \<Longrightarrow> inj_on security_order (set items)"
  by (auto simp: distinct_map inj_on_def dest: security_order_key)

lemma sort_security_perm:
  "distinct (map security_key items) \<Longrightarrow> mset vals = mset items \<Longrightarrow>
   sort_key security_order vals = sort_key security_order items"
  using security_order_inj [of items] by (intro sort_key_inj_key_eq) (auto dest: mset_eq_setD)

section \<open>Sample rows for the witnesses\<close>

definition sample_symbol :: symbol where
  "sample_symbol = mk_symbol ''SH'' ''600000''"

definition sample_time :: "int \<Rightarrow> gotime" where
  "sample_time n = \<lparr>t_nanos = unix_epoch + n, t_zone = 0\<rparr>"

definition sample_tick :: "int \<Rightarrow> int \<Rightarrow> tick" where
  "sample_tick n sq = \<lparr>tk_symbol = sample_symbol, tk_trade_date = sample_time n, tk_trade_time = sample_time n,
     tk_price = 1, tk_volume = 100, tk_amount = 1, tk_direction = [], tk_sequence = sq,
     tk_source = [], tk_cached = False\<rparr>"

definition sample_bar :: "int \<Rightarrow> bar" where
  "sample_bar n = \<lparr>b_symbol = sample_symbol, b_period = PeriodDay, b_adjust = [], b_time = sample_time n,
     b_open = 1, b_high = 1, b_low = 1, b_close = 1, b_volume = 1, b_amount = 1, b_source = []\<rparr>"

lemma sample_symbol_valid [simp]: "validate_symbol sample_symbol = None"
  by (simp add: sample_symbol_def mk_symbol_def validate_symbol_def)

lemma sample_time_ok: "0 \<le> n \<Longrightarrow> n < 2 ^ 62 \<Longrightarrow> nano_range (sample_time n) \<and> \<not> is_zero (sample_time n)"
  by (simp add: nano_range_def sample_time_def is_zero_def unix_epoch_def fits64_def)

lemma sample_date_ok: "\<not> is_zero (normalize_date (sample_time 0))"
  by (simp add: normalize_date_def sample_time_def is_zero_def unix_epoch_def midnight_def local_day_def day_ns_def)

lemma sample_tick_prepared: "prepare_tick (sample_tick 0 sq) = Inr (dated_tick (sample_tick 0 sq))"
  using sample_time_ok [of 0] sample_date_ok by (simp add: prepare_tick_def sample_tick_def dated_tick_def)

lemma sample_ticks_put:
  "put_ticks None [sample_tick 0 1, sample_tick 0 1] new_memory_store =
     (Inr (), snd (put_ticks None [sample_tick 0 1, sample_tick 0 1] new_memory_store))"
  by (simp add: put_ticks_def sample_tick_prepared)

lemma sample_bars_put:
  "0 \<le> n \<Longrightarrow> n < 2 ^ 62 \<Longrightarrow>
   put_bars None [sample_bar n] new_memory_store = (Inr (), snd (put_bars None [sample_bar n] new_memory_store))"
  using sample_time_ok [of n] by (simp add: put_bars_def prepare_bar_def sample_bar_def)

section \<open>Properties\<close>

text \<open>
  C3: a history of ticks is a map that the last writer wins.  After a successful \<open>PutTicks\<close> on a
  well-formed store, the unbounded query of any valid symbol and day returns rows strictly sorted
  by time and sequence number, and as a map from row keys they are the rows stored before,
  overwritten in order by the ticks of the batch that belong to that symbol and day; an empty
  history is reported as \<open>ErrNoData\<close>.
\<close>

theorem put_ticks_merges:
  assumes "store_ok s" and "list_all tick_ok ticks"
    and "put_ticks None ticks s = (Inr (), s')"
    and "validate_symbol sy = None" and "\<not> is_zero (normalize_date d)"
  shows "\<exists>rows. query_ticks None \<lparr>hq_symbol = sy, hq_trade_date = d, hq_start = 0, hq_limit = 0\<rparr> s' =
        ((if rows = [] then Inl ErrNoData else Inr rows), s') \<and>
      sorted_wrt (<) (map tick_order rows) \<and>
      rows_map tick_row_key rows =
        put_all tick_row_key id (filter (\<lambda>t. tick_group t = tick_key sy d) (map dated_tick ticks))
          (rows_map tick_row_key (get_list (ms_ticks s) (tick_key sy d)))"
proof -
  let ?rows = "get_list (ms_ticks s') (tick_key sy d)"
  have "store_ok s'" using put_ticks_ok [OF assms(1,2), of None] assms(3) by simp
  then have "sorted_wrt (<) (map tick_order ?rows)"
    by (simp add: store_ok_def ticks_ok_def tick_rows.rows_ok_def)
  moreover have "query_ticks None \<lparr>hq_symbol = sy, hq_trade_date = d, hq_start = 0, hq_limit = 0\<rparr> s' =
      ((if ?rows = [] then Inl ErrNoData else Inr ?rows), s')"
    using assms(4,5) by (simp add: query_ticks_def Let_def tick_window_all)
  ultimately show ?thesis
    using merged_ticks_map [OF assms(1)] put_ticks_Inr [OF assms(3)] by (intro exI [of _ ?rows]) simp
qed

theorem put_ticks_merges_witness:
  "\<exists>rows. query_ticks None \<lparr>hq_symbol = sample_symbol, hq_trade_date = sample_time 0, hq_start = 0, hq_limit = 0\<rparr>
      (snd (put_ticks None [sample_tick 0 1, sample_tick 0 1] new_memory_store)) =
      ((if rows = [] then Inl ErrNoData else Inr rows),
        snd (put_ticks None [sample_tick 0 1, sample_tick 0 1] new_memory_store))"
proof -
  have "list_all tick_ok [sample_tick 0 1, sample_tick 0 1]"
    using sample_time_ok [of 0] by (simp add: tick_ok_def sample_tick_def)
  from put_ticks_merges [OF new_memory_store_ok this sample_ticks_put sample_symbol_valid sample_date_ok]
  show ?thesis by blast
qed

text \<open>
  Reading a day of ticks page by page loses and repeats nothing.  The queries with
  \<open>Start = 0, n, 2 n, ...\<close> and \<open>Limit = n\<close>, concatenated, are the stored day as soon as the
  pages reach its end, as long as the last page's end is an \<open>int\<close>.
\<close>

theorem tick_pages_cover:
  assumes "validate_symbol sy = None" and "\<not> is_zero (normalize_date d)"
    and "get_list (ms_ticks s) (tick_key sy d) = items" and "items \<noteq> []"
    and "0 < n" and "length items \<le> m * n" and "int (m * n) + int n < 2 ^ 63"
  shows "concat (map (\<lambda>i. projr (fst (query_ticks None
      \<lparr>hq_symbol = sy, hq_trade_date = d, hq_start = int (i * n), hq_limit = int n\<rparr> s))) [0..<m]) = items"
proof -
  have "projr (fst (query_ticks None
      \<lparr>hq_symbol = sy, hq_trade_date = d, hq_start = int (i * n), hq_limit = int n\<rparr> s)) =
      take n (drop (i * n) items)" if "i < m" for i
  proof -
    have "i * n \<le> m * n" using that by simp
    then have "int (i * n) + int n < 2 ^ 63" using assms(7) by linarith
    then show ?thesis
      using tick_window_page [OF assms(5), of "i * n" items] assms(1-4)
      by (simp add: query_ticks_def Let_def del: of_nat_mult)
  qed
  then have "concat (map (\<lambda>i. projr (fst (query_ticks None
      \<lparr>hq_symbol = sy, hq_trade_date = d, hq_start = int (i * n), hq_limit = int n\<rparr> s))) [0..<m]) =
      concat (map (\<lambda>i. take n (drop (i * n) items)) [0..<m])"
    by (intro arg_cong [of _ _ concat] map_cong) (simp_all del: of_nat_mult)
  then show ?thesis using assms(6) by (simp add: pages_concat del: of_nat_mult)
qed

theorem tick_pages_cover_witness:
  "concat (map (\<lambda>i. projr (fst (query_ticks None
      \<lparr>hq_symbol = sample_symbol, hq_trade_date = sample_time 0, hq_start = int (i * 2), hq_limit = int 2\<rparr>
      (new_memory_store\<lparr>ms_ticks := [tick_key sample_symbol (sample_time 0) \<mapsto>
        [sample_tick 0 1, sample_tick 0 2, sample_tick 0 3]]\<rparr>)))) [0..<2]) =
   [sample_tick 0 1, sample_tick 0 2, sample_tick 0 3]"
  using sample_date_ok by (intro tick_pages_cover) (simp_all add: get_list_def)

text \<open>
  When the window of \<open>QueryTicks\<close> panics.  With non-negative \<open>Start\<close> and \<open>Limit\<close> in the range
  of \<open>int\<close> on a non-empty day, the call panics exactly when the start lies inside the day and
  \<open>Start + Limit\<close> overflows; every other request returns rows.
\<close>

theorem query_ticks_panics:
  assumes "validate_symbol (hq_symbol req) = None" and "\<not> is_zero (normalize_date (hq_trade_date req))"
    and "0 \<le> hq_start req" and "0 \<le> hq_limit req"
    and "hq_start req < 2 ^ 63" and "hq_limit req < 2 ^ 63"
    and "get_list (ms_ticks s) (tick_key (hq_symbol req) (hq_trade_date req)) = items" and "items \<noteq> []"
  shows "fst (query_ticks None req s) = Inl (GoPanic ''slice bounds out of range'') \<longleftrightarrow>
    hq_start req \<le> int (length items) \<and> 2 ^ 63 \<le> hq_start req + hq_limit req"
proof -
  let ?a = "hq_start req" and ?n = "hq_limit req"
  have w: "wrap64 (?a + ?n) = (if ?a + ?n < 2 ^ 63 then ?a + ?n else ?a + ?n - 2 ^ 64)"
  proof (cases "?a + ?n < 2 ^ 63")
    case True
    then have "fits64 (?a + ?n)" using assms(3,4) by (simp add: fits64_def)
    then show ?thesis using True by simp
  next
    case False
    have "wrap64 (?a + ?n) = wrap64 (?a + ?n - 2 ^ 64)"
      unfolding wrap64_def by (rule signed_take_bit_eq_iff_take_bit_eq [THEN iffD2])
        (simp add: take_bit_eq_mod)
    moreover have "fits64 (?a + ?n - 2 ^ 64)" using assms(3-6) False by (simp add: fits64_def)
    ultimately show ?thesis using False by simp
  qed
  have "fst (query_ticks None req s) = tick_window ?a ?n items"
    using assms by (simp add: query_ticks_def Let_def)
  then show ?thesis
    using assms(3-6) w by (auto simp: tick_window_def Let_def)
qed

theorem query_ticks_panics_witness:
  "fst (query_ticks None
      \<lparr>hq_symbol = sample_symbol, hq_trade_date = sample_time 0, hq_start = 1, hq_limit = 2 ^ 63 - 1\<rparr>
      (new_memory_store\<lparr>ms_ticks := [tick_key sample_symbol (sample_time 0) \<mapsto> [sample_tick 0 1]]\<rparr>)) =
   Inl (GoPanic ''slice bounds out of range'')"
  using query_ticks_panics [of "\<lparr>hq_symbol = sample_symbol, hq_trade_date = sample_time 0, hq_start = 1,
      hq_limit = 2 ^ 63 - 1\<rparr>" "new_memory_store\<lparr>ms_ticks := [tick_key sample_symbol (sample_time 0) \<mapsto>
      [sample_tick 0 1]]\<rparr>" "[sample_tick 0 1]"] sample_date_ok
  by (simp add: get_list_def)

text \<open>
  a range query of bars is exact.  After a successful \<open>PutBars\<close> on a well-formed store, the
  query of a valid symbol, a period and an adjustment (the empty one meaning \<open>none\<close>) returns, in
  strictly increasing time order, exactly the bars of the range that the map of stored bars holds
  once the batch has overwritten it; no bar at all is \<open>ErrNoData\<close>.
\<close>

theorem put_bars_query:
  assumes "store_ok s" and "list_all bar_ok bars" and "put_bars None bars s = (Inr (), s')"
    and "validate_symbol sy = None" and "period \<noteq> PeriodUnknown"
    and "key = bar_key sy period (if adjust = [] then AdjustNone else adjust)"
  shows "\<exists>rows. query_bars None
        \<lparr>bq_symbol = sy, bq_period = period, bq_adjust = adjust, bq_start = from, bq_end = to\<rparr> s' =
        ((if rows = [] then Inl ErrNoData else Inr rows), s') \<and>
      sorted_wrt (<) (map bar_order rows) \<and>
      (\<forall>b. b \<in> set rows \<longleftrightarrow> in_bar_range from to b \<and>
        put_all bar_row_key id (filter (\<lambda>c. bar_group c = key) (map adjusted_bar bars))
          (rows_map bar_row_key (get_list (ms_bars s) key)) (bar_row_key b) = Some b)"
proof -
  let ?items = "get_list (ms_bars s') key"
  let ?rows = "filter (in_bar_range from to) ?items"
  have "store_ok s'" using put_bars_ok [OF assms(1,2), of None] assms(3) by simp
  then have ok: "bar_rows.rows_ok ?items" by (simp add: store_ok_def bars_ok_def)
  then have "sorted_wrt (<) (map bar_order ?rows)"
    by (simp add: bar_rows.rows_ok_def sorted_wrt_map sorted_wrt_filter)
  moreover have "query_bars None
      \<lparr>bq_symbol = sy, bq_period = period, bq_adjust = adjust, bq_start = from, bq_end = to\<rparr> s' =
      ((if ?rows = [] then Inl ErrNoData else Inr ?rows), s')"
    using assms(4-6) by (auto simp: query_bars_def Let_def)
  moreover have "b \<in> set ?rows \<longleftrightarrow> in_bar_range from to b \<and>
      rows_map bar_row_key ?items (bar_row_key b) = Some b" for b
    using bar_rows.rows_ok_distinct [OF ok] by (auto simp: rows_map_distinct_some)
  ultimately show ?thesis
    using merged_bars_map [OF assms(1)] put_bars_Inr [OF assms(3)] by (intro exI [of _ ?rows]) simp
qed

theorem put_bars_query_witness:
  "\<exists>rows. query_bars None
      \<lparr>bq_symbol = sample_symbol, bq_period = PeriodDay, bq_adjust = [], bq_start = zero_time, bq_end = sample_time 0\<rparr>
      (snd (put_bars None [sample_bar 0] new_memory_store)) =
      ((if rows = [] then Inl ErrNoData else Inr rows), snd (put_bars None [sample_bar 0] new_memory_store)) \<and>
     sample_bar 0\<lparr>b_adjust := AdjustNone\<rparr> \<in> set rows"
proof -
  let ?b = "sample_bar 0\<lparr>b_adjust := AdjustNone\<rparr>" and ?k = "bar_key sample_symbol PeriodDay AdjustNone"
  let ?f = "filter (\<lambda>c. bar_group c = ?k) (map adjusted_bar [sample_bar 0])"
  have ok: "list_all bar_ok [sample_bar 0]"
    using sample_time_ok [of 0] by (simp add: bar_ok_def sample_bar_def)
  have put: "put_bars None [sample_bar 0] new_memory_store =
      (Inr (), snd (put_bars None [sample_bar 0] new_memory_store))"
    by (rule sample_bars_put) simp_all
  have p: "PeriodDay \<noteq> PeriodUnknown" by simp
  have k: "?k = bar_key sample_symbol PeriodDay (if [] = ([] :: string) then AdjustNone else [])" by simp
  have f: "?f = [?b]" by (simp add: bar_group_def adjusted_bar_def sample_bar_def)
  have i: "in_bar_range zero_time (sample_time 0) ?b"
    by (simp add: in_bar_range_def after_def sample_bar_def)
  have "put_all bar_row_key id ?f (rows_map bar_row_key (get_list (ms_bars new_memory_store) ?k))
      (bar_row_key ?b) = Some ?b"
    unfolding f by simp
  with put_bars_query [OF new_memory_store_ok ok put sample_symbol_valid p k, of zero_time "sample_time 0"] i
  show ?thesis by blast
qed

text \<open>
  what a failed write leaves behind.  A failing \<open>PutTicks\<close> or \<open>PutBars\<close> changes nothing:
  both check the whole batch before they touch the store.  \<open>PutSecurities\<close> checks and writes item by item, so
  the valid items in front of the first invalid one stay stored, and the result is that item's error.
\<close>

theorem put_atomicity:
  "(fst (put_ticks ctx ticks s) = Inr () \<or> snd (put_ticks ctx ticks s) = s) \<and>
   (fst (put_bars ctx bars s) = Inr () \<or> snd (put_bars ctx bars s) = s) \<and>
   put_securities None items s =
     ((case dropWhile (\<lambda>i. validate_symbol (si_symbol i) = None) items of
         [] \<Rightarrow> Inr () | bad # rest \<Rightarrow> Inl (the (validate_symbol (si_symbol bad)))),
      s\<lparr>ms_securities := upsert_all security_key
        (map (si_cached_update (\<lambda>_. False)) (takeWhile (\<lambda>i. validate_symbol (si_symbol i) = None) items))
        (ms_securities s)\<rparr>)"
proof (intro conjI)
  show "fst (put_ticks ctx ticks s) = Inr () \<or> snd (put_ticks ctx ticks s) = s"
    by (cases ctx) (auto simp: put_ticks_def split: sum.split)
  show "fst (put_bars ctx bars s) = Inr () \<or> snd (put_bars ctx bars s) = s"
    by (cases ctx) (auto simp: put_bars_def split: sum.split)
  show "put_securities None items s =
     ((case dropWhile (\<lambda>i. validate_symbol (si_symbol i) = None) items of
         [] \<Rightarrow> Inr () | bad # rest \<Rightarrow> Inl (the (validate_symbol (si_symbol bad)))),
      s\<lparr>ms_securities := upsert_all security_key
        (map (si_cached_update (\<lambda>_. False)) (takeWhile (\<lambda>i. validate_symbol (si_symbol i) = None) items))
        (ms_securities s)\<rparr>)"
    using put_securities_loop_securities [of items s] put_securities_loop_result [of items s]
    by (metis guard_simps(1) prod.collapse put_securities_def)
qed

text \<open>
  Coverage records are found under what they describe.  After a successful \<open>PutCoverage\<close> a
  valid request finds the record, with its day normalised and an empty status read as covered,
  exactly when dataset, symbol key, calendar day, period and adjustment agree; every other
  request is answered as before.  The parts of the key must not contain the separator.
\<close>

theorem put_coverage_get:
  assumes "put_coverage None c s = (Inr (), s')" and "validate_symbol (cr_symbol req) = None"
    and "\<forall>w \<in> {cr_dataset req, symbol_key (cr_symbol req), cr_period req, cr_adjust req,
      hc_dataset c, symbol_key (hc_symbol c), hc_period c, hc_adjust c}. CHR ''|'' \<notin> set w"
  shows "coverage None req s' =
    ((if cr_dataset req = hc_dataset c \<and> symbol_key (cr_symbol req) = symbol_key (hc_symbol c) \<and>
         date_key (cr_trade_date req) = date_key (hc_trade_date c) \<and> cr_period req = hc_period c \<and>
         cr_adjust req = hc_adjust c
      then Inr (normalize_coverage c) else fst (coverage None req s)), s')"
proof -
  have s': "s' = s\<lparr>ms_coverage := (ms_coverage s)(coverage_key (hc_dataset c) (hc_symbol c)
      (hc_trade_date c) (hc_period c) (hc_adjust c) \<mapsto> normalize_coverage c)\<rparr>"
    using assms(1) by (auto simp: put_coverage_def guard_Inr Let_def normalize_coverage_def coverage_key_def)
  have k: "coverage_key (cr_dataset req) (cr_symbol req) (cr_trade_date req) (cr_period req) (cr_adjust req) =
      coverage_key (hc_dataset c) (hc_symbol c) (hc_trade_date c) (hc_period c) (hc_adjust c) \<longleftrightarrow>
      cr_dataset req = hc_dataset c \<and> symbol_key (cr_symbol req) = symbol_key (hc_symbol c) \<and>
      date_key (cr_trade_date req) = date_key (hc_trade_date c) \<and> cr_period req = hc_period c \<and>
      cr_adjust req = hc_adjust c"
    using join_inj [of "[cr_dataset req, symbol_key (cr_symbol req), date_key (cr_trade_date req), cr_period req, cr_adjust req]"
       "[hc_dataset c, symbol_key (hc_symbol c), date_key (hc_trade_date c), hc_period c, hc_adjust c]" "CHR ''|''"] assms(3)
    unfolding coverage_key_def by auto
  show ?thesis using assms(2) k by (auto simp: coverage_def s' split: option.split)
qed

theorem put_coverage_get_witness:
  "\<exists>c s'. put_coverage None c new_memory_store = (Inr (), s') \<and> hc_status c = [] \<and>
     coverage None \<lparr>cr_dataset = DatasetKLine, cr_symbol = sample_symbol, cr_trade_date = zero_time,
       cr_period = PeriodDay, cr_adjust = AdjustNone\<rparr> s' = (Inr (c\<lparr>hc_status := CoverageCovered\<rparr>), s')"
proof -
  define c where "c = \<lparr>hc_dataset = DatasetKLine, hc_symbol = sample_symbol, hc_trade_date = zero_time,
    hc_period = PeriodDay, hc_adjust = AdjustNone, hc_status = [], hc_row_count = 3, hc_checksum = [],
    hc_source_address = [], hc_last_fetch = zero_time, hc_last_error = []\<rparr>"
  have put: "put_coverage None c new_memory_store = (Inr (), snd (put_coverage None c new_memory_store))"
    by (simp add: put_coverage_def Let_def c_def)
  have t: "trim_space ''SH'' = ''SH''" "trim_space ''600000'' = ''600000''" "to_upper ''SH'' = ''SH''"
    by code_simp+
  have k: "symbol_key sample_symbol = ''SH:600000''"
    by (simp add: symbol_key_def sample_symbol_def normalize_market_def normalize_code_def t)
  have "normalize_coverage c = c\<lparr>hc_status := CoverageCovered\<rparr>"
    by (simp add: normalize_coverage_def c_def)
  with put_coverage_get [OF put, of "\<lparr>cr_dataset = DatasetKLine, cr_symbol = sample_symbol, cr_trade_date = zero_time,
       cr_period = PeriodDay, cr_adjust = AdjustNone\<rparr>"] put
  have "coverage None \<lparr>cr_dataset = DatasetKLine, cr_symbol = sample_symbol, cr_trade_date = zero_time,
       cr_period = PeriodDay, cr_adjust = AdjustNone\<rparr> (snd (put_coverage None c new_memory_store)) =
     (Inr (c\<lparr>hc_status := CoverageCovered\<rparr>), snd (put_coverage None c new_memory_store))"
    by (simp add: c_def k)
  with put show ?thesis by (intro exI [of _ c]) (auto simp: c_def)
qed

text \<open>
  a list of securities does not depend on the order in which Go visits the map.  For a
  well-formed store, any permutation of the stored values gives the same answer to
  every query, filtering, window and errors included.
\<close>

theorem query_securities_order:
  assumes "store_ok s" and "mset vals = mset (ms_securities s)"
  shows "fst (query_securities ctx req (s\<lparr>ms_securities := vals\<rparr>)) = fst (query_securities ctx req s)"
proof -
  let ?c = "map (si_cached_update (\<lambda>_. True))"
  have "mset (filter (security_matches req) (?c vals)) = mset (filter (security_matches req) (?c (ms_securities s)))"
    using assms(2) by (simp add: mset_filter mset_map)
  moreover have "distinct (map security_key (filter (security_matches req) (?c (ms_securities s))))"
    using assms(1) distinct_map_filter [of security_key "ms_securities s" "\<lambda>x. security_matches req (x\<lparr>si_cached := True\<rparr>)"]
    by (simp add: store_ok_def filter_map comp_def security_key_def [abs_def])
  ultimately have "sort_key security_order (filter (security_matches req) (?c vals)) =
      sort_key security_order (filter (security_matches req) (?c (ms_securities s)))"
    by (intro sort_security_perm)
  moreover have "vals = [] \<longleftrightarrow> ms_securities s = []"
    using assms(2) by auto
  ultimately show ?thesis
    by (cases ctx) (simp_all add: query_securities_def filter_securities_def split: sum.split)
qed

theorem query_securities_order_witness:
  "\<forall>req. \<exists>a b. symbol_key (si_symbol a) \<noteq> symbol_key (si_symbol b) \<and>
     fst (query_securities None req (new_memory_store\<lparr>ms_securities := [b, a]\<rparr>)) =
     fst (query_securities None req (new_memory_store\<lparr>ms_securities := [a, b]\<rparr>))"
proof
  fix req
  define info where "info c = \<lparr>si_symbol = mk_symbol ''SH'' c, si_fields = Map.empty, si_cached = False\<rparr>" for c
  have t: "trim_space ''SH'' = ''SH''" "trim_space ''600000'' = ''600000''" "trim_space ''600036'' = ''600036''"
    "to_upper ''SH'' = ''SH''" by code_simp+
  have k: "symbol_key (si_symbol (info ''600000'')) \<noteq> symbol_key (si_symbol (info ''600036''))"
    by (simp add: info_def symbol_key_def normalize_market_def normalize_code_def t)
  then have "store_ok (new_memory_store\<lparr>ms_securities := [info ''600000'', info ''600036'']\<rparr>)"
    using new_memory_store_ok
    by (simp add: store_ok_def ticks_ok_def bars_ok_def coverage_ok_def security_key_def)
  with query_securities_order [of "new_memory_store\<lparr>ms_securities := [info ''600000'', info ''600036'']\<rparr>"
      "[info ''600036'', info ''600000'']" None req] k
  show "\<exists>a b. symbol_key (si_symbol a) \<noteq> symbol_key (si_symbol b) \<and>
     fst (query_securities None req (new_memory_store\<lparr>ms_securities := [b, a]\<rparr>)) =
     fst (query_securities None req (new_memory_store\<lparr>ms_securities := [a, b]\<rparr>))"
    by (intro exI [of _ "info ''600000''"] exI [of _ "info ''600036''"]) (simp add: add_mset_commute)
qed

end
