(* ===== verification/Go_Sha1.thy ===== *)
theory Go_Sha1
  imports Go_Prelude
begin

text \<open>
  \<open>crypto/sha1\<close> and \<open>encoding/hex\<close> of the Go standard library, as far as \<open>stableTaskID\<close> of
  \<^verbatim>\<open>internal/history/memory_store.go\<close> uses them: SHA-1 of a byte string (FIPS 180-4) and the
  hexadecimal text of its first eight bytes.
\<close>

unbundle bit_operations_syntax

section \<open>Padding and blocks\<close>

definition bytes_of :: "string \<Rightarrow> nat list" where
  "bytes_of s = map of_char s"

definition be_bytes :: "nat \<Rightarrow> nat \<Rightarrow> nat list" where
  "be_bytes len n = rev (map (\<lambda>i. (n div 256 ^ i) mod 256) [0..<len])"

definition sha1_pad :: "nat list \<Rightarrow> nat list" where
  "sha1_pad bs = bs @ [128] @ replicate ((119 - length bs mod 64) mod 64) 0 @ be_bytes 8 (8 * length bs)"

fun be_words :: "nat list \<Rightarrow> u32 list" where
  "be_words (a # b # c # d # r) = word_of_nat (((a * 256 + b) * 256 + c) * 256 + d) # be_words r"
| "be_words _ = []"

function blocks :: "u32 list \<Rightarrow> u32 list list" where
  "blocks ws = (if ws = [] then [] else take 16 ws # blocks (drop 16 ws))"
  by auto
termination by (relation "measure length") auto

declare blocks.simps [simp del]

section \<open>Compression\<close>

fun sha1_expand :: "nat \<Rightarrow> u32 list \<Rightarrow> u32 list" where
  "sha1_expand 0 ws = ws"
| "sha1_expand (Suc n) ws =
     (let t = length ws in
      sha1_expand n (ws @ [word_rotl 1 (ws ! (t - 3) XOR ws ! (t - 8) XOR ws ! (t - 14) XOR ws ! (t - 16))]))"

type_synonym sha1_state = "u32 \<times> u32 \<times> u32 \<times> u32 \<times> u32"

definition sha1_round :: "nat \<Rightarrow> u32 \<Rightarrow> sha1_state \<Rightarrow> sha1_state" where
  "sha1_round t w = (\<lambda>(a, b, c, d, e).
     let (f, k) = (if t < 20 then ((b AND c) OR ((NOT b) AND d), 0x5A827999)
                   else if t < 40 then (b XOR c XOR d, 0x6ED9EBA1)
                   else if t < 60 then ((b AND c) OR (b AND d) OR (c AND d), 0x8F1BBCDC)
                   else (b XOR c XOR d, 0xCA62C1D6))
     in (word_rotl 5 a + f + e + k + w, a, word_rotl 30 b, c, d))"

fun sha1_rounds :: "nat \<Rightarrow> u32 list \<Rightarrow> sha1_state \<Rightarrow> sha1_state" where
  "sha1_rounds t [] st = st"
| "sha1_rounds t (w # ws) st = sha1_rounds (Suc t) ws (sha1_round t w st)"

definition sha1_block :: "sha1_state \<Rightarrow> u32 list \<Rightarrow> sha1_state" where
  "sha1_block st ws =
     (let (a, b, c, d, e) = sha1_rounds 0 (sha1_expand 64 ws) st; (h0, h1, h2, h3, h4) = st
      in (h0 + a, h1 + b, h2 + c, h3 + d, h4 + e))"

definition sha1_sum :: "string \<Rightarrow> nat list" where
  "sha1_sum s =
     (let (h0, h1, h2, h3, h4) = foldl sha1_block
            (0x67452301, 0xEFCDAB89, 0x98BADCFE, 0x10325476, 0xC3D2E1F0)
            (blocks (be_words (sha1_pad (bytes_of s))))
      in concat (map (\<lambda>h. be_bytes 4 (unat h)) [h0, h1, h2, h3, h4]))"

section \<open>Hexadecimal text\<close>

definition hex_digit :: "nat \<Rightarrow> char" where
  "hex_digit n = ''0123456789abcdef'' ! (n mod 16)"

definition hex_text :: "nat list \<Rightarrow> string" where
  "hex_text bs = concat (map (\<lambda>b. [hex_digit (b div 16), hex_digit b]) bs)"

lemma length_be_bytes [simp]: "length (be_bytes n k) = n"
  by (simp add: be_bytes_def)

lemma length_sha1_sum [simp]: "length (sha1_sum s) = 20"
  by (simp add: sha1_sum_def split_def Let_def)

lemma length_hex_text [simp]: "length (hex_text bs) = 2 * length bs"
  by (induction bs) (simp_all add: hex_text_def)

end
