(* ===== verification/Backfill_Queue.thy ===== *)
theory Backfill_Queue
  imports History_Store Go_Sha1
begin

text \<open>
  The backfill half of \<open>MemoryStore\<close> in \<^verbatim>\<open>internal/history/memory_store.go\<close>: a queue of tasks keyed by
  what they fetch, claimed by priority and age, and the machine of all the store's operations.
\<close>

section \<open>Operations\<close>

definition zero_task :: backfill_task where
  "zero_task = \<lparr>bt_id = [], bt_dataset = [], bt_symbol = mk_symbol [] [], bt_start = zero_time,
     bt_end = zero_time, bt_period = [], bt_adjust = [], bt_priority = 0, bt_status = [],
     bt_retry_count = 0, bt_next_retry = zero_time, bt_error = [], bt_created = zero_time,
     bt_updated = zero_time\<rparr>"

text \<open>\<open>s.tasks[key]\<close>: the zero task for a key the map does not hold.\<close>

definition get_task :: "(string \<rightharpoonup> backfill_task) \<Rightarrow> string \<Rightarrow> backfill_task" where
  "get_task m k = (case m k of None \<Rightarrow> zero_task | Some t \<Rightarrow> t)"

definition task_key :: "backfill_task \<Rightarrow> string" where
  "task_key t = join ''|'' [bt_dataset t, symbol_key (bt_symbol t), date_key (bt_start t),
     date_key (bt_end t), bt_period t, bt_adjust t]"

definition stable_task_id :: "string \<Rightarrow> string" where
  "stable_task_id key = hex_text (take 8 (sha1_sum key))"

definition normalize_task :: "backfill_task \<Rightarrow> backfill_task" where
  "normalize_task t = t\<lparr>
     bt_adjust := (if bt_adjust t = [] then AdjustNone else bt_adjust t),
     bt_status := (if bt_status t = [] then BackfillPending else bt_status t),
     bt_start := normalize_date (bt_start t), bt_end := normalize_date (bt_end t)\<rparr>"

text \<open>The completion of a new task under its key, at the time of the clock.\<close>

definition fresh_task :: "string \<Rightarrow> gotime \<Rightarrow> backfill_task \<Rightarrow> backfill_task" where
  "fresh_task key now t = t\<lparr>
     bt_id := (if bt_id t = [] then stable_task_id key else bt_id t),
     bt_created := (if is_zero (bt_created t) then now else bt_created t),
     bt_updated := now\<rparr>"

definition invalid_task :: "backfill_task \<Rightarrow> bool" where
  "invalid_task t \<longleftrightarrow> bt_dataset t = [] \<or> is_zero (bt_start t) \<or> is_zero (bt_end t) \<or> before (bt_end t) (bt_start t)"

definition enqueue :: "go_error option \<Rightarrow> gotime \<Rightarrow> backfill_task \<Rightarrow> (memory_store, backfill_task \<times> bool) op" where
  "enqueue ctx now task = guard ctx (guard (validate_symbol (bt_symbol task)) (\<lambda>s.
     if invalid_task task then (Inl ErrInvalidRequest, s)
     else let t = normalize_task task; key = task_key t in
       case ms_tasks s key of
         Some existing \<Rightarrow> (Inr (existing, False), s)
       | None \<Rightarrow>
           let t' = fresh_task key now t in
           (Inr (t', True),
            s\<lparr>ms_tasks := (ms_tasks s)(key \<mapsto> t'), ms_task_by_id := (ms_task_by_id s)(bt_id t' \<mapsto> key),
              ms_task_order := ms_task_order s @ [key]\<rparr>)))"

definition claimable :: "backfill_task \<Rightarrow> bool" where
  "claimable t \<longleftrightarrow> bt_status t = BackfillPending \<or> bt_status t = BackfillRetrying"

definition better :: "backfill_task \<Rightarrow> backfill_task \<Rightarrow> bool" where
  "better t best \<longleftrightarrow> bt_priority best < bt_priority t \<or>
     (bt_priority t = bt_priority best \<and> before (bt_created t) (bt_created best))"

text \<open>The scan of \<open>Next\<close>: the best task so far with the key its index stands for.\<close>

fun next_scan :: "(string \<rightharpoonup> backfill_task) \<Rightarrow> string list \<Rightarrow> (string \<times> backfill_task) option \<Rightarrow> (string \<times> backfill_task) option" where
  "next_scan m [] best = best"
| "next_scan m (key # keys) best =
     (let task = get_task m key in
      if \<not> claimable task then next_scan m keys best
      else case best of
             None \<Rightarrow> next_scan m keys (Some (key, task))
           | Some (k, b) \<Rightarrow> next_scan m keys (if better task b then Some (key, task) else best))"

definition next_task :: "go_error option \<Rightarrow> gotime \<Rightarrow> (memory_store, backfill_task \<times> bool) op" where
  "next_task ctx now = guard ctx (\<lambda>s.
     case next_scan (ms_tasks s) (ms_task_order s) None of
       None \<Rightarrow> (Inr (zero_task, False), s)
     | Some (key, best) \<Rightarrow>
         let t = best\<lparr>bt_status := BackfillRunning, bt_updated := now\<rparr>
         in (Inr (t, True), s\<lparr>ms_tasks := (ms_tasks s)(key \<mapsto> t)\<rparr>))"

definition update_task :: "go_error option \<Rightarrow> gotime \<Rightarrow> backfill_task \<Rightarrow> (memory_store, unit) op" where
  "update_task ctx now task = guard ctx (\<lambda>s.
     if bt_id task = [] then (Inl ErrInvalidRequest, s)
     else case ms_task_by_id s (bt_id task) of
            None \<Rightarrow> (Inl ErrNoData, s)
          | Some key \<Rightarrow> (Inr (), s\<lparr>ms_tasks := (ms_tasks s)(key \<mapsto> task\<lparr>bt_updated := now\<rparr>)\<rparr>))"

definition task_matches :: "backfill_filter \<Rightarrow> backfill_task \<Rightarrow> bool" where
  "task_matches f t \<longleftrightarrow>
     \<not> (bf_dataset f \<noteq> [] \<and> bt_dataset t \<noteq> bf_dataset f) \<and>
     \<not> (bf_status f \<noteq> [] \<and> bt_status t \<noteq> bf_status f) \<and>
     \<not> (s_code (bf_symbol f) \<noteq> [] \<and> symbol_key (bt_symbol t) \<noteq> symbol_key (bf_symbol f))"

definition list_tasks :: "go_error option \<Rightarrow> backfill_filter \<Rightarrow> (memory_store, backfill_task list) op" where
  "list_tasks ctx f = guard ctx (\<lambda>s.
     (Inr (filter (task_matches f) (map (get_task (ms_tasks s)) (ms_task_order s))), s))"

section \<open>The queue invariant\<close>

text \<open>
  The order list names each task of the map once, and an identifier leads to a task of the map.
\<close>

definition queue_ok :: "memory_store \<Rightarrow> bool" where
  "queue_ok s \<longleftrightarrow> distinct (ms_task_order s) \<and> set (ms_task_order s) = dom (ms_tasks s) \<and>
     ran (ms_task_by_id s) \<subseteq> dom (ms_tasks s) \<and> [] \<notin> dom (ms_task_by_id s)"

lemma length_stable_task_id [simp]: "length (stable_task_id key) = 16"
  by (simp add: stable_task_id_def)

lemma stable_task_id_nonempty [simp]: "stable_task_id key \<noteq> []" "[] \<noteq> stable_task_id key"
  using length_stable_task_id [of key] by fastforce+

lemma new_queue_ok: "queue_ok new_memory_store"
  by (simp add: queue_ok_def new_memory_store_def)

lemma enqueue_ok: "queue_ok s \<Longrightarrow> queue_ok (snd (enqueue ctx now t s))"
  by (auto simp: enqueue_def guard_def Let_def queue_ok_def fresh_task_def ran_def dom_def
      split: option.splits)

lemma next_scan_member:
  "next_scan m keys best = Some (k, t) \<Longrightarrow>
   (k \<in> set keys \<and> t = get_task m k \<and> claimable t) \<or> best = Some (k, t)"
  by (induction keys arbitrary: best) (fastforce simp: Let_def split: if_splits option.splits)+

lemma next_ok: "queue_ok s \<Longrightarrow> queue_ok (snd (next_task ctx now s))"
  using next_scan_member [of "ms_tasks s" "ms_task_order s" None]
  by (auto simp: next_task_def guard_def Let_def queue_ok_def dom_def split: option.splits)

lemma update_ok: "queue_ok s \<Longrightarrow> queue_ok (snd (update_task ctx now t s))"
  by (auto simp: update_task_def guard_def queue_ok_def ran_def dom_def split: option.splits)

section \<open>What a claim picks\<close>

text \<open>The order of claims: higher priority first, then earlier creation.\<close>

definition rank :: "backfill_task \<Rightarrow> int \<times> int" where
  "rank t = (- bt_priority t, t_nanos (bt_created t))"

lemma better_rank: "better t b \<longleftrightarrow> rank t < rank b"
  by (auto simp: better_def rank_def before_def)

text \<open>\<open>k\<close> is the first of the best claimable tasks of \<open>keys\<close>.\<close>

definition first_best :: "(string \<rightharpoonup> backfill_task) \<Rightarrow> string list \<Rightarrow> string \<Rightarrow> bool" where
  "first_best m keys k \<longleftrightarrow> claimable (get_task m k) \<and> (\<exists>pre post. keys = pre @ k # post \<and>
     (\<forall>j \<in> set pre. claimable (get_task m j) \<longrightarrow> rank (get_task m k) < rank (get_task m j)) \<and>
     (\<forall>j \<in> set post. claimable (get_task m j) \<longrightarrow> rank (get_task m k) \<le> rank (get_task m j)))"

lemma first_best_Cons:
  "first_best m keys k \<Longrightarrow> (claimable (get_task m j) \<Longrightarrow> rank (get_task m k) < rank (get_task m j)) \<Longrightarrow>
   first_best m (j # keys) k"
  unfolding first_best_def by (metis append_Cons set_ConsD)

lemma first_best_hd:
  "claimable (get_task m k) \<Longrightarrow>
   \<forall>j \<in> set keys. claimable (get_task m j) \<longrightarrow> rank (get_task m k) \<le> rank (get_task m j) \<Longrightarrow>
   first_best m (k # keys) k"
  unfolding first_best_def by (metis append_Nil empty_iff list.set(1))

lemma next_scan_Some:
  "next_scan m keys (Some (k0, b)) = Some (k, t) \<Longrightarrow>
   (k = k0 \<and> t = b \<and> (\<forall>j \<in> set keys. claimable (get_task m j) \<longrightarrow> rank b \<le> rank (get_task m j))) \<or>
   (rank t < rank b \<and> t = get_task m k \<and> first_best m keys k)"
proof (induction keys arbitrary: k0 b)
  case (Cons j keys)
  let ?t = "get_task m j"
  show ?case
  proof (cases "claimable ?t \<and> rank ?t < rank b")
    case True
    then have "next_scan m keys (Some (j, ?t)) = Some (k, t)"
      using Cons.prems by (simp add: Let_def better_rank)
    from Cons.IH [OF this] True show ?thesis
      by (auto intro: first_best_hd first_best_Cons order_less_trans)
  next
    case False
    then have r: "next_scan m keys (Some (k0, b)) = Some (k, t)"
      using Cons.prems by (auto simp: Let_def better_rank split: if_splits)
    from False have "claimable ?t \<Longrightarrow> rank b \<le> rank ?t" by auto
    with Cons.IH [OF r] show ?thesis by (auto intro: first_best_Cons order_less_le_trans)
  qed
qed simp

lemma next_scan_None:
  "next_scan m keys None = Some (k, t) \<Longrightarrow> t = get_task m k \<and> first_best m keys k"
proof (induction keys)
  case (Cons j keys)
  show ?case
  proof (cases "claimable (get_task m j)")
    case True
    then have "next_scan m keys (Some (j, get_task m j)) = Some (k, t)"
      using Cons.prems by (simp add: Let_def)
    from next_scan_Some [OF this] True show ?thesis
      by (auto intro: first_best_hd first_best_Cons)
  next
    case False
    then show ?thesis using Cons by (auto simp: Let_def intro: first_best_Cons)
  qed
qed simp

lemma next_scan_Some_not_None: "next_scan m keys (Some b) \<noteq> None"
  by (induction keys arbitrary: b) (auto simp: Let_def split: prod.splits)

lemma next_scan_empty: "next_scan m keys None = None \<longleftrightarrow> (\<forall>j \<in> set keys. \<not> claimable (get_task m j))"
  by (induction keys) (auto simp: Let_def next_scan_Some_not_None)

text \<open>The tasks that wait to be claimed.\<close>

definition waiting :: "memory_store \<Rightarrow> string set" where
  "waiting s = {k \<in> set (ms_task_order s). claimable (get_task (ms_tasks s) k)}"

lemma next_waiting:
  assumes "next_task None now s = (Inr (t, True), s')" and "queue_ok s"
  obtains k where "t = (get_task (ms_tasks s) k)\<lparr>bt_status := BackfillRunning, bt_updated := now\<rparr>"
    and "s' = s\<lparr>ms_tasks := (ms_tasks s)(k \<mapsto> t)\<rparr>" and "first_best (ms_tasks s) (ms_task_order s) k"
    and "k \<in> waiting s" and "waiting s' = waiting s - {k}"
proof -
  from assms(1) obtain k b where b: "next_scan (ms_tasks s) (ms_task_order s) None = Some (k, b)"
    and t: "t = b\<lparr>bt_status := BackfillRunning, bt_updated := now\<rparr>"
    and s': "s' = s\<lparr>ms_tasks := (ms_tasks s)(k \<mapsto> t)\<rparr>"
    by (auto simp: next_task_def Let_def split: option.splits)
  from next_scan_None [OF b] have f: "b = get_task (ms_tasks s) k" "first_best (ms_tasks s) (ms_task_order s) k"
    by auto
  then have w: "k \<in> waiting s" by (auto simp: waiting_def first_best_def)
  have "\<not> claimable t" by (simp add: t claimable_def)
  then have "waiting s' = waiting s - {k}"
    by (auto simp: waiting_def s' get_task_def split: if_splits)
  with t s' f w that show ?thesis by simp
qed

lemma finite_waiting [simp]: "finite (waiting s)"
  by (simp add: waiting_def)

section \<open>The store as a machine\<close>

text \<open>
  Every store the methods can produce, in any order and with any arguments, contexts and clock
  readings; the times of rows are in the range of \<open>UnixNano\<close>.
\<close>

inductive store_reach :: "memory_store \<Rightarrow> bool" where
  reach_new: "store_reach new_memory_store"
| reach_coverage: "store_reach s \<Longrightarrow> store_reach (snd (put_coverage ctx c s))"
| reach_securities: "store_reach s \<Longrightarrow> store_reach (snd (put_securities ctx items s))"
| reach_ticks: "store_reach s \<Longrightarrow> list_all tick_ok ticks \<Longrightarrow> store_reach (snd (put_ticks ctx ticks s))"
| reach_bars: "store_reach s \<Longrightarrow> list_all bar_ok bars \<Longrightarrow> store_reach (snd (put_bars ctx bars s))"
| reach_enqueue: "store_reach s \<Longrightarrow> store_reach (snd (enqueue ctx now t s))"
| reach_next: "store_reach s \<Longrightarrow> store_reach (snd (next_task ctx now s))"
| reach_update: "store_reach s \<Longrightarrow> store_reach (snd (update_task ctx now t s))"

lemma history_ops_keep_queue:
  "queue_ok (snd (put_coverage ctx c s)) = queue_ok s"
  "queue_ok (snd (put_securities ctx items s)) = queue_ok s"
  "queue_ok (snd (put_ticks ctx ticks s)) = queue_ok s"
  "queue_ok (snd (put_bars ctx bars s)) = queue_ok s"
  by (simp_all add: put_coverage_def put_securities_def put_ticks_def put_bars_def guard_def Let_def
      put_securities_loop_securities queue_ok_def split: option.split sum.split)

lemma queue_ops_keep_store:
  "store_ok (snd (enqueue ctx now t s)) = store_ok s"
  "store_ok (snd (next_task ctx now s)) = store_ok s"
  "store_ok (snd (update_task ctx now t s)) = store_ok s"
  by (simp_all add: enqueue_def next_task_def update_task_def guard_def Let_def store_ok_def
      ticks_ok_def bars_ok_def coverage_ok_def split: option.split prod.split)

text \<open>Repeated claims until the queue has none left, as a worker makes them.\<close>

fun claim_all :: "nat \<Rightarrow> gotime \<Rightarrow> memory_store \<Rightarrow> backfill_task list \<times> memory_store" where
  "claim_all 0 now s = ([], s)"
| "claim_all (Suc n) now s =
     (case next_task None now s of
        (Inr (t, True), s') \<Rightarrow> (let (ts, s'') = claim_all n now s' in (t # ts, s''))
      | (_, s') \<Rightarrow> ([], s'))"

lemma next_not_found:
  "queue_ok s \<Longrightarrow> waiting s = {} \<Longrightarrow> next_task None now s = (Inr (zero_task, False), s)"
  using next_scan_empty [of "ms_tasks s" "ms_task_order s"]
  by (auto simp: next_task_def waiting_def)

lemma next_found:
  "waiting s \<noteq> {} \<Longrightarrow> \<exists>t s'. next_task None now s = (Inr (t, True), s')"
  using next_scan_empty [of "ms_tasks s" "ms_task_order s"]
  by (auto simp: next_task_def waiting_def Let_def split: option.split)

lemma first_best_least:
  "first_best m keys k \<Longrightarrow> j \<in> set keys \<Longrightarrow> claimable (get_task m j) \<Longrightarrow> rank (get_task m k) \<le> rank (get_task m j)"
  unfolding first_best_def by (elim conjE exE) (auto dest!: bspec simp: order_less_imp_le)

lemma claim_all_facts:
  "queue_ok s \<Longrightarrow> card (waiting s) \<le> n \<Longrightarrow>
   \<exists>ks. distinct ks \<and> set ks = waiting s \<and>
     fst (claim_all n now s) = map (\<lambda>k. (get_task (ms_tasks s) k)\<lparr>bt_status := BackfillRunning, bt_updated := now\<rparr>) ks \<and>
     sorted (map (\<lambda>k. rank (get_task (ms_tasks s) k)) ks) \<and> waiting (snd (claim_all n now s)) = {}"
proof (induction n arbitrary: s)
  case (Suc n)
  show ?case
  proof (cases "waiting s = {}")
    case True
    then show ?thesis using next_not_found [OF Suc.prems(1) True] by (intro exI [of _ "[]"]) simp
  next
    case False
    then obtain t s' where n: "next_task None now s = (Inr (t, True), s')" using next_found by blast
    obtain k where k: "t = (get_task (ms_tasks s) k)\<lparr>bt_status := BackfillRunning, bt_updated := now\<rparr>"
      "s' = s\<lparr>ms_tasks := (ms_tasks s)(k \<mapsto> t)\<rparr>" "first_best (ms_tasks s) (ms_task_order s) k"
      "k \<in> waiting s" "waiting s' = waiting s - {k}"
      using next_waiting [OF n Suc.prems(1)] by blast
    have "queue_ok s'" using next_ok [OF Suc.prems(1), of None now] n by simp
    moreover have "card (waiting s') \<le> n" using Suc.prems(2) k(4,5) by (simp add: card_Diff_singleton)
    ultimately obtain ks where ks: "distinct ks" "set ks = waiting s - {k}"
      "fst (claim_all n now s') = map (\<lambda>j. (get_task (ms_tasks s') j)\<lparr>bt_status := BackfillRunning, bt_updated := now\<rparr>) ks"
      "sorted (map (\<lambda>j. rank (get_task (ms_tasks s') j)) ks)" "waiting (snd (claim_all n now s')) = {}"
      using Suc.IH [of s'] k(5) by auto
    have g: "get_task (ms_tasks s') j = get_task (ms_tasks s) j" if "j \<in> set ks" for j
      using that ks(2) by (auto simp: k(2) get_task_def)
    have "sorted (map (\<lambda>j. rank (get_task (ms_tasks s) j)) (k # ks))"
      using ks(2,4) first_best_least [OF k(3)] by (auto simp: waiting_def g cong: map_cong)
    with ks k(1,4) n g show ?thesis
      by (intro exI [of _ "k # ks"]) (auto simp: split_def cong: map_cong)
  qed
qed (auto intro!: exI [of _ "[]"])

section \<open>Properties\<close>

text \<open>
  C2: the invariant of the store.  Every store that any sequence of the methods produces keeps its
  rows strictly sorted and under their own keys, and its queue lists each task once.
\<close>

theorem store_reach_ok:
  assumes "store_reach s"
  shows "store_ok s \<and> queue_ok s"
  using assms
  by (induction rule: store_reach.induct)
    (simp_all add: new_memory_store_ok new_queue_ok put_coverage_ok put_securities_ok put_ticks_ok
      put_bars_ok enqueue_ok next_ok update_ok history_ops_keep_queue queue_ops_keep_store)

definition sample_task :: "int \<Rightarrow> int \<Rightarrow> backfill_task" where
  "sample_task day p = zero_task\<lparr>bt_dataset := DatasetKLine, bt_symbol := sample_symbol,
     bt_start := sample_time (day * day_ns), bt_end := sample_time (day * day_ns), bt_priority := p\<rparr>"

theorem store_reach_ok_witness:
  "store_ok (snd (enqueue None zero_time (sample_task 0 1) (snd (put_ticks None [sample_tick 0 1] new_memory_store)))) \<and>
   queue_ok (snd (enqueue None zero_time (sample_task 0 1) (snd (put_ticks None [sample_tick 0 1] new_memory_store))))"
proof (rule store_reach_ok)
  have "list_all tick_ok [sample_tick 0 1]"
    using sample_time_ok [of 0] by (simp add: tick_ok_def sample_tick_def)
  then show "store_reach (snd (enqueue None zero_time (sample_task 0 1)
      (snd (put_ticks None [sample_tick 0 1] new_memory_store))))"
    by (intro store_reach.intros)
qed

text \<open>
  Enqueueing is idempotent.  Once a task is enqueued, another request with the same dataset,
  symbol, days, period and adjustment is answered with the stored task, is reported as not created and leaves the
  queue as it is, whatever its priority, status or identifier.
\<close>

theorem enqueue_idempotent:
  assumes "enqueue None now t s = (Inr (stored, created), s')"
    and "validate_symbol (bt_symbol t') = None" and "\<not> invalid_task t'"
    and "task_key (normalize_task t') = task_key (normalize_task t)"
  shows "enqueue None now' t' s' = (Inr (stored, False), s')"
  using assms by (auto simp: enqueue_def guard_Inr Let_def split: option.splits if_splits)

lemma sample_task_valid: "validate_symbol (bt_symbol (sample_task 0 p)) = None" "\<not> invalid_task (sample_task 0 p)"
  using sample_time_ok [of 0] by (simp_all add: sample_task_def invalid_task_def before_def)

theorem enqueue_idempotent_witness:
  "\<exists>stored s'. enqueue None zero_time (sample_task 0 1) new_memory_store = (Inr (stored, True), s') \<and>
     enqueue None (sample_time 5) (sample_task 0 9) s' = (Inr (stored, False), s')"
proof -
  let ?key = "task_key (normalize_task (sample_task 0 1))"
  let ?stored = "fresh_task ?key zero_time (normalize_task (sample_task 0 1))"
  obtain s' where e: "enqueue None zero_time (sample_task 0 1) new_memory_store = (Inr (?stored, True), s')"
    using sample_task_valid by (simp add: enqueue_def Let_def new_memory_store_def)
  have "task_key (normalize_task (sample_task 0 9)) = ?key"
    by (simp add: task_key_def normalize_task_def sample_task_def)
  from enqueue_idempotent [OF e sample_task_valid this] e show ?thesis by blast
qed

text \<open>
  draining the queue.  On a well-formed queue, as many calls of \<open>Next\<close> as tasks wait claim every
  waiting task exactly once, none twice, in order of priority and then of age, and leave none waiting;
  the retry time of a task plays no part in it.
\<close>

theorem next_drains:
  assumes "queue_ok s" and "card (waiting s) \<le> n"
  shows "\<exists>ks. distinct ks \<and> set ks = waiting s \<and>
     fst (claim_all n now s) = map (\<lambda>k. (get_task (ms_tasks s) k)\<lparr>bt_status := BackfillRunning, bt_updated := now\<rparr>) ks \<and>
     sorted (map (\<lambda>k. rank (get_task (ms_tasks s) k)) ks) \<and> waiting (snd (claim_all n now s)) = {}"
  using assms by (rule claim_all_facts)

theorem next_drains_witness:
  "waiting (snd (claim_all 1 zero_time (snd (enqueue None zero_time (sample_task 0 1) new_memory_store)))) = {} \<and>
   length (fst (claim_all 1 zero_time (snd (enqueue None zero_time (sample_task 0 1) new_memory_store)))) = 1"
proof -
  let ?s = "snd (enqueue None zero_time (sample_task 0 1) new_memory_store)"
  have ok: "queue_ok ?s" by (intro enqueue_ok new_queue_ok)
  have w: "waiting ?s = {task_key (normalize_task (sample_task 0 1))}"
    using sample_task_valid
    by (auto simp: enqueue_def Let_def new_memory_store_def waiting_def get_task_def claimable_def
        fresh_task_def normalize_task_def sample_task_def zero_task_def)
  then have "card (waiting ?s) \<le> 1" by simp
  from next_drains [OF ok this, of zero_time] w show ?thesis
    by (auto dest: distinct_card)
qed

text \<open>
  C4: one claim.  A successful \<open>Next\<close> takes a task that is pending or retrying, the first in
  queue order among those of the highest priority and the earliest creation; it changes that task only, to running.
\<close>

theorem next_claims_best:
  assumes "next_task None now s = (Inr (t, True), s')" and "queue_ok s"
  shows "\<exists>k. first_best (ms_tasks s) (ms_task_order s) k \<and>
     t = (get_task (ms_tasks s) k)\<lparr>bt_status := BackfillRunning, bt_updated := now\<rparr> \<and>
     s' = s\<lparr>ms_tasks := (ms_tasks s)(k \<mapsto> t)\<rparr> \<and> waiting s' = waiting s - {k}"
  using next_waiting [OF assms] by metis

theorem next_claims_best_witness:
  "\<exists>t s'. next_task None zero_time (snd (enqueue None zero_time (sample_task 0 1) new_memory_store)) = (Inr (t, True), s') \<and>
     (\<exists>k. first_best (ms_tasks (snd (enqueue None zero_time (sample_task 0 1) new_memory_store)))
        (ms_task_order (snd (enqueue None zero_time (sample_task 0 1) new_memory_store))) k)"
proof -
  let ?s = "snd (enqueue None zero_time (sample_task 0 1) new_memory_store)"
  have ok: "queue_ok ?s" by (intro enqueue_ok new_queue_ok)
  have "waiting ?s = {task_key (normalize_task (sample_task 0 1))}"
    using sample_task_valid
    by (auto simp: enqueue_def Let_def new_memory_store_def waiting_def get_task_def claimable_def
        fresh_task_def normalize_task_def sample_task_def zero_task_def)
  then obtain t s' where n: "next_task None zero_time ?s = (Inr (t, True), s')"
    using next_found by blast
  from next_claims_best [OF n ok] n show ?thesis by blast
qed

end
