(* ===== verification/Sql_Store.thy ===== *)
theory Sql_Store
  imports Sql_Database Backfill_Queue
begin

text \<open>
  \<^verbatim>\<open>internal/storage/sql_store.go\<close>, the history half of \<open>SQLStore\<close>: coverage, securities, ticks and
  bars over the database of \<open>Sql_Database\<close>.  The SQL of the source is the \<open>upsert_\<close> and \<open>select_\<close>
  definitions.  \<open>marshal\<close> and \<open>unmarshal\<close> stand for \<open>encoding/json\<close> on the dynamic fields, \<open>local\<close>
  for the offset of \<open>time.Local\<close>.
\<close>

section \<open>Keys of the tables\<close>

definition security_pk :: "sql_engine \<Rightarrow> security_row \<Rightarrow> string \<times> string" where
  "security_pk en r = (en_text en (rs_market r), en_text en (rs_code r))"

definition coverage_pk :: "sql_engine \<Rightarrow> coverage_row \<Rightarrow> string \<times> string \<times> string \<times> int \<times> string \<times> string" where
  "coverage_pk en r = (en_text en (rc_dataset r), en_text en (rc_market r), en_text en (rc_code r),
     en_day en (rc_date r), en_text en (rc_period r), en_text en (rc_adjust r))"

definition tick_pk :: "sql_engine \<Rightarrow> tick_row \<Rightarrow> string \<times> string \<times> int \<times> int \<times> int" where
  "tick_pk en r = (en_text en (rt_market r), en_text en (rt_code r), en_day en (rt_date r),
     en_instant en (rt_time r), rt_sequence r)"

definition bar_pk :: "sql_engine \<Rightarrow> bar_row \<Rightarrow> string \<times> string \<times> string \<times> string \<times> int" where
  "bar_pk en r = (en_text en (rb_market r), en_text en (rb_code r), en_text en (rb_period r),
     en_text en (rb_adjust r), en_instant en (rb_time r))"

section \<open>Coverage\<close>

definition is_covered :: "sql_engine \<Rightarrow> string \<Rightarrow> bool" where
  "is_covered en status \<longleftrightarrow> en_text en status = en_text en CoverageCovered"

text \<open>\<open>DO UPDATE SET\<close> of Postgres and SQLite: every right-hand side reads the old row.\<close>

definition later_fetch :: "sql_engine \<Rightarrow> gotime option \<Rightarrow> gotime option \<Rightarrow> gotime option" where
  "later_fetch en old new =
     (case old of None \<Rightarrow> new
      | Some s \<Rightarrow> (case new of None \<Rightarrow> old | Some t \<Rightarrow> if en_instant en t > en_instant en s then new else old))"

definition merge_coverage :: "sql_engine \<Rightarrow> coverage_row \<Rightarrow> coverage_row \<Rightarrow> coverage_row" where
  "merge_coverage en old new =
     (let keeps = is_covered en (rc_status old) \<and> \<not> is_covered en (rc_status new) in
      old\<lparr>rc_status := (if keeps then rc_status old else rc_status new),
        rc_row_count := max (rc_row_count old) (rc_row_count new),
        rc_checksum := (if keeps then rc_checksum old
                        else if length (rc_checksum new) = 0 then rc_checksum old else rc_checksum new),
        rc_address := (if length (rc_address new) = 0 then rc_address old else rc_address new),
        rc_fetch := later_fetch en (rc_fetch old) (rc_fetch new),
        rc_error := (if is_covered en (rc_status new) then [] else rc_error new),
        rc_updated := rc_updated new\<rparr>)"

text \<open>\<open>ON DUPLICATE KEY UPDATE\<close> of MySQL: the assignments run from left to right, each on the row
  the ones before it have left.\<close>

definition mysql_merge_coverage :: "sql_engine \<Rightarrow> coverage_row \<Rightarrow> coverage_row \<Rightarrow> coverage_row" where
  "mysql_merge_coverage en old new =
     (let a = old\<lparr>rc_status := (if is_covered en (rc_status old) \<and> \<not> is_covered en (rc_status new)
                               then rc_status old else rc_status new)\<rparr>;
          b = a\<lparr>rc_row_count := max (rc_row_count a) (rc_row_count new)\<rparr>;
          c = b\<lparr>rc_checksum := (if is_covered en (rc_status b) \<and> \<not> is_covered en (rc_status new) then rc_checksum b
                               else if length (rc_checksum new) = 0 then rc_checksum b else rc_checksum new)\<rparr>;
          d = c\<lparr>rc_address := (if length (rc_address new) = 0 then rc_address c else rc_address new)\<rparr>;
          e = d\<lparr>rc_fetch := later_fetch en (rc_fetch d) (rc_fetch new)\<rparr>;
          f = e\<lparr>rc_error := (if is_covered en (rc_status new) then [] else rc_error new)\<rparr>
      in f\<lparr>rc_updated := rc_updated new\<rparr>)"

definition upsert_coverage :: "sql_engine \<Rightarrow> coverage_row \<Rightarrow> sql_tables \<Rightarrow> sql_tables" where
  "upsert_coverage en r tb = tb\<lparr>tb_coverage := on_conflict (coverage_pk en)
     (if en_dialect en = DialectMySQL then mysql_merge_coverage en else merge_coverage en) r (tb_coverage tb)\<rparr>"

definition stamp_coverage :: "gotime \<Rightarrow> history_coverage \<Rightarrow> history_coverage" where
  "stamp_coverage now cov =
     (let c = normalize_coverage cov in
      if is_zero (hc_last_fetch c) \<and> hc_status c = CoverageCovered then c\<lparr>hc_last_fetch := now\<rparr> else c)"

definition coverage_row_of :: "gotime \<Rightarrow> history_coverage \<Rightarrow> coverage_row" where
  "coverage_row_of now c = \<lparr>rc_dataset = hc_dataset c, rc_market = s_market (hc_symbol c),
     rc_code = s_code (hc_symbol c), rc_date = hc_trade_date c, rc_period = hc_period c,
     rc_adjust = hc_adjust c, rc_status = hc_status c, rc_row_count = hc_row_count c,
     rc_checksum = hc_checksum c, rc_address = hc_source_address c,
     rc_fetch = nullable_time (hc_last_fetch c), rc_error = hc_last_error c, rc_updated = now\<rparr>"

definition sql_put_coverage ::
  "sql_engine \<Rightarrow> (nat \<Rightarrow> db_outcome) \<Rightarrow> go_error option \<Rightarrow> gotime \<Rightarrow> history_coverage \<Rightarrow> (sql_db, unit) op" where
  "sql_put_coverage en net ctx now cov = guard ctx (guard (validate_symbol (hc_symbol cov))
     (with_tx net (db_exec net (upsert_coverage en (coverage_row_of now (stamp_coverage now cov))))))"

definition request_pk :: "sql_engine \<Rightarrow> coverage_request \<Rightarrow> gotime \<Rightarrow> string \<times> string \<times> string \<times> int \<times> string \<times> string" where
  "request_pk en req date = (en_text en (cr_dataset req), en_text en (s_market (cr_symbol req)),
     en_text en (s_code (cr_symbol req)), en_day en date, en_text en (cr_period req), en_text en (cr_adjust req))"

definition select_coverage :: "sql_engine \<Rightarrow> coverage_request \<Rightarrow> gotime \<Rightarrow> sql_tables \<Rightarrow> coverage_row list" where
  "select_coverage en req date tb = filter (\<lambda>r. coverage_pk en r = request_pk en req date) (tb_coverage tb)"

definition scan_coverage :: "sql_engine \<Rightarrow> int \<Rightarrow> coverage_row \<Rightarrow> history_coverage result" where
  "scan_coverage en local r =
     (case scan_time local (en_day_value en (rc_date r)) of
        Inl e \<Rightarrow> Inl e
      | Inr date \<Rightarrow>
          (case scan_nullable en local (rc_fetch r) of
             Inl e \<Rightarrow> Inl e
           | Inr fetch \<Rightarrow> Inr \<lparr>hc_dataset = rc_dataset r, hc_symbol = mk_symbol (rc_market r) (rc_code r),
               hc_trade_date = date, hc_period = rc_period r, hc_adjust = rc_adjust r, hc_status = rc_status r,
               hc_row_count = rc_row_count r, hc_checksum = rc_checksum r, hc_source_address = rc_address r,
               hc_last_fetch = fetch, hc_last_error = rc_error r\<rparr>))"

definition missing_coverage :: "coverage_request \<Rightarrow> gotime \<Rightarrow> history_coverage" where
  "missing_coverage req date = \<lparr>hc_dataset = cr_dataset req, hc_symbol = cr_symbol req,
     hc_trade_date = date, hc_period = cr_period req, hc_adjust = cr_adjust req,
     hc_status = CoverageMissing, hc_row_count = 0, hc_checksum = [], hc_source_address = [],
     hc_last_fetch = zero_time, hc_last_error = []\<rparr>"

definition sql_coverage ::
  "sql_engine \<Rightarrow> int \<Rightarrow> (nat \<Rightarrow> db_outcome) \<Rightarrow> go_error option \<Rightarrow> coverage_request \<Rightarrow> (sql_db, history_coverage) op" where
  "sql_coverage en local net ctx req = guard ctx (guard (validate_symbol (cr_symbol req))
     (let date = normalize_date (cr_trade_date req) in
      bnd (db_row net (select_coverage en req date) (scan_coverage en local)) (\<lambda>row.
        ret (case row of None \<Rightarrow> missing_coverage req date | Some c \<Rightarrow> c))))"

section \<open>Securities\<close>

definition update_security :: "security_row \<Rightarrow> security_row \<Rightarrow> security_row" where
  "update_security old new = old\<lparr>rs_name := rs_name new, rs_type := rs_type new, rs_status := rs_status new,
     rs_fields := rs_fields new, rs_updated := rs_updated new\<rparr>"

definition upsert_security :: "sql_engine \<Rightarrow> security_row \<Rightarrow> sql_tables \<Rightarrow> sql_tables" where
  "upsert_security en r tb =
     tb\<lparr>tb_securities := on_conflict (security_pk en) update_security r (tb_securities tb)\<rparr>"

definition security_row_of :: "gotime \<Rightarrow> security_info \<Rightarrow> string \<Rightarrow> security_row" where
  "security_row_of now item js = \<lparr>rs_market = s_market (si_symbol item), rs_code = s_code (si_symbol item),
     rs_name = s_name (si_symbol item), rs_type = s_type (si_symbol item), rs_status = s_status (si_symbol item),
     rs_fields = js, rs_updated = now\<rparr>"

definition put_one_security ::
  "((string \<rightharpoonup> go_any) \<Rightarrow> string result) \<Rightarrow> sql_engine \<Rightarrow> (nat \<Rightarrow> db_outcome) \<Rightarrow> gotime \<Rightarrow> security_info \<Rightarrow> (sql_db, unit) op" where
  "put_one_security marshal en net now item = guard (validate_symbol (si_symbol item))
     (case marshal (si_fields item) of
        Inl e \<Rightarrow> fail e
      | Inr js \<Rightarrow> db_exec net (upsert_security en (security_row_of now item js)))"

definition sql_put_securities ::
  "((string \<rightharpoonup> go_any) \<Rightarrow> string result) \<Rightarrow> sql_engine \<Rightarrow> (nat \<Rightarrow> db_outcome) \<Rightarrow> go_error option \<Rightarrow> gotime \<Rightarrow> security_info list \<Rightarrow> (sql_db, unit) op" where
  "sql_put_securities marshal en net ctx now items = guard ctx
     (if items = [] then ret () else with_tx net (each_item (put_one_security marshal en net now) items))"

text \<open>The \<open>WHERE\<close>, \<open>ORDER BY\<close> and \<open>LIMIT\<close> the query is put together from.\<close>

definition security_selected :: "sql_engine \<Rightarrow> security_query \<Rightarrow> security_row \<Rightarrow> bool" where
  "security_selected en req r \<longleftrightarrow>
     (sq_markets req = [] \<or>
        en_text en (rs_market r) \<in> set (map (\<lambda>m. en_text en (normalize_market m)) (sq_markets req))) \<and>
     (sq_symbols req = [] \<or> list_ex (\<lambda>s. en_text en (rs_market r) = en_text en (s_market s) \<and>
        en_text en (rs_code r) = en_text en (s_code s)) (sq_symbols req))"

definition security_page :: "security_query \<Rightarrow> 'r list \<Rightarrow> 'r list" where
  "security_page req rows =
     (if 0 < sq_count req then take (unat (sq_count req)) (drop (unat (sq_start req)) rows)
      else if 0 < sq_start req then drop (unat (sq_start req)) rows else rows)"

definition select_securities :: "sql_engine \<Rightarrow> security_query \<Rightarrow> sql_tables \<Rightarrow> security_row list" where
  "select_securities en req tb =
     security_page req (sort_key (security_pk en) (filter (security_selected en req) (tb_securities tb)))"

definition scan_security ::
  "(string \<Rightarrow> (string \<rightharpoonup> go_any) result) \<Rightarrow> sql_engine \<Rightarrow> security_row \<Rightarrow> security_info result" where
  "scan_security unmarshal en r =
     (let raw = en_json en (rs_fields r) in
      case (if trim_space raw \<noteq> [] then unmarshal raw else Inr Map.empty) of
        Inl e \<Rightarrow> Inl e
      | Inr js \<Rightarrow> Inr \<lparr>si_symbol = \<lparr>s_market = rs_market r, s_code = rs_code r, s_name = rs_name r,
          s_type = rs_type r, s_status = rs_status r\<rparr>, si_fields = js, si_cached = True\<rparr>)"

definition sql_query_securities ::
  "(string \<Rightarrow> (string \<rightharpoonup> go_any) result) \<Rightarrow> sql_engine \<Rightarrow> (nat \<Rightarrow> db_outcome) \<Rightarrow> go_error option \<Rightarrow> security_query \<Rightarrow> (sql_db, security_info list) op" where
  "sql_query_securities unmarshal en net ctx req = guard ctx
     (bnd (lift_result (collect (\<lambda>sy. case validate_symbol sy of Some e \<Rightarrow> Inl e | None \<Rightarrow> Inr ()) (sq_symbols req))) (\<lambda>_.
      bnd (db_rows net (select_securities en req) (scan_security unmarshal en)) (\<lambda>items.
        if items = [] then fail ErrNoData else ret items)))"

section \<open>Ticks\<close>

definition update_tick :: "tick_row \<Rightarrow> tick_row \<Rightarrow> tick_row" where
  "update_tick old new = old\<lparr>rt_price := rt_price new, rt_volume := rt_volume new, rt_amount := rt_amount new,
     rt_direction := rt_direction new, rt_source := rt_source new, rt_address := rt_address new,
     rt_fetch := rt_fetch new, rt_checksum := rt_checksum new\<rparr>"

definition upsert_tick :: "sql_engine \<Rightarrow> tick_row \<Rightarrow> sql_tables \<Rightarrow> sql_tables" where
  "upsert_tick en r tb = tb\<lparr>tb_ticks := on_conflict (tick_pk en) update_tick r (tb_ticks tb)\<rparr>"

definition tick_row_of :: "tick \<Rightarrow> gotime \<Rightarrow> tick_row" where
  "tick_row_of t date = \<lparr>rt_market = s_market (tk_symbol t), rt_code = s_code (tk_symbol t), rt_date = date,
     rt_time = tk_trade_time t, rt_price = tk_price t, rt_volume = tk_volume t, rt_amount = tk_amount t,
     rt_direction = tk_direction t, rt_sequence = tk_sequence t, rt_source = tk_source t,
     rt_address = [], rt_fetch = None, rt_checksum = []\<rparr>"

definition put_one_tick :: "sql_engine \<Rightarrow> (nat \<Rightarrow> db_outcome) \<Rightarrow> tick \<Rightarrow> (sql_db, unit) op" where
  "put_one_tick en net t = guard (validate_symbol (tk_symbol t))
     (let date = normalize_date (if is_zero (tk_trade_date t) then tk_trade_time t else tk_trade_date t) in
      if is_zero date then fail ErrInvalidRequest else db_exec net (upsert_tick en (tick_row_of t date)))"

definition sql_put_ticks ::
  "sql_engine \<Rightarrow> (nat \<Rightarrow> db_outcome) \<Rightarrow> go_error option \<Rightarrow> tick list \<Rightarrow> (sql_db, unit) op" where
  "sql_put_ticks en net ctx ticks = guard ctx
     (if ticks = [] then ret () else with_tx net (each_item (put_one_tick en net) ticks))"

definition select_ticks :: "sql_engine \<Rightarrow> history_tick_query \<Rightarrow> gotime \<Rightarrow> sql_tables \<Rightarrow> tick_row list" where
  "select_ticks en req date tb =
     (let rows = sort_key (\<lambda>r. (en_instant en (rt_time r), rt_sequence r))
        (filter (\<lambda>r. en_text en (rt_market r) = en_text en (s_market (hq_symbol req)) \<and>
           en_text en (rt_code r) = en_text en (s_code (hq_symbol req)) \<and>
           en_day en (rt_date r) = en_day en date) (tb_ticks tb))
      in if 0 < hq_limit req then take (nat (hq_limit req)) (drop (nat (hq_start req)) rows) else rows)"

definition scan_tick :: "sql_engine \<Rightarrow> int \<Rightarrow> tick_row \<Rightarrow> tick result" where
  "scan_tick en local r =
     (case scan_time local (en_day_value en (rt_date r)) of
        Inl e \<Rightarrow> Inl e
      | Inr date \<Rightarrow>
          (case scan_time local (en_time_value en (rt_time r)) of
             Inl e \<Rightarrow> Inl e
           | Inr at \<Rightarrow> Inr \<lparr>tk_symbol = mk_symbol (rt_market r) (rt_code r), tk_trade_date = date,
               tk_trade_time = at, tk_price = en_number en (rt_price r), tk_volume = rt_volume r,
               tk_amount = en_number en (rt_amount r), tk_direction = rt_direction r,
               tk_sequence = rt_sequence r, tk_source = rt_source r, tk_cached = False\<rparr>))"

definition page_ticks :: "tick list \<Rightarrow> int \<Rightarrow> int \<Rightarrow> tick list result" where
  "page_ticks items start limit = tick_window (max 0 start) limit items"

definition sql_query_ticks ::
  "sql_engine \<Rightarrow> int \<Rightarrow> (nat \<Rightarrow> db_outcome) \<Rightarrow> go_error option \<Rightarrow> history_tick_query \<Rightarrow> (sql_db, tick list) op" where
  "sql_query_ticks en local net ctx req = guard ctx (guard (validate_symbol (hq_symbol req))
     (let date = normalize_date (hq_trade_date req) in
      if is_zero date then fail ErrInvalidRequest
      else if hq_start req < 0 \<or> hq_limit req < 0 then fail ErrInvalidRequest
      else bnd (db_rows net (select_ticks en req date) (scan_tick en local)) (\<lambda>items.
        if items = [] then (if 0 < hq_start req \<and> 0 < hq_limit req then ret [] else fail ErrNoData)
        else if hq_limit req = 0 \<and> 0 < hq_start req then lift_result (page_ticks items (hq_start req) 0)
        else ret items)))"

section \<open>Bars\<close>

definition update_bar :: "bar_row \<Rightarrow> bar_row \<Rightarrow> bar_row" where
  "update_bar old new = old\<lparr>rb_open := rb_open new, rb_high := rb_high new, rb_low := rb_low new,
     rb_close := rb_close new, rb_volume := rb_volume new, rb_amount := rb_amount new, rb_source := rb_source new,
     rb_address := rb_address new, rb_fetch := rb_fetch new, rb_checksum := rb_checksum new\<rparr>"

definition upsert_bar :: "sql_engine \<Rightarrow> bar_row \<Rightarrow> sql_tables \<Rightarrow> sql_tables" where
  "upsert_bar en r tb = tb\<lparr>tb_bars := on_conflict (bar_pk en) update_bar r (tb_bars tb)\<rparr>"

definition bar_row_of :: "bar \<Rightarrow> string \<Rightarrow> bar_row" where
  "bar_row_of b adjust = \<lparr>rb_market = s_market (b_symbol b), rb_code = s_code (b_symbol b),
     rb_period = b_period b, rb_adjust = adjust, rb_time = b_time b, rb_open = b_open b, rb_high = b_high b,
     rb_low = b_low b, rb_close = b_close b, rb_volume = b_volume b, rb_amount = b_amount b,
     rb_source = b_source b, rb_address = [], rb_fetch = None, rb_checksum = []\<rparr>"

definition put_one_bar :: "sql_engine \<Rightarrow> (nat \<Rightarrow> db_outcome) \<Rightarrow> bar \<Rightarrow> (sql_db, unit) op" where
  "put_one_bar en net b = guard (validate_symbol (b_symbol b))
     (if b_period b = PeriodUnknown \<or> is_zero (b_time b) then fail ErrInvalidRequest
      else let adjust = (if b_adjust b = [] then AdjustNone else b_adjust b)
           in db_exec net (upsert_bar en (bar_row_of b adjust)))"

definition sql_put_bars ::
  "sql_engine \<Rightarrow> (nat \<Rightarrow> db_outcome) \<Rightarrow> go_error option \<Rightarrow> bar list \<Rightarrow> (sql_db, unit) op" where
  "sql_put_bars en net ctx bars = guard ctx
     (if bars = [] then ret () else with_tx net (each_item (put_one_bar en net) bars))"

definition select_bars :: "sql_engine \<Rightarrow> bar_query \<Rightarrow> string \<Rightarrow> sql_tables \<Rightarrow> bar_row list" where
  "select_bars en req adjust tb = sort_key (\<lambda>r. en_instant en (rb_time r))
     (filter (\<lambda>r. en_text en (rb_market r) = en_text en (s_market (bq_symbol req)) \<and>
        en_text en (rb_code r) = en_text en (s_code (bq_symbol req)) \<and>
        en_text en (rb_period r) = en_text en (bq_period req) \<and> en_text en (rb_adjust r) = en_text en adjust \<and>
        (is_zero (bq_start req) \<or> en_instant en (bq_start req) \<le> en_instant en (rb_time r)) \<and>
        (is_zero (bq_end req) \<or> en_instant en (rb_time r) \<le> en_instant en (bq_end req))) (tb_bars tb))"

definition scan_bar :: "sql_engine \<Rightarrow> int \<Rightarrow> bar_row \<Rightarrow> bar result" where
  "scan_bar en local r =
     (case scan_time local (en_time_value en (rb_time r)) of
        Inl e \<Rightarrow> Inl e
      | Inr at \<Rightarrow> Inr \<lparr>b_symbol = mk_symbol (rb_market r) (rb_code r), b_period = rb_period r,
          b_adjust = rb_adjust r, b_time = at, b_open = en_number en (rb_open r), b_high = en_number en (rb_high r),
          b_low = en_number en (rb_low r), b_close = en_number en (rb_close r),
          b_volume = en_number en (rb_volume r), b_amount = en_number en (rb_amount r), b_source = rb_source r\<rparr>)"

definition sql_query_bars ::
  "sql_engine \<Rightarrow> int \<Rightarrow> (nat \<Rightarrow> db_outcome) \<Rightarrow> go_error option \<Rightarrow> bar_query \<Rightarrow> (sql_db, bar list) op" where
  "sql_query_bars en local net ctx req = guard ctx (guard (validate_symbol (bq_symbol req))
     (if bq_period req = PeriodUnknown then fail ErrInvalidRequest
      else let adjust = (if bq_adjust req = [] then AdjustNone else bq_adjust req) in
        bnd (db_rows net (select_bars en req adjust) (scan_bar en local)) (\<lambda>items.
          if items = [] then fail ErrNoData else ret items)))"

section \<open>The tables keep their keys\<close>

lemma mysql_merge_coverage_eq: "mysql_merge_coverage en = merge_coverage en"
  by (rule ext, rule ext) (simp add: mysql_merge_coverage_def merge_coverage_def Let_def)

interpretation security_table: keyed_table "security_pk en" update_security
  by unfold_locales (simp add: security_pk_def update_security_def)

interpretation coverage_table: keyed_table "coverage_pk en" "merge_coverage en"
  by unfold_locales (simp add: coverage_pk_def merge_coverage_def Let_def)

interpretation tick_table: keyed_table "tick_pk en" update_tick
  by unfold_locales (simp add: tick_pk_def update_tick_def)

interpretation bar_table: keyed_table "bar_pk en" update_bar
  by unfold_locales (simp add: bar_pk_def update_bar_def)

section \<open>Writes are all or nothing\<close>

definition tick_day :: "tick \<Rightarrow> gotime" where
  "tick_day t = normalize_date (if is_zero (tk_trade_date t) then tk_trade_time t else tk_trade_date t)"

definition store_tick :: "sql_engine \<Rightarrow> tick \<Rightarrow> sql_tables \<Rightarrow> sql_tables" where
  "store_tick en t = upsert_tick en (tick_row_of t (tick_day t))"

definition store_bar :: "sql_engine \<Rightarrow> bar \<Rightarrow> sql_tables \<Rightarrow> sql_tables" where
  "store_bar en b = upsert_bar en (bar_row_of b (if b_adjust b = [] then AdjustNone else b_adjust b))"

definition store_security ::
  "((string \<rightharpoonup> go_any) \<Rightarrow> string result) \<Rightarrow> sql_engine \<Rightarrow> gotime \<Rightarrow> security_info \<Rightarrow> sql_tables \<Rightarrow> sql_tables" where
  "store_security marshal en now item = upsert_security en
     (security_row_of now item (case marshal (si_fields item) of Inl e \<Rightarrow> [] | Inr js \<Rightarrow> js))"

definition store_coverage :: "sql_engine \<Rightarrow> gotime \<Rightarrow> history_coverage \<Rightarrow> sql_tables \<Rightarrow> sql_tables" where
  "store_coverage en now cov = upsert_coverage en (coverage_row_of now (stamp_coverage now cov))"

lemma put_one_tick_Inr:
  "put_one_tick en net t d = (Inr (), d') \<Longrightarrow> db_tables d' = store_tick en t (db_tables d)"
  by (auto simp: put_one_tick_def guard_Inr fail_def Let_def store_tick_def tick_day_def split: if_splits
      dest: db_exec_Inr)

lemma put_one_bar_Inr:
  "put_one_bar en net b d = (Inr (), d') \<Longrightarrow> db_tables d' = store_bar en b (db_tables d)"
  by (auto simp: put_one_bar_def guard_Inr fail_def Let_def store_bar_def split: if_splits dest: db_exec_Inr)

lemma put_one_security_Inr:
  "put_one_security marshal en net now i d = (Inr (), d') \<Longrightarrow>
   db_tables d' = store_security marshal en now i (db_tables d)"
  by (auto simp: put_one_security_def guard_Inr fail_def store_security_def split: sum.splits dest: db_exec_Inr)

lemma put_ticks_atomic:
  "all_or_nothing net (db_tables db) (fold (store_tick en) ticks (db_tables db)) (sql_put_ticks en net ctx ticks db)"
  unfolding sql_put_ticks_def by (intro all_or_nothing_guard all_or_nothing_items put_one_tick_Inr)

lemma put_coverage_atomic:
  "all_or_nothing net (db_tables db) (store_coverage en now cov (db_tables db)) (sql_put_coverage en net ctx now cov db)"
  unfolding sql_put_coverage_def store_coverage_def
  by (intro all_or_nothing_guard all_or_nothing_tx) (rule db_exec_Inr)

text \<open>
  C31: Every write of the SQL store is one transaction: whatever the database does to its calls, it
  leaves the tables as they were or with the effect of all its items, upserted in order; with all of
  them when it succeeds, and as they were when it fails and no answer was lost.
\<close>

theorem sql_writes_atomic:
  "all_or_nothing net (db_tables db) (fold (store_tick en) ticks (db_tables db))
     (sql_put_ticks en net ctx ticks db) \<and>
   all_or_nothing net (db_tables db) (fold (store_bar en) bars (db_tables db))
     (sql_put_bars en net ctx bars db) \<and>
   all_or_nothing net (db_tables db) (fold (store_security marshal en now) items (db_tables db))
     (sql_put_securities marshal en net ctx now items db) \<and>
   all_or_nothing net (db_tables db) (store_coverage en now cov (db_tables db))
     (sql_put_coverage en net ctx now cov db)"
  unfolding sql_put_bars_def sql_put_securities_def
  by (intro conjI put_ticks_atomic put_coverage_atomic all_or_nothing_guard all_or_nothing_items
      put_one_bar_Inr put_one_security_Inr)

section \<open>Coverage never gets worse\<close>

lemma merge_coverage_fields:
  "is_covered en (rc_status (merge_coverage en old new)) \<longleftrightarrow>
     is_covered en (rc_status old) \<or> is_covered en (rc_status new)"
  "rc_row_count (merge_coverage en old new) = max (rc_row_count old) (rc_row_count new)"
  "rc_error (merge_coverage en old new) = (if is_covered en (rc_status new) then [] else rc_error new)"
  by (auto simp: merge_coverage_def Let_def)

lemma foldl_merge_status:
  "is_covered en (rc_status (foldl (merge_coverage en) r rs)) \<longleftrightarrow>
     list_ex (\<lambda>x. is_covered en (rc_status x)) (r # rs)"
  by (induction rs arbitrary: r) (auto simp: merge_coverage_fields)

lemma foldl_merge_row_count:
  "rc_row_count (foldl (merge_coverage en) r rs) = Max (rc_row_count ` set (r # rs))"
proof (induction rs arbitrary: r)
  case (Cons x rs)
  show ?case
    by (cases "rs = []") (simp_all add: Cons.IH merge_coverage_fields max.assoc)
qed simp

lemma foldl_merge_error:
  "rs \<noteq> [] \<Longrightarrow> rc_error (foldl (merge_coverage en) r rs) =
     (if is_covered en (rc_status (last rs)) then [] else rc_error (last rs))"
  by (induction rs rule: rev_induct) (simp_all add: merge_coverage_fields)

lemma stamped_key [simp]: "coverage_pk en (coverage_row_of now (stamp_coverage now c)) =
    coverage_pk en (coverage_row_of now (normalize_coverage c))"
  by (simp add: coverage_pk_def coverage_row_of_def stamp_coverage_def Let_def)

lemma stamped_fields [simp]:
  "hc_status (stamp_coverage now c) = hc_status (normalize_coverage c)"
  "hc_row_count (stamp_coverage now c) = hc_row_count c"
  "hc_last_error (stamp_coverage now c) = hc_last_error c"
  by (simp_all add: stamp_coverage_def normalize_coverage_def Let_def)

lemma put_coverage_Inr:
  "sql_put_coverage en net ctx now c db = (Inr (), db') \<Longrightarrow> db_tables db' = store_coverage en now c (db_tables db)"
  using put_coverage_atomic [of net db en now c ctx] by (simp add: all_or_nothing_def)

lemma store_coverages:
  "tb_coverage (fold (store_coverage en now) cs tb) =
     fold (on_conflict (coverage_pk en) (merge_coverage en))
       (map (\<lambda>c. coverage_row_of now (stamp_coverage now c)) cs) (tb_coverage tb)"
  by (induction cs arbitrary: tb) (simp_all add: store_coverage_def upsert_coverage_def mysql_merge_coverage_eq)

lemma coverage_after_puts:
  assumes "each_item (sql_put_coverage en net ctx now) (c # cs) db = (Inr (), db')"
    and "list_all (\<lambda>x. coverage_pk en (coverage_row_of now (normalize_coverage x)) = request_pk en req date) (c # cs)"
    and "select_coverage en req date (db_tables db) = []"
  shows "select_coverage en req date (db_tables db') =
    [foldl (merge_coverage en) (coverage_row_of now (stamp_coverage now c))
       (map (\<lambda>x. coverage_row_of now (stamp_coverage now x)) cs)]"
proof -
  have "db_tables db' = fold (store_coverage en now) (c # cs) (db_tables db)"
    using each_item_Inr [OF assms(1), where ok = "\<lambda>x. True"] put_coverage_Inr by blast
  then have "tb_coverage (db_tables db') = fold (on_conflict (coverage_pk en) (merge_coverage en))
      (map (\<lambda>c. coverage_row_of now (stamp_coverage now c)) cs)
      (on_conflict (coverage_pk en) (merge_coverage en) (coverage_row_of now (stamp_coverage now c)) (tb_coverage (db_tables db)))"
    by (simp add: store_coverages del: fold.simps(2)) simp
  moreover have "filter (\<lambda>r. coverage_pk en r = request_pk en req date)
      (on_conflict (coverage_pk en) (merge_coverage en) (coverage_row_of now (stamp_coverage now c)) (tb_coverage (db_tables db))) =
      [coverage_row_of now (stamp_coverage now c)]"
    using assms(2,3) by (simp add: coverage_table.on_conflict_filter select_coverage_def)
  ultimately show ?thesis
    using coverage_table.fold_on_conflict_filter [where k = "request_pk en req date"] assms(2)
    by (simp add: select_coverage_def list_all_iff)
qed

lemma scan_coverage_fields:
  "scan_coverage en local r = Inr c \<Longrightarrow>
     hc_status c = rc_status r \<and> hc_row_count c = rc_row_count r \<and> hc_last_error c = rc_error r"
  by (auto simp: scan_coverage_def split: sum.splits)

lemma sql_coverage_row:
  assumes "sql_coverage en local net ctx req db = (Inr c, db')"
    and "select_coverage en req (normalize_date (cr_trade_date req)) (db_tables db) = [r]"
  shows "scan_coverage en local r = Inr c"
proof -
  obtain row d where "db_row net (select_coverage en req (normalize_date (cr_trade_date req))) (scan_coverage en local) db = (Inr row, d)"
    and c: "c = (case row of None \<Rightarrow> missing_coverage req (normalize_date (cr_trade_date req)) | Some c \<Rightarrow> c)"
    using assms(1) by (auto simp: sql_coverage_def guard_Inr Let_def bnd_eq_Inr ret_def)
  then obtain rows d' where "db_query net (select_coverage en req (normalize_date (cr_trade_date req))) db = (Inr rows, d')"
    and r: "(case rows of [] \<Rightarrow> ret None | r # rs \<Rightarrow> lift_result (map_sum id Some (scan_coverage en local r))) d' = (Inr row, d)"
    by (auto simp: db_row_def bnd_eq_Inr)
  then have "rows = [r]" using db_query_Inr assms(2) by fastforce
  with r c show ?thesis
    by (cases "scan_coverage en local r") (auto simp: lift_result_def)
qed

text \<open>
  C32: However often coverage of one key is reported to the SQL store, in whatever order and on every
  dialect, it reads back as covered exactly when some report was, with the largest row count of the
  reports and no error if the last report covered; a later missing or failed report loses nothing.
\<close>

theorem coverage_never_lost:
  assumes "each_item (sql_put_coverage en net ctx now) (c # cs) db = (Inr (), db')"
    and "list_all (\<lambda>x. coverage_pk en (coverage_row_of now (normalize_coverage x)) =
      request_pk en req (normalize_date (cr_trade_date req))) (c # cs)"
    and "select_coverage en req (normalize_date (cr_trade_date req)) (db_tables db) = []"
    and "sql_coverage en local net' ctx' req db' = (Inr got, db'')"
  shows "(is_covered en (hc_status got) \<longleftrightarrow>
      list_ex (\<lambda>x. is_covered en (hc_status (normalize_coverage x))) (c # cs)) \<and>
    hc_row_count got = Max (hc_row_count ` set (c # cs)) \<and>
    (cs \<noteq> [] \<and> is_covered en (hc_status (normalize_coverage (last cs))) \<longrightarrow> hc_last_error got = [])"
proof -
  let ?row = "\<lambda>x. coverage_row_of now (stamp_coverage now x)"
  have f: "rc_status (?row x) = hc_status (normalize_coverage x)" "rc_row_count (?row x) = hc_row_count x" for x
    by (simp_all add: coverage_row_of_def)
  have s: "scan_coverage en local (foldl (merge_coverage en) (?row c) (map ?row cs)) = Inr got"
    using sql_coverage_row [OF assms(4)] coverage_after_puts [OF assms(1-3)] by simp
  show ?thesis
    using scan_coverage_fields [OF s] foldl_merge_error [of "map ?row cs" en "?row c"]
    by (simp add: foldl_merge_status foldl_merge_row_count f list_ex_iff image_image last_map)
qed

text \<open>An engine that compares and gives back what it was given, and a day of ticks reported twice.\<close>

definition plain_engine :: "string \<Rightarrow> sql_engine" where
  "plain_engine dialect = \<lparr>en_dialect = dialect, en_text = (\<lambda>s. s), en_day = t_nanos, en_instant = t_nanos,
     en_day_value = DvTime, en_time_value = DvTime, en_number = (\<lambda>x. x), en_json = (\<lambda>s. s),
     en_duplicate = OtherError ''UNIQUE constraint failed'', en_affected = (\<lambda>old new. True)\<rparr>"

definition sample_report :: "string \<Rightarrow> int \<Rightarrow> history_coverage" where
  "sample_report status rows = \<lparr>hc_dataset = DatasetHistoryTick, hc_symbol = mk_symbol MarketSH ''600000'',
     hc_trade_date = \<lparr>t_nanos = 63917856000000000000, t_zone = 0\<rparr>, hc_period = [], hc_adjust = [],
     hc_status = status, hc_row_count = rows, hc_checksum = [], hc_source_address = [],
     hc_last_fetch = zero_time, hc_last_error = ''timeout''\<rparr>"

definition sample_request :: coverage_request where
  "sample_request = \<lparr>cr_dataset = DatasetHistoryTick, cr_symbol = mk_symbol MarketSH ''600000'',
     cr_trade_date = \<lparr>t_nanos = 63917856000000000000, t_zone = 0\<rparr>, cr_period = [], cr_adjust = []\<rparr>"

definition sample_reports :: "unit result \<times> sql_db" where
  "sample_reports = each_item (sql_put_coverage (plain_engine DialectMySQL) (\<lambda>n. Served) None sample_instant)
     [sample_report CoverageCovered 100, sample_report CoverageMissing 0] \<lparr>db_tables = empty_tables, db_calls = 0\<rparr>"

definition sample_answer :: "history_coverage result \<times> sql_db" where
  "sample_answer = sql_coverage (plain_engine DialectMySQL) 0 (\<lambda>n. Served) None sample_request (snd sample_reports)"

lemma sample_reports_done: "fst sample_reports = Inr ()"
  by code_simp

lemma sample_answer_done: "isl (fst sample_answer) = False"
  by code_simp

theorem coverage_never_lost_witness:
  "\<exists>got. fst sample_answer = Inr got \<and> is_covered (plain_engine DialectMySQL) (hc_status got) \<and>
     hc_row_count got = 100"
proof -
  let ?en = "plain_engine DialectMySQL" and ?req = sample_request
  obtain got where g: "fst sample_answer = Inr got"
    using sample_answer_done by (cases "fst sample_answer") auto
  have r: "each_item (sql_put_coverage ?en (\<lambda>n. Served) None sample_instant)
      (sample_report CoverageCovered 100 # [sample_report CoverageMissing 0])
      \<lparr>db_tables = empty_tables, db_calls = 0\<rparr> = (Inr (), snd sample_reports)"
    using sample_reports_done by (simp add: sample_reports_def prod_eq_iff)
  have k: "list_all (\<lambda>x. coverage_pk ?en (coverage_row_of sample_instant (normalize_coverage x)) =
      request_pk ?en ?req (normalize_date (cr_trade_date ?req)))
      (sample_report CoverageCovered 100 # [sample_report CoverageMissing 0])"
    by code_simp
  have e: "select_coverage ?en ?req (normalize_date (cr_trade_date ?req))
      (db_tables \<lparr>db_tables = empty_tables, db_calls = 0\<rparr>) = []"
    by (simp add: select_coverage_def empty_tables_def)
  have q: "sql_coverage ?en 0 (\<lambda>n. Served) None ?req (snd sample_reports) = (Inr got, snd sample_answer)"
    using g by (simp add: sample_answer_def prod_eq_iff)
  from coverage_never_lost [OF r k e q] g show ?thesis
    by (simp add: is_covered_def plain_engine_def sample_report_def normalize_coverage_def)
qed

end
