(* ===== verification/Sql_Queue.thy ===== *)
theory Sql_Queue
  imports Sql_Store
begin

text \<open>
  The backfill half of \<open>SQLStore\<close> in \<^verbatim>\<open>internal/storage/sql_store.go\<close>.  \<open>Enqueue\<close>, and \<open>Next\<close> outside
  Postgres, are several calls between which other sessions run; they are modelled by their parts and
  by the composition that runs alone.
\<close>

section \<open>Rows\<close>

definition sql_date_key :: "gotime \<Rightarrow> string" where
  "sql_date_key t = (let date = normalize_date t in if is_zero date then [] else format_compact date)"

definition sql_task_key :: "backfill_task \<Rightarrow> string" where
  "sql_task_key t = join ''|'' [bt_dataset t, symbol_key (bt_symbol t), sql_date_key (bt_start t),
     sql_date_key (bt_end t), bt_period t, bt_adjust t]"

definition sql_task_id :: "string \<Rightarrow> string" where
  "sql_task_id key = hex_text (take 8 (sha1_sum key))"

lemma sql_task_key_eq: "sql_task_key = task_key" "sql_task_id = stable_task_id"
  by (simp_all add: fun_eq_iff sql_task_key_def task_key_def sql_date_key_def date_key_def sql_task_id_def
      stable_task_id_def)

definition task_row_of :: "backfill_task \<Rightarrow> task_row" where
  "task_row_of t = \<lparr>ra_id = bt_id t, ra_dataset = bt_dataset t, ra_market = s_market (bt_symbol t),
     ra_code = s_code (bt_symbol t), ra_start = bt_start t, ra_end = bt_end t, ra_period = bt_period t,
     ra_adjust = bt_adjust t, ra_priority = bt_priority t, ra_status = bt_status t, ra_retry = bt_retry_count t,
     ra_next = nullable_time (bt_next_retry t), ra_error = bt_error t, ra_created = bt_created t,
     ra_updated = bt_updated t\<rparr>"

definition scan_task :: "sql_engine \<Rightarrow> int \<Rightarrow> task_row \<Rightarrow> backfill_task result" where
  "scan_task en local r =
     (case collect (scan_time local) [en_day_value en (ra_start r), en_day_value en (ra_end r),
        (case ra_next r of None \<Rightarrow> DvNull | Some t \<Rightarrow> en_time_value en t),
        en_time_value en (ra_created r), en_time_value en (ra_updated r)] of
        Inl e \<Rightarrow> Inl e
      | Inr ts \<Rightarrow> Inr \<lparr>bt_id = ra_id r, bt_dataset = ra_dataset r, bt_symbol = mk_symbol (ra_market r) (ra_code r),
          bt_start = ts ! 0, bt_end = ts ! 1, bt_period = ra_period r, bt_adjust = ra_adjust r,
          bt_priority = ra_priority r, bt_status = ra_status r, bt_retry_count = ra_retry r,
          bt_next_retry = ts ! 2, bt_error = ra_error r, bt_created = ts ! 3, bt_updated = ts ! 4\<rparr>)"

section \<open>Keys\<close>

type_synonym task_work = "string \<times> string \<times> string \<times> int \<times> int \<times> string \<times> string"

definition task_pk :: "sql_engine \<Rightarrow> task_row \<Rightarrow> string" where
  "task_pk en r = en_text en (ra_id r)"

definition task_unique :: "sql_engine \<Rightarrow> task_row \<Rightarrow> task_work" where
  "task_unique en r = (en_text en (ra_dataset r), en_text en (ra_market r), en_text en (ra_code r),
     en_day en (ra_start r), en_day en (ra_end r), en_text en (ra_period r), en_text en (ra_adjust r))"

definition tasks_unique :: "sql_engine \<Rightarrow> task_row list \<Rightarrow> bool" where
  "tasks_unique en rows \<longleftrightarrow> distinct (map (task_pk en) rows) \<and> distinct (map (task_unique en) rows)"

section \<open>Enqueue\<close>

definition select_task :: "sql_engine \<Rightarrow> backfill_task \<Rightarrow> sql_tables \<Rightarrow> task_row list" where
  "select_task en t tb = filter (\<lambda>r. task_unique en r = task_unique en (task_row_of t)) (tb_tasks tb)"

definition find_task :: "sql_engine \<Rightarrow> int \<Rightarrow> (nat \<Rightarrow> db_outcome) \<Rightarrow> backfill_task \<Rightarrow> (sql_db, backfill_task option) op" where
  "find_task en local net t = db_row net (select_task en t) (scan_task en local)"

text \<open>A plain insert is refused when the row would repeat the primary key or the unique key.\<close>

definition insert_task_row :: "sql_engine \<Rightarrow> task_row \<Rightarrow> sql_tables \<Rightarrow> (unit \<times> sql_tables) result" where
  "insert_task_row en r tb =
     (if list_ex (\<lambda>x. task_pk en x = task_pk en r \<or> task_unique en x = task_unique en r) (tb_tasks tb)
      then Inl (en_duplicate en) else Inr ((), tb\<lparr>tb_tasks := tb_tasks tb @ [r]\<rparr>))"

definition sql_fresh_task :: "gotime \<Rightarrow> backfill_task \<Rightarrow> backfill_task" where
  "sql_fresh_task now t = t\<lparr>
     bt_id := (if bt_id t = [] then sql_task_id (sql_task_key t) else bt_id t),
     bt_created := (if is_zero (bt_created t) then now else bt_created t), bt_updated := now\<rparr>"

text \<open>From the insert on, when the lookup has found no task.\<close>

definition enqueue_insert ::
  "sql_engine \<Rightarrow> int \<Rightarrow> (nat \<Rightarrow> db_outcome) \<Rightarrow> gotime \<Rightarrow> backfill_task \<Rightarrow> (sql_db, backfill_task \<times> bool) op" where
  "enqueue_insert en local net now t =
     (let t' = sql_fresh_task now t in
      catch (with_tx net (db_call net (insert_task_row en (task_row_of t'))))
        (\<lambda>e. catch (find_task en local net t) (\<lambda>e'. fail e)
           (\<lambda>found. case found of Some existing \<Rightarrow> ret (existing, False) | None \<Rightarrow> fail e))
        (\<lambda>_. ret (t', True)))"

definition sql_enqueue ::
  "sql_engine \<Rightarrow> int \<Rightarrow> (nat \<Rightarrow> db_outcome) \<Rightarrow> go_error option \<Rightarrow> gotime \<Rightarrow> backfill_task \<Rightarrow> (sql_db, backfill_task \<times> bool) op" where
  "sql_enqueue en local net ctx now task = guard ctx (guard (validate_symbol (bt_symbol task))
     (if invalid_task task then fail ErrInvalidRequest
      else let t = normalize_task task in
        bnd (find_task en local net t) (\<lambda>found.
          case found of Some existing \<Rightarrow> ret (existing, False) | None \<Rightarrow> enqueue_insert en local net now t)))"

section \<open>Update\<close>

definition replace_task :: "sql_engine \<Rightarrow> task_row \<Rightarrow> task_row \<Rightarrow> task_row" where
  "replace_task en r x = (if task_pk en x = task_pk en r then r\<lparr>ra_id := ra_id x\<rparr> else x)"

text \<open>The number of rows the update counts; refused when another row has the unique key.\<close>

definition update_task_row :: "sql_engine \<Rightarrow> task_row \<Rightarrow> sql_tables \<Rightarrow> (nat \<times> sql_tables) result" where
  "update_task_row en r tb =
     (let hits = filter (\<lambda>x. task_pk en x = task_pk en r) (tb_tasks tb) in
      if hits \<noteq> [] \<and> list_ex (\<lambda>x. task_pk en x \<noteq> task_pk en r \<and> task_unique en x = task_unique en r) (tb_tasks tb)
      then Inl (en_duplicate en)
      else Inr (length (filter (\<lambda>x. en_affected en x (replace_task en r x)) hits),
                tb\<lparr>tb_tasks := map (replace_task en r) (tb_tasks tb)\<rparr>))"

definition update_statement :: "sql_engine \<Rightarrow> (nat \<Rightarrow> db_outcome) \<Rightarrow> task_row \<Rightarrow> (sql_db, unit) op" where
  "update_statement en net r = bnd (db_call net (update_task_row en r)) (\<lambda>n.
     if n = 0 then fail ErrNoData else ret ())"

definition sql_update ::
  "sql_engine \<Rightarrow> (nat \<Rightarrow> db_outcome) \<Rightarrow> go_error option \<Rightarrow> gotime \<Rightarrow> backfill_task \<Rightarrow> (sql_db, unit) op" where
  "sql_update en net ctx now task = guard ctx
     (if bt_id task = [] then fail ErrInvalidRequest
      else let t = task\<lparr>bt_adjust := (if bt_adjust task = [] then AdjustNone else bt_adjust task), bt_updated := now\<rparr>
           in with_tx net (update_statement en net (task_row_of t)))"

section \<open>Next\<close>

definition row_claimable :: "sql_engine \<Rightarrow> task_row \<Rightarrow> bool" where
  "row_claimable en r \<longleftrightarrow> en_text en (ra_status r) = en_text en BackfillPending \<or>
     en_text en (ra_status r) = en_text en BackfillRetrying"

definition claim_order :: "sql_engine \<Rightarrow> task_row \<Rightarrow> int \<times> int \<times> string" where
  "claim_order en r = (- ra_priority r, en_instant en (ra_created r), en_text en (ra_id r))"

definition select_claimable :: "sql_engine \<Rightarrow> sql_tables \<Rightarrow> task_row list" where
  "select_claimable en tb = sort_key (claim_order en) (filter (row_claimable en) (tb_tasks tb))"

text \<open>The lookup of \<open>Next\<close> on SQLite and MySQL, and the claim of the task it found: the clock is read
  once for the task and once more by \<open>Update\<close>.\<close>

definition next_lookup :: "sql_engine \<Rightarrow> int \<Rightarrow> (nat \<Rightarrow> db_outcome) \<Rightarrow> (sql_db, backfill_task option) op" where
  "next_lookup en local net = db_row net (select_claimable en) (scan_task en local)"

definition next_claim ::
  "sql_engine \<Rightarrow> (nat \<Rightarrow> db_outcome) \<Rightarrow> go_error option \<Rightarrow> gotime \<Rightarrow> gotime \<Rightarrow> backfill_task option \<Rightarrow> (sql_db, backfill_task \<times> bool) op" where
  "next_claim en net ctx now now' found =
     (case found of
        None \<Rightarrow> ret (zero_task, False)
      | Some t \<Rightarrow> let t' = t\<lparr>bt_status := BackfillRunning, bt_updated := now\<rparr>
                  in bnd (sql_update en net ctx now' t') (\<lambda>_. ret (t', True)))"

text \<open>On Postgres one statement claims the first row no other session has locked.\<close>

definition claim_row :: "sql_engine \<Rightarrow> (task_row \<Rightarrow> bool) \<Rightarrow> gotime \<Rightarrow> sql_tables \<Rightarrow> task_row option \<times> sql_tables" where
  "claim_row en locked now tb =
     (case filter (\<lambda>r. \<not> locked r) (select_claimable en tb) of
        [] \<Rightarrow> (None, tb)
      | r # rs \<Rightarrow> let r' = r\<lparr>ra_status := BackfillRunning, ra_updated := now\<rparr>
                  in (Some r', tb\<lparr>tb_tasks := map (\<lambda>x. if task_pk en x = task_pk en r
                       then x\<lparr>ra_status := BackfillRunning, ra_updated := now\<rparr> else x) (tb_tasks tb)\<rparr>))"

definition next_postgres ::
  "sql_engine \<Rightarrow> int \<Rightarrow> (nat \<Rightarrow> db_outcome) \<Rightarrow> (task_row \<Rightarrow> bool) \<Rightarrow> gotime \<Rightarrow> (sql_db, backfill_task \<times> bool) op" where
  "next_postgres en local net locked now =
     bnd (db_call net (\<lambda>tb. Inr (claim_row en locked now tb))) (\<lambda>row.
       case row of None \<Rightarrow> ret (zero_task, False)
       | Some r \<Rightarrow> bnd (lift_result (scan_task en local r)) (\<lambda>t. ret (t, True)))"

definition sql_next ::
  "sql_engine \<Rightarrow> int \<Rightarrow> (nat \<Rightarrow> db_outcome) \<Rightarrow> (task_row \<Rightarrow> bool) \<Rightarrow> go_error option \<Rightarrow> gotime \<Rightarrow> gotime \<Rightarrow> (sql_db, backfill_task \<times> bool) op" where
  "sql_next en local net locked ctx now now' = guard ctx
     (if en_dialect en = DialectPostgres then next_postgres en local net locked now
      else bnd (next_lookup en local net) (next_claim en net ctx now now'))"

section \<open>List\<close>

definition row_listed :: "sql_engine \<Rightarrow> backfill_filter \<Rightarrow> task_row \<Rightarrow> bool" where
  "row_listed en f r \<longleftrightarrow>
     (bf_dataset f \<noteq> [] \<longrightarrow> en_text en (ra_dataset r) = en_text en (bf_dataset f)) \<and>
     (bf_status f \<noteq> [] \<longrightarrow> en_text en (ra_status r) = en_text en (bf_status f)) \<and>
     (s_code (bf_symbol f) \<noteq> [] \<longrightarrow> en_text en (ra_market r) = en_text en (s_market (bf_symbol f)) \<and>
        en_text en (ra_code r) = en_text en (s_code (bf_symbol f)))"

definition sql_list ::
  "sql_engine \<Rightarrow> int \<Rightarrow> (nat \<Rightarrow> db_outcome) \<Rightarrow> go_error option \<Rightarrow> backfill_filter \<Rightarrow> (sql_db, backfill_task list) op" where
  "sql_list en local net ctx f = guard ctx
     (db_rows net (\<lambda>tb. sort_key (\<lambda>r. (en_instant en (ra_created r), en_text en (ra_id r)))
        (filter (row_listed en f) (tb_tasks tb))) (scan_task en local))"

section \<open>A task is stored once\<close>

lemma insert_task_row_unique:
  "tasks_unique en (tb_tasks tb) \<Longrightarrow> insert_task_row en r tb = Inr (x, tb') \<Longrightarrow> tasks_unique en (tb_tasks tb')"
  by (auto simp: insert_task_row_def tasks_unique_def list_ex_iff split: if_splits) (metis+)

lemma update_task_row_unique:
  assumes "tasks_unique en (tb_tasks tb)" and "update_task_row en r tb = Inr (n, tb')"
  shows "tasks_unique en (tb_tasks tb')"
proof -
  let ?rows = "tb_tasks tb"
  have d: "distinct ?rows" "inj_on (task_pk en) (set ?rows)" "inj_on (task_unique en) (set ?rows)"
    using assms(1) by (simp_all add: tasks_unique_def distinct_map)
  have tb': "tb_tasks tb' = map (replace_task en r) ?rows"
    using assms(2) by (auto simp: update_task_row_def Let_def split: if_splits)
  have pk: "task_pk en (replace_task en r y) = task_pk en y" for y by (simp add: replace_task_def task_pk_def)
  have u: "task_unique en (replace_task en r y) = (if task_pk en y = task_pk en r then task_unique en r else task_unique en y)" for y
    by (simp add: replace_task_def task_unique_def)
  have no: "y \<in> set ?rows \<Longrightarrow> z \<in> set ?rows \<Longrightarrow> task_pk en y = task_pk en r \<Longrightarrow> task_pk en z \<noteq> task_pk en r \<Longrightarrow>
      task_unique en z \<noteq> task_unique en r" for y z
    using assms(2) by (auto simp: update_task_row_def Let_def list_ex_iff filter_empty_conv split: if_splits)
  have "inj_on (\<lambda>y. task_unique en (replace_task en r y)) (set ?rows)"
  proof (rule inj_onI)
    fix y z
    assume yz: "y \<in> set ?rows" "z \<in> set ?rows" "task_unique en (replace_task en r y) = task_unique en (replace_task en r z)"
    then show "y = z"
      using no [of y z] no [of z y] inj_onD [OF d(2), of y z] inj_onD [OF d(3), of y z] unfolding u
      by (auto split: if_splits)
  qed
  with d show ?thesis
    by (simp add: tb' tasks_unique_def distinct_map comp_def pk inj_on_def)
qed

lemma claim_row_unique:
  assumes "tasks_unique en (tb_tasks tb)" and "claim_row en locked now tb = (found, tb')"
  shows "tasks_unique en (tb_tasks tb')"
proof -
  have f: "tb_tasks tb' = map f (tb_tasks tb) \<Longrightarrow> (\<And>x. task_pk en (f x) = task_pk en x) \<Longrightarrow>
      (\<And>x. task_unique en (f x) = task_unique en x) \<Longrightarrow> tasks_unique en (tb_tasks tb')" for f
    using assms(1) by (simp add: tasks_unique_def comp_def)
  show ?thesis
  proof (cases "filter (\<lambda>r. \<not> locked r) (select_claimable en tb)")
    case Nil
    then show ?thesis using assms by (simp add: claim_row_def)
  next
    case (Cons r rs)
    show ?thesis
      by (rule f [of "\<lambda>x. if task_pk en x = task_pk en r then x\<lparr>ra_status := BackfillRunning, ra_updated := now\<rparr> else x"])
        (use assms(2) Cons in \<open>auto simp: claim_row_def Let_def task_pk_def task_unique_def\<close>)
  qed
qed

abbreviation unique_tasks :: "sql_engine \<Rightarrow> sql_tables \<Rightarrow> bool" where
  "unique_tasks en tb \<equiv> tasks_unique en (tb_tasks tb)"

lemma keeps_enqueue: "keeps (unique_tasks en) (sql_enqueue en local net ctx now task)"
proof -
  have i: "keeps (unique_tasks en) (db_call net (insert_task_row en r))" for r
    by (intro keeps_call) (rule insert_task_row_unique)
  have f: "keeps (unique_tasks en) (find_task en local net t)" for t
    unfolding find_task_def by (rule keeps_row)
  have e: "keeps (unique_tasks en) (enqueue_insert en local net now t)" for t
    unfolding enqueue_insert_def Let_def
    by (intro keeps_rules i f) (auto intro: keeps_rules split: option.split)
  have s: "keeps (unique_tasks en) (case found of Some existing \<Rightarrow> ret (existing, False)
      | None \<Rightarrow> enqueue_insert en local net now t)" for found t
    by (cases found) (simp_all add: e keeps_ret)
  show ?thesis
    unfolding sql_enqueue_def Let_def by (cases "invalid_task task") (simp_all add: keeps_rules s f)
qed

lemma keeps_update: "keeps (unique_tasks en) (sql_update en net ctx now task)"
proof -
  have "keeps (unique_tasks en) (db_call net (update_task_row en r))" for r
    by (intro keeps_call) (rule update_task_row_unique)
  then have "keeps (unique_tasks en) (update_statement en net r)" for r
    unfolding update_statement_def by (intro keeps_bnd) (simp_all add: keeps_rules)
  then show ?thesis
    unfolding sql_update_def Let_def by (cases "bt_id task = []") (simp_all add: keeps_rules)
qed

lemma keeps_next: "keeps (unique_tasks en) (sql_next en local net locked ctx now now')"
proof -
  have "keeps (unique_tasks en) (db_call net (\<lambda>tb. Inr (claim_row en locked now tb)))"
    by (intro keeps_call) (auto dest: claim_row_unique)
  then have p: "keeps (unique_tasks en) (next_postgres en local net locked now)"
    unfolding next_postgres_def by (intro keeps_bnd) (auto intro!: keeps_rules split: option.split)
  have c: "keeps (unique_tasks en) (next_claim en net ctx now now' found)" for found
    unfolding next_claim_def Let_def by (cases found) (simp_all add: keeps_rules keeps_update)
  show ?thesis
    unfolding sql_next_def next_lookup_def
    by (cases "en_dialect en = DialectPostgres") (simp_all add: keeps_rules p c)
qed


section \<open>Claims on Postgres\<close>

text \<open>Claims of any sessions one after the other; each meets its own locks and reads its own clock.\<close>

fun postgres_claims :: "sql_engine \<Rightarrow> ((task_row \<Rightarrow> bool) \<times> gotime) list \<Rightarrow> sql_tables \<Rightarrow> task_row list \<times> sql_tables" where
  "postgres_claims en [] tb = ([], tb)"
| "postgres_claims en ((locked, now) # cs) tb =
     (case claim_row en locked now tb of (found, tb1) \<Rightarrow>
        (case postgres_claims en cs tb1 of (rs, tb2) \<Rightarrow>
           ((case found of None \<Rightarrow> rs | Some r \<Rightarrow> r # rs), tb2)))"

definition claimable_ids :: "sql_engine \<Rightarrow> sql_tables \<Rightarrow> string set" where
  "claimable_ids en tb = task_pk en ` set (filter (row_claimable en) (tb_tasks tb))"

definition running_waits :: "sql_engine \<Rightarrow> bool" where
  "running_waits en \<longleftrightarrow> en_text en BackfillRunning \<noteq> en_text en BackfillPending \<and>
     en_text en BackfillRunning \<noteq> en_text en BackfillRetrying"

lemma claim_row_cases:
  assumes "claim_row en locked now tb = (found, tb')" and "running_waits en"
  obtains (none) "found = None" "tb' = tb" "\<forall>r \<in> set (tb_tasks tb). row_claimable en r \<longrightarrow> locked r"
  | (claim) r where "found = Some (r\<lparr>ra_status := BackfillRunning, ra_updated := now\<rparr>)" "r \<in> set (tb_tasks tb)"
      "row_claimable en r" "\<not> locked r"
      "\<forall>x \<in> set (tb_tasks tb). row_claimable en x \<and> \<not> locked x \<longrightarrow> claim_order en r \<le> claim_order en x"
      "claimable_ids en tb' = claimable_ids en tb - {task_pk en r}"
proof (cases "filter (\<lambda>r. \<not> locked r) (select_claimable en tb)")
  case Nil
  then have "\<forall>r \<in> set (tb_tasks tb). row_claimable en r \<longrightarrow> locked r"
    by (auto simp: filter_empty_conv select_claimable_def)
  with Nil assms(1) show thesis by (intro none) (auto simp: claim_row_def)
next
  case (Cons r rs)
  have s: "set (r # rs) = {x \<in> set (tb_tasks tb). row_claimable en x \<and> \<not> locked x}"
    unfolding Cons [symmetric] by (auto simp: select_claimable_def)
  have "sorted (map (claim_order en) (filter (\<lambda>r. \<not> locked r) (select_claimable en tb)))"
    by (intro sorted_filter) (simp add: select_claimable_def)
  then have le: "\<forall>x \<in> set rs. claim_order en r \<le> claim_order en x" using Cons by simp
  have nr: "\<not> row_claimable en (x\<lparr>ra_status := BackfillRunning, ra_updated := now\<rparr>)" for x
    using assms(2) by (auto simp: row_claimable_def running_waits_def)
  have pk: "task_pk en (x\<lparr>ra_status := BackfillRunning, ra_updated := now\<rparr>) = task_pk en x" for x
    by (simp add: task_pk_def)
  have tb': "tb_tasks tb' = map (\<lambda>x. if task_pk en x = task_pk en r
      then x\<lparr>ra_status := BackfillRunning, ra_updated := now\<rparr> else x) (tb_tasks tb)"
    using assms(1) Cons by (auto simp: claim_row_def Let_def)
  have ids: "claimable_ids en tb' = claimable_ids en tb - {task_pk en r}"
    using nr pk by (auto simp: claimable_ids_def tb' image_iff split: if_splits)
  show thesis
  proof (rule claim)
    show "found = Some (r\<lparr>ra_status := BackfillRunning, ra_updated := now\<rparr>)"
      using assms(1) Cons by (simp add: claim_row_def Let_def)
    show "r \<in> set (tb_tasks tb)" "row_claimable en r" "\<not> locked r" using s by auto
    show "\<forall>x \<in> set (tb_tasks tb). row_claimable en x \<and> \<not> locked x \<longrightarrow> claim_order en r \<le> claim_order en x"
      using s le by (metis (mono_tags, lifting) mem_Collect_eq order_refl set_ConsD)
  qed (rule ids)
qed

lemma postgres_claims_ids:
  assumes "postgres_claims en cs tb = (rs, tb')" and "running_waits en"
  shows "distinct (map (task_pk en) rs) \<and> task_pk en ` set rs \<subseteq> claimable_ids en tb \<and>
    claimable_ids en tb' = claimable_ids en tb - task_pk en ` set rs"
  using assms(1)
proof (induction cs arbitrary: tb rs)
  case (Cons c cs)
  obtain locked now where c: "c = (locked, now)" by fastforce
  obtain found tb1 where f: "claim_row en locked now tb = (found, tb1)" by fastforce
  obtain rs1 where r: "postgres_claims en cs tb1 = (rs1, tb')" "rs = (case found of None \<Rightarrow> rs1 | Some r \<Rightarrow> r # rs1)"
    using Cons.prems by (auto simp: c f split: prod.splits)
  show ?case
    using f assms(2)
  proof (cases rule: claim_row_cases)
    case none
    then show ?thesis using Cons.IH [OF r(1)] r(2) by simp
  next
    case (claim x)
    have "task_pk en x \<in> claimable_ids en tb" using claim(2,3) by (auto simp: claimable_ids_def)
    then show ?thesis using Cons.IH [OF r(1)] r(2) claim(1,6) by (auto simp: task_pk_def)
  qed
qed simp

lemma postgres_claims_drain:
  assumes "postgres_claims en cs tb = (rs, tb')" and "running_waits en"
    and "list_all (\<lambda>(locked, now). locked = (\<lambda>r. False)) cs" and "card (claimable_ids en tb) \<le> length cs"
  shows "claimable_ids en tb' = {}"
  using assms(1,3,4)
proof (induction cs arbitrary: tb rs)
  case Nil
  then show ?case by (simp add: claimable_ids_def)
next
  case (Cons c cs)
  obtain now where c: "c = ((\<lambda>r. False), now)" using Cons.prems(2) by (cases c) auto
  obtain found tb1 where f: "claim_row en (\<lambda>r. False) now tb = (found, tb1)" by fastforce
  obtain rs1 where r: "postgres_claims en cs tb1 = (rs1, tb')"
    using Cons.prems(1) by (auto simp: c f split: prod.splits)
  have fin: "finite (claimable_ids en tb)" by (simp add: claimable_ids_def)
  show ?case
    using f assms(2)
  proof (cases rule: claim_row_cases)
    case none
    then have "claimable_ids en tb1 = {}" by (auto simp: claimable_ids_def)
    then show ?thesis using postgres_claims_ids [OF r assms(2)] by simp
  next
    case (claim x)
    have "task_pk en x \<in> claimable_ids en tb" using claim(2,3) by (auto simp: claimable_ids_def)
    then have "card (claimable_ids en tb1) \<le> length cs"
      using Cons.prems(3) fin claim(6) by simp
    then show ?thesis using Cons.IH [OF r] Cons.prems(2) by simp
  qed
qed

text \<open>
  C34: On Postgres no task is claimed twice: whatever rows other sessions hold locked, the claims of
  any sequence of calls are of distinct tasks that waited before, and exactly they wait no longer;
  without locks, as many calls as tasks that wait claim all of them.
\<close>

theorem postgres_claims_once:
  assumes "postgres_claims en cs tb = (rs, tb')" and "running_waits en"
  shows "distinct (map (task_pk en) rs) \<and> task_pk en ` set rs \<subseteq> claimable_ids en tb \<and>
    claimable_ids en tb' = claimable_ids en tb - task_pk en ` set rs \<and>
    (list_all (\<lambda>(locked, now). locked = (\<lambda>r. False)) cs \<and> card (claimable_ids en tb) \<le> length cs \<longrightarrow>
       task_pk en ` set rs = claimable_ids en tb)"
  using postgres_claims_ids [OF assms] postgres_claims_drain [OF assms] by blast

section \<open>Claims on SQLite and MySQL\<close>

text \<open>A served statement, and a transaction of one served statement.\<close>

lemma served_call: "net (db_calls db) = Served \<Longrightarrow> f (db_tables db) = Inr (x, tb) \<Longrightarrow>
    db_call net f db = (Inr x, db\<lparr>db_calls := db_calls db + 1, db_tables := tb\<rparr>)"
  by (simp add: db_call_def)

lemma served_query:
  "\<forall>n. net n = Served \<Longrightarrow> db_query net f db = (Inr (f (db_tables db)), db\<lparr>db_calls := db_calls db + 1\<rparr>)"
  by (simp add: db_query_def db_call_def)

lemma served_update:
  assumes "\<forall>n. net n = Served" and "update_task_row en r (db_tables db) = Inr (n, tb)" and "n \<noteq> 0"
  shows "with_tx net (update_statement en net r) db = (Inr (), db\<lparr>db_calls := db_calls db + 3, db_tables := tb\<rparr>)"
  using assms by (simp add: with_tx_def bnd_def served_query update_statement_def db_call_def ret_def numeral_3_eq_3)

lemma replace_task_twice:
  "task_pk en r = task_pk en s \<Longrightarrow> task_pk en (replace_task en s x) = task_pk en x"
  by (simp add: replace_task_def task_pk_def)

text \<open>An update of a task with its own key meets no other row.\<close>

lemma update_own_key:
  assumes "tasks_unique en (tb_tasks tb)" and "x \<in> set (tb_tasks tb)" and "task_pk en x = task_pk en r"
    and "task_unique en x = task_unique en r" and "en_affected en x (replace_task en r x)"
  shows "update_task_row en r tb = Inr (1, tb\<lparr>tb_tasks := map (replace_task en r) (tb_tasks tb)\<rparr>)"
proof -
  have d: "distinct (map (task_pk en) (tb_tasks tb))" "distinct (map (task_unique en) (tb_tasks tb))"
    using assms(1) by (simp_all add: tasks_unique_def)
  have "filter (\<lambda>y. task_pk en y = task_pk en r) (tb_tasks tb) = [x]"
    using assms(2,3) d(1)
  proof (induction "tb_tasks tb" arbitrary: tb)
    case (Cons y ys)
    show ?case
    proof (cases "y = x")
      case True
      then have "\<forall>z \<in> set ys. task_pk en z \<noteq> task_pk en r"
        using Cons.prems Cons.hyps(2) by (auto simp: Cons.hyps(2) [symmetric] image_iff)
      then have "filter (\<lambda>y. task_pk en y = task_pk en r) ys = []" by (simp add: filter_empty_conv)
      then show ?thesis using True Cons.prems(2) by (simp add: Cons.hyps(2) [symmetric])
    next
      case False
      have x: "x \<in> set ys" using Cons.prems False by (auto simp: Cons.hyps(2) [symmetric])
      then have "task_pk en r \<in> task_pk en ` set ys" using Cons.prems(2) by (metis imageI)
      with x have p: "x \<in> set ys" "distinct (map (task_pk en) ys)" "task_pk en y \<noteq> task_pk en r"
        using Cons.prems(3) by (auto simp: Cons.hyps(2) [symmetric])
      have "filter (\<lambda>y. task_pk en y = task_pk en r) ys = [x]"
        using Cons.hyps(1) [of "tb\<lparr>tb_tasks := ys\<rparr>"] p Cons.prems(2) by simp
      then show ?thesis using p by (simp add: Cons.hyps(2) [symmetric])
    qed
  qed simp
  moreover have "\<not> list_ex (\<lambda>y. task_pk en y \<noteq> task_pk en r \<and> task_unique en y = task_unique en r) (tb_tasks tb)"
    using assms(2-4) d(2) by (auto simp: list_ex_iff distinct_map inj_on_def)
  ultimately show ?thesis using assms(5) by (simp add: update_task_row_def)
qed

lemma map_replace_unique:
  assumes "tasks_unique en (tb_tasks tb)" and "x \<in> set (tb_tasks tb)" and "task_pk en x = task_pk en r"
    and "task_unique en x = task_unique en r"
  shows "tasks_unique en (map (replace_task en r) (tb_tasks tb))"
proof -
  have "task_pk en (replace_task en r y) = task_pk en y" for y by (simp add: replace_task_def task_pk_def)
  moreover have "task_unique en (replace_task en r y) = task_unique en y" if "y \<in> set (tb_tasks tb)" for y
    using that assms by (auto simp: replace_task_def task_unique_def tasks_unique_def distinct_map inj_on_def)
  ultimately show ?thesis using assms(1) by (simp add: tasks_unique_def comp_def cong: map_cong)
qed

lemma served_claim:
  assumes net: "\<forall>n. net n = Served" and u: "tasks_unique en (tb_tasks (db_tables db))"
    and r: "r \<in> set (tb_tasks (db_tables db))" "task_pk en r = task_pk en (task_row_of t)"
      "task_unique en r = task_unique en (task_row_of t)"
    and t: "bt_id t \<noteq> []" "bt_adjust t \<noteq> []" and a: "\<forall>x y. en_affected en x y"
  obtains db' where "next_claim en net None now now' (Some t) db =
      (Inr (t\<lparr>bt_status := BackfillRunning, bt_updated := now\<rparr>, True), db')"
    and "tasks_unique en (tb_tasks (db_tables db'))"
    and "\<exists>x \<in> set (tb_tasks (db_tables db')). task_pk en x = task_pk en (task_row_of t) \<and>
      task_unique en x = task_unique en (task_row_of t)"
proof -
  let ?t = "t\<lparr>bt_status := BackfillRunning, bt_updated := now'\<rparr>"
  let ?r = "task_row_of ?t" and ?tb = "db_tables db"
  have k: "task_pk en ?r = task_pk en (task_row_of t)" "task_unique en ?r = task_unique en (task_row_of t)"
    by (simp_all add: task_pk_def task_unique_def task_row_of_def)
  let ?tb' = "?tb\<lparr>tb_tasks := map (replace_task en ?r) (tb_tasks ?tb)\<rparr>"
  have up: "update_task_row en ?r ?tb = Inr (1, ?tb')"
    using update_own_key [OF u r(1)] r(2,3) k a by simp
  have w: "with_tx net (update_statement en net ?r) db = (Inr (), db\<lparr>db_calls := db_calls db + 3, db_tables := ?tb'\<rparr>)"
    using served_update [OF net up] by simp
  have e: "t\<lparr>bt_status := BackfillRunning, bt_updated := now, bt_adjust := bt_adjust t, bt_updated := now'\<rparr> = ?t"
    by simp
  define d where "d = db\<lparr>db_calls := db_calls db + 3, db_tables := ?tb'\<rparr>"
  have dt: "?tb' = db_tables d" by (simp add: d_def)
  from e have c: "next_claim en net None now now' (Some t) db =
      (Inr (t\<lparr>bt_status := BackfillRunning, bt_updated := now\<rparr>, True), d)"
    using t w by (simp add: next_claim_def sql_update_def Let_def bnd_def ret_def d_def)
  have u': "tasks_unique en (tb_tasks ?tb')"
    using map_replace_unique [OF u r(1)] r(2,3) k by simp
  have "replace_task en ?r r \<in> set (tb_tasks ?tb')" using r(1) by simp
  moreover have "task_pk en (replace_task en ?r r) = task_pk en (task_row_of t)"
    "task_unique en (replace_task en ?r r) = task_unique en (task_row_of t)"
    using r(2,3) k by (auto simp: replace_task_def task_pk_def task_unique_def)
  ultimately have "\<exists>x \<in> set (tb_tasks ?tb'). task_pk en x = task_pk en (task_row_of t) \<and>
      task_unique en x = task_unique en (task_row_of t)" by blast
  then show thesis by (intro that [OF c]) (use u' in \<open>simp_all only: dt\<close>)
qed


section \<open>Enqueue next to other sessions\<close>

lemma served_insert:
  assumes "\<forall>n. net n = Served"
  shows "with_tx net (db_call net (insert_task_row en r)) db =
    (case insert_task_row en r (db_tables db) of
       Inl e \<Rightarrow> (Inl e, db\<lparr>db_calls := db_calls db + 3\<rparr>)
     | Inr (u, tb) \<Rightarrow> (Inr (), db\<lparr>db_calls := db_calls db + 3, db_tables := tb\<rparr>))"
  using assms by (auto simp: with_tx_def bnd_def served_query db_call_def numeral_3_eq_3 split: sum.split)

lemma served_find:
  assumes "\<forall>n. net n = Served"
  shows "find_task en local net t db =
    ((case select_task en t (db_tables db) of [] \<Rightarrow> Inr None | r # rs \<Rightarrow> map_sum id Some (scan_task en local r)),
     db\<lparr>db_calls := db_calls db + 1\<rparr>)"
  by (simp add: find_task_def db_row_def bnd_def served_query [OF assms] ret_def lift_result_def split: list.split)

text \<open>
  C36: Between the lookup of \<open>Enqueue\<close> and its insert another session may store a task.  From any such
  state the insert stores the task as the only one of its work, or, when the work is stored by then,
  stores nothing and returns the stored task as an existing one; a task whose identifier alone is
  taken is refused.
\<close>

theorem enqueue_race:
  assumes "\<forall>n. net n = Served" and "tasks_unique en (tb_tasks (db_tables db))" and "\<not> is_panic (en_duplicate en)"
  shows "case select_task en t (db_tables db) of
      x # xs \<Rightarrow> (case scan_task en local x of
          Inr existing \<Rightarrow> fst (enqueue_insert en local net now t db) = Inr (existing, False)
        | Inl e \<Rightarrow> is_panic e \<or> fst (enqueue_insert en local net now t db) = Inl (en_duplicate en)) \<and>
        db_tables (snd (enqueue_insert en local net now t db)) = db_tables db
    | [] \<Rightarrow>
        if list_ex (\<lambda>x. task_pk en x = task_pk en (task_row_of (sql_fresh_task now t))) (tb_tasks (db_tables db))
        then fst (enqueue_insert en local net now t db) = Inl (en_duplicate en) \<and>
          db_tables (snd (enqueue_insert en local net now t db)) = db_tables db
        else fst (enqueue_insert en local net now t db) = Inr (sql_fresh_task now t, True) \<and>
          select_task en t (db_tables (snd (enqueue_insert en local net now t db))) =
            [task_row_of (sql_fresh_task now t)]"
proof -
  let ?r = "task_row_of (sql_fresh_task now t)" and ?tb = "db_tables db"
  have k: "task_unique en ?r = task_unique en (task_row_of t)"
    by (simp add: task_unique_def task_row_of_def sql_fresh_task_def)
  have s: "select_task en t ?tb = [] \<longleftrightarrow> \<not> list_ex (\<lambda>x. task_unique en x = task_unique en ?r) (tb_tasks ?tb)"
    by (auto simp: select_task_def k filter_empty_conv list_ex_iff)
  note simps = enqueue_insert_def catch_def Let_def served_insert [OF assms(1)] served_find [OF assms(1)]
    insert_task_row_def ret_def fail_def assms(3)
  show ?thesis
  proof (cases "select_task en t ?tb")
    case Nil
    show ?thesis
    proof (cases "list_ex (\<lambda>x. task_pk en x = task_pk en ?r) (tb_tasks ?tb)")
      case True
      then have "list_ex (\<lambda>x. task_pk en x = task_pk en ?r \<or> task_unique en x = task_unique en ?r) (tb_tasks ?tb)"
        by (auto simp: list_ex_iff)
      then show ?thesis using Nil True by (simp add: simps)
    next
      case False
      then have "\<not> list_ex (\<lambda>x. task_pk en x = task_pk en ?r \<or> task_unique en x = task_unique en ?r) (tb_tasks ?tb)"
        using s Nil by (auto simp: list_ex_iff)
      moreover have "select_task en t (?tb\<lparr>tb_tasks := tb_tasks ?tb @ [?r]\<rparr>) = [?r]"
        using Nil k by (simp add: select_task_def)
      ultimately show ?thesis using Nil False by (simp add: simps)
    qed
  next
    case (Cons x xs)
    then have "list_ex (\<lambda>x. task_pk en x = task_pk en ?r \<or> task_unique en x = task_unique en ?r) (tb_tasks ?tb)"
      using s by (auto simp: list_ex_iff)
    then show ?thesis using Cons by (auto simp: simps split: sum.split)
  qed
qed

section \<open>A queue of two tasks\<close>

definition sample_job :: "string \<Rightarrow> string \<Rightarrow> int \<Rightarrow> backfill_task" where
  "sample_job name code priority = \<lparr>bt_id = name, bt_dataset = DatasetHistoryTick,
     bt_symbol = mk_symbol MarketSH code, bt_start = sample_instant, bt_end = sample_instant, bt_period = [],
     bt_adjust = AdjustNone, bt_priority = priority, bt_status = BackfillPending, bt_retry_count = 0,
     bt_next_retry = zero_time, bt_error = [], bt_created = sample_instant, bt_updated = sample_instant\<rparr>"

definition sample_queue :: sql_tables where
  "sample_queue = empty_tables\<lparr>tb_tasks :=
     [task_row_of (sample_job ''a'' ''600000'' 5), task_row_of (sample_job ''b'' ''600001'' 9)]\<rparr>"

abbreviation sample_db :: sql_db where
  "sample_db \<equiv> \<lparr>db_tables = sample_queue, db_calls = 0\<rparr>"

lemma sample_unique: "tasks_unique (plain_engine DialectSQLite) (tb_tasks sample_queue)"
  by code_simp


theorem postgres_claims_once_witness:
  "distinct (map (task_pk (plain_engine DialectPostgres)) (fst (postgres_claims (plain_engine DialectPostgres)
     [(\<lambda>r. ra_id r = ''b'', sample_instant), (\<lambda>r. False, sample_instant)] sample_queue)))"
proof -
  let ?c = "postgres_claims (plain_engine DialectPostgres)
     [(\<lambda>r. ra_id r = ''b'', sample_instant), (\<lambda>r. False, sample_instant)] sample_queue"
  have c: "?c = (fst ?c, snd ?c)" by simp
  have w: "running_waits (plain_engine DialectPostgres)" by (simp add: running_waits_def plain_engine_def)
  show ?thesis using postgres_claims_once [OF c w] by blast
qed


theorem enqueue_race_witness:
  "fst (enqueue_insert (plain_engine DialectSQLite) 0 (\<lambda>n. Served) sample_instant
      (sample_job ''c'' ''600000'' 1) sample_db) = Inr (sample_job ''a'' ''600000'' 5, False)"
proof -
  have s: "select_task (plain_engine DialectSQLite) (sample_job ''c'' ''600000'' 1) (db_tables sample_db) =
      [task_row_of (sample_job ''a'' ''600000'' 5)]"
    by code_simp
  have x: "scan_task (plain_engine DialectSQLite) 0 (task_row_of (sample_job ''a'' ''600000'' 5)) =
      Inr (sample_job ''a'' ''600000'' 5)"
    by code_simp
  have u: "tasks_unique (plain_engine DialectSQLite) (tb_tasks (db_tables sample_db))"
    using sample_unique by simp
  have p: "\<not> is_panic (en_duplicate (plain_engine DialectSQLite))" by (simp add: plain_engine_def)
  show ?thesis
    using enqueue_race [where net = "\<lambda>n. Served" and t = "sample_job ''c'' ''600000'' 1" and local = 0
        and now = sample_instant, OF _ u p]
    unfolding s by (simp add: x)
qed

end
