(* ===== verification/Sql_Open.thy ===== *)
theory Sql_Open
  imports Sql_Schema
begin

text \<open>
  \<open>Open\<close>, \<open>ApplyMigrations\<close> and \<open>Close\<close> of \<^verbatim>\<open>internal/storage/sql_store.go\<close>.  Package
  \<^verbatim>\<open>database/sql\<close> with its drivers is a record of operations on a world of its own.
\<close>

record ('w, 'h) sql_driver =
  dr_open :: "string \<Rightarrow> string \<Rightarrow> ('w, 'h) op"
  dr_max_open :: "'h \<Rightarrow> int \<Rightarrow> ('w, unit) op"
  dr_max_idle :: "'h \<Rightarrow> int \<Rightarrow> ('w, unit) op"
  dr_ping :: "'h \<Rightarrow> ('w, unit) op"
  dr_exec :: "'h \<Rightarrow> string \<Rightarrow> ('w, unit) op"
  dr_close :: "'h \<Rightarrow> ('w, unit) op"

record store_config =
  sc_dialect :: string
  sc_dsn :: string
  sc_max_open :: int
  sc_max_idle :: int

text \<open>A \<open>*SQLStore\<close> that is not \<open>nil\<close>, its database handle possibly \<open>nil\<close>.\<close>

record 'h sql_store =
  ss_db :: "'h option"
  ss_dialect :: string

section \<open>Migrations\<close>

fun apply_statements :: "('w, 'h) sql_driver \<Rightarrow> 'h \<Rightarrow> string \<Rightarrow> string list \<Rightarrow> ('w, unit) op" where
  "apply_statements dr h mid [] = ret ()"
| "apply_statements dr h mid (s # ss) =
     catch (dr_exec dr h s) (\<lambda>e. fail (Prefixed (''apply '' @ mid) e)) (\<lambda>_. apply_statements dr h mid ss)"

fun apply_migration_list :: "('w, 'h) sql_driver \<Rightarrow> 'h \<Rightarrow> migration list \<Rightarrow> ('w, unit) op" where
  "apply_migration_list dr h [] = ret ()"
| "apply_migration_list dr h (m # ms) =
     bnd (apply_statements dr h (mg_id m) (map ddl_text (mg_statements m))) (\<lambda>_. apply_migration_list dr h ms)"

definition apply_migrations :: "('w, 'h) sql_driver \<Rightarrow> 'h \<Rightarrow> string \<Rightarrow> ('w, unit) op" where
  "apply_migrations dr h dialect = bnd (lift_result (migrations dialect)) (apply_migration_list dr h)"

section \<open>Open and Close\<close>

definition config_dialect :: "store_config \<Rightarrow> string" where
  "config_dialect cfg = (if sc_dialect cfg = [] then DialectSQLite else sc_dialect cfg)"

definition config_dsn :: "store_config \<Rightarrow> string" where
  "config_dsn cfg = (if sc_dsn cfg = [] then default_dsn (config_dialect cfg) else sc_dsn cfg)"

definition open_store :: "('w, 'h) sql_driver \<Rightarrow> store_config \<Rightarrow> ('w, 'h sql_store) op" where
  "open_store dr cfg =
     (let dialect = config_dialect cfg; dsn = config_dsn cfg in
      if dsn = [] then fail (OtherError (''storage dsn required for '' @ dialect))
      else bnd (lift_result (driver_name dialect)) (\<lambda>name.
        bnd (dr_open dr name dsn) (\<lambda>h.
        bnd (if 0 < sc_max_open cfg then dr_max_open dr h (sc_max_open cfg) else ret ()) (\<lambda>_.
        bnd (if 0 < sc_max_idle cfg then dr_max_idle dr h (sc_max_idle cfg) else ret ()) (\<lambda>_.
        catch (dr_ping dr h) (\<lambda>e. bnd (ignore_err (dr_close dr h)) (\<lambda>_. fail e)) (\<lambda>_.
        catch (apply_migrations dr h dialect) (\<lambda>e. bnd (ignore_err (dr_close dr h)) (\<lambda>_. fail e)) (\<lambda>_.
          ret \<lparr>ss_db = Some h, ss_dialect = dialect\<rparr>)))))))"

definition close_store :: "('w, 'h) sql_driver \<Rightarrow> 'h sql_store option \<Rightarrow> ('w, unit) op" where
  "close_store dr s =
     (case s of None \<Rightarrow> ret () | Some st \<Rightarrow> (case ss_db st of None \<Rightarrow> ret () | Some h \<Rightarrow> dr_close dr h))"

section \<open>What opening does\<close>

text \<open>A driver that writes its calls down: every statement is served until one named statement.\<close>

datatype driver_event = Opened string string | Pinged | Ran string | Shut | Limited string int

definition logging_driver :: "(string \<Rightarrow> go_error option) \<Rightarrow> (driver_event list, unit) sql_driver" where
  "logging_driver faulty = \<lparr>dr_open = (\<lambda>name dsn w. (Inr (), w @ [Opened name dsn])),
     dr_max_open = (\<lambda>h n w. (Inr (), w @ [Limited ''open'' n])),
     dr_max_idle = (\<lambda>h n w. (Inr (), w @ [Limited ''idle'' n])),
     dr_ping = (\<lambda>h w. (Inr (), w @ [Pinged])),
     dr_exec = (\<lambda>h s w. (case faulty s of None \<Rightarrow> (Inr (), w @ [Ran s]) | Some e \<Rightarrow> (Inl e, w @ [Ran s]))),
     dr_close = (\<lambda>h w. (Inr (), w @ [Shut]))\<rparr>"

lemma apply_statements_log:
  "apply_statements (logging_driver (\<lambda>s. None)) h mid ss w = (Inr (), w @ map Ran ss)"
  by (induction ss arbitrary: w) (simp_all add: ret_def catch_def logging_driver_def)

lemma logging_calls:
  "dr_open (logging_driver f) name dsn w = (Inr (), w @ [Opened name dsn])"
  "dr_max_open (logging_driver f) h n w = (Inr (), w @ [Limited ''open'' n])"
  "dr_max_idle (logging_driver f) h n w = (Inr (), w @ [Limited ''idle'' n])"
  "dr_ping (logging_driver f) h w = (Inr (), w @ [Pinged])"
  "dr_close (logging_driver f) h w = (Inr (), w @ [Shut])"
  by (simp_all add: logging_driver_def)

lemma apply_migrations_log:
  "migrations dialect = Inr [core_migration ds] \<Longrightarrow>
   apply_migrations (logging_driver (\<lambda>s. None)) h dialect w = (Inr (), w @ map (\<lambda>d. Ran (ddl_text d)) ds)"
  by (simp add: apply_migrations_def bnd_def lift_result_def core_migration_def apply_statements_log ret_def comp_def)

text \<open>
  A store that opens has run every statement of its dialect's schema once, in order, on the driver of
  the dialect and the configured source.
\<close>

theorem open_runs_schema:
  assumes "migrations (config_dialect cfg) = Inr [core_migration ds]"
    and "driver_name (config_dialect cfg) = Inr name" and "config_dsn cfg \<noteq> []"
  shows "open_store (logging_driver (\<lambda>s. None)) cfg [] =
    (Inr \<lparr>ss_db = Some (), ss_dialect = config_dialect cfg\<rparr>,
     [Opened name (config_dsn cfg)] @ (if 0 < sc_max_open cfg then [Limited ''open'' (sc_max_open cfg)] else []) @
     (if 0 < sc_max_idle cfg then [Limited ''idle'' (sc_max_idle cfg)] else []) @ [Pinged] @
     map (\<lambda>d. Ran (ddl_text d)) ds)"
proof -
  note m = apply_migrations_log [OF assms(1)]
  show ?thesis
    by (cases "0 < sc_max_open cfg"; cases "0 < sc_max_idle cfg")
      (simp_all add: open_store_def assms(2,3) bnd_def lift_result_def catch_def ret_def Let_def logging_calls m)
qed

lemma apply_statements_stop:
  assumes "faulty s = Some e" and "list_all (\<lambda>r. faulty r = None) pre" and "\<not> is_panic e"
  shows "apply_statements (logging_driver faulty) h mid (pre @ s # post) w =
    (Inl (Prefixed (''apply '' @ mid) e), w @ map Ran pre @ [Ran s])"
  using assms(2)
proof (induction pre arbitrary: w)
  case Nil
  then show ?case using assms by (simp add: catch_def fail_def logging_driver_def)
next
  case (Cons r pre)
  moreover from Cons.prems have "dr_exec (logging_driver faulty) h r w = (Inr (), w @ [Ran r])"
    by (simp add: logging_driver_def)
  ultimately show ?case by (simp add: catch_def)
qed

text \<open>
  A store whose migration fails runs no statement behind the failing one, closes the database and
  returns an error through which the driver's error still shows.
\<close>

theorem open_failure_closes:
  assumes "migrations (config_dialect cfg) = Inr [core_migration ds]"
    and "driver_name (config_dialect cfg) = Inr name" and "config_dsn cfg \<noteq> []"
    and "map ddl_text ds = pre @ s # post" and "faulty s = Some e" and "list_all (\<lambda>r. faulty r = None) pre"
    and "\<not> is_panic e"
  shows "\<exists>err w. open_store (logging_driver faulty) cfg [] = (Inl err, w @ map Ran pre @ [Ran s, Shut]) \<and>
    errors_is err e \<and> (\<forall>r. Ran r \<notin> set w)"
proof -
  have m: "apply_migrations (logging_driver faulty) h (config_dialect cfg) w =
      (Inl (Prefixed ''apply 001_core_marketdata_tables'' e), w @ map Ran pre @ [Ran s])" for h w
    by (simp add: apply_migrations_def assms(1) bnd_def lift_result_def core_migration_def assms(4)
        apply_statements_stop [where faulty = faulty, OF assms(5-7)])
  show ?thesis
    by (cases "0 < sc_max_open cfg"; cases "0 < sc_max_idle cfg";
        force simp: open_store_def assms(2,3) bnd_def lift_result_def catch_def ret_def fail_def ignore_err_def
          Let_def logging_calls m)
qed

end
