(* ===== verification/Memory_Cache.thy ===== *)
theory Memory_Cache
  imports Domain
begin

text \<open>
  \<^verbatim>\<open>internal/cache/memory.go\<close>: the in-process hot cache.  Eight maps of entries with an expiry time, the
  configuration with its defaults and the methods of the \<open>Cache\<close> interface (\<^verbatim>\<open>store.go\<close>).  What the entry maps
  promise is the locale \<open>ttl_cache\<close>, interpreted on each of them.
\<close>

section \<open>State\<close>

record cache_config =
  cf_key_prefix :: string
  cf_quote_ttl :: int
  cf_order_book_ttl :: int
  cf_tick_ttl :: int
  cf_history_tick_ttl :: int
  cf_bar_ttl :: int
  cf_xdxr_ttl :: int
  cf_security_ttl :: int
  cf_finance_ttl :: int

text \<open>The durations are nanoseconds.  The clock of the configuration is the time each method is given.\<close>

definition default_config :: cache_config where
  "default_config = \<lparr>cf_key_prefix = [], cf_quote_ttl = 500000000, cf_order_book_ttl = 500000000,
     cf_tick_ttl = 2 * second, cf_history_tick_ttl = 300 * second, cf_bar_ttl = 300 * second,
     cf_xdxr_ttl = 86400 * second, cf_security_ttl = 86400 * second, cf_finance_ttl = 86400 * second\<rparr>"

definition or_default :: "int \<Rightarrow> int \<Rightarrow> int" where
  "or_default d x = (if x = 0 then d else x)"

definition normalize_config :: "cache_config \<Rightarrow> cache_config" where
  "normalize_config c = c\<lparr>
     cf_quote_ttl := or_default (cf_quote_ttl default_config) (cf_quote_ttl c),
     cf_order_book_ttl := or_default (cf_order_book_ttl default_config) (cf_order_book_ttl c),
     cf_tick_ttl := or_default (cf_tick_ttl default_config) (cf_tick_ttl c),
     cf_history_tick_ttl := or_default (cf_history_tick_ttl default_config) (cf_history_tick_ttl c),
     cf_bar_ttl := or_default (cf_bar_ttl default_config) (cf_bar_ttl c),
     cf_xdxr_ttl := or_default (cf_xdxr_ttl default_config) (cf_xdxr_ttl c),
     cf_security_ttl := or_default (cf_security_ttl default_config) (cf_security_ttl c),
     cf_finance_ttl := or_default (cf_finance_ttl default_config) (cf_finance_ttl c)\<rparr>"

record 'v entry =
  e_value :: 'v
  e_expires :: gotime

record memory =
  m_cfg :: cache_config
  m_quotes :: "string \<rightharpoonup> quote entry"
  m_order_books :: "string \<rightharpoonup> order_book entry"
  m_tick_pages :: "string \<rightharpoonup> tick list entry"
  m_bar_ranges :: "string \<rightharpoonup> bar list entry"
  m_xdxr :: "string \<rightharpoonup> xdxr_event list entry"
  m_securities :: "string \<rightharpoonup> security_info list entry"
  m_finance :: "string \<rightharpoonup> finance_info option entry"
  m_trading_day :: "trading_day_info option entry"

definition new_memory :: "cache_config \<Rightarrow> memory" where
  "new_memory c = \<lparr>m_cfg = normalize_config c, m_quotes = Map.empty, m_order_books = Map.empty,
     m_tick_pages = Map.empty, m_bar_ranges = Map.empty, m_xdxr = Map.empty, m_securities = Map.empty,
     m_finance = Map.empty, m_trading_day = \<lparr>e_value = None, e_expires = zero_time\<rparr>\<rparr>"

section \<open>Entries\<close>

definition fresh :: "gotime \<Rightarrow> 'v entry \<Rightarrow> bool" where
  "fresh now e \<longleftrightarrow> before now (e_expires e)"

definition entry_get :: "gotime \<Rightarrow> (string \<rightharpoonup> 'v entry) \<Rightarrow> string \<Rightarrow> 'v option" where
  "entry_get now m key = (case m key of None \<Rightarrow> None | Some e \<Rightarrow> if fresh now e then Some (e_value e) else None)"

definition entry_put :: "gotime \<Rightarrow> int \<Rightarrow> string \<Rightarrow> 'v \<Rightarrow> (string \<rightharpoonup> 'v entry) \<Rightarrow> (string \<rightharpoonup> 'v entry)" where
  "entry_put now ttl key v m = m(key \<mapsto> \<lparr>e_value = v, e_expires = time_add now ttl\<rparr>)"

text \<open>The loop of \<open>GetQuotes\<close> and \<open>GetOrderBooks\<close>: hits by key, marked as cached, and the symbols that
  missed, in order.\<close>

fun split_hits :: "gotime \<Rightarrow> (string \<rightharpoonup> 'v entry) \<Rightarrow> ('v \<Rightarrow> 'v) \<Rightarrow> symbol list \<Rightarrow> (string \<rightharpoonup> 'v) \<Rightarrow> symbol list \<Rightarrow>
    (string \<rightharpoonup> 'v) \<times> symbol list" where
  "split_hits now m mark [] hits misses = (hits, misses)"
| "split_hits now m mark (s # ss) hits misses =
     (case entry_get now m (symbol_key s) of
        Some v \<Rightarrow> split_hits now m mark ss (hits(symbol_key s \<mapsto> mark v)) misses
      | None \<Rightarrow> split_hits now m mark ss hits (misses @ [s]))"

section \<open>Quotes and order books\<close>

definition get_quotes :: "go_error option \<Rightarrow> gotime \<Rightarrow> symbol list \<Rightarrow> (memory, (string \<rightharpoonup> quote) \<times> symbol list) op" where
  "get_quotes ctx now symbols = guard ctx (\<lambda>m.
     (Inr (split_hits now (m_quotes m) (q_cached_update (\<lambda>_. True)) symbols Map.empty []), m))"

fun put_quotes_loop :: "gotime \<Rightarrow> int \<Rightarrow> quote list \<Rightarrow> (string \<rightharpoonup> quote entry) \<Rightarrow> (string \<rightharpoonup> quote entry)" where
  "put_quotes_loop now ttl [] m = m"
| "put_quotes_loop now ttl (q # qs) m =
     (if s_code (q_symbol q) = [] then put_quotes_loop now ttl qs m
      else put_quotes_loop now ttl qs (entry_put now ttl (symbol_key (q_symbol q)) (q\<lparr>q_cached := False\<rparr>) m))"

definition put_quotes :: "go_error option \<Rightarrow> gotime \<Rightarrow> quote list \<Rightarrow> (memory, unit) op" where
  "put_quotes ctx now quotes = guard ctx (\<lambda>m.
     (Inr (), m\<lparr>m_quotes := put_quotes_loop now (cf_quote_ttl (m_cfg m)) quotes (m_quotes m)\<rparr>))"

definition get_order_books :: "go_error option \<Rightarrow> gotime \<Rightarrow> symbol list \<Rightarrow> (memory, (string \<rightharpoonup> order_book) \<times> symbol list) op" where
  "get_order_books ctx now symbols = guard ctx (\<lambda>m.
     (Inr (split_hits now (m_order_books m) (ob_cached_update (\<lambda>_. True)) symbols Map.empty []), m))"

fun put_books_loop :: "gotime \<Rightarrow> int \<Rightarrow> order_book list \<Rightarrow> (string \<rightharpoonup> order_book entry) \<Rightarrow> (string \<rightharpoonup> order_book entry)" where
  "put_books_loop now ttl [] m = m"
| "put_books_loop now ttl (b # bs) m =
     (if s_code (ob_symbol b) = [] then put_books_loop now ttl bs m
      else put_books_loop now ttl bs (entry_put now ttl (symbol_key (ob_symbol b)) (b\<lparr>ob_cached := False\<rparr>) m))"

definition put_order_books :: "go_error option \<Rightarrow> gotime \<Rightarrow> order_book list \<Rightarrow> (memory, unit) op" where
  "put_order_books ctx now books = guard ctx (\<lambda>m.
     (Inr (), m\<lparr>m_order_books := put_books_loop now (cf_order_book_ttl (m_cfg m)) books (m_order_books m)\<rparr>))"

section \<open>Pages, bars and metadata\<close>

definition get_tick_page :: "go_error option \<Rightarrow> gotime \<Rightarrow> string \<Rightarrow> (memory, tick list option) op" where
  "get_tick_page ctx now key = guard ctx (\<lambda>m.
     (Inr (map_option (map (tk_cached_update (\<lambda>_. True))) (entry_get now (m_tick_pages m) key)), m))"

definition put_tick_page :: "go_error option \<Rightarrow> gotime \<Rightarrow> string \<Rightarrow> tick list \<Rightarrow> int \<Rightarrow> (memory, unit) op" where
  "put_tick_page ctx now key ticks ttl = guard ctx (\<lambda>m.
     (Inr (), m\<lparr>m_tick_pages := entry_put now (or_default (cf_tick_ttl (m_cfg m)) ttl) key ticks (m_tick_pages m)\<rparr>))"

definition put_history_tick_page :: "go_error option \<Rightarrow> gotime \<Rightarrow> string \<Rightarrow> tick list \<Rightarrow> (memory, unit) op" where
  "put_history_tick_page ctx now key ticks = (\<lambda>m.
     put_tick_page ctx now key ticks (cf_history_tick_ttl (m_cfg m)) m)"

definition get_bars_mem :: "go_error option \<Rightarrow> gotime \<Rightarrow> string \<Rightarrow> (memory, bar list option) op" where
  "get_bars_mem ctx now key = guard ctx (\<lambda>m. (Inr (entry_get now (m_bar_ranges m) key), m))"

definition put_bars_mem :: "go_error option \<Rightarrow> gotime \<Rightarrow> string \<Rightarrow> bar list \<Rightarrow> (memory, unit) op" where
  "put_bars_mem ctx now key bars = guard ctx (\<lambda>m.
     (Inr (), m\<lparr>m_bar_ranges := entry_put now (cf_bar_ttl (m_cfg m)) key bars (m_bar_ranges m)\<rparr>))"

definition get_xdxr :: "go_error option \<Rightarrow> gotime \<Rightarrow> symbol \<Rightarrow> (memory, xdxr_event list option) op" where
  "get_xdxr ctx now s = guard ctx (\<lambda>m. (Inr (entry_get now (m_xdxr m) (symbol_key s)), m))"

definition put_xdxr :: "go_error option \<Rightarrow> gotime \<Rightarrow> symbol \<Rightarrow> xdxr_event list \<Rightarrow> (memory, unit) op" where
  "put_xdxr ctx now s events = guard ctx (\<lambda>m.
     (Inr (), m\<lparr>m_xdxr := entry_put now (cf_xdxr_ttl (m_cfg m)) (symbol_key s) events (m_xdxr m)\<rparr>))"

definition get_securities_mem :: "go_error option \<Rightarrow> gotime \<Rightarrow> string \<Rightarrow> (memory, security_info list option) op" where
  "get_securities_mem ctx now key = guard ctx (\<lambda>m.
     (Inr (map_option (map (si_cached_update (\<lambda>_. True))) (entry_get now (m_securities m) key)), m))"

definition put_securities_mem :: "go_error option \<Rightarrow> gotime \<Rightarrow> string \<Rightarrow> security_info list \<Rightarrow> (memory, unit) op" where
  "put_securities_mem ctx now key items = guard ctx (\<lambda>m.
     (Inr (), m\<lparr>m_securities := entry_put now (cf_security_ttl (m_cfg m)) key
        (map (si_cached_update (\<lambda>_. False)) items) (m_securities m)\<rparr>))"

text \<open>A pointer that may be \<open>nil\<close> is an option; a hit with a \<open>nil\<close> value counts as a miss.\<close>

definition get_finance :: "go_error option \<Rightarrow> gotime \<Rightarrow> symbol \<Rightarrow> (memory, finance_info option) op" where
  "get_finance ctx now s = guard ctx (\<lambda>m.
     (Inr (case entry_get now (m_finance m) (symbol_key s) of
             None \<Rightarrow> None | Some v \<Rightarrow> map_option (f_cached_update (\<lambda>_. True)) v), m))"

definition put_finance :: "go_error option \<Rightarrow> gotime \<Rightarrow> symbol \<Rightarrow> finance_info option \<Rightarrow> (memory, unit) op" where
  "put_finance ctx now s info = guard ctx (\<lambda>m.
     case info of
       None \<Rightarrow> (Inr (), m)
     | Some f \<Rightarrow> (Inr (), m\<lparr>m_finance := entry_put now (cf_finance_ttl (m_cfg m)) (symbol_key s)
          (Some (f\<lparr>f_cached := False\<rparr>)) (m_finance m)\<rparr>))"

definition get_trading_day :: "go_error option \<Rightarrow> gotime \<Rightarrow> (memory, trading_day_info option) op" where
  "get_trading_day ctx now = guard ctx (\<lambda>m.
     (Inr (case e_value (m_trading_day m) of
             None \<Rightarrow> None
           | Some d \<Rightarrow> if fresh now (m_trading_day m) then Some (d\<lparr>td_cached := True\<rparr>) else None), m))"

definition put_trading_day :: "go_error option \<Rightarrow> gotime \<Rightarrow> trading_day_info option \<Rightarrow> (memory, unit) op" where
  "put_trading_day ctx now info = guard ctx (\<lambda>m.
     case info of
       None \<Rightarrow> (Inr (), m)
     | Some d \<Rightarrow> (Inr (), m\<lparr>m_trading_day :=
         \<lparr>e_value = Some (d\<lparr>td_cached := False\<rparr>), e_expires = time_add now (cf_security_ttl (m_cfg m))\<rparr>\<rparr>))"

section \<open>What the cache promises\<close>

text \<open>
  One map of the cache as its client sees it: a value put at a time is found, as \<open>view\<close> shows it,
  until the lifetime has passed, and a put of one key is invisible under every other.
\<close>

locale ttl_cache =
  fixes find :: "'k \<Rightarrow> gotime \<Rightarrow> 's \<Rightarrow> 'v option"
    and put :: "'k \<Rightarrow> 'v \<Rightarrow> gotime \<Rightarrow> 's \<Rightarrow> 's"
    and key :: "'k \<Rightarrow> string"
    and ttl :: "'s \<Rightarrow> int"
    and view :: "'v \<Rightarrow> 'v"
  assumes find_put: "find j t (put k v t0 s) =
      (if key j = key k then (if t_nanos t < t_nanos t0 + ttl s then Some (view v) else None) else find j t s)"
    and ttl_put: "ttl (put k v t0 s) = ttl s"
    and find_earlier: "find k t s = Some v \<Longrightarrow> t_nanos t' \<le> t_nanos t \<Longrightarrow> find k t' s = Some v"
begin

fun put_log :: "('k \<times> 'v \<times> gotime) list \<Rightarrow> 's \<Rightarrow> 's" where
  "put_log [] s = s"
| "put_log ((k, v, t) # log) s = put_log log (put k v t s)"

lemma ttl_put_log [simp]: "ttl (put_log log s) = ttl s"
  by (induction log s rule: put_log.induct) (simp_all add: ttl_put)

lemma put_log_append: "put_log (log @ log') s = put_log log' (put_log log s)"
  by (induction log s rule: put_log.induct) simp_all

lemma find_put_log:
  "find k t (put_log log s) =
     (case filter (\<lambda>(j, _). key j = key k) log of
        [] \<Rightarrow> find k t s
      | p # ps \<Rightarrow> (case last (p # ps) of (_, v, t0) \<Rightarrow>
          if t_nanos t < t_nanos t0 + ttl s then Some (view v) else None))"
proof (induction log rule: rev_induct)
  case (snoc p log)
  obtain j v t0 where p: "p = (j, v, t0)" by (cases p)
  show ?case
    using snoc by (auto simp: p put_log_append find_put split: list.splits)
qed simp

lemma expired_stays: "find k t s = None \<Longrightarrow> t_nanos t \<le> t_nanos t' \<Longrightarrow> find k t' s = None"
  using find_earlier by (metis not_None_eq)

end

section \<open>The maps keep the promise\<close>

definition find_bars :: "string \<Rightarrow> gotime \<Rightarrow> memory \<Rightarrow> bar list option" where
  "find_bars key t m = projr (fst (get_bars_mem None t key m))"

definition find_tick_page :: "string \<Rightarrow> gotime \<Rightarrow> memory \<Rightarrow> tick list option" where
  "find_tick_page key t m = projr (fst (get_tick_page None t key m))"

definition find_securities :: "string \<Rightarrow> gotime \<Rightarrow> memory \<Rightarrow> security_info list option" where
  "find_securities key t m = projr (fst (get_securities_mem None t key m))"

definition find_xdxr :: "symbol \<Rightarrow> gotime \<Rightarrow> memory \<Rightarrow> xdxr_event list option" where
  "find_xdxr s t m = projr (fst (get_xdxr None t s m))"

definition find_finance :: "symbol \<Rightarrow> gotime \<Rightarrow> memory \<Rightarrow> finance_info option" where
  "find_finance s t m = projr (fst (get_finance None t s m))"

definition find_trading_day :: "unit \<Rightarrow> gotime \<Rightarrow> memory \<Rightarrow> trading_day_info option" where
  "find_trading_day _ t m = projr (fst (get_trading_day None t m))"

lemmas cache_find_defs = find_bars_def find_tick_page_def find_securities_def find_xdxr_def find_finance_def
  find_trading_day_def get_bars_mem_def get_tick_page_def get_securities_mem_def get_xdxr_def get_finance_def
  get_trading_day_def

lemmas cache_put_defs = put_bars_mem_def put_tick_page_def put_history_tick_page_def put_securities_mem_def
  put_xdxr_def put_finance_def put_trading_day_def

lemmas entry_defs = entry_get_def entry_put_def fresh_def before_def time_add_def

interpretation bars_cache: ttl_cache find_bars "\<lambda>k v t m. snd (put_bars_mem None t k v m)" id
  "\<lambda>m. cf_bar_ttl (m_cfg m)" id
  by unfold_locales (auto simp: cache_find_defs cache_put_defs entry_defs split: option.splits if_splits)

interpretation tick_cache: ttl_cache find_tick_page "\<lambda>k v t m. snd (put_tick_page None t k v 0 m)" id
  "\<lambda>m. cf_tick_ttl (m_cfg m)" "map (tk_cached_update (\<lambda>_. True))"
  by unfold_locales
    (auto simp: cache_find_defs cache_put_defs entry_defs or_default_def split: option.splits if_splits)

interpretation history_tick_cache: ttl_cache find_tick_page "\<lambda>k v t m. snd (put_history_tick_page None t k v m)" id
  "\<lambda>m. or_default (cf_tick_ttl (m_cfg m)) (cf_history_tick_ttl (m_cfg m))" "map (tk_cached_update (\<lambda>_. True))"
  by unfold_locales
    (auto simp: cache_find_defs cache_put_defs entry_defs split: option.splits if_splits)

interpretation security_cache: ttl_cache find_securities "\<lambda>k v t m. snd (put_securities_mem None t k v m)" id
  "\<lambda>m. cf_security_ttl (m_cfg m)" "map (si_cached_update (\<lambda>_. True))"
  by unfold_locales
    (auto simp: cache_find_defs cache_put_defs entry_defs comp_def split: option.splits if_splits)

interpretation xdxr_cache: ttl_cache find_xdxr "\<lambda>k v t m. snd (put_xdxr None t k v m)" symbol_key
  "\<lambda>m. cf_xdxr_ttl (m_cfg m)" id
  by unfold_locales (auto simp: cache_find_defs cache_put_defs entry_defs split: option.splits if_splits)

interpretation finance_cache: ttl_cache find_finance "\<lambda>k v t m. snd (put_finance None t k (Some v) m)" symbol_key
  "\<lambda>m. cf_finance_ttl (m_cfg m)" "f_cached_update (\<lambda>_. True)"
  by unfold_locales (auto simp: cache_find_defs cache_put_defs entry_defs split: option.splits if_splits)

interpretation trading_day_cache: ttl_cache find_trading_day "\<lambda>k v t m. snd (put_trading_day None t (Some v) m)"
  "\<lambda>_. []" "\<lambda>m. cf_security_ttl (m_cfg m)" "td_cached_update (\<lambda>_. True)"
  by unfold_locales (auto simp: cache_find_defs cache_put_defs entry_defs split: option.splits if_splits)

section \<open>Facts\<close>

lemma split_hits_misses:
  "snd (split_hits now m mark ss hits misses) = misses @ filter (\<lambda>s. entry_get now m (symbol_key s) = None) ss"
  by (induction ss arbitrary: hits misses) (auto split: option.split)

lemma split_hits_hits:
  "fst (split_hits now m mark ss hits misses) k =
     (if k \<in> symbol_key ` set ss \<and> entry_get now m k \<noteq> None then map_option mark (entry_get now m k) else hits k)"
  by (induction ss arbitrary: hits misses) (auto split: option.split)

lemma put_quotes_loop_get:
  "entry_get t (put_quotes_loop t0 ttl qs m) k =
     (case filter (\<lambda>q. s_code (q_symbol q) \<noteq> [] \<and> symbol_key (q_symbol q) = k) qs of
        [] \<Rightarrow> entry_get t m k
      | p # ps \<Rightarrow> if t_nanos t < t_nanos t0 + ttl then Some (last (p # ps)\<lparr>q_cached := False\<rparr>) else None)"
proof (induction qs arbitrary: m)
  case (Cons q qs)
  then show ?case by (auto simp: entry_defs split: list.splits)
qed simp

text \<open>The quote a client sees under a key at a time, after a batch was put.\<close>

definition live_quote :: "gotime \<Rightarrow> gotime \<Rightarrow> quote list \<Rightarrow> memory \<Rightarrow> string \<Rightarrow> quote option" where
  "live_quote t t0 qs m k =
     (case filter (\<lambda>q. s_code (q_symbol q) \<noteq> [] \<and> symbol_key (q_symbol q) = k) qs of
        [] \<Rightarrow> map_option (q_cached_update (\<lambda>_. True)) (entry_get t (m_quotes m) k)
      | p # ps \<Rightarrow> if t_nanos t < t_nanos t0 + cf_quote_ttl (m_cfg m) then Some (last (p # ps)\<lparr>q_cached := True\<rparr>) else None)"

lemma live_quote_entry:
  "map_option (q_cached_update (\<lambda>_. True))
     (entry_get t (put_quotes_loop t0 (cf_quote_ttl (m_cfg m)) qs (m_quotes m)) k) = live_quote t t0 qs m k"
  by (simp add: put_quotes_loop_get live_quote_def split: list.split)

text \<open>A sequence of \<open>PutBars\<close> calls with their times.\<close>

fun put_bars_log :: "(string \<times> bar list \<times> gotime) list \<Rightarrow> memory \<Rightarrow> memory" where
  "put_bars_log [] m = m"
| "put_bars_log ((k, bars, t) # log) m = put_bars_log log (snd (put_bars_mem None t k bars m))"

lemma put_bars_log_eq: "put_bars_log log m = bars_cache.put_log log m"
  by (induction log m rule: put_bars_log.induct) simp_all

section \<open>Properties\<close>

text \<open>
  C5: quotes put are quotes found.  After \<open>PutQuotes\<close> at one time, \<open>GetQuotes\<close> at another splits the
  symbols exactly: a key is a hit, marked as cached, when the last quote of the batch with that
  key (quotes without a code are skipped) is still within its lifetime, or, when the batch has none, when the
  entry from before is; the misses are the other symbols, in the order and number requested.
\<close>

theorem quotes_put_get:
  "\<exists>hits. get_quotes None t syms (snd (put_quotes None t0 qs m)) =
      (Inr (hits, filter (\<lambda>s. live_quote t t0 qs m (symbol_key s) = None) syms), snd (put_quotes None t0 qs m)) \<and>
    hits = (\<lambda>k. if k \<in> symbol_key ` set syms then live_quote t t0 qs m k else None)"
proof -
  let ?m' = "put_quotes_loop t0 (cf_quote_ttl (m_cfg m)) qs (m_quotes m)"
  have none: "entry_get t ?m' k = None \<longleftrightarrow> live_quote t t0 qs m k = None" for k
    using live_quote_entry [of t t0 m qs k, symmetric] by simp
  have "fst (split_hits t ?m' (q_cached_update (\<lambda>_. True)) syms Map.empty []) =
      (\<lambda>k. if k \<in> symbol_key ` set syms then live_quote t t0 qs m k else None)"
    using none by (auto simp: fun_eq_iff split_hits_hits live_quote_entry)
  moreover have "snd (split_hits t ?m' (q_cached_update (\<lambda>_. True)) syms Map.empty []) =
      filter (\<lambda>s. live_quote t t0 qs m (symbol_key s) = None) syms"
    by (simp add: split_hits_misses none)
  ultimately show ?thesis
    by (simp add: get_quotes_def put_quotes_def prod_eq_iff)
qed

text \<open>
  a cached range of bars never outlives its time and never leaks into another key.  After any
  sequence of \<open>PutBars\<close> calls, \<open>GetBars\<close> finds exactly the value of the last put of its key, and
  only before that put's time plus the lifetime of bars; a key that was not put is answered as before.
\<close>

theorem bars_last_put:
  "get_bars_mem None t k (put_bars_log log m) =
     (Inr (case filter (\<lambda>(j, _). j = k) log of
             [] \<Rightarrow> projr (fst (get_bars_mem None t k m))
           | p # ps \<Rightarrow> (case last (p # ps) of (_, bars, t0) \<Rightarrow>
               if t_nanos t < t_nanos t0 + cf_bar_ttl (m_cfg m) then Some bars else None)),
      put_bars_log log m)"
proof -
  have g: "get_bars_mem None t k m' = (Inr (find_bars k t m'), m')" for m'
    by (simp add: find_bars_def get_bars_mem_def)
  have f: "find_bars k t (put_bars_log log m) =
     (case filter (\<lambda>(j, _). j = k) log of
        [] \<Rightarrow> find_bars k t m
      | p # ps \<Rightarrow> (case last (p # ps) of (_, bars, t0) \<Rightarrow>
          if t_nanos t < t_nanos t0 + cf_bar_ttl (m_cfg m) then Some bars else None))"
    using bars_cache.find_put_log [of k t log m] by (simp only: put_bars_log_eq id_apply)
  show ?thesis unfolding g f by (simp only: fst_conv sum.sel)
qed

end
