(* ===== verification/Redis_Cache.thy ===== *)
theory Redis_Cache
  imports Memory_Cache Sql_Time History_Store
begin

text \<open>
  \<^verbatim>\<open>internal/cache/redis.go\<close>: the cache backend over a Redis server.  The client of \<^verbatim>\<open>go-redis\<close> is a
  record of operations on a world of its own, each given the time at which the server serves it;
  \<open>encoding/json\<close> is a codec for each type of value.
\<close>

section \<open>Parameters\<close>

text \<open>\<open>Get\<close> answers \<open>None\<close> for \<open>redis.Nil\<close>.\<close>

record 'w redis_client =
  rd_get :: "gotime \<Rightarrow> string \<Rightarrow> ('w, string option) op"
  rd_set :: "gotime \<Rightarrow> string \<Rightarrow> string \<Rightarrow> int \<Rightarrow> ('w, unit) op"
  rd_setnx :: "gotime \<Rightarrow> string \<Rightarrow> string \<Rightarrow> int \<Rightarrow> ('w, bool) op"
  rd_del :: "gotime \<Rightarrow> string \<Rightarrow> ('w, unit) op"
  rd_ping :: "('w, unit) op"
  rd_close :: "('w, unit) op"

record 'v codec =
  cd_marshal :: "'v \<Rightarrow> string result"
  cd_unmarshal :: "string \<Rightarrow> 'v result"

record cache_codecs =
  cc_quote :: "quote codec"
  cc_book :: "order_book codec"
  cc_ticks :: "tick list codec"
  cc_bars :: "bar list codec"
  cc_xdxr :: "xdxr_event list codec"
  cc_securities :: "security_info list codec"
  cc_finance :: "finance_info option codec"
  cc_trading_day :: "trading_day_info option codec"

section \<open>State\<close>

text \<open>The outcome of \<open>Close\<close> is kept by \<open>closeOnce\<close> and \<open>closeErr\<close>.\<close>

record redis =
  rx_cfg :: cache_config
  rx_prefix :: string
  rx_closed :: "unit result option"

definition default_redis_key_prefix :: string where
  "default_redis_key_prefix = ''marketdata:cache:v1''"

definition new_redis :: "cache_config \<Rightarrow> redis" where
  "new_redis cfg = (let c = normalize_config cfg in
     \<lparr>rx_cfg = c, rx_prefix = (if cf_key_prefix c = [] then default_redis_key_prefix else cf_key_prefix c),
      rx_closed = None\<rparr>)"

definition open_redis ::
  "(string \<Rightarrow> 'o result) \<Rightarrow> ('o \<Rightarrow> 'w redis_client) \<Rightarrow> go_error option \<Rightarrow> string \<Rightarrow> cache_config \<Rightarrow> ('w, 'w redis_client \<times> redis) op" where
  "open_redis parse_url new_client ctx url cfg = guard ctx
     (bnd (lift_result (parse_url url)) (\<lambda>opts.
        let client = new_client opts in
        catch (rd_ping client) (\<lambda>e. bnd (ignore_err (rd_close client)) (\<lambda>_. fail e))
          (\<lambda>_. ret (client, new_redis cfg))))"

text \<open>\<open>r\<close> is \<open>None\<close> for a \<open>nil\<close> receiver or client.\<close>

definition close_redis :: "'w redis_client \<Rightarrow> redis option \<Rightarrow> 'w \<Rightarrow> (unit result \<times> redis option) \<times> 'w" where
  "close_redis rc r w =
     (case r of
        None \<Rightarrow> ((Inr (), None), w)
      | Some s \<Rightarrow>
          (case rx_closed s of
             Some res \<Rightarrow> ((res, Some s), w)
           | None \<Rightarrow> (case rd_close rc w of (res, w') \<Rightarrow> ((res, Some (s\<lparr>rx_closed := Some res\<rparr>)), w'))))"

section \<open>Values under keys\<close>

definition redis_key :: "redis \<Rightarrow> string \<Rightarrow> string \<Rightarrow> string" where
  "redis_key r kind key = rx_prefix r @ '':'' @ kind @ '':'' @ key"

definition get_json :: "'w redis_client \<Rightarrow> 'v codec \<Rightarrow> gotime \<Rightarrow> string \<Rightarrow> ('w, 'v option) op" where
  "get_json rc cd now key = bnd (rd_get rc now key) (\<lambda>payload.
     case payload of None \<Rightarrow> ret None | Some p \<Rightarrow> bnd (lift_result (cd_unmarshal cd p)) (\<lambda>v. ret (Some v)))"

definition put_json :: "'w redis_client \<Rightarrow> 'v codec \<Rightarrow> gotime \<Rightarrow> string \<Rightarrow> 'v \<Rightarrow> int \<Rightarrow> ('w, unit) op" where
  "put_json rc cd now key v ttl = bnd (lift_result (cd_marshal cd v)) (\<lambda>p. rd_set rc now key p ttl)"

section \<open>Quotes and order books\<close>

fun get_each :: "'w redis_client \<Rightarrow> 'v codec \<Rightarrow> redis \<Rightarrow> string \<Rightarrow> ('v \<Rightarrow> 'v) \<Rightarrow> gotime \<Rightarrow> symbol list \<Rightarrow> (string \<rightharpoonup> 'v) \<Rightarrow> symbol list \<Rightarrow>
    ('w, (string \<rightharpoonup> 'v) \<times> symbol list) op" where
  "get_each rc cd r kind mark now [] hits misses = ret (hits, misses)"
| "get_each rc cd r kind mark now (s # ss) hits misses =
     bnd (get_json rc cd now (redis_key r kind (symbol_key s))) (\<lambda>found.
       case found of
         None \<Rightarrow> get_each rc cd r kind mark now ss hits (misses @ [s])
       | Some v \<Rightarrow> get_each rc cd r kind mark now ss (hits(symbol_key s \<mapsto> mark v)) misses)"

definition redis_get_quotes :: "'w redis_client \<Rightarrow> cache_codecs \<Rightarrow> redis \<Rightarrow> go_error option \<Rightarrow> gotime \<Rightarrow> symbol list \<Rightarrow>
    ('w, (string \<rightharpoonup> quote) \<times> symbol list) op" where
  "redis_get_quotes rc cs r ctx now symbols = guard ctx
     (get_each rc (cc_quote cs) r ''quotes'' (q_cached_update (\<lambda>_. True)) now symbols Map.empty [])"

fun redis_put_quotes_loop :: "'w redis_client \<Rightarrow> cache_codecs \<Rightarrow> redis \<Rightarrow> gotime \<Rightarrow> quote list \<Rightarrow> ('w, unit) op" where
  "redis_put_quotes_loop rc cs r now [] = ret ()"
| "redis_put_quotes_loop rc cs r now (q # qs) =
     (if s_code (q_symbol q) = [] then redis_put_quotes_loop rc cs r now qs
      else bnd (put_json rc (cc_quote cs) now (redis_key r ''quotes'' (symbol_key (q_symbol q)))
                  (q\<lparr>q_cached := False\<rparr>) (cf_quote_ttl (rx_cfg r)))
             (\<lambda>_. redis_put_quotes_loop rc cs r now qs))"

definition redis_put_quotes :: "'w redis_client \<Rightarrow> cache_codecs \<Rightarrow> redis \<Rightarrow> go_error option \<Rightarrow> gotime \<Rightarrow> quote list \<Rightarrow> ('w, unit) op" where
  "redis_put_quotes rc cs r ctx now quotes = guard ctx (redis_put_quotes_loop rc cs r now quotes)"

definition redis_get_books :: "'w redis_client \<Rightarrow> cache_codecs \<Rightarrow> redis \<Rightarrow> go_error option \<Rightarrow> gotime \<Rightarrow> symbol list \<Rightarrow>
    ('w, (string \<rightharpoonup> order_book) \<times> symbol list) op" where
  "redis_get_books rc cs r ctx now symbols = guard ctx
     (get_each rc (cc_book cs) r ''orderbooks'' (ob_cached_update (\<lambda>_. True)) now symbols Map.empty [])"

fun redis_put_books_loop :: "'w redis_client \<Rightarrow> cache_codecs \<Rightarrow> redis \<Rightarrow> gotime \<Rightarrow> order_book list \<Rightarrow> ('w, unit) op" where
  "redis_put_books_loop rc cs r now [] = ret ()"
| "redis_put_books_loop rc cs r now (b # bs) =
     (if s_code (ob_symbol b) = [] then redis_put_books_loop rc cs r now bs
      else bnd (put_json rc (cc_book cs) now (redis_key r ''orderbooks'' (symbol_key (ob_symbol b)))
                  (b\<lparr>ob_cached := False\<rparr>) (cf_order_book_ttl (rx_cfg r)))
             (\<lambda>_. redis_put_books_loop rc cs r now bs))"

definition redis_put_books :: "'w redis_client \<Rightarrow> cache_codecs \<Rightarrow> redis \<Rightarrow> go_error option \<Rightarrow> gotime \<Rightarrow> order_book list \<Rightarrow> ('w, unit) op" where
  "redis_put_books rc cs r ctx now books = guard ctx (redis_put_books_loop rc cs r now books)"

section \<open>Pages, bars and metadata\<close>

definition redis_get_ticks :: "'w redis_client \<Rightarrow> cache_codecs \<Rightarrow> redis \<Rightarrow> go_error option \<Rightarrow> gotime \<Rightarrow> string \<Rightarrow> ('w, tick list option) op" where
  "redis_get_ticks rc cs r ctx now key = guard ctx
     (bnd (get_json rc (cc_ticks cs) now (redis_key r ''tick-pages'' key)) (\<lambda>v.
        ret (map_option (map (tk_cached_update (\<lambda>_. True))) v)))"

definition redis_put_ticks :: "'w redis_client \<Rightarrow> cache_codecs \<Rightarrow> redis \<Rightarrow> go_error option \<Rightarrow> gotime \<Rightarrow> string \<Rightarrow> tick list \<Rightarrow> int \<Rightarrow> ('w, unit) op" where
  "redis_put_ticks rc cs r ctx now key ticks ttl = guard ctx
     (put_json rc (cc_ticks cs) now (redis_key r ''tick-pages'' key) ticks (if ttl = 0 then cf_tick_ttl (rx_cfg r) else ttl))"

definition redis_put_history_ticks :: "'w redis_client \<Rightarrow> cache_codecs \<Rightarrow> redis \<Rightarrow> go_error option \<Rightarrow> gotime \<Rightarrow> string \<Rightarrow> tick list \<Rightarrow> ('w, unit) op" where
  "redis_put_history_ticks rc cs r ctx now key ticks =
     redis_put_ticks rc cs r ctx now key ticks (cf_history_tick_ttl (rx_cfg r))"

definition redis_get_bars :: "'w redis_client \<Rightarrow> cache_codecs \<Rightarrow> redis \<Rightarrow> go_error option \<Rightarrow> gotime \<Rightarrow> string \<Rightarrow> ('w, bar list option) op" where
  "redis_get_bars rc cs r ctx now key = guard ctx (get_json rc (cc_bars cs) now (redis_key r ''bars'' key))"

definition redis_put_bars :: "'w redis_client \<Rightarrow> cache_codecs \<Rightarrow> redis \<Rightarrow> go_error option \<Rightarrow> gotime \<Rightarrow> string \<Rightarrow> bar list \<Rightarrow> ('w, unit) op" where
  "redis_put_bars rc cs r ctx now key bars = guard ctx
     (put_json rc (cc_bars cs) now (redis_key r ''bars'' key) bars (cf_bar_ttl (rx_cfg r)))"

definition redis_get_xdxr :: "'w redis_client \<Rightarrow> cache_codecs \<Rightarrow> redis \<Rightarrow> go_error option \<Rightarrow> gotime \<Rightarrow> symbol \<Rightarrow> ('w, xdxr_event list option) op" where
  "redis_get_xdxr rc cs r ctx now s = guard ctx (get_json rc (cc_xdxr cs) now (redis_key r ''xdxr'' (symbol_key s)))"

definition redis_put_xdxr :: "'w redis_client \<Rightarrow> cache_codecs \<Rightarrow> redis \<Rightarrow> go_error option \<Rightarrow> gotime \<Rightarrow> symbol \<Rightarrow> xdxr_event list \<Rightarrow> ('w, unit) op" where
  "redis_put_xdxr rc cs r ctx now s events = guard ctx
     (put_json rc (cc_xdxr cs) now (redis_key r ''xdxr'' (symbol_key s)) events (cf_xdxr_ttl (rx_cfg r)))"

definition redis_get_securities :: "'w redis_client \<Rightarrow> cache_codecs \<Rightarrow> redis \<Rightarrow> go_error option \<Rightarrow> gotime \<Rightarrow> string \<Rightarrow> ('w, security_info list option) op" where
  "redis_get_securities rc cs r ctx now key = guard ctx
     (bnd (get_json rc (cc_securities cs) now (redis_key r ''securities'' key)) (\<lambda>v.
        ret (map_option (map (si_cached_update (\<lambda>_. True))) v)))"

definition redis_put_securities :: "'w redis_client \<Rightarrow> cache_codecs \<Rightarrow> redis \<Rightarrow> go_error option \<Rightarrow> gotime \<Rightarrow> string \<Rightarrow> security_info list \<Rightarrow> ('w, unit) op" where
  "redis_put_securities rc cs r ctx now key items = guard ctx
     (put_json rc (cc_securities cs) now (redis_key r ''securities'' key)
        (map (si_cached_update (\<lambda>_. False)) items) (cf_security_ttl (rx_cfg r)))"

text \<open>A hit may be a \<open>nil\<close> pointer, when the payload is the JSON \<open>null\<close>.\<close>

definition redis_get_finance :: "'w redis_client \<Rightarrow> cache_codecs \<Rightarrow> redis \<Rightarrow> go_error option \<Rightarrow> gotime \<Rightarrow> symbol \<Rightarrow> ('w, finance_info option option) op" where
  "redis_get_finance rc cs r ctx now s = guard ctx
     (bnd (get_json rc (cc_finance cs) now (redis_key r ''finance'' (symbol_key s))) (\<lambda>v.
        ret (map_option (map_option (f_cached_update (\<lambda>_. True))) v)))"

definition redis_put_finance :: "'w redis_client \<Rightarrow> cache_codecs \<Rightarrow> redis \<Rightarrow> go_error option \<Rightarrow> gotime \<Rightarrow> symbol \<Rightarrow> finance_info option \<Rightarrow> ('w, unit) op" where
  "redis_put_finance rc cs r ctx now s info = guard ctx
     (case info of None \<Rightarrow> ret ()
      | Some f \<Rightarrow> put_json rc (cc_finance cs) now (redis_key r ''finance'' (symbol_key s))
          (Some (f\<lparr>f_cached := False\<rparr>)) (cf_finance_ttl (rx_cfg r)))"

definition redis_get_trading_day :: "'w redis_client \<Rightarrow> cache_codecs \<Rightarrow> redis \<Rightarrow> go_error option \<Rightarrow> gotime \<Rightarrow> ('w, trading_day_info option option) op" where
  "redis_get_trading_day rc cs r ctx now = guard ctx
     (bnd (get_json rc (cc_trading_day cs) now (redis_key r ''trading_day_v2'' ''status'')) (\<lambda>v.
        ret (map_option (map_option (td_cached_update (\<lambda>_. True))) v)))"

definition redis_put_trading_day :: "'w redis_client \<Rightarrow> cache_codecs \<Rightarrow> redis \<Rightarrow> go_error option \<Rightarrow> gotime \<Rightarrow> trading_day_info option \<Rightarrow> ('w, unit) op" where
  "redis_put_trading_day rc cs r ctx now info = guard ctx
     (case info of None \<Rightarrow> ret ()
      | Some d \<Rightarrow> put_json rc (cc_trading_day cs) now (redis_key r ''trading_day_v2'' ''status'')
          (Some (d\<lparr>td_cached := False\<rparr>)) (cf_security_ttl (rx_cfg r)))"

section \<open>Locks\<close>

definition lock_token :: "gotime \<Rightarrow> string" where
  "lock_token now = format_layout rfc3339_nano (now\<lparr>t_zone := 0\<rparr>)"

definition try_lock :: "'w redis_client \<Rightarrow> redis \<Rightarrow> go_error option \<Rightarrow> gotime \<Rightarrow> string \<Rightarrow> int \<Rightarrow> ('w, string \<times> bool) op" where
  "try_lock rc r ctx now key ttl = guard ctx
     (let token = lock_token now in
      bnd (rd_setnx rc now (redis_key r ''locks'' key) token (if ttl \<le> 0 then 5 * second else ttl)) (\<lambda>ok.
        ret (token, ok)))"

definition unlock :: "'w redis_client \<Rightarrow> redis \<Rightarrow> go_error option \<Rightarrow> gotime \<Rightarrow> string \<Rightarrow> string \<Rightarrow> ('w, unit) op" where
  "unlock rc r ctx now key token = guard ctx (rd_del rc now (redis_key r ''locks'' key))"

section \<open>The calls of the \<open>Cache\<close> interface on either backend\<close>

datatype cache_call =
    Get_Quotes "symbol list" | Put_Quotes "quote list"
  | Get_Books "symbol list" | Put_Books "order_book list"
  | Get_Ticks string | Put_Ticks string "tick list" int | Put_History_Ticks string "tick list"
  | Get_Bars string | Put_Bars string "bar list"
  | Get_Xdxr symbol | Put_Xdxr symbol "xdxr_event list"
  | Get_Securities string | Put_Securities string "security_info list"
  | Get_Finance symbol | Put_Finance symbol "finance_info option"
  | Get_Trading_Day | Put_Trading_Day "trading_day_info option"

datatype cache_reply =
    Quotes_Reply "((string \<rightharpoonup> quote) \<times> symbol list) result"
  | Books_Reply "((string \<rightharpoonup> order_book) \<times> symbol list) result"
  | Ticks_Reply "tick list option result"
  | Bars_Reply "bar list option result"
  | Xdxr_Reply "xdxr_event list option result"
  | Securities_Reply "security_info list option result"
  | Finance_Reply "finance_info option option result"
  | Trading_Day_Reply "trading_day_info option option result"
  | Put_Reply "unit result"

fun memory_call :: "go_error option \<Rightarrow> gotime \<Rightarrow> cache_call \<Rightarrow> memory \<Rightarrow> cache_reply \<times> memory" where
  "memory_call c t (Get_Quotes ss) m = apfst Quotes_Reply (get_quotes c t ss m)"
| "memory_call c t (Put_Quotes qs) m = apfst Put_Reply (put_quotes c t qs m)"
| "memory_call c t (Get_Books ss) m = apfst Books_Reply (get_order_books c t ss m)"
| "memory_call c t (Put_Books bs) m = apfst Put_Reply (put_order_books c t bs m)"
| "memory_call c t (Get_Ticks k) m = apfst Ticks_Reply (get_tick_page c t k m)"
| "memory_call c t (Put_Ticks k v ttl) m = apfst Put_Reply (put_tick_page c t k v ttl m)"
| "memory_call c t (Put_History_Ticks k v) m = apfst Put_Reply (put_history_tick_page c t k v m)"
| "memory_call c t (Get_Bars k) m = apfst Bars_Reply (get_bars_mem c t k m)"
| "memory_call c t (Put_Bars k v) m = apfst Put_Reply (put_bars_mem c t k v m)"
| "memory_call c t (Get_Xdxr s) m = apfst Xdxr_Reply (get_xdxr c t s m)"
| "memory_call c t (Put_Xdxr s v) m = apfst Put_Reply (put_xdxr c t s v m)"
| "memory_call c t (Get_Securities k) m = apfst Securities_Reply (get_securities_mem c t k m)"
| "memory_call c t (Put_Securities k v) m = apfst Put_Reply (put_securities_mem c t k v m)"
| "memory_call c t (Get_Finance s) m = apfst Finance_Reply (bnd (get_finance c t s) (\<lambda>v. ret (map_option Some v)) m)"
| "memory_call c t (Put_Finance s v) m = apfst Put_Reply (put_finance c t s v m)"
| "memory_call c t Get_Trading_Day m = apfst Trading_Day_Reply (bnd (get_trading_day c t) (\<lambda>v. ret (map_option Some v)) m)"
| "memory_call c t (Put_Trading_Day v) m = apfst Put_Reply (put_trading_day c t v m)"

fun redis_call :: "'w redis_client \<Rightarrow> cache_codecs \<Rightarrow> redis \<Rightarrow> go_error option \<Rightarrow> gotime \<Rightarrow> cache_call \<Rightarrow> 'w \<Rightarrow> cache_reply \<times> 'w" where
  "redis_call rc cs r c t (Get_Quotes ss) w = apfst Quotes_Reply (redis_get_quotes rc cs r c t ss w)"
| "redis_call rc cs r c t (Put_Quotes qs) w = apfst Put_Reply (redis_put_quotes rc cs r c t qs w)"
| "redis_call rc cs r c t (Get_Books ss) w = apfst Books_Reply (redis_get_books rc cs r c t ss w)"
| "redis_call rc cs r c t (Put_Books bs) w = apfst Put_Reply (redis_put_books rc cs r c t bs w)"
| "redis_call rc cs r c t (Get_Ticks k) w = apfst Ticks_Reply (redis_get_ticks rc cs r c t k w)"
| "redis_call rc cs r c t (Put_Ticks k v ttl) w = apfst Put_Reply (redis_put_ticks rc cs r c t k v ttl w)"
| "redis_call rc cs r c t (Put_History_Ticks k v) w = apfst Put_Reply (redis_put_history_ticks rc cs r c t k v w)"
| "redis_call rc cs r c t (Get_Bars k) w = apfst Bars_Reply (redis_get_bars rc cs r c t k w)"
| "redis_call rc cs r c t (Put_Bars k v) w = apfst Put_Reply (redis_put_bars rc cs r c t k v w)"
| "redis_call rc cs r c t (Get_Xdxr s) w = apfst Xdxr_Reply (redis_get_xdxr rc cs r c t s w)"
| "redis_call rc cs r c t (Put_Xdxr s v) w = apfst Put_Reply (redis_put_xdxr rc cs r c t s v w)"
| "redis_call rc cs r c t (Get_Securities k) w = apfst Securities_Reply (redis_get_securities rc cs r c t k w)"
| "redis_call rc cs r c t (Put_Securities k v) w = apfst Put_Reply (redis_put_securities rc cs r c t k v w)"
| "redis_call rc cs r c t (Get_Finance s) w = apfst Finance_Reply (redis_get_finance rc cs r c t s w)"
| "redis_call rc cs r c t (Put_Finance s v) w = apfst Put_Reply (redis_put_finance rc cs r c t s v w)"
| "redis_call rc cs r c t Get_Trading_Day w = apfst Trading_Day_Reply (redis_get_trading_day rc cs r c t w)"
| "redis_call rc cs r c t (Put_Trading_Day v) w = apfst Put_Reply (redis_put_trading_day rc cs r c t v w)"

text \<open>A history of calls: the error of the context, if any, the time and the call.\<close>

fun replies :: "(go_error option \<Rightarrow> gotime \<Rightarrow> cache_call \<Rightarrow> 's \<Rightarrow> cache_reply \<times> 's) \<Rightarrow>
    (go_error option \<times> gotime \<times> cache_call) list \<Rightarrow> 's \<Rightarrow> cache_reply list" where
  "replies step [] s = []"
| "replies step ((c, t, call) # log) s = (case step c t call s of (reply, s') \<Rightarrow> reply # replies step log s')"

section \<open>What the server and the codecs promise\<close>

text \<open>
  \<open>peek t k w\<close> is the payload a reader finds under \<open>k\<close> at time \<open>t\<close> when nothing is written before.  \<open>GET\<close> answers
  it and changes nothing a later reader can see; \<open>SET\<close> with a positive lifetime, a whole number of
  milliseconds (the unit of \<^verbatim>\<open>PX\<close>), shows the payload under its key until the lifetime has passed.
\<close>

definition later_same :: "(gotime \<Rightarrow> string \<Rightarrow> 'w \<Rightarrow> string option) \<Rightarrow> gotime \<Rightarrow> 'w \<Rightarrow> 'w \<Rightarrow> bool" where
  "later_same peek t w w' \<longleftrightarrow> (\<forall>t' k. t_nanos t \<le> t_nanos t' \<longrightarrow> peek t' k w' = peek t' k w)"

definition later_set :: "(gotime \<Rightarrow> string \<Rightarrow> 'w \<Rightarrow> string option) \<Rightarrow> gotime \<Rightarrow> string \<Rightarrow> string \<Rightarrow> int \<Rightarrow> 'w \<Rightarrow> 'w \<Rightarrow> bool" where
  "later_set peek t k p ttl w w' \<longleftrightarrow> (\<forall>t' k'. t_nanos t \<le> t_nanos t' \<longrightarrow>
     peek t' k' w' = (if k' = k then (if before t' (time_add t ttl) then Some p else None) else peek t' k' w))"

definition ttl_ok :: "int \<Rightarrow> bool" where
  "ttl_ok ttl \<longleftrightarrow> 0 < ttl \<and> ttl mod 1000000 = 0"

definition redis_serves :: "'w redis_client \<Rightarrow> (gotime \<Rightarrow> string \<Rightarrow> 'w \<Rightarrow> string option) \<Rightarrow> bool" where
  "redis_serves rc peek \<longleftrightarrow>
     (\<forall>t k w. \<exists>w'. rd_get rc t k w = (Inr (peek t k w), w') \<and> later_same peek t w w') \<and>
     (\<forall>t k p ttl w. ttl_ok ttl \<longrightarrow> (\<exists>w'. rd_set rc t k p ttl w = (Inr (), w') \<and> later_set peek t k p ttl w w'))"

definition round_trips :: "'v codec \<Rightarrow> 'v \<Rightarrow> bool" where
  "round_trips cd v \<longleftrightarrow> (case cd_marshal cd v of Inl _ \<Rightarrow> False | Inr p \<Rightarrow> cd_unmarshal cd p = Inr v)"

text \<open>The values a call stores survive \<open>encoding/json\<close>, and so does the lifetime it gives.\<close>

fun storable :: "cache_codecs \<Rightarrow> cache_call \<Rightarrow> bool" where
  "storable cs (Put_Quotes qs) = (\<forall>q \<in> set qs. round_trips (cc_quote cs) (q\<lparr>q_cached := False\<rparr>))"
| "storable cs (Put_Books bs) = (\<forall>b \<in> set bs. round_trips (cc_book cs) (b\<lparr>ob_cached := False\<rparr>))"
| "storable cs (Put_Ticks k v ttl) = (round_trips (cc_ticks cs) v \<and> (ttl = 0 \<or> ttl_ok ttl))"
| "storable cs (Put_History_Ticks k v) = round_trips (cc_ticks cs) v"
| "storable cs (Put_Bars k v) = round_trips (cc_bars cs) v"
| "storable cs (Put_Xdxr s v) = round_trips (cc_xdxr cs) v"
| "storable cs (Put_Securities k v) = round_trips (cc_securities cs) (map (si_cached_update (\<lambda>_. False)) v)"
| "storable cs (Put_Finance s (Some f)) = round_trips (cc_finance cs) (Some (f\<lparr>f_cached := False\<rparr>))"
| "storable cs (Put_Trading_Day (Some d)) = round_trips (cc_trading_day cs) (Some (d\<lparr>td_cached := False\<rparr>))"
| "storable cs call = True"

definition config_ttls :: "cache_config \<Rightarrow> int list" where
  "config_ttls c = [cf_quote_ttl c, cf_order_book_ttl c, cf_tick_ttl c, cf_history_tick_ttl c, cf_bar_ttl c,
     cf_xdxr_ttl c, cf_security_ttl c, cf_finance_ttl c]"

section \<open>Keys of two kinds never meet\<close>

lemma redis_key_inject:
  assumes "CHR '':'' \<notin> set kind" "CHR '':'' \<notin> set kind'"
  shows "redis_key r kind k = redis_key r kind' k' \<longleftrightarrow> kind = kind' \<and> k = k'"
proof -
  have "kind @ CHR '':'' # k = kind' @ CHR '':'' # k' \<longleftrightarrow> kind = kind' \<and> k = k'"
    using assms
  proof (induction kind arbitrary: kind')
    case Nil then show ?case by (cases kind') auto
  next
    case (Cons c cs) then show ?case by (cases kind') auto
  qed
  then show ?thesis by (simp add: redis_key_def)
qed

section \<open>The server holds what the maps hold\<close>

fun stored_as :: "'v codec \<Rightarrow> string option \<Rightarrow> 'v option \<Rightarrow> bool" where
  "stored_as cd None v = (v = None)"
| "stored_as cd (Some p) v = (case cd_unmarshal cd p of Inl _ \<Rightarrow> False | Inr x \<Rightarrow> v = Some x)"

definition holds :: "(gotime \<Rightarrow> string \<Rightarrow> 'w \<Rightarrow> string option) \<Rightarrow> redis \<Rightarrow> gotime \<Rightarrow> 'w \<Rightarrow> 'v codec \<Rightarrow> string \<Rightarrow>
    (string \<rightharpoonup> 'v entry) \<Rightarrow> bool" where
  "holds peek r now w cd kind m \<longleftrightarrow> (\<forall>t k. t_nanos now \<le> t_nanos t \<longrightarrow>
     stored_as cd (peek t (redis_key r kind k) w) (entry_get t m k))"

lemma holds_later: "holds peek r now w cd kind m \<Longrightarrow> t_nanos now \<le> t_nanos t \<Longrightarrow> holds peek r t w cd kind m"
  unfolding holds_def by (meson order_trans)

lemma holds_same: "holds peek r now w cd kind m \<Longrightarrow> later_same peek now w w' \<Longrightarrow> holds peek r now w' cd kind m"
  unfolding holds_def later_same_def by simp

lemma holds_other:
  assumes "holds peek r now w cd kind m" "later_set peek now (redis_key r kind' k) p ttl w w'"
    and "kind \<noteq> kind'" "CHR '':'' \<notin> set kind" "CHR '':'' \<notin> set kind'"
  shows "holds peek r now w' cd kind m"
  using assms unfolding holds_def later_set_def by (simp add: redis_key_inject)

lemma entry_get_put:
  "entry_get t (entry_put now ttl k v m) j =
     (if j = k then (if before t (time_add now ttl) then Some v else None) else entry_get t m j)"
  by (simp add: entry_get_def entry_put_def fresh_def)

lemma holds_put:
  assumes "holds peek r now w cd kind m" "later_set peek now (redis_key r kind k) p ttl w w'"
    and "cd_unmarshal cd p = Inr v" "CHR '':'' \<notin> set kind"
  shows "holds peek r now w' cd kind (entry_put now ttl k v m)"
  using assms unfolding holds_def later_set_def by (simp add: redis_key_inject entry_get_put)

lemma get_json_holds:
  assumes "redis_serves rc peek" "holds peek r now w cd kind m"
  shows "\<exists>w'. get_json rc cd now (redis_key r kind k) w = (Inr (entry_get now m k), w') \<and> later_same peek now w w'"
proof -
  obtain w' where g: "rd_get rc now (redis_key r kind k) w = (Inr (peek now (redis_key r kind k) w), w')" "later_same peek now w w'"
    using assms(1) unfolding redis_serves_def by blast
  have "stored_as cd (peek now (redis_key r kind k) w) (entry_get now m k)"
    using assms(2) unfolding holds_def by blast
  then show ?thesis
    using g by (auto simp: get_json_def op_defs split: option.splits sum.splits)
qed

lemma put_json_sets:
  assumes "redis_serves rc peek" "round_trips cd v" "ttl_ok ttl"
  shows "\<exists>w' p. put_json rc cd now k v ttl w = (Inr (), w') \<and> later_set peek now k p ttl w w' \<and> cd_unmarshal cd p = Inr v"
proof -
  obtain p where p: "cd_marshal cd v = Inr p" "cd_unmarshal cd p = Inr v"
    using assms(2) by (auto simp: round_trips_def split: sum.splits)
  obtain w' where "rd_set rc now k p ttl w = (Inr (), w')" "later_set peek now k p ttl w w'"
    using assms(1,3) unfolding redis_serves_def by blast
  then show ?thesis using p by (auto simp: put_json_def op_defs)
qed

lemma get_each_holds:
  assumes "redis_serves rc peek"
  shows "holds peek r now w cd kind m \<Longrightarrow>
    \<exists>w'. get_each rc cd r kind mark now ss hits misses w = (Inr (split_hits now m mark ss hits misses), w') \<and>
      later_same peek now w w'"
proof (induction ss arbitrary: hits misses w)
  case Nil
  then show ?case by (auto simp: op_defs later_same_def)
next
  case (Cons s ss)
  obtain w1 where w1: "get_json rc cd now (redis_key r kind (symbol_key s)) w = (Inr (entry_get now m (symbol_key s)), w1)"
      "later_same peek now w w1"
    using get_json_holds [OF assms Cons.prems] by blast
  have h1: "holds peek r now w1 cd kind m" by (rule holds_same [OF Cons.prems w1(2)])
  have tr: "later_same peek now w1 w2 \<Longrightarrow> later_same peek now w w2" for w2
    using w1(2) by (simp add: later_same_def)
  show ?case
    using w1(1) Cons.IH [OF h1] tr by (auto simp: bnd_def split: option.split) metis+
qed

text \<open>The caches agree: each of the eight kinds, for the same configuration.\<close>

definition day_entry :: "trading_day_info option entry \<Rightarrow> (string \<rightharpoonup> trading_day_info option entry)" where
  "day_entry e = (if e_value e = None then Map.empty else [''status'' \<mapsto> e])"

definition mirrors :: "(gotime \<Rightarrow> string \<Rightarrow> 'w \<Rightarrow> string option) \<Rightarrow> cache_codecs \<Rightarrow> redis \<Rightarrow> gotime \<Rightarrow> 'w \<Rightarrow> memory \<Rightarrow> bool" where
  "mirrors peek cs r now w m \<longleftrightarrow>
     holds peek r now w (cc_quote cs) ''quotes'' (m_quotes m) \<and>
     holds peek r now w (cc_book cs) ''orderbooks'' (m_order_books m) \<and>
     holds peek r now w (cc_ticks cs) ''tick-pages'' (m_tick_pages m) \<and>
     holds peek r now w (cc_bars cs) ''bars'' (m_bar_ranges m) \<and>
     holds peek r now w (cc_xdxr cs) ''xdxr'' (m_xdxr m) \<and>
     holds peek r now w (cc_securities cs) ''securities'' (m_securities m) \<and>
     holds peek r now w (cc_finance cs) ''finance'' (m_finance m) \<and>
     holds peek r now w (cc_trading_day cs) ''trading_day_v2'' (day_entry (m_trading_day m)) \<and>
     (\<forall>k e. m_finance m k = Some e \<longrightarrow> e_value e \<noteq> None) \<and>
     m_cfg m = rx_cfg r \<and> (\<forall>ttl \<in> set (config_ttls (rx_cfg r)). ttl_ok ttl)"

lemma mirrors_same: "mirrors peek cs r now w m \<Longrightarrow> later_same peek now w w' \<Longrightarrow> mirrors peek cs r now w' m"
  unfolding mirrors_def by (meson holds_same)

lemma mirrors_later: "mirrors peek cs r now w m \<Longrightarrow> t_nanos now \<le> t_nanos t \<Longrightarrow> mirrors peek cs r t w m"
  unfolding mirrors_def by (meson holds_later)

lemmas holds_others = holds_other [where kind' = "''quotes''"] holds_other [where kind' = "''orderbooks''"]
  holds_other [where kind' = "''tick-pages''"] holds_other [where kind' = "''bars''"]
  holds_other [where kind' = "''xdxr''"] holds_other [where kind' = "''securities''"]
  holds_other [where kind' = "''finance''"] holds_other [where kind' = "''trading_day_v2''"]

text \<open>One store under each kind.\<close>

lemma mirrors_quote:
  assumes "mirrors peek cs r now w m" "later_set peek now (redis_key r ''quotes'' k) p ttl w w'" "cd_unmarshal (cc_quote cs) p = Inr v"
  shows "mirrors peek cs r now w' (m\<lparr>m_quotes := entry_put now ttl k v (m_quotes m)\<rparr>)"
  using assms unfolding mirrors_def by (auto intro: holds_put holds_others)

lemma mirrors_book:
  assumes "mirrors peek cs r now w m" "later_set peek now (redis_key r ''orderbooks'' k) p ttl w w'" "cd_unmarshal (cc_book cs) p = Inr v"
  shows "mirrors peek cs r now w' (m\<lparr>m_order_books := entry_put now ttl k v (m_order_books m)\<rparr>)"
  using assms unfolding mirrors_def by (auto intro: holds_put holds_others)

lemma mirrors_ticks:
  assumes "mirrors peek cs r now w m" "later_set peek now (redis_key r ''tick-pages'' k) p ttl w w'" "cd_unmarshal (cc_ticks cs) p = Inr v"
  shows "mirrors peek cs r now w' (m\<lparr>m_tick_pages := entry_put now ttl k v (m_tick_pages m)\<rparr>)"
  using assms unfolding mirrors_def by (auto intro: holds_put holds_others)

lemma mirrors_bars:
  assumes "mirrors peek cs r now w m" "later_set peek now (redis_key r ''bars'' k) p ttl w w'" "cd_unmarshal (cc_bars cs) p = Inr v"
  shows "mirrors peek cs r now w' (m\<lparr>m_bar_ranges := entry_put now ttl k v (m_bar_ranges m)\<rparr>)"
  using assms unfolding mirrors_def by (auto intro: holds_put holds_others)

lemma mirrors_xdxr:
  assumes "mirrors peek cs r now w m" "later_set peek now (redis_key r ''xdxr'' k) p ttl w w'" "cd_unmarshal (cc_xdxr cs) p = Inr v"
  shows "mirrors peek cs r now w' (m\<lparr>m_xdxr := entry_put now ttl k v (m_xdxr m)\<rparr>)"
  using assms unfolding mirrors_def by (auto intro: holds_put holds_others)

lemma mirrors_securities:
  assumes "mirrors peek cs r now w m" "later_set peek now (redis_key r ''securities'' k) p ttl w w'"
    "cd_unmarshal (cc_securities cs) p = Inr v"
  shows "mirrors peek cs r now w' (m\<lparr>m_securities := entry_put now ttl k v (m_securities m)\<rparr>)"
  using assms unfolding mirrors_def by (auto intro: holds_put holds_others)

lemma finance_put:
  "entry_put now ttl k (Some v) m j = Some e \<Longrightarrow> (\<forall>j e. m j = Some e \<longrightarrow> e_value e \<noteq> None) \<Longrightarrow> \<exists>x. e_value e = Some x"
  by (auto simp: entry_put_def split: if_splits)

lemma mirrors_finance:
  assumes "mirrors peek cs r now w m" "later_set peek now (redis_key r ''finance'' k) p ttl w w'"
    "cd_unmarshal (cc_finance cs) p = Inr (Some v)"
  shows "mirrors peek cs r now w' (m\<lparr>m_finance := entry_put now ttl k (Some v) (m_finance m)\<rparr>)"
  using assms unfolding mirrors_def by (auto intro: holds_put holds_others simp: finance_put)

lemma mirrors_trading_day:
  assumes "mirrors peek cs r now w m" "later_set peek now (redis_key r ''trading_day_v2'' ''status'') p ttl w w'"
    "cd_unmarshal (cc_trading_day cs) p = Inr (Some v)"
  shows "mirrors peek cs r now w' (m\<lparr>m_trading_day := \<lparr>e_value = Some v, e_expires = time_add now ttl\<rparr>\<rparr>)"
proof -
  have "day_entry \<lparr>e_value = Some v, e_expires = time_add now ttl\<rparr> =
      entry_put now ttl ''status'' (Some v) (day_entry (m_trading_day m))"
    by (simp add: day_entry_def entry_put_def)
  then show ?thesis
    using assms unfolding mirrors_def by (auto intro: holds_put holds_others)
qed

lemma mirrors_ttls:
  assumes "mirrors peek cs r now w m"
  shows "m_cfg m = rx_cfg r" "ttl_ok (cf_quote_ttl (rx_cfg r))" "ttl_ok (cf_order_book_ttl (rx_cfg r))"
    "ttl_ok (cf_tick_ttl (rx_cfg r))" "ttl_ok (cf_history_tick_ttl (rx_cfg r))" "ttl_ok (cf_bar_ttl (rx_cfg r))"
    "ttl_ok (cf_xdxr_ttl (rx_cfg r))" "ttl_ok (cf_security_ttl (rx_cfg r))" "ttl_ok (cf_finance_ttl (rx_cfg r))"
  using assms by (simp_all add: mirrors_def config_ttls_def)

lemma put_quotes_mirrors:
  assumes "redis_serves rc peek"
  shows "mirrors peek cs r now w m \<Longrightarrow> \<forall>q \<in> set qs. round_trips (cc_quote cs) (q\<lparr>q_cached := False\<rparr>) \<Longrightarrow>
    \<exists>w'. redis_put_quotes_loop rc cs r now qs w = (Inr (), w') \<and>
      mirrors peek cs r now w' (m\<lparr>m_quotes := put_quotes_loop now (cf_quote_ttl (m_cfg m)) qs (m_quotes m)\<rparr>)"
proof (induction qs arbitrary: w m)
  case Nil
  then show ?case by (simp add: op_defs)
next
  case (Cons q qs)
  let ?v = "q\<lparr>q_cached := False\<rparr>" let ?k = "symbol_key (q_symbol q)"
  show ?case
  proof (cases "s_code (q_symbol q) = []")
    case True
    then show ?thesis using Cons by simp
  next
    case False
    obtain w1 p where put: "put_json rc (cc_quote cs) now (redis_key r ''quotes'' ?k) ?v (cf_quote_ttl (rx_cfg r)) w = (Inr (), w1)"
        "later_set peek now (redis_key r ''quotes'' ?k) p (cf_quote_ttl (rx_cfg r)) w w1" "cd_unmarshal (cc_quote cs) p = Inr ?v"
      using put_json_sets [OF assms] Cons.prems mirrors_ttls(2) [OF Cons.prems(1)] by (metis list.set_intros(1))
    show ?thesis
      using Cons.IH [OF mirrors_quote [OF Cons.prems(1) put(2,3)]] Cons.prems(2) False put(1)
      by (simp add: bnd_def mirrors_ttls(1) [OF Cons.prems(1)])
  qed
qed

lemma put_books_mirrors:
  assumes "redis_serves rc peek"
  shows "mirrors peek cs r now w m \<Longrightarrow> \<forall>b \<in> set bs. round_trips (cc_book cs) (b\<lparr>ob_cached := False\<rparr>) \<Longrightarrow>
    \<exists>w'. redis_put_books_loop rc cs r now bs w = (Inr (), w') \<and>
      mirrors peek cs r now w' (m\<lparr>m_order_books := put_books_loop now (cf_order_book_ttl (m_cfg m)) bs (m_order_books m)\<rparr>)"
proof (induction bs arbitrary: w m)
  case Nil
  then show ?case by (simp add: op_defs)
next
  case (Cons b bs)
  let ?v = "b\<lparr>ob_cached := False\<rparr>" let ?k = "symbol_key (ob_symbol b)"
  show ?case
  proof (cases "s_code (ob_symbol b) = []")
    case True
    then show ?thesis using Cons by simp
  next
    case False
    obtain w1 p where put: "put_json rc (cc_book cs) now (redis_key r ''orderbooks'' ?k) ?v (cf_order_book_ttl (rx_cfg r)) w = (Inr (), w1)"
        "later_set peek now (redis_key r ''orderbooks'' ?k) p (cf_order_book_ttl (rx_cfg r)) w w1" "cd_unmarshal (cc_book cs) p = Inr ?v"
      using put_json_sets [OF assms] Cons.prems mirrors_ttls(3) [OF Cons.prems(1)] by (metis list.set_intros(1))
    show ?thesis
      using Cons.IH [OF mirrors_book [OF Cons.prems(1) put(2,3)]] Cons.prems(2) False put(1)
      by (simp add: bnd_def mirrors_ttls(1) [OF Cons.prems(1)])
  qed
qed

text \<open>What the entries of finance and of the trading day look like.\<close>

lemma mirrors_finance_hit:
  "mirrors peek cs r now w m \<Longrightarrow> entry_get t (m_finance m) k \<noteq> Some None"
  by (auto simp: mirrors_def entry_get_def split: option.splits if_splits)

lemma day_entry_get:
  "entry_get t (day_entry e) ''status'' = (if e_value e \<noteq> None \<and> fresh t e then Some (e_value e) else None)"
  by (simp add: day_entry_def entry_get_def)

section \<open>One call\<close>

lemma get_mirrors:
  assumes "redis_serves rc peek" "mirrors peek cs r now w m" "holds peek r now w cd kind e"
  shows "\<exists>w'. get_json rc cd now (redis_key r kind k) w = (Inr (entry_get now e k), w') \<and> mirrors peek cs r now w' m"
  using get_json_holds [OF assms(1,3)] mirrors_same [OF assms(2)] by metis

lemma gets_mirror:
  assumes "redis_serves rc peek" "mirrors peek cs r now w m" "holds peek r now w cd kind e"
  shows "\<exists>w'. get_each rc cd r kind mark now ss hits misses w = (Inr (split_hits now e mark ss hits misses), w') \<and>
    mirrors peek cs r now w' m"
  using get_each_holds [OF assms(1,3)] mirrors_same [OF assms(2)] by metis

lemma mirrors_holds:
  assumes "mirrors peek cs r now w m"
  shows "holds peek r now w (cc_quote cs) ''quotes'' (m_quotes m)" "holds peek r now w (cc_book cs) ''orderbooks'' (m_order_books m)"
    "holds peek r now w (cc_ticks cs) ''tick-pages'' (m_tick_pages m)" "holds peek r now w (cc_bars cs) ''bars'' (m_bar_ranges m)"
    "holds peek r now w (cc_xdxr cs) ''xdxr'' (m_xdxr m)" "holds peek r now w (cc_securities cs) ''securities'' (m_securities m)"
    "holds peek r now w (cc_finance cs) ''finance'' (m_finance m)"
    "holds peek r now w (cc_trading_day cs) ''trading_day_v2'' (day_entry (m_trading_day m))"
  using assms by (simp_all add: mirrors_def)

definition agree :: "(gotime \<Rightarrow> string \<Rightarrow> 'w \<Rightarrow> string option) \<Rightarrow> cache_codecs \<Rightarrow> redis \<Rightarrow> gotime \<Rightarrow>
    cache_reply \<times> 'w \<Rightarrow> cache_reply \<times> memory \<Rightarrow> bool" where
  "agree peek cs r now x y \<longleftrightarrow> fst x = fst y \<and> mirrors peek cs r now (snd x) (snd y)"

lemma quote_calls_agree:
  assumes "redis_serves rc peek" "mirrors peek cs r now w m"
  shows "agree peek cs r now (redis_call rc cs r c now (Get_Quotes ss) w) (memory_call c now (Get_Quotes ss) m)"
    and "agree peek cs r now (redis_call rc cs r c now (Get_Books ss) w) (memory_call c now (Get_Books ss) m)"
    and "storable cs (Put_Quotes qs) \<Longrightarrow>
      agree peek cs r now (redis_call rc cs r c now (Put_Quotes qs) w) (memory_call c now (Put_Quotes qs) m)"
    and "storable cs (Put_Books bs) \<Longrightarrow>
      agree peek cs r now (redis_call rc cs r c now (Put_Books bs) w) (memory_call c now (Put_Books bs) m)"
proof -
  note h = mirrors_holds [OF assms(2)]
  show "agree peek cs r now (redis_call rc cs r c now (Get_Quotes ss) w) (memory_call c now (Get_Quotes ss) m)"
    using gets_mirror [OF assms h(1), of "q_cached_update (\<lambda>_. True)" ss Map.empty "[]"] assms(2)
    by (cases c) (auto simp: agree_def redis_get_quotes_def get_quotes_def)
  show "agree peek cs r now (redis_call rc cs r c now (Get_Books ss) w) (memory_call c now (Get_Books ss) m)"
    using gets_mirror [OF assms h(2), of "ob_cached_update (\<lambda>_. True)" ss Map.empty "[]"] assms(2)
    by (cases c) (auto simp: agree_def redis_get_books_def get_order_books_def)
  show "agree peek cs r now (redis_call rc cs r c now (Put_Quotes qs) w) (memory_call c now (Put_Quotes qs) m)"
    if "storable cs (Put_Quotes qs)"
    using put_quotes_mirrors [OF assms, of qs] that assms(2)
    by (cases c) (auto simp: agree_def redis_put_quotes_def put_quotes_def)
  show "agree peek cs r now (redis_call rc cs r c now (Put_Books bs) w) (memory_call c now (Put_Books bs) m)"
    if "storable cs (Put_Books bs)"
    using put_books_mirrors [OF assms, of bs] that assms(2)
    by (cases c) (auto simp: agree_def redis_put_books_def put_order_books_def)
qed

lemma read_calls_agree:
  assumes "redis_serves rc peek" "mirrors peek cs r now w m"
  shows "agree peek cs r now (redis_call rc cs r c now (Get_Ticks k) w) (memory_call c now (Get_Ticks k) m)"
    and "agree peek cs r now (redis_call rc cs r c now (Get_Bars k) w) (memory_call c now (Get_Bars k) m)"
    and "agree peek cs r now (redis_call rc cs r c now (Get_Xdxr s) w) (memory_call c now (Get_Xdxr s) m)"
    and "agree peek cs r now (redis_call rc cs r c now (Get_Securities k) w) (memory_call c now (Get_Securities k) m)"
    and "agree peek cs r now (redis_call rc cs r c now (Get_Finance s) w) (memory_call c now (Get_Finance s) m)"
    and "agree peek cs r now (redis_call rc cs r c now Get_Trading_Day w) (memory_call c now Get_Trading_Day m)"
proof -
  note h = mirrors_holds [OF assms(2)] and g = get_mirrors [OF assms]
  show "agree peek cs r now (redis_call rc cs r c now (Get_Ticks k) w) (memory_call c now (Get_Ticks k) m)"
    using g [OF h(3), of k] assms(2) by (cases c) (auto simp: agree_def redis_get_ticks_def get_tick_page_def op_defs)
  show "agree peek cs r now (redis_call rc cs r c now (Get_Bars k) w) (memory_call c now (Get_Bars k) m)"
    using g [OF h(4), of k] assms(2) by (cases c) (auto simp: agree_def redis_get_bars_def get_bars_mem_def op_defs)
  show "agree peek cs r now (redis_call rc cs r c now (Get_Xdxr s) w) (memory_call c now (Get_Xdxr s) m)"
    using g [OF h(5), of "symbol_key s"] assms(2)
    by (cases c) (auto simp: agree_def redis_get_xdxr_def get_xdxr_def op_defs)
  show "agree peek cs r now (redis_call rc cs r c now (Get_Securities k) w) (memory_call c now (Get_Securities k) m)"
    using g [OF h(6), of k] assms(2)
    by (cases c) (auto simp: agree_def redis_get_securities_def get_securities_mem_def op_defs)
  show "agree peek cs r now (redis_call rc cs r c now (Get_Finance s) w) (memory_call c now (Get_Finance s) m)"
    using g [OF h(7), of "symbol_key s"] assms(2) mirrors_finance_hit [OF assms(2), of now "symbol_key s"]
    by (cases c; cases "entry_get now (m_finance m) (symbol_key s)")
      (auto simp: agree_def redis_get_finance_def get_finance_def op_defs)
  show "agree peek cs r now (redis_call rc cs r c now Get_Trading_Day w) (memory_call c now Get_Trading_Day m)"
    using g [OF h(8), of "''status''"] assms(2)
    by (cases c; cases "e_value (m_trading_day m)"; cases "fresh now (m_trading_day m)")
      (auto simp: agree_def redis_get_trading_day_def get_trading_day_def op_defs day_entry_get)
qed

lemma write_calls_agree:
  assumes "redis_serves rc peek" "mirrors peek cs r now w m"
  shows "storable cs (Put_Ticks k t ttl) \<Longrightarrow>
      agree peek cs r now (redis_call rc cs r c now (Put_Ticks k t ttl) w) (memory_call c now (Put_Ticks k t ttl) m)"
    and "storable cs (Put_History_Ticks k t) \<Longrightarrow>
      agree peek cs r now (redis_call rc cs r c now (Put_History_Ticks k t) w) (memory_call c now (Put_History_Ticks k t) m)"
    and "storable cs (Put_Bars k b) \<Longrightarrow>
      agree peek cs r now (redis_call rc cs r c now (Put_Bars k b) w) (memory_call c now (Put_Bars k b) m)"
    and "storable cs (Put_Xdxr s x) \<Longrightarrow>
      agree peek cs r now (redis_call rc cs r c now (Put_Xdxr s x) w) (memory_call c now (Put_Xdxr s x) m)"
    and "storable cs (Put_Securities k i) \<Longrightarrow>
      agree peek cs r now (redis_call rc cs r c now (Put_Securities k i) w) (memory_call c now (Put_Securities k i) m)"
    and "storable cs (Put_Finance s f) \<Longrightarrow>
      agree peek cs r now (redis_call rc cs r c now (Put_Finance s f) w) (memory_call c now (Put_Finance s f) m)"
    and "storable cs (Put_Trading_Day d) \<Longrightarrow>
      agree peek cs r now (redis_call rc cs r c now (Put_Trading_Day d) w) (memory_call c now (Put_Trading_Day d) m)"
proof -
  note t = mirrors_ttls [OF assms(2)] and p = put_json_sets [OF assms(1)]
  have ticks: "agree peek cs r now (redis_call rc cs r c now (Put_Ticks k t ttl) w) (memory_call c now (Put_Ticks k t ttl) m)"
    if "storable cs (Put_Ticks k t ttl)" for ttl
    using p [of "cc_ticks cs" t "or_default (cf_tick_ttl (rx_cfg r)) ttl" now "redis_key r ''tick-pages'' k" w]
      mirrors_ticks [OF assms(2)] that t assms(2)
    by (cases c) (auto simp: agree_def redis_put_ticks_def put_tick_page_def or_default_def split: if_splits)
  show "agree peek cs r now (redis_call rc cs r c now (Put_Ticks k t ttl) w) (memory_call c now (Put_Ticks k t ttl) m)"
    if "storable cs (Put_Ticks k t ttl)" by (rule ticks [OF that])
  show "agree peek cs r now (redis_call rc cs r c now (Put_History_Ticks k t) w) (memory_call c now (Put_History_Ticks k t) m)"
    if "storable cs (Put_History_Ticks k t)"
    using ticks [of "cf_history_tick_ttl (rx_cfg r)"] that t by (simp add: redis_put_history_ticks_def put_history_tick_page_def)
  show "agree peek cs r now (redis_call rc cs r c now (Put_Bars k b) w) (memory_call c now (Put_Bars k b) m)"
    if "storable cs (Put_Bars k b)"
    using p [of "cc_bars cs" b "cf_bar_ttl (rx_cfg r)" now "redis_key r ''bars'' k" w] mirrors_bars [OF assms(2)] that t assms(2)
    by (cases c) (auto simp: agree_def redis_put_bars_def put_bars_mem_def)
  show "agree peek cs r now (redis_call rc cs r c now (Put_Xdxr s x) w) (memory_call c now (Put_Xdxr s x) m)"
    if "storable cs (Put_Xdxr s x)"
    using p [of "cc_xdxr cs" x "cf_xdxr_ttl (rx_cfg r)" now "redis_key r ''xdxr'' (symbol_key s)" w] mirrors_xdxr [OF assms(2)] that t assms(2)
    by (cases c) (auto simp: agree_def redis_put_xdxr_def put_xdxr_def)
  show "agree peek cs r now (redis_call rc cs r c now (Put_Securities k i) w) (memory_call c now (Put_Securities k i) m)"
    if "storable cs (Put_Securities k i)"
    using p [of "cc_securities cs" "map (si_cached_update (\<lambda>_. False)) i" "cf_security_ttl (rx_cfg r)" now "redis_key r ''securities'' k" w]
      mirrors_securities [OF assms(2)] that t assms(2)
    by (cases c) (auto simp: agree_def redis_put_securities_def put_securities_mem_def)
  show "agree peek cs r now (redis_call rc cs r c now (Put_Finance s f) w) (memory_call c now (Put_Finance s f) m)"
    if "storable cs (Put_Finance s f)"
    using p [of "cc_finance cs" "Some (the f\<lparr>f_cached := False\<rparr>)" "cf_finance_ttl (rx_cfg r)" now "redis_key r ''finance'' (symbol_key s)" w]
      mirrors_finance [OF assms(2)] that t assms(2)
    by (cases c; cases f) (auto simp: agree_def redis_put_finance_def put_finance_def ret_def)
  show "agree peek cs r now (redis_call rc cs r c now (Put_Trading_Day d) w) (memory_call c now (Put_Trading_Day d) m)"
    if "storable cs (Put_Trading_Day d)"
    using p [of "cc_trading_day cs" "Some (the d\<lparr>td_cached := False\<rparr>)" "cf_security_ttl (rx_cfg r)" now "redis_key r ''trading_day_v2'' ''status''" w]
      mirrors_trading_day [OF assms(2)] that t assms(2)
    by (cases c; cases d) (auto simp: agree_def redis_put_trading_day_def put_trading_day_def ret_def)
qed

lemma call_agrees:
  assumes "redis_serves rc peek" "mirrors peek cs r now w m" "storable cs call"
  shows "agree peek cs r now (redis_call rc cs r c now call w) (memory_call c now call m)"
  using assms(3)
  by (cases call) (simp_all only: quote_calls_agree [OF assms(1,2)] read_calls_agree [OF assms(1,2)] write_calls_agree [OF assms(1,2)])

lemma history_agrees:
  assumes "redis_serves rc peek"
  shows "mirrors peek cs r now w m \<Longrightarrow> sorted (t_nanos now # map (\<lambda>(c, t, call). t_nanos t) log) \<Longrightarrow>
    \<forall>(c, t, call) \<in> set log. storable cs call \<Longrightarrow>
    replies (redis_call rc cs r) log w = replies memory_call log m"
proof (induction log arbitrary: now w m)
  case (Cons entry log)
  obtain c t call where e: "entry = (c, t, call)" by (cases entry)
  have "agree peek cs r t (redis_call rc cs r c t call w) (memory_call c t call m)"
    using Cons.prems by (intro call_agrees [OF assms mirrors_later]) (auto simp: e)
  then show ?case
    using Cons.IH [of t] Cons.prems by (auto simp: e agree_def split: prod.split)
qed simp

lemma fresh_mirrors:
  assumes "\<And>t k. peek t k w = None" "\<forall>ttl \<in> set (config_ttls (normalize_config cfg)). ttl_ok ttl"
  shows "mirrors peek cs (new_redis cfg) now w (new_memory cfg)"
  using assms by (simp add: mirrors_def holds_def new_redis_def new_memory_def entry_get_def day_entry_def Let_def)

section \<open>Locks on the server\<close>

text \<open>\<open>SETNX\<close> stores its payload and answers true when the key shows none; \<open>DEL\<close> removes the key.\<close>

definition redis_locks :: "'w redis_client \<Rightarrow> (gotime \<Rightarrow> string \<Rightarrow> 'w \<Rightarrow> string option) \<Rightarrow> bool" where
  "redis_locks rc peek \<longleftrightarrow>
     (\<forall>t k p ttl w. ttl_ok ttl \<longrightarrow> (\<exists>w'. rd_setnx rc t k p ttl w = (Inr (peek t k w = None), w') \<and>
        (if peek t k w = None then later_set peek t k p ttl w w' else later_same peek t w w'))) \<and>
     (\<forall>t k w. \<exists>w'. rd_del rc t k w = (Inr (), w') \<and> (\<forall>t'. t_nanos t \<le> t_nanos t' \<longrightarrow> peek t' k w' = None))"

text \<open>The lock of \<open>key\<close> is free at \<open>t\<close>.\<close>

definition lock_free :: "(gotime \<Rightarrow> string \<Rightarrow> 'w \<Rightarrow> string option) \<Rightarrow> redis \<Rightarrow> string \<Rightarrow> gotime \<Rightarrow> 'w \<Rightarrow> bool" where
  "lock_free peek r key t w \<longleftrightarrow> peek t (redis_key r ''locks'' key) w = None"

lemma try_lock_free:
  assumes "redis_locks rc peek" "ttl_ok ttl"
  shows "\<exists>w'. try_lock rc r None t key ttl w = (Inr (lock_token t, lock_free peek r key t w), w') \<and>
    (lock_free peek r key t w \<longrightarrow> (\<forall>t'. t_nanos t \<le> t_nanos t' \<longrightarrow>
       lock_free peek r key t' w' = (\<not> before t' (time_add t ttl))))"
proof -
  let ?k = "redis_key r ''locks'' key"
  obtain w' where "rd_setnx rc t ?k (lock_token t) ttl w = (Inr (peek t ?k w = None), w')"
      "if peek t ?k w = None then later_set peek t ?k (lock_token t) ttl w w' else later_same peek t w w'"
    using assms unfolding redis_locks_def by blast
  moreover have "\<not> ttl \<le> 0" using assms(2) by (simp add: ttl_ok_def)
  ultimately show ?thesis
    by (auto simp: try_lock_def Let_def op_defs lock_free_def later_set_def)
qed

lemma unlock_frees:
  assumes "redis_locks rc peek"
  shows "\<exists>w'. unlock rc r None t key token w = (Inr (), w') \<and>
    (\<forall>t'. t_nanos t \<le> t_nanos t' \<longrightarrow> lock_free peek r key t' w')"
  using assms unfolding redis_locks_def by (simp add: unlock_def lock_free_def)

section \<open>A server for the witnesses\<close>

definition plain_peek :: "gotime \<Rightarrow> string \<Rightarrow> (string \<rightharpoonup> string \<times> gotime) \<Rightarrow> string option" where
  "plain_peek t k w = (case w k of None \<Rightarrow> None | Some (p, e) \<Rightarrow> if before t e then Some p else None)"

definition plain_redis :: "(string \<rightharpoonup> string \<times> gotime) redis_client" where
  "plain_redis = \<lparr>
     rd_get = (\<lambda>t k w. (Inr (plain_peek t k w), w)),
     rd_set = (\<lambda>t k p ttl w. (Inr (), w(k \<mapsto> (p, time_add t ttl)))),
     rd_setnx = (\<lambda>t k p ttl w. if plain_peek t k w = None then (Inr True, w(k \<mapsto> (p, time_add t ttl))) else (Inr False, w)),
     rd_del = (\<lambda>t k w. (Inr (), w(k := None))),
     rd_ping = ret (), rd_close = ret ()\<rparr>"

lemma plain_redis_serves: "redis_serves plain_redis plain_peek"
  by (auto simp: redis_serves_def plain_redis_def plain_peek_def later_same_def later_set_def)

lemma plain_redis_locks: "redis_locks plain_redis plain_peek"
  by (auto simp: redis_locks_def plain_redis_def plain_peek_def later_same_def later_set_def)

definition one_value :: "'v \<Rightarrow> string \<Rightarrow> 'v codec" where
  "one_value v p = \<lparr>cd_marshal = (\<lambda>x. if x = v then Inr p else Inl (OtherError ''marshal'')),
     cd_unmarshal = (\<lambda>q. if q = p then Inr v else Inl (OtherError ''unmarshal''))\<rparr>"

lemma one_value_round_trips: "round_trips (one_value v p) v"
  by (simp add: round_trips_def one_value_def)

definition no_codec :: "'v codec" where
  "no_codec = \<lparr>cd_marshal = (\<lambda>_. Inl (OtherError ''marshal'')), cd_unmarshal = (\<lambda>_. Inl (OtherError ''unmarshal''))\<rparr>"

definition served_quote :: quote where
  "served_quote = \<lparr>q_symbol = sample_symbol, q_last_price = 1, q_open = 1, q_high = 1, q_low = 1, q_pre_close = 1,
     q_volume = 1, q_amount = 1, q_bid_levels = [], q_ask_levels = [], q_quote_time = zero_time,
     q_source_time = zero_time, q_cached = False\<rparr>"

definition sample_codecs :: cache_codecs where
  "sample_codecs = \<lparr>cc_quote = one_value served_quote ''{}'', cc_book = no_codec, cc_ticks = no_codec,
     cc_bars = one_value [sample_bar 1] ''[{}]'', cc_xdxr = no_codec, cc_securities = no_codec,
     cc_finance = no_codec, cc_trading_day = no_codec\<rparr>"

text \<open>A quote is put and read in time, bars are read under a cancelled context, and the quote after it expired.\<close>

definition sample_history :: "(go_error option \<times> gotime \<times> cache_call) list" where
  "sample_history =
     [(None, sample_time 0, Put_Quotes [served_quote]), (None, sample_time 1, Get_Quotes [sample_symbol]),
      (None, sample_time 1, Put_Bars ''k'' [sample_bar 1]), (Some CtxCanceled, sample_time 2, Get_Bars ''k''),
      (None, sample_time 2, Get_Bars ''k''), (None, sample_time 500000000, Get_Quotes [sample_symbol])]"

section \<open>Properties\<close>

text \<open>
  C37: the Redis backend is the in-process cache on a server.  Over a server that keeps what it is given for
  as long as it is told, the Redis cache answers every history of cache calls - hits, misses and their order,
  cached marks, expiry, cancelled contexts - exactly as the in-process cache of the same configuration: no key
  of one kind is ever read as another, and every kind has its own lifetime.
\<close>

theorem redis_refines_memory:
  assumes "redis_serves rc peek"
    and "\<forall>t k. peek t k w = None"
    and "\<forall>ttl \<in> set (config_ttls (normalize_config cfg)). ttl_ok ttl"
    and "sorted (map (\<lambda>(c, t, call). t_nanos t) log)"
    and "\<forall>(c, t, call) \<in> set log. storable cs call"
  shows "replies (redis_call rc cs (new_redis cfg)) log w = replies memory_call log (new_memory cfg)"
proof (cases log)
  case (Cons entry rest)
  then have "sorted (t_nanos (fst (snd entry)) # map (\<lambda>(c, t, call). t_nanos t) log)"
    using assms(4) by (cases entry) auto
  then show ?thesis
    using assms by (intro history_agrees [OF assms(1) fresh_mirrors]) auto
qed simp

theorem redis_refines_memory_witness:
  "replies (redis_call plain_redis sample_codecs (new_redis default_config)) sample_history Map.empty =
     replies memory_call sample_history (new_memory default_config)"
proof (rule redis_refines_memory [OF plain_redis_serves])
  show "\<forall>t k. plain_peek t k Map.empty = None" by (simp add: plain_peek_def)
  show "\<forall>ttl \<in> set (config_ttls (normalize_config default_config)). ttl_ok ttl"
    by (simp add: config_ttls_def normalize_config_def default_config_def or_default_def ttl_ok_def second_def)
  show "sorted (map (\<lambda>(c, t, call). t_nanos t) sample_history)"
    by (simp add: sample_history_def sample_time_def)
  show "\<forall>(c, t, call) \<in> set sample_history. storable sample_codecs call"
    by (simp add: sample_history_def sample_codecs_def one_value_round_trips served_quote_def)
qed

text \<open>
  C38: a lock belongs to whoever calls \<open>Unlock\<close> last.  Until its lifetime has passed a lock that was taken
  refuses every other \<open>TryLock\<close>; but \<open>Unlock\<close> ignores the token: the owner of an expired lock that
  unlocks late removes the lock of the owner after it, and a third caller takes it while it is held.
\<close>

theorem late_unlock_steals:
  assumes "redis_locks rc peek" "ttl_ok ttl" "lock_free peek r key t0 w"
    and "t_nanos t0 + ttl \<le> t_nanos t1" "t_nanos t1 \<le> t_nanos t2" "t_nanos t2 \<le> t_nanos t3" "t_nanos t3 < t_nanos t1 + ttl"
  shows "\<exists>w1 w2 w3 w4.
    try_lock rc r None t0 key ttl w = (Inr (lock_token t0, True), w1) \<and>
    (\<forall>t. t_nanos t0 \<le> t_nanos t \<and> t_nanos t < t_nanos t0 + ttl \<longrightarrow>
       fst (try_lock rc r None t key ttl w1) = Inr (lock_token t, False)) \<and>
    try_lock rc r None t1 key ttl w1 = (Inr (lock_token t1, True), w2) \<and>
    fst (try_lock rc r None t3 key ttl w2) = Inr (lock_token t3, False) \<and>
    unlock rc r None t2 key (lock_token t0) w2 = (Inr (), w3) \<and>
    try_lock rc r None t3 key ttl w3 = (Inr (lock_token t3, True), w4)"
proof -
  note take = try_lock_free [OF assms(1,2)]
  have pos: "0 < ttl" using assms(2) by (simp add: ttl_ok_def)
  obtain w1 where w1: "try_lock rc r None t0 key ttl w = (Inr (lock_token t0, True), w1)"
      "\<And>t. t_nanos t0 \<le> t_nanos t \<Longrightarrow> lock_free peek r key t w1 = (\<not> before t (time_add t0 ttl))"
    using take [of r t0 key w] assms(3) by auto
  have f1: "lock_free peek r key t1 w1" using w1(2) [of t1] assms(4) pos by (simp add: before_def time_add_def)
  obtain w2 where w2: "try_lock rc r None t1 key ttl w1 = (Inr (lock_token t1, True), w2)"
      "\<And>t. t_nanos t1 \<le> t_nanos t \<Longrightarrow> lock_free peek r key t w2 = (\<not> before t (time_add t1 ttl))"
    using take [of r t1 key w1] f1 by auto
  obtain w3 where w3: "unlock rc r None t2 key (lock_token t0) w2 = (Inr (), w3)" "lock_free peek r key t3 w3"
    using unlock_frees [OF assms(1), of r t2 key "lock_token t0" w2] assms(6) by blast
  obtain w4 where w4: "try_lock rc r None t3 key ttl w3 = (Inr (lock_token t3, True), w4)"
    using take [of r t3 key w3] w3(2) by auto
  have "fst (try_lock rc r None t key ttl w1) = Inr (lock_token t, False)"
    if "t_nanos t0 \<le> t_nanos t" "t_nanos t < t_nanos t0 + ttl" for t
    using take [of r t key w1] w1(2) that by (auto simp: before_def time_add_def)
  moreover have "fst (try_lock rc r None t3 key ttl w2) = Inr (lock_token t3, False)"
    using take [of r t3 key w2] w2(2) [of t3] assms(5-7) by (auto simp: before_def time_add_def)
  ultimately show ?thesis using w1(1) w2(1) w3(1) w4 by blast
qed

theorem late_unlock_steals_witness:
  "\<exists>w1 w2 w3 w4.
    try_lock plain_redis (new_redis default_config) None (sample_time 0) ''k'' 1000000 Map.empty =
      (Inr (lock_token (sample_time 0), True), w1) \<and>
    try_lock plain_redis (new_redis default_config) None (sample_time 1000000) ''k'' 1000000 w1 =
      (Inr (lock_token (sample_time 1000000), True), w2) \<and>
    fst (try_lock plain_redis (new_redis default_config) None (sample_time 1000002) ''k'' 1000000 w2) =
      Inr (lock_token (sample_time 1000002), False) \<and>
    unlock plain_redis (new_redis default_config) None (sample_time 1000001) ''k'' (lock_token (sample_time 0)) w2 = (Inr (), w3) \<and>
    try_lock plain_redis (new_redis default_config) None (sample_time 1000002) ''k'' 1000000 w3 =
      (Inr (lock_token (sample_time 1000002), True), w4)"
proof -
  have "lock_free plain_peek (new_redis default_config) ''k'' (sample_time 0) Map.empty"
    by (simp add: lock_free_def plain_peek_def)
  from late_unlock_steals [OF plain_redis_locks _ this, of 1000000 "sample_time 1000000" "sample_time 1000001" "sample_time 1000002"]
  show ?thesis by (auto simp: ttl_ok_def sample_time_def)
qed

end
