(* ===== verification/Single_Flight.thy ===== *)
theory Single_Flight
  imports Go_Prelude
begin

text \<open>
  \<^verbatim>\<open>internal/cache/group.go\<close>: concurrent loads of one key merged into one.  \<open>Do\<close> is a
  program with three points where other goroutines may run: before the map of calls is read, while the
  load runs (or while a follower waits for it), and before the finished call is taken off the map.  A call is
  an object; its identity is a number.
\<close>

section \<open>State\<close>

text \<open>Where a goroutine is in \<open>Do\<close>: not in it, running the load of a call it registered, past \<open>wg.Done\<close> with its
  result, waiting for another call, returned with the shared flag, or unwinding after a panic of the load.\<close>

datatype 'v point =
    Outside
  | Loading nat string
  | Loaded nat string "'v result"
  | Joined nat string
  | Returned "'v result" bool
  | Unwound string

text \<open>\<open>g_done\<close> holds \<open>value\<close> and \<open>err\<close> of the calls whose wait group is at zero; \<open>g_key\<close> is the key a
  call was made for.\<close>

record 'v group =
  g_calls :: "string \<rightharpoonup> nat"
  g_done :: "nat \<rightharpoonup> 'v result"
  g_key :: "nat \<rightharpoonup> string"
  g_next :: nat
  g_at :: "nat \<Rightarrow> 'v point"

definition new_group :: "'v group" where
  "new_group = \<lparr>g_calls = Map.empty, g_done = Map.empty, g_key = Map.empty, g_next = 0, g_at = (\<lambda>_. Outside)\<rparr>"

definition set_at :: "nat \<Rightarrow> 'v point \<Rightarrow> 'v group \<Rightarrow> 'v group" where
  "set_at t pt g = g\<lparr>g_at := (g_at g)(t := pt)\<rparr>"

section \<open>Do\<close>

text \<open>
  The entry of \<open>Do\<close> up to the point where it runs the load or waits: a finished context
  returns its error, an empty key loads without the map (\<open>direct\<close> is what that load returns), a
  registered call is joined, otherwise a call is registered.
\<close>

definition do_enter :: "go_error option \<Rightarrow> string \<Rightarrow> 'v result \<Rightarrow> nat \<Rightarrow> 'v group \<Rightarrow> 'v group" where
  "do_enter ctx key direct t g =
     (case ctx of
        Some e \<Rightarrow> set_at t (Returned (Inl e) False) g
      | None \<Rightarrow>
          if key = [] then set_at t (Returned direct False) g
          else (case g_calls g key of
            Some c \<Rightarrow> set_at t (Joined c key) g
          | None \<Rightarrow> set_at t (Loading (g_next g) key)
              (g\<lparr>g_calls := (g_calls g)(key \<mapsto> g_next g), g_key := (g_key g)(g_next g \<mapsto> key),
                 g_next := g_next g + 1\<rparr>)))"

text \<open>\<open>current.value, current.err = fn(ctx); current.wg.Done()\<close>\<close>

definition do_loaded :: "'v result \<Rightarrow> nat \<Rightarrow> 'v group \<Rightarrow> 'v group" where
  "do_loaded r t g =
     (case g_at g t of
        Loading c key \<Rightarrow> set_at t (Loaded c key r) (g\<lparr>g_done := (g_done g)(c \<mapsto> r)\<rparr>)
      | _ \<Rightarrow> g)"

text \<open>A panic of \<open>fn\<close> leaves \<open>Do\<close> at that point: there is no deferred \<open>Done\<close> or \<open>delete\<close>.\<close>

definition do_panics :: "nat \<Rightarrow> 'v group \<Rightarrow> 'v group" where
  "do_panics t g = (case g_at g t of Loading c key \<Rightarrow> set_at t (Unwound key) g | _ \<Rightarrow> g)"

text \<open>\<open>delete(g.calls, key)\<close> and the return of the leader.\<close>

definition do_delete :: "nat \<Rightarrow> 'v group \<Rightarrow> 'v group" where
  "do_delete t g =
     (case g_at g t of
        Loaded c key r \<Rightarrow> set_at t (Returned r False) (g\<lparr>g_calls := (g_calls g)(key := None)\<rparr>)
      | _ \<Rightarrow> g)"

text \<open>\<open>existing.wg.Wait()\<close> over, the follower returns what the call holds.\<close>

definition do_follow :: "nat \<Rightarrow> 'v group \<Rightarrow> 'v group" where
  "do_follow t g =
     (case g_at g t of
        Joined c key \<Rightarrow> (case g_done g c of Some r \<Rightarrow> set_at t (Returned r True) g | None \<Rightarrow> g)
      | _ \<Rightarrow> g)"

section \<open>Machine\<close>

inductive flight_step :: "'v group \<Rightarrow> 'v group \<Rightarrow> bool" where
  flight_enter: "g_at g t = Outside \<Longrightarrow> flight_step g (do_enter ctx key direct t g)"
| flight_loaded: "g_at g t = Loading c key \<Longrightarrow> flight_step g (do_loaded r t g)"
| flight_panics: "g_at g t = Loading c key \<Longrightarrow> flight_step g (do_panics t g)"
| flight_delete: "g_at g t = Loaded c key r \<Longrightarrow> flight_step g (do_delete t g)"
| flight_follow: "g_at g t = Joined c key \<Longrightarrow> g_done g c = Some r \<Longrightarrow> flight_step g (do_follow t g)"
| flight_again: "g_at g t = Returned r shared \<Longrightarrow> flight_step g (set_at t Outside g)"

inductive flight_reach :: "'v group \<Rightarrow> bool" where
  flight_start: "flight_reach new_group"
| flight_more: "flight_reach g \<Longrightarrow> flight_step g g' \<Longrightarrow> flight_reach g'"

inductive flight_run :: "'v group \<Rightarrow> 'v group \<Rightarrow> bool" where
  run_stop: "flight_run g g"
| run_step: "flight_run g g' \<Longrightarrow> flight_step g' g'' \<Longrightarrow> flight_run g g''"

section \<open>Invariant\<close>

text \<open>Goroutine \<open>t\<close> leads the call \<open>c\<close> of \<open>key\<close>.\<close>

definition leads :: "'v group \<Rightarrow> nat \<Rightarrow> nat \<Rightarrow> string \<Rightarrow> bool" where
  "leads g t c key \<longleftrightarrow> g_at g t = Loading c key \<or> (\<exists>r. g_at g t = Loaded c key r)"

text \<open>
  A leader's call is registered under its key; a registered call belongs to its key and, unless its load panicked, has a
  leader; joined calls are of the key asked for, and a result is stored for the loaded calls.
\<close>

definition flight_ok :: "'v group \<Rightarrow> bool" where
  "flight_ok g \<longleftrightarrow>
     (\<forall>t c key. leads g t c key \<longrightarrow> g_calls g key = Some c) \<and>
     (\<forall>key c. g_calls g key = Some c \<longrightarrow> c < g_next g \<and> g_key g c = Some key) \<and>
     (\<forall>t c key. g_at g t = Joined c key \<longrightarrow> g_key g c = Some key) \<and>
     (\<forall>t c key. g_at g t = Loading c key \<longrightarrow> g_done g c = None) \<and>
     (\<forall>t c key r. g_at g t = Loaded c key r \<longrightarrow> g_done g c = Some r) \<and>
     (\<forall>t u c key. leads g t c key \<and> leads g u c key \<longrightarrow> t = u) \<and>
     (\<forall>c r. g_done g c = Some r \<longrightarrow> c < g_next g) \<and> (\<forall>c k. g_key g c = Some k \<longrightarrow> c < g_next g)"

text \<open>Every joined call that is not done has somebody loading it, and every registered call a leader, as long as no load has panicked.\<close>

definition flight_live :: "'v group \<Rightarrow> bool" where
  "flight_live g \<longleftrightarrow>
     (\<forall>key c. g_calls g key = Some c \<longrightarrow> (\<exists>t. leads g t c key)) \<and>
     (\<forall>t c key. g_at g t = Joined c key \<and> g_done g c = None \<longrightarrow> g_calls g key = Some c)"

lemma set_at_simps [simp]:
  "g_calls (set_at t pt g) = g_calls g" "g_done (set_at t pt g) = g_done g" "g_key (set_at t pt g) = g_key g"
  "g_next (set_at t pt g) = g_next g" "g_at (set_at t pt g) = (g_at g)(t := pt)"
  by (simp_all add: set_at_def)

lemmas flight_defs = do_enter_def do_loaded_def do_panics_def do_delete_def do_follow_def

lemma leads_set_at:
  "leads (set_at t pt g) u c key = (if u = t then pt = Loading c key \<or> (\<exists>r. pt = Loaded c key r) else leads g u c key)"
  by (simp add: leads_def)

lemma flight_okI:
  assumes "\<And>t c key. leads g t c key \<Longrightarrow> g_calls g key = Some c"
    and "\<And>c key. g_calls g key = Some c \<Longrightarrow> c < g_next g \<and> g_key g c = Some key"
    and "\<And>t c key. g_at g t = Joined c key \<Longrightarrow> g_key g c = Some key"
    and "\<And>t c key. g_at g t = Loading c key \<Longrightarrow> g_done g c = None"
    and "\<And>t c key r. g_at g t = Loaded c key r \<Longrightarrow> g_done g c = Some r"
    and "\<And>t u c key. leads g t c key \<Longrightarrow> leads g u c key \<Longrightarrow> t = u"
    and "\<And>c r. g_done g c = Some r \<Longrightarrow> c < g_next g" and "\<And>c k. g_key g c = Some k \<Longrightarrow> c < g_next g"
  shows "flight_ok g"
  unfolding flight_ok_def by (intro conjI allI impI; blast dest: assms)

lemma flight_okD1: "flight_ok g \<Longrightarrow> leads g t c key \<Longrightarrow> g_calls g key = Some c"
  unfolding flight_ok_def by metis

lemma flight_okD2: "flight_ok g \<Longrightarrow> g_calls g key = Some c \<Longrightarrow> c < g_next g \<and> g_key g c = Some key"
  unfolding flight_ok_def by metis

lemma flight_okD3: "flight_ok g \<Longrightarrow> g_at g t = Joined c key \<Longrightarrow> g_key g c = Some key"
  unfolding flight_ok_def by metis

lemma flight_okD4: "flight_ok g \<Longrightarrow> g_at g t = Loading c key \<Longrightarrow> g_done g c = None"
  unfolding flight_ok_def by metis

lemma flight_okD5: "flight_ok g \<Longrightarrow> g_at g t = Loaded c key r \<Longrightarrow> g_done g c = Some r"
  unfolding flight_ok_def by metis

lemma flight_okD6: "flight_ok g \<Longrightarrow> leads g t c key \<Longrightarrow> leads g u c key \<Longrightarrow> t = u"
  unfolding flight_ok_def by metis

lemma flight_okD7: "flight_ok g \<Longrightarrow> g_done g c = Some r \<Longrightarrow> c < g_next g"
  unfolding flight_ok_def by metis

lemma flight_okD8: "flight_ok g \<Longrightarrow> g_key g c = Some k \<Longrightarrow> c < g_next g"
  unfolding flight_ok_def by metis

lemmas flight_okD = flight_okD1 flight_okD2 flight_okD3 flight_okD4 flight_okD5 flight_okD6 flight_okD7 flight_okD8

text \<open>The leader of a call is the one goroutine at it.\<close>

lemma leads_unique_call:
  assumes "flight_ok g" and "leads g t c key" and "leads g u c k"
  shows "k = key \<and> u = t"
proof -
  from assms have "g_key g c = Some key" "g_key g c = Some k" by (meson flight_okD1 flight_okD2)+
  then have "k = key" by simp
  then show ?thesis using assms flight_okD6 by blast
qed

lemma leads_unique_key:
  assumes "flight_ok g" and "leads g t c key" and "leads g u d key"
  shows "d = c \<and> u = t"
proof -
  have "d = c" using flight_okD1 [OF assms(1,2)] flight_okD1 [OF assms(1,3)] by simp
  then show ?thesis using assms flight_okD6 by blast
qed

lemma flight_ok_quiet:
  assumes "flight_ok g" and "\<forall>c key. \<not> leads g t c key" and "\<forall>c key. pt = Joined c key \<longrightarrow> g_key g c = Some key"
    and "\<forall>c key. pt \<noteq> Loading c key" and "\<forall>c key r. pt \<noteq> Loaded c key r"
  shows "flight_ok (set_at t pt g)"
  using assms unfolding flight_ok_def leads_set_at by (auto simp: leads_def)

lemma flight_ok_register:
  assumes ok: "flight_ok g" and "g_at g t = Outside" and "g_calls g key = None"
  shows "flight_ok (set_at t (Loading (g_next g) key)
    (g\<lparr>g_calls := (g_calls g)(key \<mapsto> g_next g), g_key := (g_key g)(g_next g \<mapsto> key), g_next := g_next g + 1\<rparr>))"
proof -
  have l: "leads (g\<lparr>g_calls := x, g_key := y, g_next := z\<rparr>) u c k = leads g u c k" for x y z u c k
    by (simp add: leads_def)
  have nt: "\<not> leads g t c k" for c k using assms(2) by (simp add: leads_def)
  have nk: "\<not> leads g u c key" for u c using flight_okD1 [OF ok] assms(3) by force
  have nn: "\<not> leads g u (g_next g) k" for u k using flight_okD1 [OF ok] flight_okD2 [OF ok] by blast
  have nj: "g_key g (g_next g) = None" "g_done g (g_next g) = None"
    using flight_okD7 [OF ok] flight_okD8 [OF ok] by (metis less_irrefl not_None_eq)+
  show ?thesis
    using ok nt nk nn nj unfolding flight_ok_def leads_set_at l
    by (auto simp: leads_def less_Suc_eq)
qed

lemma step_ok:
  assumes "flight_step g g'" and "flight_ok g"
  shows "flight_ok g'"
  using assms
proof (induction rule: flight_step.induct)
  case (flight_enter g t ctx key direct)
  then have nl: "\<forall>c k. \<not> leads g t c k" by (simp add: leads_def)
  note quiet = flight_ok_quiet [OF flight_enter(2) nl]
  show ?case
  proof (cases "ctx = None \<and> key \<noteq> []")
    case False
    then show ?thesis by (cases ctx) (auto simp: do_enter_def intro!: quiet)
  next
    case True
    then show ?thesis
      using flight_ok_register [OF flight_enter(2,1)] flight_okD2 [OF flight_enter(2)]
      by (cases "g_calls g key") (auto simp: do_enter_def intro!: quiet)
  qed
next
  case (flight_loaded g t c key r)
  have l: "leads g t c key" using flight_loaded(1) by (simp add: leads_def)
  have c: "c < g_next g" using flight_okD1 [OF flight_loaded(2) l] flight_okD2 [OF flight_loaded(2)] by blast
  have only: "u = t" if "leads g u c k" for u k
    using leads_unique_call [OF flight_loaded(2) l that] by simp
  have le: "leads (do_loaded r t g) u d k = leads g u d k" for u d k
    using flight_loaded(1) by (auto simp: do_loaded_def leads_def)
  have d: "do_loaded r t g = set_at t (Loaded c key r) (g\<lparr>g_done := (g_done g)(c \<mapsto> r)\<rparr>)"
    using flight_loaded(1) by (simp add: do_loaded_def)
  have a: "g_at g u = Loading e k \<Longrightarrow> u \<noteq> t \<Longrightarrow> e \<noteq> c" "g_at g u = Loaded e k x \<Longrightarrow> u \<noteq> t \<Longrightarrow> e \<noteq> c" for u e k x
    using only by (auto simp: leads_def)
  show ?case
    by (rule flight_okI, unfold le)
      (use flight_loaded(2) c a flight_okD [OF flight_loaded(2)] in \<open>auto simp: d split: if_splits\<close>)
next
  case (flight_panics g t c key)
  have le: "leads (do_panics t g) u d k = (u \<noteq> t \<and> leads g u d k)" for u d k
    using flight_panics(1) by (auto simp: do_panics_def leads_def)
  have d: "do_panics t g = set_at t (Unwound key) g" using flight_panics(1) by (simp add: do_panics_def)
  show ?case
    by (rule flight_okI, unfold le) (use flight_okD [OF flight_panics(2)] in \<open>auto simp: d split: if_splits\<close>)
next
  case (flight_delete g t c key r)
  have l: "leads g t c key" using flight_delete(1) by (auto simp: leads_def)
  have other: "k \<noteq> key" if "leads g u d k" "u \<noteq> t" for u d k
  proof
    assume "k = key"
    then have "d = c" using flight_okD1 [OF flight_delete(2)] that(1) l by (metis option.inject)
    then show False using flight_okD6 [OF flight_delete(2)] that l \<open>k = key\<close> by blast
  qed
  have le: "leads (do_delete t g) u d k = (u \<noteq> t \<and> leads g u d k)" for u d k
    using flight_delete(1) by (auto simp: do_delete_def leads_def)
  have d: "do_delete t g = set_at t (Returned r False) (g\<lparr>g_calls := (g_calls g)(key := None)\<rparr>)"
    using flight_delete(1) by (simp add: do_delete_def)
  show ?case
    by (rule flight_okI, unfold le) (use other flight_okD [OF flight_delete(2)] in \<open>auto simp: d split: if_splits\<close>)
next
  case (flight_follow g t c key r)
  then have "\<forall>c k. \<not> leads g t c k" by (simp add: leads_def)
  from flight_ok_quiet [OF flight_follow(3) this, of "Returned r True"] flight_follow(1,2)
  show ?case by (simp add: do_follow_def)
next
  case (flight_again g t r shared)
  then have "\<forall>c k. \<not> leads g t c k" by (simp add: leads_def)
  from flight_ok_quiet [OF flight_again(2) this, of Outside] show ?case by simp
qed

lemma reach_ok: "flight_reach g \<Longrightarrow> flight_ok g"
proof (induction rule: flight_reach.induct)
  case flight_start
  then show ?case by (simp add: flight_ok_def new_group_def leads_def)
next
  case (flight_more g g')
  then show ?case using step_ok by blast
qed

section \<open>No load has panicked\<close>

definition calm :: "'v group \<Rightarrow> bool" where
  "calm g \<longleftrightarrow> (\<forall>t key. g_at g t \<noteq> Unwound key)"

lemma unwound_stays:
  "flight_step g g' \<Longrightarrow> g_at g t = Unwound key \<Longrightarrow> g_at g' t = Unwound key"
  by (induction rule: flight_step.induct) (auto simp: flight_defs split: option.split)

lemma step_calm: "flight_step g g' \<Longrightarrow> calm g' \<Longrightarrow> calm g"
  using unwound_stays unfolding calm_def by metis

lemma flight_liveI:
  assumes "\<And>key c. g_calls g key = Some c \<Longrightarrow> \<exists>t. leads g t c key"
    and "\<And>t c key. g_at g t = Joined c key \<Longrightarrow> g_done g c = None \<Longrightarrow> g_calls g key = Some c"
  shows "flight_live g"
  using assms unfolding flight_live_def by blast

lemma flight_liveD:
  assumes "flight_live g"
  shows "g_calls g key = Some c \<Longrightarrow> \<exists>t. leads g t c key"
    and "g_at g t = Joined c key \<Longrightarrow> g_done g c = None \<Longrightarrow> g_calls g key = Some c"
  using assms unfolding flight_live_def by blast+

lemma live_quiet:
  assumes "flight_live g" and "\<forall>c key. \<not> leads g t c key"
    and "\<forall>c key. pt = Joined c key \<longrightarrow> g_calls g key = Some c"
  shows "flight_live (set_at t pt g)"
proof (rule flight_liveI)
  fix key c assume "g_calls (set_at t pt g) key = Some c"
  then obtain u where "leads g u c key" using flight_liveD(1) [OF assms(1)] by auto
  then show "\<exists>u. leads (set_at t pt g) u c key" using assms(2) by (metis leads_set_at)
next
  fix u c key assume "g_at (set_at t pt g) u = Joined c key" "g_done (set_at t pt g) c = None"
  then show "g_calls (set_at t pt g) key = Some c"
    using assms(3) flight_liveD(2) [OF assms(1), of u c key] by (auto split: if_splits)
qed

lemma step_live:
  assumes "flight_step g g'" and "flight_ok g" and "flight_live g" and "calm g'"
  shows "flight_live g'"
  using assms
proof (induction rule: flight_step.induct)
  case (flight_enter g t ctx key direct)
  have nl: "\<forall>c k. \<not> leads g t c k" using flight_enter(1) by (simp add: leads_def)
  show ?case
  proof (cases "ctx = None \<and> key \<noteq> [] \<and> g_calls g key = None")
    case False
    then show ?thesis
      by (cases ctx) (auto simp: do_enter_def intro!: live_quiet [OF flight_enter(3) nl] split: option.split)
  next
    case True
    let ?g = "g\<lparr>g_calls := (g_calls g)(key \<mapsto> g_next g), g_key := (g_key g)(g_next g \<mapsto> key), g_next := g_next g + 1\<rparr>"
    have e: "do_enter ctx key direct t g = set_at t (Loading (g_next g) key) ?g" using True by (simp add: do_enter_def)
    have le: "leads (g\<lparr>g_calls := x, g_key := y, g_next := z\<rparr>) u c k = leads g u c k" for x y z u c k
      by (simp add: leads_def)
    show ?thesis unfolding e
    proof (rule flight_liveI)
      fix k c assume k: "g_calls (set_at t (Loading (g_next g) key) ?g) k = Some c"
      show "\<exists>u. leads (set_at t (Loading (g_next g) key) ?g) u c k"
      proof (cases "k = key")
        case True
        then show ?thesis using k by (intro exI [of _ t]) (simp add: leads_set_at)
      next
        case False
        then obtain u where "leads g u c k" using k flight_liveD(1) [OF flight_enter(3)] by auto
        then show ?thesis using nl by (intro exI [of _ u]) (auto simp: leads_set_at le)
      qed
    next
      fix u c k assume a: "g_at (set_at t (Loading (g_next g) key) ?g) u = Joined c k"
        "g_done (set_at t (Loading (g_next g) key) ?g) c = None"
      then have "g_calls g k = Some c" using flight_liveD(2) [OF flight_enter(3), of u c k] by (auto split: if_splits)
      then show "g_calls (set_at t (Loading (g_next g) key) ?g) k = Some c" using True by auto
    qed
  qed
next
  case (flight_loaded g t c key r)
  have le: "leads (do_loaded r t g) u d k = leads g u d k" for u d k
    using flight_loaded(1) by (auto simp: do_loaded_def leads_def)
  show ?case
    by (rule flight_liveI, unfold le)
      (use flight_loaded(1) flight_liveD [OF flight_loaded(3)] in \<open>auto simp: do_loaded_def split: if_splits\<close>)
next
  case (flight_panics g t c key)
  then have "g_at (do_panics t g) t = Unwound key" by (simp add: do_panics_def)
  with flight_panics(4) show ?case by (auto simp: calm_def)
next
  case (flight_delete g t c key r)
  have lt: "leads g t c key" using flight_delete(1) by (auto simp: leads_def)
  have le: "leads (do_delete t g) u d k = (u \<noteq> t \<and> leads g u d k)" for u d k
    using flight_delete(1) by (auto simp: do_delete_def leads_def)
  have d: "do_delete t g = set_at t (Returned r False) (g\<lparr>g_calls := (g_calls g)(key := None)\<rparr>)"
    using flight_delete(1) by (simp add: do_delete_def)
  show ?case
  proof (rule flight_liveI, unfold le)
    fix k e assume "g_calls (do_delete t g) k = Some e"
    then have k: "k \<noteq> key" "g_calls g k = Some e" by (auto simp: d split: if_splits)
    then obtain u where u: "leads g u e k" using flight_liveD(1) [OF flight_delete(3)] by blast
    have "u \<noteq> t" using u flight_delete(1) k(1) by (auto simp: leads_def)
    then show "\<exists>u. u \<noteq> t \<and> leads g u e k" using u by blast
  next
    fix u e k assume a: "g_at (do_delete t g) u = Joined e k" "g_done (do_delete t g) e = None"
    then have "g_calls g k = Some e" using flight_liveD(2) [OF flight_delete(3), of u e k] by (auto simp: d split: if_splits)
    moreover have "k \<noteq> key"
    proof
      assume "k = key"
      then have "e = c" using calculation flight_okD1 [OF flight_delete(2) lt] by simp
      then show False using a(2) flight_okD5 [OF flight_delete(2,1)] by (simp add: d)
    qed
    ultimately show "g_calls (do_delete t g) k = Some e" by (simp add: d)
  qed
next
  case (flight_follow g t c key r)
  then have "\<forall>c k. \<not> leads g t c k" by (simp add: leads_def)
  from live_quiet [OF flight_follow(4) this, of "Returned r True"] flight_follow(1,2)
  show ?case by (simp add: do_follow_def)
next
  case (flight_again g t r shared)
  then have "\<forall>c k. \<not> leads g t c k" by (simp add: leads_def)
  from live_quiet [OF flight_again(3) this, of Outside] show ?case by simp
qed

lemma reach_live: "flight_reach g \<Longrightarrow> calm g \<Longrightarrow> flight_live g"
proof (induction rule: flight_reach.induct)
  case flight_start
  then show ?case by (simp add: flight_live_def new_group_def)
next
  case (flight_more g g')
  then show ?case using step_live step_calm reach_ok by blast
qed

section \<open>A load has panicked\<close>

definition leaked :: "'v group \<Rightarrow> nat \<Rightarrow> string \<Rightarrow> bool" where
  "leaked g c key \<longleftrightarrow> g_calls g key = Some c \<and> g_done g c = None \<and> (\<forall>t. \<not> leads g t c key)"

lemma step_leaked:
  assumes "flight_step g g'" and "flight_ok g" and "leaked g c key"
  shows "leaked g' c key" and "g_at g u = Joined c key \<Longrightarrow> g_at g' u = Joined c key"
proof -
  have l: "g_calls g key = Some c" "g_done g c = None" "\<And>t. \<not> leads g t c key"
    using assms(3) by (auto simp: leaked_def)
  have c: "c \<noteq> g_next g" using flight_okD2 [OF assms(2) l(1)] by simp
  have at: "g_at g t \<noteq> Loading c k" "g_at g t \<noteq> Loaded c k r" for t k r
  proof -
    have "k = key" if "leads g t c k"
      using flight_okD1 [OF assms(2) that] flight_okD2 [OF assms(2)] l(1) by (metis option.inject)
    then show "g_at g t \<noteq> Loading c k" "g_at g t \<noteq> Loaded c k r" using l(3) by (auto simp: leads_def)
  qed
  have at': "g_at g t \<noteq> Loaded d key r" for t d r
  proof
    assume "g_at g t = Loaded d key r"
    then have "leads g t d key" by (auto simp: leads_def)
    with flight_okD1 [OF assms(2)] l(1,3) show False by fastforce
  qed
  from assms(1) show "leaked g' c key"
    by (cases rule: flight_step.cases)
      (use l c at at' in \<open>auto simp: leaked_def leads_def flight_defs split: option.split\<close>)
  from assms(1) show "g_at g u = Joined c key \<Longrightarrow> g_at g' u = Joined c key"
    by (cases rule: flight_step.cases) (use l in \<open>auto simp: flight_defs split: option.split\<close>)
qed

lemma step_result:
  assumes "flight_step g g'" and "flight_ok g" and "g_done g c = Some r"
  shows "g_done g' c = Some r"
  using assms
  by (cases rule: flight_step.cases) (auto simp: flight_defs dest: flight_okD4 split: option.split)

section \<open>Properties\<close>

text \<open>
  C12: one load per key.  In every reachable state at most one goroutine leads a call of a key, so at most one load of
  the key runs through the group; who joined a call joined one of the key it asked for; and a call has one result:
  once it is done, no run changes what its followers read.
\<close>

theorem one_load_per_key:
  assumes "flight_reach g"
  shows "(\<forall>t u c d key. leads g t c key \<and> leads g u d key \<longrightarrow> t = u \<and> c = d) \<and>
    (\<forall>t c key. g_at g t = Joined c key \<longrightarrow> g_key g c = Some key) \<and>
    (\<forall>g' c r. flight_run g g' \<and> g_done g c = Some r \<longrightarrow> g_done g' c = Some r)"
proof (intro conjI allI impI)
  note ok = reach_ok [OF assms]
  fix t u c d key
  assume "leads g t c key \<and> leads g u d key"
  then show "t = u" "c = d" using leads_unique_key [OF ok] by blast+
next
  fix t c key
  assume "g_at g t = Joined c key"
  then show "g_key g c = Some key" by (rule flight_okD3 [OF reach_ok [OF assms]])
next
  fix g' c r
  assume "flight_run g g' \<and> g_done g c = Some r"
  then have "flight_run g g'" "g_done g c = Some r" by auto
  then have "flight_reach g' \<and> g_done g' c = Some r"
    using assms by (induction rule: flight_run.induct) (blast intro: flight_more step_result reach_ok)+
  then show "g_done g' c = Some r" by simp
qed

text \<open>Two goroutines on one key: the first leads, the second joins.\<close>

definition sample_flight :: "nat group" where
  "sample_flight = do_enter None ''k'' (Inr 0) 1 (do_enter None ''k'' (Inr 0) 0 new_group)"

lemma sample_flight_reach: "flight_reach sample_flight"
proof -
  let ?g = "do_enter None ''k'' (Inr 0) 0 new_group"
  have "flight_reach ?g"
    by (rule flight_more [OF flight_start flight_enter]) (simp add: new_group_def)
  moreover have "g_at ?g 1 = Outside" by (simp add: do_enter_def new_group_def)
  ultimately show ?thesis unfolding sample_flight_def by (blast intro: flight_more flight_enter)
qed

lemma sample_flight_at: "g_at sample_flight 0 = Loading 0 ''k''" "g_at sample_flight 1 = Joined 0 ''k''" "calm sample_flight"
  by (simp_all add: sample_flight_def do_enter_def new_group_def calm_def)

theorem one_load_per_key_witness:
  "\<exists>c. g_at sample_flight 1 = Joined c ''k'' \<and> leads sample_flight 0 c ''k'' \<and> g_key sample_flight c = Some ''k''"
proof -
  have "g_key sample_flight 0 = Some ''k''"
    using one_load_per_key [OF sample_flight_reach, THEN conjunct2, THEN conjunct1] sample_flight_at(2) by blast
  then show ?thesis using sample_flight_at by (intro exI [of _ 0]) (simp add: leads_def)
qed

text \<open>
  no follower is stranded.  In every reachable state in which no load has panicked, a goroutine that
  joined a call finds it done or still being loaded by some goroutine, so it can return as soon as that load does.
\<close>

theorem followers_progress:
  assumes "flight_reach g" and "calm g" and "g_at g t = Joined c key"
  shows "(\<exists>r. g_done g c = Some r \<and> flight_step g (do_follow t g) \<and> g_at (do_follow t g) t = Returned r True) \<or>
    (\<exists>u. g_at g u = Loading c key)"
proof (cases "g_done g c")
  case None
  then have "g_calls g key = Some c" using flight_liveD(2) [OF reach_live [OF assms(1,2)] assms(3)] by simp
  then obtain u where "leads g u c key" using flight_liveD(1) [OF reach_live [OF assms(1,2)]] by blast
  then show ?thesis using None flight_okD5 [OF reach_ok [OF assms(1)], of u c key] by (auto simp: leads_def)
next
  case (Some r)
  have "g_at (do_follow t g) t = Returned r True" using assms(3) Some by (simp add: do_follow_def)
  then show ?thesis using flight_step.flight_follow [OF assms(3) Some] Some by blast
qed

theorem followers_progress_witness:
  "\<exists>u. g_at sample_flight u = Loading 0 ''k''"
proof -
  have "g_done sample_flight 0 = None" by (simp add: sample_flight_def do_enter_def new_group_def)
  then show ?thesis using followers_progress [OF sample_flight_reach sample_flight_at(3,2)] by auto
qed

text \<open>
  C13: a panic of the load poisons its key.  Once the load of a call has panicked, in every state that follows the call stays
  registered and is never done: the goroutines that joined it wait for ever, and every later \<open>Do\<close>
  of the key with a live context joins it.
\<close>

theorem panic_poisons_key:
  assumes "flight_reach g" and "g_at g t = Loading c key" and "key \<noteq> []" and "flight_run (do_panics t g) g'"
  shows "g_calls g' key = Some c \<and> g_done g' c = None \<and>
    (\<forall>u. g_at g u = Joined c key \<longrightarrow> g_at g' u = Joined c key) \<and>
    (\<forall>u direct. g_at (do_enter None key direct u g') u = Joined c key)"
proof -
  note ok = reach_ok [OF assms(1)]
  have l: "leads g t c key" using assms(2) by (simp add: leads_def)
  have "leads (do_panics t g) u c k = (u \<noteq> t \<and> leads g u c k)" for u k
    using assms(2) by (auto simp: do_panics_def leads_def)
  then have leaked: "leaked (do_panics t g) c key"
    using flight_okD1 [OF ok l] flight_okD4 [OF ok assms(2)] leads_unique_call [OF ok l] assms(2)
    by (auto simp: leaked_def do_panics_def)
  have reach: "flight_reach (do_panics t g)" using assms(1) flight_panics [OF assms(2)] by (rule flight_more)
  have "flight_reach g' \<and> leaked g' c key \<and> (\<forall>u. g_at (do_panics t g) u = Joined c key \<longrightarrow> g_at g' u = Joined c key)"
    using assms(4) leaked reach
  proof (induction rule: flight_run.induct)
    case (run_step h h' h'')
    then have h: "flight_reach h'" "leaked h' c key" "\<forall>u. g_at h u = Joined c key \<longrightarrow> g_at h' u = Joined c key" by auto
    show ?case using h step_leaked [OF run_step(2) reach_ok [OF h(1)] h(2)] flight_more [OF h(1) run_step(2)] by blast
  qed simp
  moreover have "g_at (do_panics t g) u = Joined c key" if "g_at g u = Joined c key" for u
    using assms(2) that by (auto simp: do_panics_def)
  ultimately show ?thesis using assms(3) by (auto simp: leaked_def do_enter_def)
qed

theorem panic_poisons_key_witness:
  "g_at (do_panics 0 sample_flight) 1 = Joined 0 ''k'' \<and> g_done (do_panics 0 sample_flight) 0 = None \<and>
   g_at (do_enter None ''k'' (Inr 0) 2 (do_panics 0 sample_flight)) 2 = Joined 0 ''k''"
  using panic_poisons_key [OF sample_flight_reach sample_flight_at(1) _ run_stop] sample_flight_at(2) by simp

end
