(* ===== verification/Source_Pool.thy ===== *)
theory Source_Pool
  imports Domain
begin

text \<open>
  \<^verbatim>\<open>internal/source/pool.go\<close>: a pool of upstream clients on several hosts, leased one at a time, with a
  circuit breaker per host.  Pointers to hosts and clients are positions in the lists that own
  them.  A method runs under the pool's mutex, so it is one step; \<open>Acquire\<close> and \<open>Close\<close> give the mutex up
  when they wait, so one turn of their loop is a step.  \<open>Pool_Machine\<close> interleaves the steps.
\<close>

section \<open>State\<close>

datatype circuit_state = CircuitClosed | CircuitOpen | CircuitHalfOpen

record 'c pooled_client =
  pc_value :: 'c
  pc_index :: nat
  pc_in_use :: bool
  pc_generation :: u64

record host_config =
  hcf_address :: string
  hcf_clients :: int

record 'c host_pool =
  hp_config :: host_config
  hp_clients :: "'c pooled_client list"
  hp_next_client :: nat
  hp_in_flight :: int
  hp_circuit :: circuit_state
  hp_probe :: bool
  hp_success_count :: u64
  hp_failure_count :: u64
  hp_failures :: int
  hp_successes :: int
  hp_last_error :: string
  hp_last_failure :: gotime
  hp_last_success :: gotime
  hp_opened_at :: gotime
  hp_open_until :: gotime

text \<open>
  \<open>hp_probe\<close> is \<open>halfOpenInFlight\<close>, \<open>hp_failures\<close> and \<open>hp_successes\<close> are the consecutive ones.  \<open>p_id\<close>
  is the identity of the pool, which a lease remembers as a pointer; the close error, a
  tree of \<open>errors.Join\<close>, is the list of the errors it joins.
\<close>

record 'c pool =
  p_id :: nat
  p_name :: string
  p_failure_threshold :: int
  p_success_threshold :: int
  p_open_timeout :: int
  p_hosts :: "'c host_pool list"
  p_host_index :: "string \<rightharpoonup> nat"
  p_next_host :: nat
  p_closing :: bool
  p_close_running :: bool
  p_closed :: bool
  p_close_errs :: "go_error list"

record 'c lease =
  le_client :: 'c
  le_host :: string
  le_pool :: "nat option"
  le_ref :: "(nat \<times> nat) option"
  le_generation :: u64

record pool_config =
  pcf_id :: nat
  pcf_name :: string
  pcf_hosts :: "host_config list"
  pcf_clients_per_host :: int
  pcf_min_ready :: int
  pcf_failure_threshold :: int
  pcf_success_threshold :: int
  pcf_open_timeout :: int

section \<open>Circuit breaker\<close>

definition refresh_circuit :: "gotime \<Rightarrow> 'c host_pool \<Rightarrow> 'c host_pool" where
  "refresh_circuit now h =
     (if hp_circuit h \<noteq> CircuitOpen \<or> is_zero (hp_open_until h) \<or> before now (hp_open_until h) then h
      else h\<lparr>hp_circuit := CircuitHalfOpen, hp_probe := False, hp_successes := 0\<rparr>)"

definition open_circuit :: "gotime \<Rightarrow> int \<Rightarrow> 'c host_pool \<Rightarrow> 'c host_pool" where
  "open_circuit now timeout h = h\<lparr>hp_circuit := CircuitOpen, hp_probe := False, hp_successes := 0,
     hp_opened_at := now, hp_open_until := time_add now timeout\<rparr>"

definition close_circuit :: "'c host_pool \<Rightarrow> 'c host_pool" where
  "close_circuit h = h\<lparr>hp_circuit := CircuitClosed, hp_probe := False, hp_failures := 0, hp_successes := 0,
     hp_opened_at := zero_time, hp_open_until := zero_time\<rparr>"

definition can_acquire :: "'c host_pool \<Rightarrow> bool" where
  "can_acquire h \<longleftrightarrow> hp_clients h \<noteq> [] \<and>
     (case hp_circuit h of
        CircuitClosed \<Rightarrow> True
      | CircuitHalfOpen \<Rightarrow> \<not> hp_probe h \<and> hp_in_flight h = 0
      | CircuitOpen \<Rightarrow> False)"

definition idle_clients :: "'c host_pool \<Rightarrow> nat" where
  "idle_clients h = length (filter (\<lambda>c. \<not> pc_in_use c) (hp_clients h))"

text \<open>The positions \<open>(from + i) % n\<close> for \<open>i = 0, 1, ..., n - 1\<close>.\<close>

definition rotation :: "nat \<Rightarrow> nat \<Rightarrow> nat list" where
  "rotation from n = map (\<lambda>i. (from + i) mod n) [0..<n]"

definition next_idle :: "'c host_pool \<Rightarrow> (nat \<times> 'c host_pool) option" where
  "next_idle h =
     (case List.find (\<lambda>i. \<not> pc_in_use (hp_clients h ! i)) (rotation (hp_next_client h) (length (hp_clients h))) of
        None \<Rightarrow> None
      | Some i \<Rightarrow> Some (i, h\<lparr>hp_next_client := (i + 1) mod length (hp_clients h)\<rparr>))"

definition set_host :: "nat \<Rightarrow> 'c host_pool \<Rightarrow> 'c pool \<Rightarrow> 'c pool" where
  "set_host i h p = p\<lparr>p_hosts := (p_hosts p)[i := h]\<rparr>"

fun next_available_loop :: "gotime \<Rightarrow> nat list \<Rightarrow> 'c pool \<Rightarrow> (nat \<times> nat) option \<times> 'c pool" where
  "next_available_loop now [] p = (None, p)"
| "next_available_loop now (i # is) p =
     (let h = refresh_circuit now (p_hosts p ! i); p' = set_host i h p in
      if \<not> can_acquire h then next_available_loop now is p'
      else case next_idle h of
             None \<Rightarrow> next_available_loop now is p'
           | Some (c, h') \<Rightarrow> (Some (i, c), (set_host i h' p')\<lparr>p_next_host := (i + 1) mod length (p_hosts p)\<rparr>))"

definition next_available :: "gotime \<Rightarrow> 'c pool \<Rightarrow> (nat \<times> nat) option \<times> 'c pool" where
  "next_available now p = next_available_loop now (rotation (p_next_host p) (length (p_hosts p))) p"

fun next_wake_loop :: "gotime \<Rightarrow> 'c host_pool list \<Rightarrow> gotime \<Rightarrow> gotime" where
  "next_wake_loop now [] wake = wake"
| "next_wake_loop now (h # hs) wake =
     (if hp_circuit h \<noteq> CircuitOpen \<or> is_zero (hp_open_until h) \<or> idle_clients h = 0 then next_wake_loop now hs wake
      else if \<not> after (hp_open_until h) now then now
      else next_wake_loop now hs
        (if is_zero wake \<or> before (hp_open_until h) wake then hp_open_until h else wake))"

definition next_wake :: "gotime \<Rightarrow> 'c pool \<Rightarrow> gotime" where
  "next_wake now p = next_wake_loop now (p_hosts p) zero_time"

section \<open>Acquire and Release\<close>

definition take_client :: "nat \<Rightarrow> 'c host_pool \<Rightarrow> 'c host_pool" where
  "take_client c h =
     (let pc = hp_clients h ! c in
      h\<lparr>hp_clients := (hp_clients h)[c := pc\<lparr>pc_in_use := True, pc_generation := pc_generation pc + 1\<rparr>],
        hp_in_flight := hp_in_flight h + 1,
        hp_probe := (if hp_circuit h = CircuitHalfOpen then True else hp_probe h)\<rparr>)"

definition lease_of :: "'c pool \<Rightarrow> nat \<Rightarrow> nat \<Rightarrow> 'c lease" where
  "lease_of p i c =
     (let h = p_hosts p ! i; pc = hp_clients h ! c in
      \<lparr>le_client = pc_value pc, le_host = hcf_address (hp_config h), le_pool = Some (p_id p),
       le_ref = Some (i, c), le_generation = pc_generation pc\<rparr>)"

text \<open>One turn of the loop of \<open>Acquire\<close>: an error, a lease, or the time to wait for (zero: until a
  broadcast).\<close>

datatype 'c acquired = Leased "'c lease" | Waits gotime

definition acquire_turn :: "go_error option \<Rightarrow> gotime \<Rightarrow> ('c pool, 'c acquired) op" where
  "acquire_turn ctx now p =
     (if p_closed p \<or> p_closing p then (Inl ErrPoolClosed, p)
      else case ctx of
        Some e \<Rightarrow> (Inl e, p)
      | None \<Rightarrow>
          (case next_available now p of
             (Some (i, c), p') \<Rightarrow>
               let p'' = set_host i (take_client c (p_hosts p' ! i)) p' in (Inr (Leased (lease_of p'' i c)), p'')
           | (None, p') \<Rightarrow> (Inr (Waits (next_wake now p')), p')))"

definition put_client :: "nat \<Rightarrow> 'c host_pool \<Rightarrow> 'c host_pool" where
  "put_client c h =
     h\<lparr>hp_clients := (hp_clients h)[c := (hp_clients h ! c)\<lparr>pc_in_use := False\<rparr>],
       hp_in_flight := (if hp_in_flight h - 1 < 0 then 0 else hp_in_flight h - 1),
       hp_probe := (if hp_circuit h = CircuitHalfOpen then False else hp_probe h)\<rparr>"

definition release :: "'c lease option \<Rightarrow> ('c pool, unit) op" where
  "release lease p =
     (case lease of
        None \<Rightarrow> (Inl ErrInvalidLease, p)
      | Some l \<Rightarrow>
          if le_pool l \<noteq> Some (p_id p) then (Inl ErrInvalidLease, p)
          else (case le_ref l of
            None \<Rightarrow> (Inl ErrInvalidLease, p)
          | Some (i, c) \<Rightarrow>
              let pc = hp_clients (p_hosts p ! i) ! c in
              if \<not> pc_in_use pc \<or> pc_generation pc \<noteq> le_generation l then (Inl ErrLeaseReleased, p)
              else (Inr (), set_host i (put_client c (p_hosts p ! i)) p)))"

section \<open>Health\<close>

text \<open>\<open>time.Now()\<close> is read twice in \<open>ReportSuccess\<close>.\<close>

definition host_success :: "int \<Rightarrow> gotime \<Rightarrow> gotime \<Rightarrow> 'c host_pool \<Rightarrow> 'c host_pool" where
  "host_success threshold now later h0 =
     (let h = (refresh_circuit now h0)\<lparr>hp_failures := 0, hp_last_error := [], hp_last_success := later\<rparr>;
          h = h\<lparr>hp_success_count := hp_success_count h + 1\<rparr>
      in if hp_circuit h = CircuitHalfOpen then
           let h' = h\<lparr>hp_probe := False, hp_successes := hp_successes h + 1\<rparr>
           in if threshold \<le> hp_successes h' then close_circuit h' else h'
         else if hp_circuit h = CircuitClosed then h\<lparr>hp_successes := 0\<rparr> else h)"

definition report_success :: "gotime \<Rightarrow> gotime \<Rightarrow> string \<Rightarrow> ('c pool, unit) op" where
  "report_success now later address p =
     (case p_host_index p address of
        None \<Rightarrow> (Inl (Wrapped ErrUnknownHost address), p)
      | Some i \<Rightarrow> (Inr (), set_host i (host_success (p_success_threshold p) now later (p_hosts p ! i)) p))"

definition host_failure :: "int \<Rightarrow> int \<Rightarrow> gotime \<Rightarrow> go_error option \<Rightarrow> 'c host_pool \<Rightarrow> 'c host_pool" where
  "host_failure threshold timeout now err h0 =
     (let h = refresh_circuit now h0;
          h = h\<lparr>hp_failure_count := hp_failure_count h + 1, hp_failures := hp_failures h + 1,
                hp_successes := 0, hp_probe := False, hp_last_failure := now,
                hp_last_error := (case err of None \<Rightarrow> [] | Some e \<Rightarrow> err_text e)\<rparr>
      in if hp_circuit h = CircuitClosed \<and> hp_failures h < threshold then h else open_circuit now timeout h)"

definition report_failure :: "gotime \<Rightarrow> string \<Rightarrow> go_error option \<Rightarrow> ('c pool, unit) op" where
  "report_failure now address err p =
     (case p_host_index p address of
        None \<Rightarrow> (Inl (Wrapped ErrUnknownHost address), p)
      | Some i \<Rightarrow> (Inr (), set_host i
          (host_failure (p_failure_threshold p) (p_open_timeout p) now err (p_hosts p ! i)) p))"

text \<open>The methods of a lease, which may be \<open>nil\<close> or without a pool, on the pool it belongs to.\<close>

definition lease_report_success :: "gotime \<Rightarrow> gotime \<Rightarrow> 'c lease option \<Rightarrow> ('c pool, unit) op" where
  "lease_report_success now later lease p =
     (case lease of
        None \<Rightarrow> (Inl ErrInvalidLease, p)
      | Some l \<Rightarrow> if le_pool l = None then (Inl ErrInvalidLease, p) else report_success now later (le_host l) p)"

definition lease_report_failure :: "gotime \<Rightarrow> 'c lease option \<Rightarrow> go_error option \<Rightarrow> ('c pool, unit) op" where
  "lease_report_failure now lease err p =
     (case lease of
        None \<Rightarrow> (Inl ErrInvalidLease, p)
      | Some l \<Rightarrow> if le_pool l = None then (Inl ErrInvalidLease, p) else report_failure now (le_host l) err p)"

record host_state =
  hs_address :: string
  hs_circuit :: circuit_state
  hs_healthy :: bool
  hs_total :: nat
  hs_idle :: nat
  hs_in_flight :: int
  hs_success_count :: u64
  hs_failure_count :: u64
  hs_failures :: int
  hs_successes :: int
  hs_last_error :: string
  hs_last_failure :: gotime
  hs_last_success :: gotime
  hs_opened_at :: gotime
  hs_open_until :: gotime

record health_snapshot =
  hsn_name :: string
  hsn_closing :: bool
  hsn_closed :: bool
  hsn_total :: nat
  hsn_idle :: nat
  hsn_in_flight :: int
  hsn_hosts :: "host_state list"

definition host_state_of :: "'c host_pool \<Rightarrow> host_state" where
  "host_state_of h = \<lparr>hs_address = hcf_address (hp_config h), hs_circuit = hp_circuit h, hs_healthy = can_acquire h,
     hs_total = length (hp_clients h), hs_idle = idle_clients h, hs_in_flight = hp_in_flight h,
     hs_success_count = hp_success_count h, hs_failure_count = hp_failure_count h,
     hs_failures = hp_failures h, hs_successes = hp_successes h, hs_last_error = hp_last_error h,
     hs_last_failure = hp_last_failure h, hs_last_success = hp_last_success h,
     hs_opened_at = hp_opened_at h, hs_open_until = hp_open_until h\<rparr>"

definition health_snapshot_of :: "gotime \<Rightarrow> 'c pool \<Rightarrow> health_snapshot \<times> 'c pool" where
  "health_snapshot_of now p =
     (let hosts = map (refresh_circuit now) (p_hosts p); states = map host_state_of hosts in
      (\<lparr>hsn_name = p_name p, hsn_closing = p_closing p, hsn_closed = p_closed p,
        hsn_total = sum_list (map hs_total states), hsn_idle = sum_list (map hs_idle states),
        hsn_in_flight = sum_list (map hs_in_flight states), hsn_hosts = states\<rparr>,
       p\<lparr>p_hosts := hosts\<rparr>))"

section \<open>Close\<close>

definition total_in_flight :: "'c pool \<Rightarrow> int" where
  "total_in_flight p = sum_list (map hp_in_flight (p_hosts p))"

definition total_clients :: "'c pool \<Rightarrow> nat" where
  "total_clients p = sum_list (map (\<lambda>h. length (hp_clients h)) (p_hosts p))"

definition all_clients :: "'c pool \<Rightarrow> 'c list" where
  "all_clients p = concat (map (\<lambda>h. map pc_value (hp_clients h)) (p_hosts p))"

text \<open>The call of \<open>Close\<close>: the stored result, the wait for a running close, or the start of \<open>finishClose\<close>.\<close>

datatype close_call = CloseReturns "go_error list" | CloseJoins | CloseStarts

definition close_begin :: "'c pool \<Rightarrow> close_call \<times> 'c pool" where
  "close_begin p =
     (if p_closed p then (CloseReturns (p_close_errs p), p)
      else if p_close_running p then (CloseJoins, p)
      else (CloseStarts, p\<lparr>p_closing := True, p_close_running := True\<rparr>))"

text \<open>One turn of the wait for a close another call runs; \<open>None\<close> waits on.\<close>

definition close_join_turn :: "go_error option \<Rightarrow> 'c pool \<Rightarrow> go_error list option" where
  "close_join_turn ctx p =
     (if p_closed p then Some (p_close_errs p)
      else case ctx of Some e \<Rightarrow> Some [e] | None \<Rightarrow> None)"

definition schedule_background_close :: "'c pool \<Rightarrow> 'c pool" where
  "schedule_background_close p = (if p_closed p then p else p\<lparr>p_closing := True, p_close_running := True\<rparr>)"

text \<open>
  One turn of \<open>finishClose\<close> up to the point where it has the list of clients to close.  When its
  context ends it returns that error and a new goroutine goes on with the background context.
\<close>

datatype 'c finish_turn = FinishWaits | FinishHandsOver go_error | FinishCloses "'c list"

definition finish_close_turn :: "go_error option \<Rightarrow> 'c pool \<Rightarrow> 'c finish_turn \<times> 'c pool" where
  "finish_close_turn ctx p =
     (case ctx of
        Some e \<Rightarrow> (FinishHandsOver e, schedule_background_close p)
      | None \<Rightarrow> if 0 < total_in_flight p then (FinishWaits, p) else (FinishCloses (all_clients p), p))"

definition finish_close_done :: "go_error list \<Rightarrow> 'c pool \<Rightarrow> 'c pool" where
  "finish_close_done errs p =
     p\<lparr>p_close_errs := errs, p_closed := True, p_closing := False, p_close_running := False\<rparr>"

section \<open>NewPool\<close>

text \<open>
  \<open>NewPool\<close> over the code it is given: the factory and the closing of a client act on an outer state
  \<open>'w\<close>, and \<open>ctx_err\<close> is what the context reports in it.  The text of an error made by
  \<open>fmt.Errorf\<close> is kept without its formatted arguments.
\<close>

definition close_initialized :: "('c \<Rightarrow> 'w \<Rightarrow> 'w) \<Rightarrow> 'c pool \<Rightarrow> 'w \<Rightarrow> 'w" where
  "close_initialized close_one p w = foldl (\<lambda>w c. close_one c w) w (all_clients p)"

definition add_client :: "nat \<Rightarrow> nat \<Rightarrow> 'c \<Rightarrow> 'c pool \<Rightarrow> 'c pool" where
  "add_client i k c p =
     (let h = p_hosts p ! i in
      set_host i (h\<lparr>hp_clients := hp_clients h @
        [\<lparr>pc_value = c, pc_index = k, pc_in_use = False, pc_generation = 0\<rparr>]\<rparr>) p)"

definition new_host :: "host_config \<Rightarrow> 'c host_pool" where
  "new_host cfg = \<lparr>hp_config = cfg, hp_clients = [], hp_next_client = 0, hp_in_flight = 0,
     hp_circuit = CircuitClosed, hp_probe = False, hp_success_count = 0, hp_failure_count = 0,
     hp_failures = 0, hp_successes = 0, hp_last_error = [], hp_last_failure = zero_time,
     hp_last_success = zero_time, hp_opened_at = zero_time, hp_open_until = zero_time\<rparr>"

fun create_clients :: "(host_config \<Rightarrow> nat \<Rightarrow> ('w, 'c) op) \<Rightarrow> ('c \<Rightarrow> 'w \<Rightarrow> 'w) \<Rightarrow> ('w \<Rightarrow> go_error option) \<Rightarrow>
    int \<Rightarrow> nat \<Rightarrow> nat list \<Rightarrow> 'c pool \<Rightarrow> ('w, 'c pool) op" where
  "create_clients factory close_one ctx_err min_ready i [] p w = (Inr p, w)"
| "create_clients factory close_one ctx_err min_ready i (k # ks) p w =
     (case ctx_err w of
        Some e \<Rightarrow> (Inl e, close_initialized close_one p w)
      | None \<Rightarrow>
        (case factory (hp_config (p_hosts p ! i)) k w of
           (Inl e, w') \<Rightarrow>
             (case ctx_err w' of
                Some e' \<Rightarrow> (Inl e', close_initialized close_one p w')
              | None \<Rightarrow>
                  if 0 < min_ready then create_clients factory close_one ctx_err min_ready i ks p w'
                  else (Inl (Prefixed ''create source client'' e), close_initialized close_one p w'))
         | (Inr c, w') \<Rightarrow>
             (case ctx_err w' of
                Some e' \<Rightarrow> (Inl e', close_one c (close_initialized close_one p w'))
              | None \<Rightarrow> create_clients factory close_one ctx_err min_ready i ks (add_client i k c p) w')))"

fun create_hosts :: "(host_config \<Rightarrow> nat \<Rightarrow> ('w, 'c) op) \<Rightarrow> ('c \<Rightarrow> 'w \<Rightarrow> 'w) \<Rightarrow> ('w \<Rightarrow> go_error option) \<Rightarrow>
    int \<Rightarrow> int \<Rightarrow> host_config list \<Rightarrow> 'c pool \<Rightarrow> ('w, 'c pool) op" where
  "create_hosts factory close_one ctx_err min_ready per_host [] p w = (Inr p, w)"
| "create_hosts factory close_one ctx_err min_ready per_host (cfg # cfgs) p w =
     (let n = (if hcf_clients cfg = 0 then per_host else hcf_clients cfg); i = length (p_hosts p) in
      case ctx_err w of
        Some e \<Rightarrow> (Inl e, close_initialized close_one p w)
      | None \<Rightarrow>
        if hcf_address cfg = [] then
          (Inl (OtherError ''source pool host address is required''), close_initialized close_one p w)
        else if hcf_address cfg \<in> dom (p_host_index p) then
          (Inl (OtherError ''source pool duplicate host address''), close_initialized close_one p w)
        else if n < 0 then
          (Inl (OtherError ''source pool host clients must be positive''), close_initialized close_one p w)
        else
          (case create_clients factory close_one ctx_err min_ready i [0..<nat n]
             (p\<lparr>p_hosts := p_hosts p @ [new_host \<lparr>hcf_address = hcf_address cfg, hcf_clients = n\<rparr>],
                p_host_index := (p_host_index p)(hcf_address cfg \<mapsto> i)\<rparr>) w of
             (Inl e, w') \<Rightarrow> (Inl e, w')
           | (Inr p', w') \<Rightarrow> create_hosts factory close_one ctx_err min_ready per_host cfgs p' w'))"

definition default_int :: "int \<Rightarrow> int \<Rightarrow> int" where
  "default_int d x = (if x = 0 then d else x)"

definition empty_pool :: "pool_config \<Rightarrow> 'c pool" where
  "empty_pool cfg = \<lparr>p_id = pcf_id cfg, p_name = pcf_name cfg,
     p_failure_threshold = default_int 3 (pcf_failure_threshold cfg),
     p_success_threshold = default_int 1 (pcf_success_threshold cfg),
     p_open_timeout = default_int (30 * second) (pcf_open_timeout cfg),
     p_hosts = [], p_host_index = Map.empty, p_next_host = 0, p_closing = False, p_close_running = False,
     p_closed = False, p_close_errs = []\<rparr>"

definition new_pool :: "(host_config \<Rightarrow> nat \<Rightarrow> ('w, 'c) op) option \<Rightarrow> ('c \<Rightarrow> 'w \<Rightarrow> 'w) \<Rightarrow> ('w \<Rightarrow> go_error option) \<Rightarrow>
    pool_config \<Rightarrow> ('w, 'c pool) op" where
  "new_pool factory_opt close_one ctx_err cfg w =
     (case factory_opt of
        None \<Rightarrow> (Inl (OtherError ''source pool factory is required''), w)
      | Some factory \<Rightarrow>
        if pcf_min_ready cfg < 0 then (Inl (OtherError ''source pool min ready clients must be non-negative''), w)
        else if pcf_hosts cfg = [] then (Inl (OtherError ''source pool requires at least one host''), w)
        else if default_int 1 (pcf_clients_per_host cfg) < 0 then
          (Inl (OtherError ''source pool clients per host must be positive''), w)
        else if default_int 3 (pcf_failure_threshold cfg) < 0 then
          (Inl (OtherError ''source pool failure threshold must be positive''), w)
        else if default_int 1 (pcf_success_threshold cfg) < 0 then
          (Inl (OtherError ''source pool half-open success threshold must be positive''), w)
        else if default_int (30 * second) (pcf_open_timeout cfg) < 0 then
          (Inl (OtherError ''source pool open timeout must be positive''), w)
        else
          (case create_hosts factory close_one ctx_err (pcf_min_ready cfg)
             (default_int 1 (pcf_clients_per_host cfg)) (pcf_hosts cfg) (empty_pool cfg) w of
             (Inl e, w') \<Rightarrow> (Inl e, w')
           | (Inr p, w') \<Rightarrow>
               (case ctx_err w' of
                  Some e \<Rightarrow> (Inl e, close_initialized close_one p w')
                | None \<Rightarrow>
                    if 0 < pcf_min_ready cfg \<and> int (total_clients p) < pcf_min_ready cfg then
                      (Inl (OtherError ''source pool ready clients below minimum''), close_initialized close_one p w')
                    else (Inr p, w'))))"

section \<open>Facts on positions\<close>

lemma rotation_inj:
  fixes i j n "from" :: nat
  assumes "(from + i) mod n = (from + j) mod n" and "i < n" and "j < n"
  shows "i = j"
proof -
  have le: "i = j" if "(from + i) mod n = (from + j) mod n" "i < n" "j \<le> i" for i j
  proof -
    have "n dvd i - j" using mod_eq_dvd_iff_nat [of "from + j" "from + i" n] that by simp
    then show ?thesis using that by (metis diff_is_0_eq dvd_imp_le le_antisym less_imp_diff_less not_le zero_less_iff_neq_zero)
  qed
  show ?thesis using le [of i j] le [of j i] assms by (metis nat_le_linear)
qed

lemma rotation_distinct: "distinct (rotation from n)"
  by (auto simp: rotation_def distinct_map intro!: inj_onI dest: rotation_inj)

lemma rotation_set: "set (rotation from n) = {..<n}"
proof (rule card_subset_eq)
  show "set (rotation from n) \<subseteq> {..<n}" by (auto simp: rotation_def intro: mod_less_divisor)
  show "card (set (rotation from n)) = card {..<n}"
    using rotation_distinct [of "from" n] by (simp add: distinct_card) (simp add: rotation_def)
qed simp

lemma filter_update:
  "i < length xs \<Longrightarrow> int (length (filter P (xs[i := y]))) =
     int (length (filter P xs)) - (if P (xs ! i) then 1 else 0) + (if P y then 1 else 0)"
proof (induction xs arbitrary: i)
  case (Cons x xs)
  show ?case
  proof (cases i)
    case (Suc j)
    then show ?thesis using Cons.prems Cons.IH [of j] by auto
  qed auto
qed simp

lemma find_props: "List.find P xs = Some x \<Longrightarrow> x \<in> set xs \<and> P x"
  by (induction xs) (auto split: if_splits)

section \<open>The host invariant\<close>

text \<open>
  The counter of clients in flight counts the clients in use, and a probe is under way only in
  the half-open state and then it is the only client in flight.
\<close>

definition in_use_count :: "'c host_pool \<Rightarrow> nat" where
  "in_use_count h = length (filter pc_in_use (hp_clients h))"

definition host_ok :: "'c host_pool \<Rightarrow> bool" where
  "host_ok h \<longleftrightarrow> hp_in_flight h = int (in_use_count h) \<and>
     (hp_probe h \<longrightarrow> hp_circuit h = CircuitHalfOpen \<and> hp_in_flight h = 1)"

lemma host_ok_new: "host_ok (new_host cfg)"
  by (simp add: host_ok_def new_host_def in_use_count_def)

lemma host_ok_refresh [simp]: "host_ok h \<Longrightarrow> host_ok (refresh_circuit now h)"
  by (auto simp: host_ok_def refresh_circuit_def in_use_count_def)

lemma refresh_clients [simp]:
  "hp_clients (refresh_circuit now h) = hp_clients h" "hp_in_flight (refresh_circuit now h) = hp_in_flight h"
  "hp_next_client (refresh_circuit now h) = hp_next_client h" "hp_config (refresh_circuit now h) = hp_config h"
  by (simp_all add: refresh_circuit_def)

lemma host_success_frame [simp]:
  "hp_clients (host_success n now later h) = hp_clients h"
  "hp_in_flight (host_success n now later h) = hp_in_flight h"
  "hp_config (host_success n now later h) = hp_config h"
  by (simp_all add: host_success_def close_circuit_def Let_def)

lemma host_failure_frame [simp]:
  "hp_clients (host_failure n timeout now err h) = hp_clients h"
  "hp_in_flight (host_failure n timeout now err h) = hp_in_flight h"
  "hp_config (host_failure n timeout now err h) = hp_config h"
  by (simp_all add: host_failure_def open_circuit_def Let_def)

lemma host_ok_success: "host_ok h \<Longrightarrow> host_ok (host_success n now later h)"
  using host_ok_refresh [of h now]
  by (auto simp: host_ok_def host_success_def close_circuit_def in_use_count_def Let_def)

lemma host_ok_failure: "host_ok h \<Longrightarrow> host_ok (host_failure n timeout now err h)"
  by (auto simp: host_ok_def host_failure_def open_circuit_def in_use_count_def Let_def)

lemma host_ok_take:
  "host_ok h \<Longrightarrow> can_acquire h \<Longrightarrow> c < length (hp_clients h) \<Longrightarrow> \<not> pc_in_use (hp_clients h ! c) \<Longrightarrow>
   host_ok (take_client c h)"
  by (auto simp: host_ok_def take_client_def in_use_count_def filter_update can_acquire_def Let_def
      split: circuit_state.splits)

lemma in_use_positive: "c < length (hp_clients h) \<Longrightarrow> pc_in_use (hp_clients h ! c) \<Longrightarrow> 0 < in_use_count h"
  by (auto simp: in_use_count_def filter_empty_conv)

lemma host_ok_put:
  "host_ok h \<Longrightarrow> c < length (hp_clients h) \<Longrightarrow> pc_in_use (hp_clients h ! c) \<Longrightarrow> host_ok (put_client c h)"
  using in_use_positive [of c h]
  by (auto simp: host_ok_def put_client_def in_use_count_def filter_update)

lemma host_ok_next: "host_ok (h\<lparr>hp_next_client := n\<rparr>) = host_ok h"
  by (simp add: host_ok_def in_use_count_def)

section \<open>What \<open>nextAvailableLocked\<close> finds\<close>

definition available :: "'c host_pool \<Rightarrow> bool" where
  "available h \<longleftrightarrow> can_acquire h \<and> 0 < idle_clients h"

lemma next_idle_None: "next_idle h = None \<longleftrightarrow> idle_clients h = 0"
proof -
  have "next_idle h = None \<longleftrightarrow> (\<forall>i < length (hp_clients h). pc_in_use (hp_clients h ! i))"
    using find_None_iff [of "\<lambda>i. \<not> pc_in_use (hp_clients h ! i)" "rotation (hp_next_client h) (length (hp_clients h))"]
    by (auto simp: next_idle_def rotation_set split: option.split)
  also have "\<dots> \<longleftrightarrow> (\<forall>x \<in> set (hp_clients h). pc_in_use x)"
    by (metis in_set_conv_nth)
  finally show ?thesis by (simp add: idle_clients_def filter_empty_conv)
qed

lemma next_idle_Some:
  "next_idle h = Some (c, h') \<Longrightarrow>
     c < length (hp_clients h) \<and> \<not> pc_in_use (hp_clients h ! c) \<and>
     h' = h\<lparr>hp_next_client := (c + 1) mod length (hp_clients h)\<rparr>"
  using find_props [of "\<lambda>i. \<not> pc_in_use (hp_clients h ! i)" "rotation (hp_next_client h) (length (hp_clients h))" c]
  by (auto simp: next_idle_def rotation_set split: option.splits)

text \<open>The hosts after the visit of the positions \<open>J\<close>.\<close>

definition refresh_at :: "gotime \<Rightarrow> nat set \<Rightarrow> 'c host_pool list \<Rightarrow> 'c host_pool list" where
  "refresh_at now J hs = map (\<lambda>j. if j \<in> J then refresh_circuit now (hs ! j) else hs ! j) [0..<length hs]"

lemma length_refresh_at [simp]: "length (refresh_at now J hs) = length hs"
  by (simp add: refresh_at_def)

lemma refresh_at_nth [simp]:
  "j < length hs \<Longrightarrow> refresh_at now J hs ! j = (if j \<in> J then refresh_circuit now (hs ! j) else hs ! j)"
  by (simp add: refresh_at_def)

lemma refresh_at_empty [simp]: "refresh_at now {} hs = hs"
  by (simp add: list_eq_iff_nth_eq)

lemma refresh_at_insert:
  "i \<notin> J \<Longrightarrow> i < length hs \<Longrightarrow> refresh_at now J (hs[i := refresh_circuit now (hs ! i)]) = refresh_at now (insert i J) hs"
  by (auto simp: list_eq_iff_nth_eq nth_list_update)

lemma set_host_hosts [simp]:
  "p_hosts (set_host i h p) = (p_hosts p)[i := h]" "p_next_host (set_host i h p) = p_next_host p"
  by (simp_all add: set_host_def)

lemma set_host_next: "p_hosts_update (\<lambda>_. hs) (set_host i h p) = p_hosts_update (\<lambda>_. hs) p"
  by (simp add: set_host_def)

lemma loop_None:
  "distinct is \<Longrightarrow> \<forall>j \<in> set is. j < length (p_hosts p) \<Longrightarrow> next_available_loop now is p = (None, p') \<Longrightarrow>
   p' = p\<lparr>p_hosts := refresh_at now (set is) (p_hosts p)\<rparr> \<and>
   (\<forall>j \<in> set is. \<not> available (refresh_circuit now (p_hosts p ! j)))"
proof (induction "is" arbitrary: p)
  case (Cons i "is")
  let ?h = "refresh_circuit now (p_hosts p ! i)"
  have r: "next_available_loop now is (set_host i ?h p) = (None, p')" "\<not> available ?h"
    using Cons.prems(3) next_idle_None [of ?h]
    by (auto simp: Let_def available_def split: if_splits option.splits)
  have i: "i < length (p_hosts p)" "i \<notin> set is" using Cons.prems by auto
  from Cons.IH [OF _ _ r(1)] Cons.prems(1,2) r(2) i show ?case
    by (auto simp: refresh_at_insert set_host_def nth_list_update split: if_splits)
qed simp

lemma loop_Some:
  "distinct is \<Longrightarrow> \<forall>j \<in> set is. j < length (p_hosts p) \<Longrightarrow> next_available_loop now is p = (Some (i, c), p') \<Longrightarrow>
   \<exists>pre post. is = pre @ i # post \<and> (\<forall>j \<in> set pre. \<not> available (refresh_circuit now (p_hosts p ! j))) \<and>
     can_acquire (refresh_circuit now (p_hosts p ! i)) \<and>
     c < length (hp_clients (p_hosts p ! i)) \<and> \<not> pc_in_use (hp_clients (p_hosts p ! i) ! c) \<and>
     p' = p\<lparr>p_hosts := (refresh_at now (set (pre @ [i])) (p_hosts p))[i := (refresh_circuit now (p_hosts p ! i))
              \<lparr>hp_next_client := (c + 1) mod length (hp_clients (p_hosts p ! i))\<rparr>],
            p_next_host := (i + 1) mod length (p_hosts p)\<rparr>"
proof (induction "is" arbitrary: p)
  case (Cons k "is")
  let ?h = "refresh_circuit now (p_hosts p ! k)"
  have k: "k < length (p_hosts p)" "k \<notin> set is" using Cons.prems by auto
  show ?case
  proof (cases "available ?h")
    case True
    then obtain c' h' where n: "next_idle ?h = Some (c', h')"
      using next_idle_None [of ?h] by (cases "next_idle ?h") (auto simp: available_def)
    with True Cons.prems(3) have "k = i" "c' = c"
      "p' = (set_host k h' (set_host k ?h p))\<lparr>p_next_host := (k + 1) mod length (p_hosts p)\<rparr>"
      by (auto simp: available_def Let_def)
    moreover have "(p_hosts p)[k := x] = (refresh_at now {k} (p_hosts p))[k := x]" for x
      using k by (auto simp: list_eq_iff_nth_eq nth_list_update)
    ultimately show ?thesis
      using next_idle_Some [OF n] True
      by (intro exI [of _ "[]"] exI [of _ "is"]) (auto simp: available_def set_host_def)
  next
    case False
    then have r: "next_available_loop now is (set_host k ?h p) = (Some (i, c), p')"
      using Cons.prems(3) next_idle_None [of ?h]
      by (auto simp: Let_def available_def split: if_splits option.splits)
    have "\<forall>j \<in> set is. j < length (p_hosts (set_host k ?h p))" using Cons.prems(2) by simp
    from Cons.IH [OF _ this r] Cons.prems(1)
    obtain pre post where pp: "is = pre @ i # post"
      "\<forall>j \<in> set pre. \<not> available (refresh_circuit now (p_hosts (set_host k ?h p) ! j))"
      "can_acquire (refresh_circuit now (p_hosts (set_host k ?h p) ! i))"
      "c < length (hp_clients (p_hosts (set_host k ?h p) ! i))"
      "\<not> pc_in_use (hp_clients (p_hosts (set_host k ?h p) ! i) ! c)"
      "p' = (set_host k ?h p)\<lparr>p_hosts := (refresh_at now (set (pre @ [i])) (p_hosts (set_host k ?h p)))
          [i := (refresh_circuit now (p_hosts (set_host k ?h p) ! i))
             \<lparr>hp_next_client := (c + 1) mod length (hp_clients (p_hosts (set_host k ?h p) ! i))\<rparr>],
          p_next_host := (i + 1) mod length (p_hosts (set_host k ?h p))\<rparr>"
      by auto
    have ne: "k \<noteq> i" "k \<notin> set (pre @ [i])" using k(2) pp(1) by auto
    have same: "p_hosts (set_host k ?h p) ! j = p_hosts p ! j" if "j \<in> set (pre @ [i])" for j
      using that ne by (metis nth_list_update_neq set_host_hosts(1))
    have "refresh_at now (set (pre @ [i])) ((p_hosts p)[k := ?h]) = refresh_at now (set ((k # pre) @ [i])) (p_hosts p)"
      using refresh_at_insert [OF ne(2) k(1), of now] by simp
    then show ?thesis
      using pp same False by (intro exI [of _ "k # pre"] exI [of _ post]) (auto simp: set_host_def)
  qed
qed simp

lemma next_available_None:
  "next_available now p = (None, p') \<Longrightarrow>
   p' = p\<lparr>p_hosts := map (refresh_circuit now) (p_hosts p)\<rparr> \<and>
   (\<forall>h \<in> set (p_hosts p). \<not> available (refresh_circuit now h))"
proof -
  assume n: "next_available now p = (None, p')"
  have "refresh_at now {..<length (p_hosts p)} (p_hosts p) = map (refresh_circuit now) (p_hosts p)"
    by (simp add: list_eq_iff_nth_eq)
  then show ?thesis
    using loop_None [OF rotation_distinct _ n [unfolded next_available_def]]
    by (auto simp: rotation_set in_set_conv_nth)
qed

lemma next_available_Some:
  assumes "next_available now p = (Some (i, c), p')"
  obtains pre post where "rotation (p_next_host p) (length (p_hosts p)) = pre @ i # post"
    and "\<forall>j \<in> set pre. \<not> available (refresh_circuit now (p_hosts p ! j))"
    and "i < length (p_hosts p)" and "can_acquire (refresh_circuit now (p_hosts p ! i))"
    and "c < length (hp_clients (p_hosts p ! i))" and "\<not> pc_in_use (hp_clients (p_hosts p ! i) ! c)"
    and "p' = p\<lparr>p_hosts := (refresh_at now (set (pre @ [i])) (p_hosts p))[i := (refresh_circuit now (p_hosts p ! i))
              \<lparr>hp_next_client := (c + 1) mod length (hp_clients (p_hosts p ! i))\<rparr>],
            p_next_host := (i + 1) mod length (p_hosts p)\<rparr>"
proof -
  have r: "\<forall>j \<in> set (rotation (p_next_host p) (length (p_hosts p))). j < length (p_hosts p)"
    by (simp add: rotation_set)
  obtain pre post where pp: "rotation (p_next_host p) (length (p_hosts p)) = pre @ i # post"
    "\<forall>j \<in> set pre. \<not> available (refresh_circuit now (p_hosts p ! j))"
    "can_acquire (refresh_circuit now (p_hosts p ! i))"
    "c < length (hp_clients (p_hosts p ! i))" "\<not> pc_in_use (hp_clients (p_hosts p ! i) ! c)"
    "p' = p\<lparr>p_hosts := (refresh_at now (set (pre @ [i])) (p_hosts p))[i := (refresh_circuit now (p_hosts p ! i))
              \<lparr>hp_next_client := (c + 1) mod length (hp_clients (p_hosts p ! i))\<rparr>],
            p_next_host := (i + 1) mod length (p_hosts p)\<rparr>"
    using loop_Some [OF rotation_distinct r assms [unfolded next_available_def]] by blast
  moreover have "i < length (p_hosts p)" using r pp(1) by simp
  ultimately show ?thesis using that by blast
qed

lemma available_of_idle:
  "can_acquire h \<Longrightarrow> c < length (hp_clients h) \<Longrightarrow> \<not> pc_in_use (hp_clients h ! c) \<Longrightarrow> available h"
  by (auto simp: available_def idle_clients_def filter_empty_conv)

lemma available_Ex_pos: "available h \<Longrightarrow> hp_clients h \<noteq> []"
  by (simp add: available_def can_acquire_def)

text \<open>A turn that leases, spelled out.\<close>

lemma acquire_Leased:
  assumes "acquire_turn ctx now p = (Inr (Leased l), p')"
  obtains i c p1 where "ctx = None" "\<not> p_closed p" "\<not> p_closing p" "next_available now p = (Some (i, c), p1)"
    "p' = set_host i (take_client c (p_hosts p1 ! i)) p1" "l = lease_of p' i c"
  using assms by (auto simp: acquire_turn_def Let_def split: if_splits option.splits prod.splits)

section \<open>Waiting\<close>

definition wakes :: "'c host_pool \<Rightarrow> bool" where
  "wakes h \<longleftrightarrow> hp_circuit h = CircuitOpen \<and> \<not> is_zero (hp_open_until h) \<and> 0 < idle_clients h"

lemma next_wake_loop_le:
  "\<forall>h \<in> set hs. wakes h \<longrightarrow> after (hp_open_until h) now \<Longrightarrow>
   (\<not> is_zero wake \<longrightarrow> \<not> is_zero (next_wake_loop now hs wake) \<and> t_nanos (next_wake_loop now hs wake) \<le> t_nanos wake) \<and>
   (\<forall>h \<in> set hs. wakes h \<longrightarrow> \<not> is_zero (next_wake_loop now hs wake) \<and>
      t_nanos (next_wake_loop now hs wake) \<le> t_nanos (hp_open_until h))"
proof (induction hs arbitrary: wake)
  case (Cons h hs)
  show ?case
  proof (cases "wakes h")
    case True
    define v where "v = (if is_zero wake \<or> before (hp_open_until h) wake then hp_open_until h else wake)"
    have a: "after (hp_open_until h) now" using Cons.prems True by simp
    have e: "next_wake_loop now (h # hs) wake = next_wake_loop now hs v"
      using True a by (simp add: wakes_def v_def)
    have w: "\<not> is_zero v" "t_nanos v \<le> t_nanos (hp_open_until h)" "\<not> is_zero wake \<Longrightarrow> t_nanos v \<le> t_nanos wake"
      using True by (auto simp: wakes_def before_def v_def)
    have "\<forall>h \<in> set hs. wakes h \<longrightarrow> after (hp_open_until h) now" using Cons.prems by simp
    note ih = Cons.IH [OF this, of v]
    let ?r = "next_wake_loop now hs v"
    have r: "\<not> is_zero ?r" "t_nanos ?r \<le> t_nanos v" using ih w(1) by blast+
    have "t_nanos ?r \<le> t_nanos (hp_open_until h)" using r(2) w(2) by (rule order_trans)
    moreover have "t_nanos ?r \<le> t_nanos wake" if "\<not> is_zero wake"
      using r(2) w(3) [OF that] by (rule order_trans)
    moreover have "\<forall>h \<in> set hs. wakes h \<longrightarrow> t_nanos ?r \<le> t_nanos (hp_open_until h)" using ih by blast
    ultimately show ?thesis unfolding e using r(1) by simp
  next
    case False
    then have "next_wake_loop now (h # hs) wake = next_wake_loop now hs wake"
      by (auto simp: wakes_def)
    then show ?thesis using Cons False by auto
  qed
qed simp

lemma refreshed_open: "hp_circuit (refresh_circuit now h) = CircuitOpen \<Longrightarrow>
   \<not> is_zero (hp_open_until (refresh_circuit now h)) \<Longrightarrow> after (hp_open_until (refresh_circuit now h)) now"
  by (auto simp: refresh_circuit_def before_def after_def split: if_splits)

section \<open>Creation\<close>

text \<open>The outer state with a log of the clients made and the clients closed.\<close>

definition log_made :: "(host_config \<Rightarrow> nat \<Rightarrow> ('w, 'c) op) \<Rightarrow> host_config \<Rightarrow> nat \<Rightarrow> ('w \<times> 'c list \<times> 'c list, 'c) op" where
  "log_made f cfg k = (\<lambda>(w, made, shut).
     (case f cfg k w of
        (Inl e, w') \<Rightarrow> (Inl e, (w', made, shut))
      | (Inr c, w') \<Rightarrow> (Inr c, (w', made @ [c], shut))))"

definition log_shut :: "('c \<Rightarrow> 'w \<Rightarrow> 'w) \<Rightarrow> 'c \<Rightarrow> 'w \<times> 'c list \<times> 'c list \<Rightarrow> 'w \<times> 'c list \<times> 'c list" where
  "log_shut g c = (\<lambda>(w, made, shut). (g c w, made, shut @ [c]))"

lemma log_shut_simp [simp]: "log_shut g c (w, made, shut) = (g c w, made, shut @ [c])"
  by (simp add: log_shut_def)

lemma log_shut_all: "\<exists>w'. foldl (\<lambda>w c. log_shut g c w) (w, made, shut) cs = (w', made, shut @ cs)"
proof (induction cs arbitrary: w shut)
  case (Cons c cs)
  show ?case using Cons.IH [of "g c w" "shut @ [c]"] by simp
qed simp

lemma close_initialized_log:
  "\<exists>w'. close_initialized (log_shut g) p (w, made, shut) = (w', made, shut @ all_clients p)"
  unfolding close_initialized_def by (rule log_shut_all)

definition addresses :: "'c pool \<Rightarrow> string list" where
  "addresses p = map (\<lambda>h. hcf_address (hp_config h)) (p_hosts p)"

definition index_ok :: "'c pool \<Rightarrow> bool" where
  "index_ok p \<longleftrightarrow> (\<forall>a i. p_host_index p a = Some i \<longleftrightarrow> i < length (p_hosts p) \<and> addresses p ! i = a)"

definition pool_new_ok :: "'c pool \<Rightarrow> bool" where
  "pool_new_ok p \<longleftrightarrow> list_all (\<lambda>h. host_ok h \<and> hp_circuit h = CircuitClosed \<and>
       list_all (\<lambda>c. \<not> pc_in_use c \<and> pc_generation c = 0) (hp_clients h)) (p_hosts p) \<and>
     index_ok p \<and> \<not> p_closing p \<and> \<not> p_close_running p \<and> \<not> p_closed p"

lemma append_nth_last: "xs \<noteq> [] \<Longrightarrow> xs[length xs - 1 := y] = butlast xs @ [y]"
  by (cases xs rule: rev_cases) auto

lemma add_client_last:
  assumes "i = length (p_hosts p) - 1" and "p_hosts p \<noteq> []"
  shows "all_clients (add_client i k c p) = all_clients p @ [c]"
    and "addresses (add_client i k c p) = addresses p"
    and "pool_new_ok p \<Longrightarrow> pool_new_ok (add_client i k c p)"
proof -
  obtain hs h where hs: "p_hosts p = hs @ [h]" using assms(2) by (cases "p_hosts p" rule: rev_cases) auto
  then have i: "i = length hs" using assms(1) by simp
  show "all_clients (add_client i k c p) = all_clients p @ [c]"
    "addresses (add_client i k c p) = addresses p"
    by (simp_all add: all_clients_def add_client_def Let_def addresses_def hs i)
  then show "pool_new_ok (add_client i k c p)" if "pool_new_ok p"
    using that by (auto simp: pool_new_ok_def add_client_def Let_def hs i index_ok_def addresses_def set_host_def
        host_ok_def in_use_count_def filter_empty_conv list_all_iff nth_append)
qed

lemma create_clients_log:
  "create_clients (log_made f) (log_shut g) ctx_err m i ks p (w, all_clients p, []) = (r, (w', made, shut)) \<Longrightarrow>
   i = length (p_hosts p) - 1 \<Longrightarrow> p_hosts p \<noteq> [] \<Longrightarrow> pool_new_ok p \<Longrightarrow>
   (case r of Inl e \<Rightarrow> shut = made
    | Inr p' \<Rightarrow> shut = [] \<and> made = all_clients p' \<and> addresses p' = addresses p \<and> pool_new_ok p')"
proof (induction ks arbitrary: p w)
  case Nil
  then show ?case by auto
next
  case (Cons k ks)
  let ?run = "create_clients (log_made f) (log_shut g) ctx_err m i"
  have cl: "(\<exists>w'. close_initialized (log_shut g) p (v, all_clients p, []) = (w', all_clients p, all_clients p))"
    for v using close_initialized_log [of g p v "all_clients p" "[]"] by simp
  have ne: "p_hosts (add_client i k c p) \<noteq> []" "i = length (p_hosts (add_client i k c p)) - 1" for c
    using Cons.prems(2,3) by (simp_all add: add_client_def Let_def)
  note ih = Cons.IH [OF _ ne(2) ne(1)]
  show ?case
  proof (cases "ctx_err (w, all_clients p, [])")
    case (Some e)
    then show ?thesis using Cons.prems(1) cl [of w] by auto
  next
    case None
    obtain x v where f: "f (hp_config (p_hosts p ! i)) k w = (x, v)" by fastforce
    show ?thesis
    proof (cases x)
      case (Inl e)
      then have lm: "log_made f (hp_config (p_hosts p ! i)) k (w, all_clients p, []) = (Inl e, (v, all_clients p, []))"
        by (simp add: log_made_def f)
      consider "(\<exists>e'. r = Inl e') \<and> close_initialized (log_shut g) p (v, all_clients p, []) = (w', made, shut)"
        | "?run ks p (v, all_clients p, []) = (r, (w', made, shut))"
        using Cons.prems(1) None lm by (auto split: option.splits if_splits)
      then show ?thesis
      proof cases
        case 1
        then show ?thesis using cl [of v] by auto
      next
        case 2
        then show ?thesis using Cons.IH [OF 2 Cons.prems(2-4)] by simp
      qed
    next
      case (Inr c)
      then have lm: "log_made f (hp_config (p_hosts p ! i)) k (w, all_clients p, []) = (Inr c, (v, all_clients p @ [c], []))"
        by (simp add: log_made_def f)
      obtain u where u: "close_initialized (log_shut g) p (v, all_clients p @ [c], []) = (u, all_clients p @ [c], all_clients p)"
        using close_initialized_log [of g p v "all_clients p @ [c]" "[]"] by auto
      consider "(\<exists>e'. r = Inl e') \<and> made = all_clients p @ [c] \<and> shut = all_clients p @ [c]"
        | "?run ks (add_client i k c p) (v, all_clients p @ [c], []) = (r, (w', made, shut))"
        using Cons.prems(1) None lm u by (auto split: option.splits)
      then show ?thesis
      proof cases
        case 1
        then show ?thesis by auto
      next
        case 2
        note ac = add_client_last [OF Cons.prems(2,3), of k c]
        from ih [of c v] 2 ac(1) ac(3) [OF Cons.prems(4)] ac(2) show ?thesis
          by (simp split: sum.splits)
      qed
    qed
  qed
qed

lemma new_host_added:
  assumes "pool_new_ok p" and "a \<notin> dom (p_host_index p)"
  shows "pool_new_ok (p\<lparr>p_hosts := p_hosts p @ [new_host \<lparr>hcf_address = a, hcf_clients = n\<rparr>],
    p_host_index := (p_host_index p)(a \<mapsto> length (p_hosts p))\<rparr>)"
proof -
  have "addresses p ! i \<noteq> a" if "i < length (p_hosts p)" for i
    using assms that unfolding pool_new_ok_def index_ok_def by (metis domI)
  then show ?thesis using assms host_ok_new [of "\<lparr>hcf_address = a, hcf_clients = n\<rparr>"]
    by (auto simp: pool_new_ok_def index_ok_def addresses_def nth_append new_host_def less_Suc_eq)
qed

lemma create_hosts_log:
  "create_hosts (log_made f) (log_shut g) ctx_err m n cfgs p (w, all_clients p, []) = (r, (w', made, shut)) \<Longrightarrow>
   pool_new_ok p \<Longrightarrow>
   (case r of Inl e \<Rightarrow> shut = made
    | Inr p' \<Rightarrow> shut = [] \<and> made = all_clients p' \<and> pool_new_ok p' \<and>
        addresses p' = addresses p @ map hcf_address cfgs)"
proof (induction cfgs arbitrary: p w)
  case (Cons cfg cfgs)
  let ?n = "if hcf_clients cfg = 0 then n else hcf_clients cfg"
  let ?p = "p\<lparr>p_hosts := p_hosts p @ [new_host \<lparr>hcf_address = hcf_address cfg, hcf_clients = ?n\<rparr>],
    p_host_index := (p_host_index p)(hcf_address cfg \<mapsto> length (p_hosts p))\<rparr>"
  have same: "all_clients ?p = all_clients p" "addresses ?p = addresses p @ [hcf_address cfg]"
    by (simp_all add: all_clients_def new_host_def addresses_def)
  let ?c = "create_clients (log_made f) (log_shut g) ctx_err m (length (p_hosts p)) [0..<nat ?n] ?p (w, all_clients p, [])"
  show ?case
  proof (cases "ctx_err (w, all_clients p, []) \<noteq> None \<or> hcf_address cfg = [] \<or>
      hcf_address cfg \<in> dom (p_host_index p) \<or> ?n < 0")
    case True
    then have "(\<exists>e. r = Inl e) \<and> close_initialized (log_shut g) p (w, all_clients p, []) = (w', made, shut)"
      using Cons.prems(1) by (auto simp: Let_def split: option.splits if_splits)
    then show ?thesis using close_initialized_log [of g p w "all_clients p" "[]"] by auto
  next
    case False
    then have d: "hcf_address cfg \<notin> dom (p_host_index p)" by simp
    obtain x v where c: "?c = (x, v)" by (cases ?c)
    obtain u made' shut' where v: "v = (u, made', shut')" by (cases v)
    have r: "(case x of Inl e \<Rightarrow> (Inl e, v) | Inr p' \<Rightarrow>
        create_hosts (log_made f) (log_shut g) ctx_err m n cfgs p' v) = (r, (w', made, shut))"
      using Cons.prems(1) False c by (auto simp: Let_def split: sum.splits)
    have l: "case x of Inl e \<Rightarrow> shut' = made'
      | Inr p' \<Rightarrow> shut' = [] \<and> made' = all_clients p' \<and> addresses p' = addresses ?p \<and> pool_new_ok p'"
      using create_clients_log [of f g ctx_err m "length (p_hosts p)" "[0..<nat ?n]" ?p w x u made' shut']
        new_host_added [OF Cons.prems(2) d] same(1) c by (simp add: v)
    show ?thesis
    proof (cases x)
      case (Inl e)
      then show ?thesis using r l by (auto simp: v)
    next
      case (Inr p')
      then show ?thesis using r l Cons.IH [of p' u] same(2) by (simp add: v split: sum.splits)
    qed
  qed
qed (auto split: sum.splits)

section \<open>Runs of reports\<close>

fun fail_all :: "string \<Rightarrow> (gotime \<times> go_error option) list \<Rightarrow> 'c pool \<Rightarrow> 'c pool" where
  "fail_all a [] p = p"
| "fail_all a ((now, err) # fs) p = fail_all a fs (snd (report_failure now a err p))"

fun succeed_all :: "string \<Rightarrow> gotime list \<Rightarrow> 'c pool \<Rightarrow> 'c pool" where
  "succeed_all a [] p = p"
| "succeed_all a (now # ts) p = succeed_all a ts (snd (report_success now now a p))"

lemma report_failure_host:
  "p_host_index p a = Some i \<Longrightarrow> i < length (p_hosts p) \<Longrightarrow>
   p_hosts (snd (report_failure now a err p)) ! i =
     host_failure (p_failure_threshold p) (p_open_timeout p) now err (p_hosts p ! i)"
  by (simp add: report_failure_def)

lemma report_failure_frame [simp]:
  "p_host_index (snd (report_failure now a err p)) = p_host_index p"
  "length (p_hosts (snd (report_failure now a err p))) = length (p_hosts p)"
  "p_failure_threshold (snd (report_failure now a err p)) = p_failure_threshold p"
  "p_open_timeout (snd (report_failure now a err p)) = p_open_timeout p"
  by (simp_all add: report_failure_def set_host_def split: option.split)

lemma report_success_frame [simp]:
  "p_host_index (snd (report_success now later a p)) = p_host_index p"
  "length (p_hosts (snd (report_success now later a p))) = length (p_hosts p)"
  "p_success_threshold (snd (report_success now later a p)) = p_success_threshold p"
  by (simp_all add: report_success_def set_host_def split: option.split)

lemma report_success_host:
  "p_host_index p a = Some i \<Longrightarrow> i < length (p_hosts p) \<Longrightarrow>
   p_hosts (snd (report_success now later a p)) ! i = host_success (p_success_threshold p) now later (p_hosts p ! i)"
  by (simp add: report_success_def)

lemma host_failure_closed:
  "hp_circuit h = CircuitClosed \<Longrightarrow>
   hp_circuit (host_failure n timeout now err h) = (if hp_failures h + 1 < n then CircuitClosed else CircuitOpen) \<and>
   hp_failures (host_failure n timeout now err h) = hp_failures h + 1 \<and>
   (hp_failures h + 1 < n \<or> hp_open_until (host_failure n timeout now err h) = time_add now timeout)"
  by (simp add: host_failure_def refresh_circuit_def open_circuit_def Let_def)

lemma host_failure_open:
  "hp_circuit h \<noteq> CircuitClosed \<Longrightarrow>
   hp_circuit (host_failure n timeout now err h) = CircuitOpen \<and>
   hp_open_until (host_failure n timeout now err h) = time_add now timeout"
  by (auto simp: host_failure_def refresh_circuit_def open_circuit_def Let_def)

lemma fail_all_open:
  "p_host_index p a = Some i \<Longrightarrow> i < length (p_hosts p) \<Longrightarrow> hp_circuit (p_hosts p ! i) = CircuitOpen \<Longrightarrow> fs \<noteq> [] \<Longrightarrow>
   hp_circuit (p_hosts (fail_all a fs p) ! i) = CircuitOpen \<and>
   hp_open_until (p_hosts (fail_all a fs p) ! i) = time_add (fst (last fs)) (p_open_timeout p)"
proof (induction a fs p rule: fail_all.induct)
  case (2 a now err fs p)
  then show ?case
    using host_failure_open [of "p_hosts p ! i" "p_failure_threshold p" "p_open_timeout p" now err]
    by (cases "fs = []") (simp_all add: report_failure_host)
qed simp

lemma fail_all_closed:
  "p_host_index p a = Some i \<Longrightarrow> i < length (p_hosts p) \<Longrightarrow> hp_circuit (p_hosts p ! i) = CircuitClosed \<Longrightarrow>
   hp_failures (p_hosts p ! i) < p_failure_threshold p \<Longrightarrow>
   (if hp_failures (p_hosts p ! i) + int (length fs) < p_failure_threshold p
    then hp_circuit (p_hosts (fail_all a fs p) ! i) = CircuitClosed
    else hp_circuit (p_hosts (fail_all a fs p) ! i) = CircuitOpen \<and>
      hp_open_until (p_hosts (fail_all a fs p) ! i) = time_add (fst (last fs)) (p_open_timeout p))"
proof (induction a fs p rule: fail_all.induct)
  case (2 a now err fs p)
  let ?h = "p_hosts p ! i" and ?p' = "snd (report_failure now a err p)"
  have h': "p_hosts ?p' ! i = host_failure (p_failure_threshold p) (p_open_timeout p) now err ?h"
    using 2 by (simp add: report_failure_host)
  note hf = host_failure_closed [OF 2(4), of "p_failure_threshold p" "p_open_timeout p" now err, folded h']
  show ?case
  proof (cases "hp_failures ?h + 1 < p_failure_threshold p")
    case True
    then show ?thesis using 2 hf by (cases "fs = []") (auto simp: algebra_simps)
  next
    case False
    then show ?thesis using 2 hf fail_all_open [of ?p' a i fs] by (cases "fs = []") auto
  qed
qed simp

lemma host_success_half_open:
  "hp_circuit (refresh_circuit now h) = CircuitHalfOpen \<Longrightarrow>
   (let k = hp_successes (refresh_circuit now h) + 1; h' = host_success n now later h in
    if n \<le> k then hp_circuit h' = CircuitClosed \<and> hp_failures h' = 0
    else hp_circuit h' = CircuitHalfOpen \<and> hp_successes h' = k)"
  by (simp add: host_success_def close_circuit_def Let_def)

lemma host_success_closed:
  "hp_circuit h = CircuitClosed \<Longrightarrow>
   hp_circuit (host_success n now later h) = CircuitClosed \<and> hp_failures (host_success n now later h) = 0"
  by (simp add: host_success_def refresh_circuit_def Let_def)

lemma succeed_all_closed:
  "p_host_index p a = Some i \<Longrightarrow> i < length (p_hosts p) \<Longrightarrow> hp_circuit (p_hosts p ! i) = CircuitClosed \<Longrightarrow>
   hp_failures (p_hosts p ! i) = 0 \<Longrightarrow>
   hp_circuit (p_hosts (succeed_all a ts p) ! i) = CircuitClosed \<and> hp_failures (p_hosts (succeed_all a ts p) ! i) = 0"
proof (induction a ts p rule: succeed_all.induct)
  case (2 a now ts p)
  then show ?case using host_success_closed [of "p_hosts p ! i"] by (simp add: report_success_host)
qed simp

lemma succeed_all_half_open:
  "p_host_index p a = Some i \<Longrightarrow> i < length (p_hosts p) \<Longrightarrow> hp_circuit (p_hosts p ! i) = CircuitHalfOpen \<Longrightarrow>
   hp_successes (p_hosts p ! i) < p_success_threshold p \<Longrightarrow>
   (if hp_successes (p_hosts p ! i) + int (length ts) < p_success_threshold p
    then hp_circuit (p_hosts (succeed_all a ts p) ! i) = CircuitHalfOpen
    else hp_circuit (p_hosts (succeed_all a ts p) ! i) = CircuitClosed \<and>
      hp_failures (p_hosts (succeed_all a ts p) ! i) = 0)"
proof (induction a ts p rule: succeed_all.induct)
  case (2 a now ts p)
  let ?h = "p_hosts p ! i" and ?p' = "snd (report_success now now a p)"
  have r: "refresh_circuit now ?h = ?h" using 2(4) by (simp add: refresh_circuit_def)
  have h': "p_hosts ?p' ! i = host_success (p_success_threshold p) now now ?h"
    using 2 by (simp add: report_success_host)
  note hs = host_success_half_open [of now ?h "p_success_threshold p" now, folded h', unfolded r Let_def, OF 2(4)]
  show ?case
  proof (cases "p_success_threshold p \<le> hp_successes ?h + 1")
    case True
    then show ?thesis using 2 hs succeed_all_closed [of ?p' a i ts] by auto
  next
    case False
    then show ?thesis using 2 hs by (auto simp: algebra_simps)
  qed
qed simp

section \<open>Properties\<close>

lemma empty_pool_new:
  "all_clients (empty_pool cfg) = []" "pool_new_ok (empty_pool cfg)" "addresses (empty_pool cfg) = []"
  by (simp_all add: all_clients_def empty_pool_def pool_new_ok_def index_ok_def addresses_def)

text \<open>
  \<open>NewPool\<close> leaks no client.  With the creations and the closings logged, a failing \<open>NewPool\<close>, for
  whatever reason and at whatever point, has closed exactly the clients it created, each once and in order of creation;
  a succeeding one has closed none, holds them all, idle and under distinct addresses that the index
  finds, with every circuit closed.
\<close>

theorem new_pool_leaks_nothing:
  assumes "new_pool (Some (log_made f)) (log_shut g) ctx_err cfg (w, [], []) = (r, (w', made, shut))"
  shows "case r of Inl e \<Rightarrow> shut = made
    | Inr p \<Rightarrow> shut = [] \<and> all_clients p = made \<and> pool_new_ok p \<and> addresses p = map hcf_address (pcf_hosts cfg)"
proof -
  let ?hosts = "create_hosts (log_made f) (log_shut g) ctx_err (pcf_min_ready cfg)
      (default_int 1 (pcf_clients_per_host cfg)) (pcf_hosts cfg) (empty_pool cfg) (w, [], [])"
  obtain x v made' shut' where h: "?hosts = (x, (v, made', shut'))" by (cases ?hosts) auto
  have l: "case x of Inl e \<Rightarrow> shut' = made'
    | Inr p \<Rightarrow> shut' = [] \<and> made' = all_clients p \<and> pool_new_ok p \<and> addresses p = map hcf_address (pcf_hosts cfg)"
    using create_hosts_log [of f g ctx_err "pcf_min_ready cfg" "default_int 1 (pcf_clients_per_host cfg)"
        "pcf_hosts cfg" "empty_pool cfg" w x v made' shut'] h by (cases x) (simp_all add: empty_pool_new)
  show ?thesis
  proof (cases x)
    case (Inl e)
    then show ?thesis using assms l h by (auto simp: new_pool_def split: if_splits)
  next
    case (Inr p)
    obtain u where u: "close_initialized (log_shut g) p (v, all_clients p, []) = (u, all_clients p, all_clients p)"
      using close_initialized_log [of g p v "all_clients p" "[]"] by auto
    show ?thesis using assms l h u Inr by (auto simp: new_pool_def split: if_splits option.splits)
  qed
qed

text \<open>A factory whose second client fails, and two hosts.\<close>

definition sample_factory :: "host_config \<Rightarrow> nat \<Rightarrow> (nat, nat) op" where
  "sample_factory cfg k n = (if n = 1 then (Inl ErrUpstreamUnavailable, n) else (Inr n, n + 1))"

definition sample_pool_config :: "int \<Rightarrow> pool_config" where
  "sample_pool_config ready = \<lparr>pcf_id = 0, pcf_name = ''quotes'',
     pcf_hosts = [\<lparr>hcf_address = ''a'', hcf_clients = 0\<rparr>, \<lparr>hcf_address = ''b'', hcf_clients = 2\<rparr>],
     pcf_clients_per_host = 0, pcf_min_ready = ready, pcf_failure_threshold = 0, pcf_success_threshold = 0,
     pcf_open_timeout = 0\<rparr>"

theorem new_pool_leaks_nothing_witness:
  "\<exists>e w' made shut. new_pool (Some (log_made sample_factory)) (log_shut (\<lambda>_ n. n)) (\<lambda>_. None) (sample_pool_config 0)
     (0, [], []) = (Inl e, (w', made, shut)) \<and> shut = made \<and> made = [0]"
proof -
  let ?r = "new_pool (Some (log_made sample_factory)) (log_shut (\<lambda>_ n. n)) (\<lambda>_. None) (sample_pool_config 0) (0, [], [])"
  have "case ?r of (Inl e, t) \<Rightarrow> t = (1, [0], [0]) | (Inr _, _) \<Rightarrow> False" by code_simp
  then obtain e where r: "?r = (Inl e, (1, [0], [0]))" by (auto split: prod.splits sum.splits)
  show ?thesis using new_pool_leaks_nothing [OF r] r by auto
qed

lemma acquire_leases_equiv:
  assumes "\<not> p_closed p" and "\<not> p_closing p"
  shows "(\<exists>l. fst (acquire_turn None now p) = Inr (Leased l)) \<longleftrightarrow>
    (\<exists>h \<in> set (p_hosts p). available (refresh_circuit now h))"
proof (cases "next_available now p")
  case (Pair r p')
  show ?thesis
  proof (cases r)
    case None
    then show ?thesis using Pair next_available_None [of now p p'] assms by (simp add: acquire_turn_def)
  next
    case (Some ic)
    obtain i c where ic: "ic = (i, c)" by fastforce
    with Some Pair have n: "next_available now p = (Some (i, c), p')" by simp
    obtain pre post where "i < length (p_hosts p)" "can_acquire (refresh_circuit now (p_hosts p ! i))"
      "c < length (hp_clients (p_hosts p ! i))" "\<not> pc_in_use (hp_clients (p_hosts p ! i) ! c)"
      using next_available_Some [OF n] by blast
    then have "\<exists>h \<in> set (p_hosts p). available (refresh_circuit now h)"
      using available_of_idle [of "refresh_circuit now (p_hosts p ! i)" c]
      by (intro bexI [of _ "p_hosts p ! i"]) simp_all
    then show ?thesis using n assms by (simp add: acquire_turn_def Let_def)
  qed
qed

text \<open>
  \<open>Acquire\<close> never waits for nothing and never leases past a circuit.  On an open pool with a live
  context one turn returns a lease exactly when some host, once its circuit is refreshed, accepts traffic and has an idle client.
\<close>

theorem acquire_leases_iff:
  assumes "\<not> p_closed p" and "\<not> p_closing p"
  shows "(\<exists>l. fst (acquire_turn None now p) = Inr (Leased l)) \<longleftrightarrow>
    (\<exists>h \<in> set (p_hosts p). available (refresh_circuit now h))"
  using assms by (rule acquire_leases_equiv)

text \<open>A pool of one idle client on one host in a given circuit state.\<close>

definition sample_pool :: "circuit_state \<Rightarrow> gotime \<Rightarrow> nat pool" where
  "sample_pool st until = (empty_pool (sample_pool_config 0))\<lparr>
     p_hosts := [(new_host \<lparr>hcf_address = ''a'', hcf_clients = 1\<rparr>)\<lparr>
       hp_clients := [\<lparr>pc_value = 7, pc_index = 0, pc_in_use = False, pc_generation = 0\<rparr>],
       hp_circuit := st, hp_open_until := until\<rparr>],
     p_host_index := [''a'' \<mapsto> 0]\<rparr>"

definition sample_pool_time :: "int \<Rightarrow> gotime" where
  "sample_pool_time n = \<lparr>t_nanos = n, t_zone = 0\<rparr>"

lemma sample_pool_simps [simp]:
  "\<not> p_closed (sample_pool st u)" "\<not> p_closing (sample_pool st u)" "length (p_hosts (sample_pool st u)) = 1"
  "p_host_index (sample_pool st u) ''a'' = Some 0" "hp_circuit (p_hosts (sample_pool st u) ! 0) = st"
  "hp_failures (p_hosts (sample_pool st u) ! 0) = 0" "p_failure_threshold (sample_pool st u) = 3"
  "p_success_threshold (sample_pool st u) = 1" "hp_successes (p_hosts (sample_pool st u) ! 0) = 0"
  "hp_open_until (p_hosts (sample_pool st u) ! 0) = u"
  by (simp_all add: sample_pool_def empty_pool_def sample_pool_config_def default_int_def new_host_def)

theorem acquire_leases_iff_witness:
  "\<exists>l. fst (acquire_turn None zero_time (sample_pool CircuitClosed zero_time)) = Inr (Leased l)"
proof -
  have "\<exists>h \<in> set (p_hosts (sample_pool CircuitClosed zero_time)). available (refresh_circuit zero_time h)"
    by (simp add: sample_pool_def available_def can_acquire_def refresh_circuit_def idle_clients_def new_host_def)
  then show ?thesis using acquire_leases_iff [of "sample_pool CircuitClosed zero_time" zero_time] by simp
qed

text \<open>
  C9: which client \<open>Acquire\<close> leases.  The leased client was idle; its host is the first in the rotation from the
  round-robin cursor that has an idle client to give, and the cursor moves past it; the circuit
  of that host was not open before its timeout, and in the half-open state no other client of the host was in
  flight and the lease counts as the one probe.
\<close>

theorem acquire_choice:
  assumes "acquire_turn ctx now p = (Inr (Leased l), p')"
  shows "\<exists>i c pre post. le_ref l = Some (i, c) \<and> i < length (p_hosts p) \<and> c < length (hp_clients (p_hosts p ! i)) \<and>
    \<not> pc_in_use (hp_clients (p_hosts p ! i) ! c) \<and> pc_in_use (hp_clients (p_hosts p' ! i) ! c) \<and>
    rotation (p_next_host p) (length (p_hosts p)) = pre @ i # post \<and>
    (\<forall>j \<in> set pre. \<not> available (refresh_circuit now (p_hosts p ! j))) \<and>
    p_next_host p' = (i + 1) mod length (p_hosts p) \<and>
    hp_circuit (p_hosts p' ! i) \<noteq> CircuitOpen \<and>
    (hp_circuit (p_hosts p' ! i) = CircuitHalfOpen \<longrightarrow>
       hp_in_flight (p_hosts p ! i) = 0 \<and> hp_in_flight (p_hosts p' ! i) = 1 \<and> hp_probe (p_hosts p' ! i))"
proof -
  obtain i c p1 where a: "next_available now p = (Some (i, c), p1)"
    "p' = set_host i (take_client c (p_hosts p1 ! i)) p1" "l = lease_of p' i c"
    using acquire_Leased [OF assms] by metis
  obtain pre post where n: "rotation (p_next_host p) (length (p_hosts p)) = pre @ i # post"
    "\<forall>j \<in> set pre. \<not> available (refresh_circuit now (p_hosts p ! j))"
    "i < length (p_hosts p)" "can_acquire (refresh_circuit now (p_hosts p ! i))"
    "c < length (hp_clients (p_hosts p ! i))" "\<not> pc_in_use (hp_clients (p_hosts p ! i) ! c)"
    "p1 = p\<lparr>p_hosts := (refresh_at now (set (pre @ [i])) (p_hosts p))[i := (refresh_circuit now (p_hosts p ! i))
              \<lparr>hp_next_client := (c + 1) mod length (hp_clients (p_hosts p ! i))\<rparr>],
            p_next_host := (i + 1) mod length (p_hosts p)\<rparr>"
    using next_available_Some [OF a(1)] by metis
  let ?h = "(refresh_circuit now (p_hosts p ! i))\<lparr>hp_next_client := (c + 1) mod length (hp_clients (p_hosts p ! i))\<rparr>"
  have h': "p_hosts p' ! i = take_client c ?h" and nh: "p_next_host p' = (i + 1) mod length (p_hosts p)"
    using n(3) by (simp_all add: a(2) n(7))
  have "pc_in_use (hp_clients (p_hosts p' ! i) ! c)" using n(5) by (simp add: h' take_client_def Let_def)
  moreover have "hp_circuit (p_hosts p' ! i) \<noteq> CircuitOpen"
    "hp_circuit (p_hosts p' ! i) = CircuitHalfOpen \<Longrightarrow>
       hp_in_flight (p_hosts p ! i) = 0 \<and> hp_in_flight (p_hosts p' ! i) = 1 \<and> hp_probe (p_hosts p' ! i)"
    using n(4) by (auto simp: h' take_client_def Let_def can_acquire_def split: circuit_state.splits)
  moreover have "le_ref l = Some (i, c)" by (simp add: a(3) lease_of_def Let_def)
  ultimately show ?thesis using n(1-3,5,6) nh by blast
qed

theorem acquire_choice_witness:
  "\<exists>l p' i c. acquire_turn None zero_time (sample_pool CircuitHalfOpen zero_time) = (Inr (Leased l), p') \<and>
     le_ref l = Some (i, c) \<and> hp_circuit (p_hosts p' ! i) \<noteq> CircuitOpen"
proof -
  have "\<exists>h \<in> set (p_hosts (sample_pool CircuitHalfOpen zero_time)). available (refresh_circuit zero_time h)"
    by (simp add: sample_pool_def available_def can_acquire_def refresh_circuit_def idle_clients_def new_host_def)
  then obtain l p' where a: "acquire_turn None zero_time (sample_pool CircuitHalfOpen zero_time) = (Inr (Leased l), p')"
    using acquire_leases_equiv by (metis prod.collapse sample_pool_simps(1,2))
  from acquire_choice [OF a] a show ?thesis by blast
qed



text \<open>
  C11: the circuit opens at the threshold.  A host whose circuit is closed and that has no failure counted is still
  closed after fewer consecutive failures than the threshold; after any number from the threshold on
  it is open, until the timeout after the last of them.
\<close>

theorem circuit_opens_at_threshold:
  assumes "p_host_index p a = Some i" and "i < length (p_hosts p)"
    and "hp_circuit (p_hosts p ! i) = CircuitClosed" and "hp_failures (p_hosts p ! i) = 0"
    and "0 < p_failure_threshold p"
  shows "if int (length fs) < p_failure_threshold p
    then hp_circuit (p_hosts (fail_all a fs p) ! i) = CircuitClosed
    else hp_circuit (p_hosts (fail_all a fs p) ! i) = CircuitOpen \<and>
      hp_open_until (p_hosts (fail_all a fs p) ! i) = time_add (fst (last fs)) (p_open_timeout p)"
  using fail_all_closed [OF assms(1-3), of fs] assms(4,5) by simp

theorem circuit_opens_at_threshold_witness:
  "hp_circuit (p_hosts (fail_all ''a'' [(zero_time, None), (zero_time, None)] (sample_pool CircuitClosed zero_time)) ! 0)
     = CircuitClosed \<and>
   hp_circuit (p_hosts (fail_all ''a'' [(zero_time, None), (zero_time, None), (zero_time, None)]
     (sample_pool CircuitClosed zero_time)) ! 0) = CircuitOpen"
  using circuit_opens_at_threshold [of "sample_pool CircuitClosed zero_time" "''a''" 0
      "[(zero_time, None), (zero_time, None)]"]
    circuit_opens_at_threshold [of "sample_pool CircuitClosed zero_time" "''a''" 0
      "[(zero_time, None), (zero_time, None), (zero_time, None)]"]
  by simp

text \<open>
  recovery.  An open host whose timeout has passed stays half-open for fewer successes than the half-open
  threshold and is closed, its failures forgotten, from the threshold on.
\<close>

theorem circuit_recovers:
  assumes "p_host_index p a = Some i" and "i < length (p_hosts p)"
    and "hp_circuit (p_hosts p ! i) = CircuitOpen" and "\<not> is_zero (hp_open_until (p_hosts p ! i))"
    and "\<not> before now (hp_open_until (p_hosts p ! i))" and "0 < p_success_threshold p"
  shows "if int (length ts) + 1 < p_success_threshold p
    then hp_circuit (p_hosts (succeed_all a (now # ts) p) ! i) = CircuitHalfOpen
    else hp_circuit (p_hosts (succeed_all a (now # ts) p) ! i) = CircuitClosed \<and>
      hp_failures (p_hosts (succeed_all a (now # ts) p) ! i) = 0"
proof -
  let ?h = "p_hosts p ! i" and ?p' = "snd (report_success now now a p)"
  have r: "hp_circuit (refresh_circuit now ?h) = CircuitHalfOpen" "hp_successes (refresh_circuit now ?h) = 0"
    using assms(3-5) by (simp_all add: refresh_circuit_def)
  have h': "p_hosts ?p' ! i = host_success (p_success_threshold p) now now ?h"
    using assms(1,2) by (simp add: report_success_host)
  note hs = host_success_half_open [OF r(1), of "p_success_threshold p" now, folded h', unfolded r(2) Let_def]
  show ?thesis
  proof (cases "p_success_threshold p \<le> 1")
    case True
    then show ?thesis using hs succeed_all_closed [of ?p' a i ts] assms(1,2,6) by simp
  next
    case False
    then show ?thesis using hs succeed_all_half_open [of ?p' a i ts] assms(1,2) by (simp add: algebra_simps)
  qed
qed

theorem circuit_recovers_witness:
  "hp_circuit (p_hosts (succeed_all ''a'' [sample_pool_time 9] (sample_pool CircuitOpen (sample_pool_time 5))) ! 0)
     = CircuitClosed"
  using circuit_recovers [of "sample_pool CircuitOpen (sample_pool_time 5)" "''a''" 0 "sample_pool_time 9" "[]"]
  by (simp add: sample_pool_time_def is_zero_def before_def)

end
