(* ===== verification/Pool_Machine.thy ===== *)
theory Pool_Machine
  imports Source_Pool
begin

text \<open>
  The pool under any interleaving of its users: the steps of \<open>Source_Pool\<close> with the leases that
  are out, the leases given back, the number of acquires and the progress of \<open>Close\<close>.
\<close>

section \<open>Machine\<close>

text \<open>
  \<open>finishClose\<close> is idle, waits for the clients in flight, or closes the listed clients outside the lock.
  The second and third phases may belong to the caller of \<open>Close\<close> or to the goroutine it handed over to.
\<close>

datatype 'c finisher = FinisherIdle | Draining | Closing "'c list"

record 'c machine =
  pm_pool :: "'c pool"
  pm_leases :: "'c lease list"
  pm_returned :: "'c lease list"
  pm_acquires :: nat
  pm_finisher :: "'c finisher"
  pm_shut :: "'c list"

definition machine_start :: "'c pool \<Rightarrow> 'c machine" where
  "machine_start p = \<lparr>pm_pool = p, pm_leases = [], pm_returned = [], pm_acquires = 0,
     pm_finisher = FinisherIdle, pm_shut = []\<rparr>"

text \<open>
  A release is made with a lease the pool gave out, still out or already returned, or with \<open>nil\<close>;
  reports come for any address, with or without a lease.
\<close>

inductive pool_step :: "'c machine \<Rightarrow> 'c machine \<Rightarrow> bool" where
  step_acquire: "acquire_turn ctx now (pm_pool m) = (Inr (Leased l), p') \<Longrightarrow>
     pool_step m (m\<lparr>pm_pool := p', pm_leases := l # pm_leases m, pm_acquires := pm_acquires m + 1\<rparr>)"
| step_acquire_waits: "acquire_turn ctx now (pm_pool m) = (Inr (Waits w), p') \<Longrightarrow> pool_step m (m\<lparr>pm_pool := p'\<rparr>)"
| step_acquire_fails: "acquire_turn ctx now (pm_pool m) = (Inl e, p') \<Longrightarrow> pool_step m (m\<lparr>pm_pool := p'\<rparr>)"
| step_release: "l \<in> set (pm_leases m @ pm_returned m) \<Longrightarrow> release (Some l) (pm_pool m) = (Inr (), p') \<Longrightarrow>
     pool_step m (m\<lparr>pm_pool := p', pm_leases := remove1 l (pm_leases m), pm_returned := l # pm_returned m\<rparr>)"
| step_release_fails: "release lo (pm_pool m) = (Inl e, p') \<Longrightarrow> pool_step m (m\<lparr>pm_pool := p'\<rparr>)"
| step_success: "pool_step m (m\<lparr>pm_pool := snd (report_success now later a (pm_pool m))\<rparr>)"
| step_failure: "pool_step m (m\<lparr>pm_pool := snd (report_failure now a err (pm_pool m))\<rparr>)"
| step_snapshot: "pool_step m (m\<lparr>pm_pool := snd (health_snapshot_of now (pm_pool m))\<rparr>)"
| step_close: "close_begin (pm_pool m) = (CloseStarts, p') \<Longrightarrow>
     pool_step m (m\<lparr>pm_pool := p', pm_finisher := Draining\<rparr>)"
| step_drain: "pm_finisher m = Draining \<Longrightarrow> finish_close_turn ctx (pm_pool m) = (t, p') \<Longrightarrow>
     (\<forall>cs. t \<noteq> FinishCloses cs) \<Longrightarrow> pool_step m (m\<lparr>pm_pool := p'\<rparr>)"
| step_collect: "pm_finisher m = Draining \<Longrightarrow> finish_close_turn ctx (pm_pool m) = (FinishCloses cs, p') \<Longrightarrow>
     pool_step m (m\<lparr>pm_pool := p', pm_finisher := Closing cs\<rparr>)"
| step_shut: "pm_finisher m = Closing (c # cs) \<Longrightarrow>
     pool_step m (m\<lparr>pm_finisher := Closing cs, pm_shut := pm_shut m @ [c]\<rparr>)"
| step_closed: "pm_finisher m = Closing [] \<Longrightarrow>
     pool_step m (m\<lparr>pm_pool := finish_close_done errs (pm_pool m), pm_finisher := FinisherIdle\<rparr>)"

inductive pool_reach :: "'c machine \<Rightarrow> bool" where
  reach_start: "pool_new_ok p \<Longrightarrow> pool_reach (machine_start p)"
| reach_step: "pool_reach m \<Longrightarrow> pool_step m m' \<Longrightarrow> pool_reach m'"

section \<open>Invariant\<close>

definition client_at :: "'c pool \<Rightarrow> nat \<Rightarrow> nat \<Rightarrow> 'c pooled_client" where
  "client_at p i c = hp_clients (p_hosts p ! i) ! c"

definition at_pool :: "'c pool \<Rightarrow> nat \<times> nat \<Rightarrow> bool" where
  "at_pool p ic \<longleftrightarrow> fst ic < length (p_hosts p) \<and> snd ic < length (hp_clients (p_hosts p ! fst ic))"

text \<open>A lease that is out holds a client in use, of the lease's generation; the clients in use are those of the
  leases, one each.\<close>

definition leases_ok :: "'c pool \<Rightarrow> 'c lease list \<Rightarrow> bool" where
  "leases_ok p ls \<longleftrightarrow>
     (\<forall>l \<in> set ls. le_pool l = Some (p_id p) \<and> (\<exists>i c. le_ref l = Some (i, c) \<and> at_pool p (i, c) \<and>
        pc_in_use (client_at p i c) \<and> pc_generation (client_at p i c) = le_generation l)) \<and>
     distinct (map le_ref ls) \<and>
     (\<forall>i c. at_pool p (i, c) \<and> pc_in_use (client_at p i c) \<longrightarrow> Some (i, c) \<in> set (map le_ref ls))"

text \<open>A returned lease is of an earlier generation, or of the present one on an idle client.\<close>

definition returned_ok :: "'c pool \<Rightarrow> 'c lease list \<Rightarrow> bool" where
  "returned_ok p ls \<longleftrightarrow> (\<forall>l \<in> set ls. le_pool l = Some (p_id p) \<and> (\<exists>i c. le_ref l = Some (i, c) \<and> at_pool p (i, c) \<and>
     (unat (le_generation l) < unat (pc_generation (client_at p i c)) \<or>
      le_generation l = pc_generation (client_at p i c) \<and> \<not> pc_in_use (client_at p i c))))"

definition generations_ok :: "'c pool \<Rightarrow> nat \<Rightarrow> bool" where
  "generations_ok p n \<longleftrightarrow> (\<forall>i c. at_pool p (i, c) \<longrightarrow> unat (pc_generation (client_at p i c)) \<le> n)"

definition finisher_ok :: "'c machine \<Rightarrow> bool" where
  "finisher_ok m \<longleftrightarrow>
     (case pm_finisher m of
        FinisherIdle \<Rightarrow>
          (if p_closed (pm_pool m) then pm_shut m = all_clients (pm_pool m) \<and> pm_leases m = []
           else \<not> p_closing (pm_pool m) \<and> pm_shut m = []) \<and> \<not> p_close_running (pm_pool m)
      | Draining \<Rightarrow> p_closing (pm_pool m) \<and> p_close_running (pm_pool m) \<and> \<not> p_closed (pm_pool m) \<and> pm_shut m = []
      | Closing cs \<Rightarrow> p_closing (pm_pool m) \<and> p_close_running (pm_pool m) \<and> \<not> p_closed (pm_pool m) \<and>
          pm_shut m @ cs = all_clients (pm_pool m) \<and> pm_leases m = [])"

definition machine_ok :: "'c machine \<Rightarrow> bool" where
  "machine_ok m \<longleftrightarrow> list_all host_ok (p_hosts (pm_pool m)) \<and> leases_ok (pm_pool m) (pm_leases m) \<and>
     finisher_ok m \<and> index_ok (pm_pool m)"

section \<open>Pools that differ in health only\<close>

text \<open>The reports, the snapshot and a turn that does not lease leave clients, addresses and phases alone.\<close>

definition same_clients :: "'c pool \<Rightarrow> 'c pool \<Rightarrow> bool" where
  "same_clients p q \<longleftrightarrow> map hp_clients (p_hosts q) = map hp_clients (p_hosts p) \<and> p_id q = p_id p \<and>
     map hp_config (p_hosts q) = map hp_config (p_hosts p) \<and> p_host_index q = p_host_index p \<and>
     p_closing q = p_closing p \<and> p_close_running q = p_close_running p \<and> p_closed q = p_closed p"

lemma same_clients_refl [simp]: "same_clients p p"
  by (simp add: same_clients_def)

lemma same_clients_at:
  assumes "same_clients p q"
  shows "at_pool q = at_pool p" and "at_pool p (i, c) \<Longrightarrow> client_at q i c = client_at p i c"
    and "all_clients q = all_clients p" and "addresses q = addresses p"
proof -
  from assms have c: "map hp_clients (p_hosts q) = map hp_clients (p_hosts p)"
    and f: "map hp_config (p_hosts q) = map hp_config (p_hosts p)" by (simp_all add: same_clients_def)
  then have len: "length (p_hosts q) = length (p_hosts p)" by (metis length_map)
  have nth: "hp_clients (p_hosts q ! i) = hp_clients (p_hosts p ! i)" if "i < length (p_hosts p)" for i
    using c len that by (metis nth_map)
  show "at_pool q = at_pool p" using len nth by (auto simp: fun_eq_iff at_pool_def)
  show "client_at q i c = client_at p i c" if "at_pool p (i, c)" using that nth by (simp add: at_pool_def client_at_def)
  have "map (\<lambda>h. map pc_value (hp_clients h)) (p_hosts q) = map (map pc_value) (map hp_clients (p_hosts q))" by simp
  also have "\<dots> = map (\<lambda>h. map pc_value (hp_clients h)) (p_hosts p)" unfolding c by simp
  finally show "all_clients q = all_clients p" by (simp add: all_clients_def)
  have "addresses q = map hcf_address (map hp_config (p_hosts q))" by (simp add: addresses_def)
  then show "addresses q = addresses p" unfolding f by (simp add: addresses_def)
qed

lemma same_clients_ok:
  assumes "same_clients p q"
  shows "leases_ok q ls = leases_ok p ls" "returned_ok q rs = returned_ok p rs"
    "generations_ok q n = generations_ok p n" "index_ok q = index_ok p"
proof -
  note at = same_clients_at [OF assms]
  have len: "length (p_hosts q) = length (p_hosts p)" using at(4) by (metis addresses_def length_map)
  show "leases_ok q ls = leases_ok p ls" unfolding leases_ok_def
    using at(1,2) assms by (simp add: same_clients_def cong: conj_cong)
  show "returned_ok q rs = returned_ok p rs" unfolding returned_ok_def
    using at(1,2) assms by (simp add: same_clients_def cong: conj_cong)
  show "generations_ok q n = generations_ok p n" unfolding generations_ok_def using at(1,2) by simp
  show "index_ok q = index_ok p" using at(4) len assms by (simp add: index_ok_def same_clients_def)
qed

section \<open>The pool's steps on clients\<close>

lemma map_update_same: "f y = f (xs ! i) \<Longrightarrow> map f (xs[i := y]) = map f xs"
  by (cases "i < length xs") (simp_all add: map_update list_update_same_conv list_update_beyond)

lemma same_clients_set_host:
  "hp_clients h = hp_clients (p_hosts p ! i) \<Longrightarrow> hp_config h = hp_config (p_hosts p ! i) \<Longrightarrow> same_clients p (set_host i h p)"
  by (simp add: same_clients_def map_update_same) (simp add: set_host_def)

lemma same_clients_report:
  "same_clients p (snd (report_success now later a p))" "same_clients p (snd (report_failure now a err p))"
  by (simp_all add: report_success_def report_failure_def same_clients_set_host split: option.split)

lemma same_clients_refresh_all: "same_clients p (p\<lparr>p_hosts := map (refresh_circuit now) (p_hosts p)\<rparr>)"
  by (simp add: same_clients_def)

lemma list_all_update: "list_all P xs \<Longrightarrow> (i < length xs \<Longrightarrow> P y) \<Longrightarrow> list_all P (xs[i := y])"
  by (cases "i < length xs") (auto simp: list_all_length nth_list_update)

lemma hosts_ok_report:
  assumes "list_all host_ok (p_hosts p)"
  shows "list_all host_ok (p_hosts (snd (report_success now later a p)))"
    and "list_all host_ok (p_hosts (snd (report_failure now a err p)))"
proof -
  have nth: "host_ok (p_hosts p ! i)" if "i < length (p_hosts p)" for i
    using assms that by (simp add: list_all_length)
  show "list_all host_ok (p_hosts (snd (report_success now later a p)))"
    using assms nth by (auto simp: report_success_def intro!: list_all_update host_ok_success split: option.split)
  show "list_all host_ok (p_hosts (snd (report_failure now a err p)))"
    using assms nth by (auto simp: report_failure_def intro!: list_all_update host_ok_failure split: option.split)
qed

lemma update_at:
  assumes "at_pool p (i, c)" and "hp_clients h = (hp_clients (p_hosts p ! i))[c := x]"
  shows "at_pool (set_host i h p) = at_pool p"
    and "at_pool p (j, d) \<Longrightarrow> client_at (set_host i h p) j d = (if (j, d) = (i, c) then x else client_at p j d)"
  using assms by (auto simp: fun_eq_iff at_pool_def client_at_def nth_list_update)

lemma leases_ok_take:
  fixes p :: "'c pool"
  assumes "leases_ok p ls" and "at_pool p (i, c)" and "\<not> pc_in_use (client_at p i c)"
    and p': "p' = set_host i (take_client c (p_hosts p ! i)) p"
  shows "leases_ok p' (lease_of p' i c # ls)"
proof -
  let ?pc = "client_at p i c"
  have u: "hp_clients (take_client c (p_hosts p ! i)) =
      (hp_clients (p_hosts p ! i))[c := ?pc\<lparr>pc_in_use := True, pc_generation := pc_generation ?pc + 1\<rparr>]"
    by (simp add: take_client_def client_at_def Let_def)
  note at = update_at [OF assms(2) u, folded p']
  have id: "p_id p' = p_id p" by (simp add: p' set_host_def)
  have l: "le_pool (lease_of p' i c) = Some (p_id p')" "le_ref (lease_of p' i c) = Some (i, c)"
    "le_generation (lease_of p' i c) = pc_generation (client_at p' i c)"
    by (simp_all add: lease_of_def Let_def client_at_def)
  have old: "Some (i, c) \<notin> set (map le_ref ls)"
    using assms(1,3) unfolding leases_ok_def by fastforce
  show ?thesis
    unfolding leases_ok_def
  proof (intro conjI ballI allI impI)
    fix k assume k: "k \<in> set (lease_of p' i c # ls)"
    then show "le_pool k = Some (p_id p')" using assms(1) l(1) id by (auto simp: leases_ok_def)
    show "\<exists>j d. le_ref k = Some (j, d) \<and> at_pool p' (j, d) \<and> pc_in_use (client_at p' j d) \<and>
        pc_generation (client_at p' j d) = le_generation k"
    proof (cases "k = lease_of p' i c")
      case True
      then show ?thesis using l at assms(2) by (intro exI [of _ i] exI [of _ c]) simp
    next
      case False
      then have kl: "k \<in> set ls" using k by simp
      with assms(1) obtain j d where jd: "le_ref k = Some (j, d)" "at_pool p (j, d)" "pc_in_use (client_at p j d)"
        "pc_generation (client_at p j d) = le_generation k" by (auto simp: leases_ok_def)
      moreover have "(j, d) \<noteq> (i, c)" using jd(1) kl old by force
      ultimately show ?thesis using at by (intro exI [of _ j] exI [of _ d]) auto
    qed
  next
    show "distinct (map le_ref (lease_of p' i c # ls))" using assms(1) old l(2) by (auto simp: leases_ok_def)
  next
    fix j d assume "at_pool p' (j, d) \<and> pc_in_use (client_at p' j d)"
    then show "Some (j, d) \<in> set (map le_ref (lease_of p' i c # ls))"
      using assms(1) at l(2) by (auto simp: leases_ok_def split: if_splits)
  qed
qed

lemma leases_ok_put:
  assumes "leases_ok p ls" and "l \<in> set ls" and "le_ref l = Some (i, c)" and "at_pool p (i, c)"
    and p': "p' = set_host i (put_client c (p_hosts p ! i)) p"
  shows "leases_ok p' (remove1 l ls)"
proof -
  have u: "hp_clients (put_client c (p_hosts p ! i)) = (hp_clients (p_hosts p ! i))[c := (client_at p i c)\<lparr>pc_in_use := False\<rparr>]"
    by (simp add: put_client_def client_at_def)
  note at = update_at [OF assms(4) u, folded p']
  have id: "p_id p' = p_id p" by (simp add: p' set_host_def)
  from assms(1) have d: "distinct (map le_ref ls)" by (simp add: leases_ok_def)
  then have rest: "set (remove1 l ls) = set ls - {l}" by (simp add: distinct_map set_remove1_eq)
  have other: "le_ref k \<noteq> Some (i, c)" if "k \<in> set ls" "k \<noteq> l" for k
    using that assms(2,3) d by (metis distinct_map inj_onD)
  show ?thesis
    unfolding leases_ok_def
  proof (intro conjI ballI allI impI)
    fix k assume "k \<in> set (remove1 l ls)"
    then have k: "k \<in> set ls" "k \<noteq> l" using rest by auto
    then show "le_pool k = Some (p_id p')" using assms(1) id by (auto simp: leases_ok_def)
    from k(1) assms(1) obtain j e where "le_ref k = Some (j, e)" "at_pool p (j, e)" "pc_in_use (client_at p j e)"
      "pc_generation (client_at p j e) = le_generation k" by (auto simp: leases_ok_def)
    then show "\<exists>j e. le_ref k = Some (j, e) \<and> at_pool p' (j, e) \<and> pc_in_use (client_at p' j e) \<and>
        pc_generation (client_at p' j e) = le_generation k"
      using at other [OF k] by (intro exI [of _ j] exI [of _ e]) auto
  next
    show "distinct (map le_ref (remove1 l ls))" using d by (simp add: distinct_map set_remove1_eq inj_on_diff)
  next
    fix j e assume "at_pool p' (j, e) \<and> pc_in_use (client_at p' j e)"
    then have je: "at_pool p (j, e)" "pc_in_use (client_at p j e)" "(j, e) \<noteq> (i, c)"
      using at by (auto split: if_splits)
    then have "Some (j, e) \<in> le_ref ` set ls" using assms(1) by (auto simp: leases_ok_def)
    then obtain k where k: "k \<in> set ls" "le_ref k = Some (j, e)" by auto
    then have "k \<noteq> l" using assms(3) je(3) by auto
    then show "Some (j, e) \<in> set (map le_ref (remove1 l ls))" using k rest by force
  qed
qed

lemma generations_take:
  assumes "generations_ok p n" and "n + 1 < 2 ^ 64" and "at_pool p (i, c)"
    and p': "p' = set_host i (take_client c (p_hosts p ! i)) p"
  shows "generations_ok p' (n + 1)"
    and "returned_ok p rs \<Longrightarrow> returned_ok p' rs"
proof -
  let ?pc = "client_at p i c"
  have u: "hp_clients (take_client c (p_hosts p ! i)) =
      (hp_clients (p_hosts p ! i))[c := ?pc\<lparr>pc_in_use := True, pc_generation := pc_generation ?pc + 1\<rparr>]"
    by (simp add: take_client_def client_at_def Let_def)
  note at = update_at [OF assms(3) u, folded p']
  have g: "unat (pc_generation ?pc) \<le> n" using assms(1,3) by (simp add: generations_ok_def)
  have up: "unat (pc_generation ?pc + 1) = unat (pc_generation ?pc) + 1"
  proof -
    have "unat (pc_generation ?pc) + 1 < 2 ^ LENGTH(64)" using g assms(2) by simp
    then show ?thesis by (simp add: unat_word_ariths)
  qed
  show "generations_ok p' (n + 1)"
    unfolding generations_ok_def using assms(1) at up g by (auto simp: generations_ok_def intro: le_SucI)
  have id: "p_id p' = p_id p" by (simp add: p' set_host_def)
  show "returned_ok p' rs" if "returned_ok p rs"
    unfolding returned_ok_def
  proof (intro ballI conjI)
    fix l assume "l \<in> set rs"
    with that show "le_pool l = Some (p_id p')" by (simp add: returned_ok_def id)
    from that \<open>l \<in> set rs\<close> obtain j d where l: "le_ref l = Some (j, d)" "at_pool p (j, d)"
      "unat (le_generation l) < unat (pc_generation (client_at p j d)) \<or>
       le_generation l = pc_generation (client_at p j d) \<and> \<not> pc_in_use (client_at p j d)"
      by (auto simp: returned_ok_def)
    then show "\<exists>j d. le_ref l = Some (j, d) \<and> at_pool p' (j, d) \<and>
       (unat (le_generation l) < unat (pc_generation (client_at p' j d)) \<or>
        le_generation l = pc_generation (client_at p' j d) \<and> \<not> pc_in_use (client_at p' j d))"
      using at up by (intro exI [of _ j] exI [of _ d]) auto
  qed
qed

lemma generations_put:
  assumes "at_pool p (i, c)" and "pc_in_use (client_at p i c)"
    and p': "p' = set_host i (put_client c (p_hosts p ! i)) p"
  shows "generations_ok p' n = generations_ok p n"
    and "returned_ok p rs \<Longrightarrow> le_pool l = Some (p_id p) \<Longrightarrow> le_ref l = Some (i, c) \<Longrightarrow> le_generation l = pc_generation (client_at p i c) \<Longrightarrow>
      returned_ok p' (l # rs)"
proof -
  have u: "hp_clients (put_client c (p_hosts p ! i)) = (hp_clients (p_hosts p ! i))[c := (client_at p i c)\<lparr>pc_in_use := False\<rparr>]"
    by (simp add: put_client_def client_at_def)
  note at = update_at [OF assms(1) u, folded p']
  show "generations_ok p' n = generations_ok p n" using at assms(1) by (auto simp: generations_ok_def)
  have id: "p_id p' = p_id p" by (simp add: p' set_host_def)
  show "returned_ok p' (l # rs)" if "returned_ok p rs" "le_pool l = Some (p_id p)" "le_ref l = Some (i, c)"
    "le_generation l = pc_generation (client_at p i c)"
    unfolding returned_ok_def
  proof (intro ballI conjI)
    fix k assume k: "k \<in> set (l # rs)"
    then show "le_pool k = Some (p_id p')" using that by (auto simp: returned_ok_def id)
    from k consider "k = l" | "k \<in> set rs" by auto
    then show "\<exists>j d. le_ref k = Some (j, d) \<and> at_pool p' (j, d) \<and>
       (unat (le_generation k) < unat (pc_generation (client_at p' j d)) \<or>
        le_generation k = pc_generation (client_at p' j d) \<and> \<not> pc_in_use (client_at p' j d))"
    proof cases
      case 1
      then show ?thesis using that at assms(1) by (intro exI [of _ i] exI [of _ c]) simp
    next
      case 2
      with that(1) obtain j d where "le_ref k = Some (j, d)" "at_pool p (j, d)"
        "unat (le_generation k) < unat (pc_generation (client_at p j d)) \<or>
         le_generation k = pc_generation (client_at p j d) \<and> \<not> pc_in_use (client_at p j d)"
        by (auto simp: returned_ok_def)
      then show ?thesis using at assms(2) by (intro exI [of _ j] exI [of _ d]) auto
    qed
  qed
qed

lemma can_acquire_next: "can_acquire (h\<lparr>hp_next_client := n\<rparr>) = can_acquire h"
  by (simp add: can_acquire_def cong: circuit_state.case_cong)

lemma acquire_step:
  assumes "acquire_turn ctx now p = (Inr (Leased l), p')" and "list_all host_ok (p_hosts p)"
  obtains q i c where "same_clients p q" "list_all host_ok (p_hosts q)" "at_pool q (i, c)"
    "\<not> pc_in_use (client_at q i c)" "can_acquire (p_hosts q ! i)"
    "p' = set_host i (take_client c (p_hosts q ! i)) q" "l = lease_of p' i c" "\<not> p_closed p" "\<not> p_closing p"
proof -
  obtain i c q where a: "next_available now p = (Some (i, c), q)" "\<not> p_closed p" "\<not> p_closing p"
    "p' = set_host i (take_client c (p_hosts q ! i)) q" "l = lease_of p' i c"
    using acquire_Leased [OF assms(1)] by metis
  obtain pre post where n: "i < length (p_hosts p)" "can_acquire (refresh_circuit now (p_hosts p ! i))"
    "c < length (hp_clients (p_hosts p ! i))" "\<not> pc_in_use (hp_clients (p_hosts p ! i) ! c)"
    "q = p\<lparr>p_hosts := (refresh_at now (set (pre @ [i])) (p_hosts p))[i := (refresh_circuit now (p_hosts p ! i))
              \<lparr>hp_next_client := (c + 1) mod length (hp_clients (p_hosts p ! i))\<rparr>],
            p_next_host := (i + 1) mod length (p_hosts p)\<rparr>"
    using next_available_Some [OF a(1)] by metis
  have len: "length (p_hosts q) = length (p_hosts p)" by (simp add: n(5))
  have nth: "p_hosts q ! j = (if j = i then (refresh_circuit now (p_hosts p ! i))
        \<lparr>hp_next_client := (c + 1) mod length (hp_clients (p_hosts p ! i))\<rparr>
      else if j \<in> set (pre @ [i]) then refresh_circuit now (p_hosts p ! j) else p_hosts p ! j)"
    if "j < length (p_hosts p)" for j using that n(1) by (simp add: n(5) nth_list_update)
  have ok: "list_all host_ok (p_hosts q)"
    using assms(2) nth by (auto simp: list_all_length len host_ok_next)
  have frame: "p_id q = p_id p" "p_host_index q = p_host_index p" "p_closing q = p_closing p"
    "p_close_running q = p_close_running p" "p_closed q = p_closed p" by (simp_all add: n(5))
  have "map hp_clients (p_hosts q) = map hp_clients (p_hosts p)" "map hp_config (p_hosts q) = map hp_config (p_hosts p)"
    using nth len by (simp_all add: list_eq_iff_nth_eq)
  with frame have "same_clients p q" by (simp add: same_clients_def)
  moreover have "can_acquire (p_hosts q ! i)" using n(1,2) nth by (simp add: can_acquire_next)
  moreover have "at_pool q (i, c)" "\<not> pc_in_use (client_at q i c)"
    using n(1,3,4) nth len by (simp_all add: at_pool_def client_at_def)
  ultimately show ?thesis using that ok a(2-5) by blast
qed

lemma acquire_other:
  assumes "acquire_turn ctx now p = (r, p')" and "\<nexists>l. r = Inr (Leased l)" and "list_all host_ok (p_hosts p)"
  shows "same_clients p p' \<and> list_all host_ok (p_hosts p')"
proof -
  consider "p' = p" | "next_available now p = (None, p')"
    using assms(1,2) by (auto simp: acquire_turn_def Let_def split: if_splits option.splits prod.splits)
  then show ?thesis
  proof cases
    case 2
    from next_available_None [OF 2] assms(3) show ?thesis
      by (auto simp: list_all_iff same_clients_def)
  qed (simp add: assms(3))
qed

lemma release_Inr:
  assumes "release (Some l) p = (Inr (), p')"
  obtains i c where "le_pool l = Some (p_id p)" "le_ref l = Some (i, c)" "pc_in_use (client_at p i c)"
    "pc_generation (client_at p i c) = le_generation l" "p' = set_host i (put_client c (p_hosts p ! i)) p"
  using assms by (auto simp: release_def Let_def client_at_def split: if_splits option.splits)

lemma release_Inl: "release lo p = (Inl e, p') \<Longrightarrow> p' = p"
  by (auto simp: release_def Let_def split: if_splits option.splits)

section \<open>The invariant holds\<close>

definition inv_state :: "'c machine \<Rightarrow> bool" where
  "inv_state m \<longleftrightarrow> machine_ok m \<and> returned_ok (pm_pool m) (pm_returned m) \<and> generations_ok (pm_pool m) (pm_acquires m)"

lemma same_clients_finisher:
  "same_clients (pm_pool m) q \<Longrightarrow> finisher_ok (m\<lparr>pm_pool := q\<rparr>) = finisher_ok m"
  using same_clients_at(3) [of "pm_pool m" q]
  by (simp add: finisher_ok_def same_clients_def cong: finisher.case_cong)

lemma inv_same_clients:
  assumes "inv_state m" and "same_clients (pm_pool m) q" and "list_all host_ok (p_hosts q)"
  shows "inv_state (m\<lparr>pm_pool := q\<rparr>)"
  using assms same_clients_ok [OF assms(2)] same_clients_finisher [OF assms(2)]
  by (simp add: inv_state_def machine_ok_def)

lemma total_zero_no_lease:
  assumes "list_all host_ok (p_hosts p)" and "\<not> 0 < total_in_flight p" and "leases_ok p ls"
  shows "ls = []"
proof (rule ccontr)
  assume "ls \<noteq> []"
  then obtain l where "l \<in> set ls" by (cases ls) auto
  with assms(3) obtain i c where ic: "at_pool p (i, c)" "pc_in_use (client_at p i c)"
    unfolding leases_ok_def by blast
  let ?h = "p_hosts p ! i"
  have h: "?h \<in> set (p_hosts p)" using ic(1) by (simp add: at_pool_def)
  have "0 < in_use_count ?h"
    using ic by (intro in_use_positive [of c]) (simp_all add: at_pool_def client_at_def)
  then have pos: "0 < hp_in_flight ?h" using assms(1) h by (auto simp: list_all_iff host_ok_def)
  have "0 \<le> hp_in_flight h" if "h \<in> set (p_hosts p)" for h
    using assms(1) that by (auto simp: list_all_iff host_ok_def)
  then have "hp_in_flight ?h \<le> total_in_flight p"
    unfolding total_in_flight_def using h by (intro member_le_sum_list) auto
  then show False using pos assms(2) by simp
qed

lemma values_put: "map pc_value (hp_clients (put_client c h)) = map pc_value (hp_clients h)"
  by (simp add: put_client_def map_update_same)

lemma all_clients_set_host:
  "map pc_value (hp_clients h) = map pc_value (hp_clients (p_hosts p ! i)) \<Longrightarrow> all_clients (set_host i h p) = all_clients p"
  by (simp add: all_clients_def map_update_same)

lemma index_set_host:
  "hp_config h = hp_config (p_hosts p ! i) \<Longrightarrow> index_ok (set_host i h p) = index_ok p"
  by (simp add: index_ok_def addresses_def map_update_same) (simp add: set_host_def)

lemma inv_acquire:
  assumes inv: "inv_state m" and a: "acquire_turn ctx now (pm_pool m) = (Inr (Leased l), p')"
    and n: "pm_acquires m + 1 < 2 ^ 64"
  shows "inv_state (m\<lparr>pm_pool := p', pm_leases := l # pm_leases m, pm_acquires := pm_acquires m + 1\<rparr>)"
proof -
  from inv have ok: "list_all host_ok (p_hosts (pm_pool m))" by (simp add: inv_state_def machine_ok_def)
  obtain q i c where q: "same_clients (pm_pool m) q" "list_all host_ok (p_hosts q)" "at_pool q (i, c)"
    "\<not> pc_in_use (client_at q i c)" "can_acquire (p_hosts q ! i)"
    "p' = set_host i (take_client c (p_hosts q ! i)) q" "l = lease_of p' i c"
    "\<not> p_closed (pm_pool m)" "\<not> p_closing (pm_pool m)"
    by (rule acquire_step [OF a ok])
  have inv_q: "inv_state (m\<lparr>pm_pool := q\<rparr>)" using inv q(1,2) by (rule inv_same_clients)
  then have lo: "leases_ok q (pm_leases m)" and ro: "returned_ok q (pm_returned m)"
    and go: "generations_ok q (pm_acquires m)" and io: "index_ok q"
    by (simp_all add: inv_state_def machine_ok_def)
  have "host_ok (p_hosts q ! i)" using q(2,3) by (simp add: list_all_length at_pool_def)
  then have "host_ok (take_client c (p_hosts q ! i))"
    using q(3-5) by (intro host_ok_take) (simp_all add: at_pool_def client_at_def)
  then have hosts: "list_all host_ok (p_hosts p')" using q(2) by (simp add: q(6) list_all_update)
  have "leases_ok p' (l # pm_leases m)" unfolding q(7) using lo q(3,4,6) by (rule leases_ok_take)
  moreover have "index_ok p'" unfolding q(6) using io by (simp add: index_set_host take_client_def Let_def)
  moreover have "\<not> p_closed p'" "\<not> p_closing p'" "p_close_running p' = p_close_running (pm_pool m)"
    using q(1,8,9) by (simp_all add: q(6) set_host_def same_clients_def)
  then have "finisher_ok (m\<lparr>pm_pool := p', pm_leases := l # pm_leases m, pm_acquires := pm_acquires m + 1\<rparr>)"
    using inv q(8,9) by (auto simp: inv_state_def machine_ok_def finisher_ok_def split: finisher.splits)
  ultimately show ?thesis
    using hosts generations_take [OF go n q(3,6)] ro by (simp add: inv_state_def machine_ok_def)
qed

lemma inv_release:
  assumes inv: "inv_state m" and l: "l \<in> set (pm_leases m @ pm_returned m)"
    and r: "release (Some l) (pm_pool m) = (Inr (), p')"
  shows "inv_state (m\<lparr>pm_pool := p', pm_leases := remove1 l (pm_leases m), pm_returned := l # pm_returned m\<rparr>)"
    and "l \<in> set (pm_leases m)"
proof -
  let ?p = "pm_pool m"
  obtain i c where lp: "le_pool l = Some (p_id ?p)" and ic: "le_ref l = Some (i, c)" "pc_in_use (client_at ?p i c)"
    "pc_generation (client_at ?p i c) = le_generation l" "p' = set_host i (put_client c (p_hosts ?p ! i)) ?p"
    by (rule release_Inr [OF r])
  from inv have ok: "list_all host_ok (p_hosts ?p)" "leases_ok ?p (pm_leases m)" "finisher_ok m" "index_ok ?p"
    "returned_ok ?p (pm_returned m)" "generations_ok ?p (pm_acquires m)"
    by (simp_all add: inv_state_def machine_ok_def)
  have "l \<notin> set (pm_returned m)" using ok(5) ic by (auto simp: returned_ok_def)
  then show ll: "l \<in> set (pm_leases m)" using l by simp
  then have at: "at_pool ?p (i, c)" using ok(2) ic(1) by (auto simp: leases_ok_def)
  have "host_ok (put_client c (p_hosts ?p ! i))"
    using at ic(2) ok(1) by (intro host_ok_put) (simp_all add: at_pool_def client_at_def list_all_length)
  then have hosts: "list_all host_ok (p_hosts p')" using ok(1) by (simp add: ic(4) list_all_update)
  have lo: "leases_ok p' (remove1 l (pm_leases m))" using ok(2) ll ic(1) at ic(4) by (rule leases_ok_put)
  have ac: "all_clients p' = all_clients ?p" unfolding ic(4) by (rule all_clients_set_host) (rule values_put)
  have io: "index_ok p'" unfolding ic(4) using ok(4) by (simp add: index_set_host put_client_def)
  have ne: "pm_leases m \<noteq> []" using ll by auto
  have same: "p_closed p' = p_closed ?p" "p_closing p' = p_closing ?p" "p_close_running p' = p_close_running ?p"
    by (simp_all add: ic(4) set_host_def)
  have "finisher_ok (m\<lparr>pm_pool := p', pm_leases := remove1 l (pm_leases m), pm_returned := l # pm_returned m\<rparr>)"
    using ok(3) ne by (auto simp: finisher_ok_def same ac split: finisher.splits if_splits)
  then show "inv_state (m\<lparr>pm_pool := p', pm_leases := remove1 l (pm_leases m), pm_returned := l # pm_returned m\<rparr>)"
    using hosts lo io ok(6) generations_put(1) [OF at ic(2,4)]
      generations_put(2) [OF at ic(2,4) ok(5) lp ic(1) ic(3) [symmetric]]
    by (simp add: inv_state_def machine_ok_def)
qed

lemma finish_turn_pool:
  "finish_close_turn ctx p = (t, q) \<Longrightarrow> p_closing p \<Longrightarrow> p_close_running p \<Longrightarrow> q = p"
  by (auto simp: finish_close_turn_def schedule_background_close_def split: option.splits if_splits)

lemma inv_step:
  assumes "pool_step m m'" and "inv_state m" and "pm_acquires m' < 2 ^ 64"
  shows "inv_state m'"
  using assms
proof (induction rule: pool_step.induct)
  case (step_acquire ctx now m l p')
  then show ?case by (intro inv_acquire) simp_all
next
  case (step_acquire_waits ctx now m w p')
  then have "list_all host_ok (p_hosts (pm_pool m))" by (simp add: inv_state_def machine_ok_def)
  then show ?case using acquire_other [OF step_acquire_waits(1)] step_acquire_waits(2) by (auto intro: inv_same_clients)
next
  case (step_acquire_fails ctx now m e p')
  then have "list_all host_ok (p_hosts (pm_pool m))" by (simp add: inv_state_def machine_ok_def)
  then show ?case using acquire_other [OF step_acquire_fails(1)] step_acquire_fails(2) by (auto intro: inv_same_clients)
next
  case (step_release l m p')
  then show ?case by (intro inv_release(1))
next
  case (step_release_fails lo m e p')
  then show ?case using release_Inl by fastforce
next
  case (step_success m now later a)
  then show ?case
    by (intro inv_same_clients same_clients_report hosts_ok_report) (simp_all add: inv_state_def machine_ok_def)
next
  case (step_failure m now a err)
  then show ?case
    by (intro inv_same_clients same_clients_report hosts_ok_report) (simp_all add: inv_state_def machine_ok_def)
next
  case (step_snapshot m now)
  then show ?case
    by (intro inv_same_clients)
      (auto simp: health_snapshot_of_def Let_def same_clients_refresh_all inv_state_def machine_ok_def list_all_iff)
next
  case (step_close m p')
  then have c: "\<not> p_closed (pm_pool m)" "\<not> p_close_running (pm_pool m)"
    "p' = (pm_pool m)\<lparr>p_closing := True, p_close_running := True\<rparr>"
    by (auto simp: close_begin_def split: if_splits)
  then have "pm_shut m = []" using step_close
    by (auto simp: inv_state_def machine_ok_def finisher_ok_def split: finisher.splits)
  with step_close c show ?case
    by (simp add: inv_state_def machine_ok_def finisher_ok_def leases_ok_def returned_ok_def generations_ok_def
        index_ok_def addresses_def at_pool_def client_at_def)
next
  case (step_drain m ctx t p')
  then have "p' = pm_pool m"
    by (intro finish_turn_pool) (auto simp: inv_state_def machine_ok_def finisher_ok_def)
  then show ?case using step_drain by simp
next
  case (step_collect m ctx cs p')
  then have p: "p' = pm_pool m"
    by (intro finish_turn_pool) (auto simp: inv_state_def machine_ok_def finisher_ok_def)
  have t: "\<not> 0 < total_in_flight (pm_pool m)" "cs = all_clients (pm_pool m)"
    using step_collect(2) by (auto simp: finish_close_turn_def split: option.splits if_splits)
  have "pm_leases m = []"
    using step_collect t(1) by (intro total_zero_no_lease) (auto simp: inv_state_def machine_ok_def)
  then show ?case using step_collect p t(2)
    by (auto simp: inv_state_def machine_ok_def finisher_ok_def)
next
  case (step_shut m c cs)
  then show ?case by (auto simp: inv_state_def machine_ok_def finisher_ok_def)
next
  case (step_closed m errs)
  then show ?case
    by (auto simp: inv_state_def machine_ok_def finisher_ok_def finish_close_done_def leases_ok_def returned_ok_def
        generations_ok_def index_ok_def addresses_def at_pool_def client_at_def all_clients_def)
qed

lemma step_acquires: "pool_step m m' \<Longrightarrow> pm_acquires m \<le> pm_acquires m'"
  by (induction rule: pool_step.induct) simp_all

lemma inv_start: "pool_new_ok p \<Longrightarrow> inv_state (machine_start p)"
  by (auto simp: inv_state_def machine_ok_def machine_start_def pool_new_ok_def finisher_ok_def leases_ok_def
      returned_ok_def generations_ok_def at_pool_def client_at_def list_all_length)

lemma reach_inv: "pool_reach m \<Longrightarrow> pm_acquires m < 2 ^ 64 \<Longrightarrow> inv_state m"
proof (induction rule: pool_reach.induct)
  case (reach_step m m')
  then show ?case using inv_step step_acquires by (metis order_le_less_trans)
qed (rule inv_start)

section \<open>Properties\<close>

text \<open>
  C6: a client is never leased twice at the same time.  In every state the pool can reach, under any interleaving
  of acquires, releases (of leases out or already returned), reports, snapshots and a close, and as
  long as fewer than two to the power of 64 leases were given out: each lease that is out holds an existing client
  in use, no two leases hold the same client, every client in use is held by a lease, each host's
  counter counts its clients in use, and a half-open probe is the only client of its host in flight.
\<close>

theorem leases_exclusive:
  assumes "pool_reach m" and "pm_acquires m < 2 ^ 64"
  shows "distinct (map le_ref (pm_leases m)) \<and>
    (\<forall>i c. (at_pool (pm_pool m) (i, c) \<and> pc_in_use (client_at (pm_pool m) i c)) =
       (Some (i, c) \<in> le_ref ` set (pm_leases m))) \<and>
    list_all (\<lambda>h. hp_in_flight h = int (in_use_count h) \<and>
       (\<not> hp_probe h \<or> hp_circuit h = CircuitHalfOpen \<and> hp_in_flight h = 1)) (p_hosts (pm_pool m))"
proof -
  have inv: "inv_state m" using assms by (rule reach_inv)
  then have lo: "leases_ok (pm_pool m) (pm_leases m)" and ho: "list_all host_ok (p_hosts (pm_pool m))"
    by (simp_all add: inv_state_def machine_ok_def)
  have "(at_pool (pm_pool m) (i, c) \<and> pc_in_use (client_at (pm_pool m) i c)) =
      (Some (i, c) \<in> le_ref ` set (pm_leases m))" for i c
    using lo unfolding leases_ok_def by force
  moreover have "list_all (\<lambda>h. hp_in_flight h = int (in_use_count h) \<and>
       (\<not> hp_probe h \<or> hp_circuit h = CircuitHalfOpen \<and> hp_in_flight h = 1)) (p_hosts (pm_pool m))"
    using ho by (auto simp: list_all_iff host_ok_def)
  ultimately show ?thesis using lo by (simp add: leases_ok_def)
qed

definition sample_ready :: "nat pool" where
  "sample_ready = sample_pool CircuitClosed zero_time"

lemma sample_ready_new: "pool_new_ok sample_ready"
  by (auto simp: sample_ready_def sample_pool_def pool_new_ok_def index_ok_def addresses_def empty_pool_def new_host_def
      host_ok_def in_use_count_def)

lemma sample_ready_acquire:
  "\<exists>l p'. acquire_turn None zero_time sample_ready = (Inr (Leased l), p')"
proof -
  have "\<exists>h \<in> set (p_hosts sample_ready). available (refresh_circuit zero_time h)"
    by (simp add: sample_ready_def sample_pool_def available_def can_acquire_def refresh_circuit_def idle_clients_def
        new_host_def)
  then show ?thesis using acquire_leases_equiv [of sample_ready zero_time]
    by (metis prod.collapse sample_pool_simps(1,2) sample_ready_def)
qed

text \<open>A machine with one lease out.\<close>

lemma sample_machine:
  obtains l p' where "acquire_turn None zero_time sample_ready = (Inr (Leased l), p')"
    and "pool_reach (machine_start sample_ready\<lparr>pm_pool := p', pm_leases := [l], pm_acquires := 1\<rparr>)"
proof -
  obtain l p' where a: "acquire_turn None zero_time sample_ready = (Inr (Leased l), p')"
    using sample_ready_acquire by blast
  have "pool_step (machine_start sample_ready)
      ((machine_start sample_ready)\<lparr>pm_pool := p', pm_leases := l # pm_leases (machine_start sample_ready),
        pm_acquires := pm_acquires (machine_start sample_ready) + 1\<rparr>)"
    by (rule pool_step.step_acquire [of None zero_time]) (simp add: machine_start_def a)
  then have "pool_reach ((machine_start sample_ready)\<lparr>pm_pool := p', pm_leases := l # pm_leases (machine_start sample_ready),
        pm_acquires := pm_acquires (machine_start sample_ready) + 1\<rparr>)"
    using reach_start [OF sample_ready_new] by (rule reach_step [rotated])
  then show ?thesis using that a by (simp add: machine_start_def)
qed

theorem leases_exclusive_witness:
  "\<exists>m :: nat machine. pool_reach m \<and> length (pm_leases m) = 1 \<and> distinct (map le_ref (pm_leases m))"
proof -
  obtain l p' where r: "pool_reach (machine_start sample_ready\<lparr>pm_pool := p', pm_leases := [l], pm_acquires := 1\<rparr>)"
    by (rule sample_machine)
  have "distinct (map le_ref (pm_leases (machine_start sample_ready\<lparr>pm_pool := p', pm_leases := [l], pm_acquires := 1\<rparr>)))"
    using leases_exclusive [OF r] by simp
  with r show ?thesis by (intro exI [of _ "machine_start sample_ready\<lparr>pm_pool := p', pm_leases := [l], pm_acquires := 1\<rparr>"])
    simp
qed

text \<open>
  C7: a lease is good for one release.  In every reachable state (with fewer than two to the power of 64 leases given
  out so far) a lease that is out is accepted, and a lease that was returned is refused as already released and changes nothing, even
  when its client has been leased to someone else since.
\<close>

theorem release_once:
  assumes "pool_reach m" and "pm_acquires m < 2 ^ 64"
  shows "list_all (\<lambda>l. fst (release (Some l) (pm_pool m)) = Inr ()) (pm_leases m) \<and>
    list_all (\<lambda>l. release (Some l) (pm_pool m) = (Inl ErrLeaseReleased, pm_pool m)) (pm_returned m)"
proof -
  have inv: "inv_state m" using assms by (rule reach_inv)
  then have lo: "leases_ok (pm_pool m) (pm_leases m)" and ro: "returned_ok (pm_pool m) (pm_returned m)"
    by (simp_all add: inv_state_def machine_ok_def)
  have "fst (release (Some l) (pm_pool m)) = Inr ()" if l: "l \<in> set (pm_leases m)" for l
  proof -
    from lo l obtain i c where "le_pool l = Some (p_id (pm_pool m))" "le_ref l = Some (i, c)"
      "pc_in_use (client_at (pm_pool m) i c)" "pc_generation (client_at (pm_pool m) i c) = le_generation l"
      by (auto simp: leases_ok_def)
    then show ?thesis by (simp add: release_def Let_def client_at_def)
  qed
  moreover have "release (Some l) (pm_pool m) = (Inl ErrLeaseReleased, pm_pool m)" if l: "l \<in> set (pm_returned m)" for l
  proof -
    from ro l obtain i c where "le_pool l = Some (p_id (pm_pool m))" "le_ref l = Some (i, c)"
      "\<not> pc_in_use (client_at (pm_pool m) i c) \<or> pc_generation (client_at (pm_pool m) i c) \<noteq> le_generation l"
      by (fastforce simp: returned_ok_def)
    then show ?thesis by (simp add: release_def Let_def client_at_def)
  qed
  ultimately show ?thesis by (simp add: list_all_iff)
qed

theorem release_once_witness:
  "\<exists>(m :: nat machine) l. pm_leases m = [l] \<and> fst (release (Some l) (pm_pool m)) = Inr ()"
proof -
  obtain l p' where r: "pool_reach (machine_start sample_ready\<lparr>pm_pool := p', pm_leases := [l], pm_acquires := 1\<rparr>)"
    by (rule sample_machine)
  let ?m = "machine_start sample_ready\<lparr>pm_pool := p', pm_leases := [l], pm_acquires := 1\<rparr>"
  have "list_all (\<lambda>l. fst (release (Some l) (pm_pool ?m)) = Inr ()) (pm_leases ?m)"
    using release_once [OF r] by simp
  then show ?thesis by (intro exI [of _ ?m] exI [of _ l]) simp
qed

text \<open>
  C8: \<open>Close\<close> closes every client once, and none that is leased.  In every reachable state the clients closed so
  far are a prefix of the pool's clients; when the first is closed, no lease is out and none is given out
  any more; when the pool reports closed, all are closed.
\<close>

theorem close_exactly_once:
  assumes "pool_reach m" and "pm_acquires m < 2 ^ 64"
  shows "(\<exists>rest. all_clients (pm_pool m) = pm_shut m @ rest) \<and>
    (pm_shut m = [] \<or> pm_leases m = [] \<and> fst (acquire_turn ctx now (pm_pool m)) = Inl ErrPoolClosed) \<and>
    (\<not> p_closed (pm_pool m) \<or> pm_shut m = all_clients (pm_pool m) \<and> pm_leases m = [])"
proof -
  have f: "finisher_ok m" using reach_inv [OF assms] by (simp add: inv_state_def machine_ok_def)
  have "\<exists>rest. all_clients (pm_pool m) = pm_shut m @ rest"
  proof (cases "pm_finisher m")
    case (Closing cs)
    then have "pm_shut m @ cs = all_clients (pm_pool m)" using f by (simp add: finisher_ok_def)
    then show ?thesis by metis
  qed (use f in \<open>auto simp: finisher_ok_def split: if_splits\<close>)
  then show ?thesis
    using f by (cases "pm_finisher m") (auto simp: finisher_ok_def acquire_turn_def split: if_splits)
qed

text \<open>The pool of the samples, closed: the close starts, collects, closes its one client and ends.\<close>

theorem close_exactly_once_witness:
  "\<exists>m :: nat machine. pool_reach m \<and> p_closed (pm_pool m) \<and> pm_shut m = [7] \<and> pm_shut m = all_clients (pm_pool m)"
proof -
  let ?p = "sample_ready\<lparr>p_closing := True, p_close_running := True\<rparr>"
  let ?m0 = "machine_start sample_ready" and ?m1 = "(machine_start sample_ready)\<lparr>pm_pool := ?p, pm_finisher := Draining\<rparr>"
  let ?m2 = "?m1\<lparr>pm_finisher := Closing [7]\<rparr>"
  let ?m3 = "?m2\<lparr>pm_finisher := Closing [], pm_shut := [7]\<rparr>"
  let ?m4 = "?m3\<lparr>pm_pool := finish_close_done [] ?p, pm_finisher := FinisherIdle\<rparr>"
  have c: "close_begin (pm_pool ?m0) = (CloseStarts, ?p)"
    by (simp add: close_begin_def machine_start_def sample_ready_def sample_pool_def empty_pool_def)
  have f: "finish_close_turn None (pm_pool ?m1) = (FinishCloses [7], ?p)"
    by (simp add: finish_close_turn_def total_in_flight_def all_clients_def sample_ready_def sample_pool_def new_host_def)
  have s1: "pool_step ?m0 ?m1" using pool_step.step_close [OF c] by simp
  have s2: "pool_step ?m1 ?m2" using pool_step.step_collect [of ?m1 None "[7]" ?p] f by simp
  have s3: "pool_step ?m2 ?m3" using pool_step.step_shut [of ?m2 7 "[]"] by (simp add: machine_start_def)
  have s4: "pool_step ?m3 ?m4" using pool_step.step_closed [of ?m3 "[]"] by simp
  have r: "pool_reach ?m4" by (rule reach_step [OF reach_step [OF reach_step [OF reach_step [OF reach_start [OF sample_ready_new] s1] s2] s3] s4])
  have "p_closed (pm_pool ?m4)" by (simp add: finish_close_done_def)
  moreover have "pm_shut ?m4 = all_clients (pm_pool ?m4)"
    using close_exactly_once [OF r] calculation by (simp add: machine_start_def)
  ultimately show ?thesis using r by (intro exI [of _ ?m4]) simp
qed

end
