(* ===== verification/Bar_Coverage.thy ===== *)
theory Bar_Coverage
  imports History_Store
begin

text \<open>
  The pure half of \<^verbatim>\<open>internal/service/market_data.go\<close> that decides which bars a request needs: the filter by
  date, the gaps of a daily range, whether local or cached bars cover a request, the merge of
  local and fetched bars, and the window by start and count.
\<close>

section \<open>Definitions\<close>

definition max_daily_bar_gap :: int where
  "max_daily_bar_gap = 21 * 24 * 3600 * second"

definition filter_bars_by_date :: "bar list \<Rightarrow> gotime \<Rightarrow> gotime \<Rightarrow> bar list" where
  "filter_bars_by_date bars start_date end_date =
     (let start = normalize_date start_date; till = end_date in
      filter (\<lambda>b. \<not> (\<not> is_zero start \<and> before (b_time b) start) \<and> \<not> (\<not> is_zero till \<and> after (b_time b) till)) bars)"

record bar_gap =
  g_start :: gotime
  g_end :: gotime

text \<open>The loop over neighbours: \<open>prev\<close> is the normalised date of the bar before the rest.\<close>

fun gap_scan :: "gotime \<Rightarrow> bar list \<Rightarrow> bar_gap list" where
  "gap_scan prev [] = []"
| "gap_scan prev (b # bs) =
     (let next = normalize_date (b_time b) in
      (if is_zero prev \<or> is_zero next \<or> \<not> after next prev then []
       else if time_sub next prev > max_daily_bar_gap
       then [\<lparr>g_start = add_days prev 1, g_end = add_days next (- 1)\<rparr>] else [])
      @ gap_scan next bs)"

definition bar_gaps_for_request :: "bar list \<Rightarrow> kline_request \<Rightarrow> bar_gap list" where
  "bar_gaps_for_request bars req =
     (if k_period req \<noteq> PeriodDay \<or> is_zero (k_start_date req) \<or> is_zero (k_end_date req) then []
      else let start = normalize_date (k_start_date req); till = normalize_date (k_end_date req) in
        if is_zero start \<or> is_zero till \<or> before till start then []
        else let in_range = filter_bars_by_date bars start till in
          if in_range = [] then [\<lparr>g_start = start, g_end = till\<rparr>]
          else let first = normalize_date (b_time (hd in_range)); final = normalize_date (b_time (last in_range)) in
            (if after first start then [\<lparr>g_start = start, g_end = add_days first (- 1)\<rparr>] else [])
            @ gap_scan first (tl in_range)
            @ (if after till final \<and> time_sub till final > max_daily_bar_gap
               then [\<lparr>g_start = add_days final 1, g_end = till\<rparr>] else []))"

definition gap_task_range :: "gotime \<Rightarrow> bar_gap list \<Rightarrow> gotime \<times> gotime" where
  "gap_task_range now gaps =
     (if gaps = [] then (normalize_date now, normalize_date now) else (g_start (hd gaps), g_end (last gaps)))"

definition merge_bars :: "bar list \<Rightarrow> bar list \<Rightarrow> bar list" where
  "merge_bars left right = merge_rows bar_row_key bar_order left right"

definition local_bars_cover_request :: "bar list \<Rightarrow> bar list \<Rightarrow> kline_request \<Rightarrow> bool" where
  "local_bars_cover_request all_bars filtered req \<longleftrightarrow>
     (if all_bars = [] \<or> filtered = [] then False
      else let start = normalize_date (k_start_date req); first = normalize_date (b_time (hd all_bars)) in
        if \<not> is_zero start \<and> (is_zero first \<or> after first start) then False
        else if 0 < k_count req \<and> length filtered < unat (k_start req) + unat (k_count req) then False
        else bar_gaps_for_request all_bars req = [])"

definition cached_bars_cover_request :: "bar list \<Rightarrow> kline_request \<Rightarrow> bool" where
  "cached_bars_cover_request bars req \<longleftrightarrow>
     (if bars = [] then False
      else if 0 < k_count req \<and> length bars < unat (k_start req) + unat (k_count req) then False
      else if \<not> is_zero (k_start_date req) \<and>
        (is_zero (normalize_date (b_time (hd bars))) \<or>
         after (normalize_date (b_time (hd bars))) (normalize_date (k_start_date req))) then False
      else \<not> (k_period req = PeriodDay \<and> \<not> is_zero (k_start_date req) \<and> \<not> is_zero (k_end_date req) \<and>
        bar_gaps_for_request bars req \<noteq> []))"

definition dataset_for_adjust :: "string \<Rightarrow> string" where
  "dataset_for_adjust adjust = (if adjust = AdjustNone \<or> adjust = [] then DatasetKLine else DatasetAdjustedKLine)"

definition bar_task_range :: "gotime \<Rightarrow> kline_request \<Rightarrow> bar list \<Rightarrow> gotime \<times> gotime" where
  "bar_task_range now req bars =
     (let start = normalize_date (k_start_date req); till = normalize_date (k_end_date req);
          start = (if bars \<noteq> [] \<and> is_zero start then normalize_date (b_time (hd bars)) else start);
          till = (if bars \<noteq> [] \<and> is_zero till then normalize_date (b_time (last bars)) else till);
          start = (if is_zero start then normalize_date now else start);
          till = (if is_zero till then start else till)
      in (start, till))"

definition slice_bars_by_start_count :: "bar list \<Rightarrow> u16 \<Rightarrow> u16 \<Rightarrow> bar list" where
  "slice_bars_by_start_count bars start cnt =
     (if bars = [] then bars
      else let from = unat start in
        if length bars < from then []
        else let to = (if 0 < cnt \<and> from + unat cnt < length bars then from + unat cnt else length bars)
             in subslice from to bars)"

section \<open>The gaps in calendar days\<close>

text \<open>
  What the gaps mean.  For the days \<open>ds\<close> on which there are bars, in order, the days of the range
  \<open>s .. e\<close> to fetch are the days before the first bar and every stretch longer than three weeks after one.
\<close>

fun inner_gaps :: "int \<Rightarrow> int \<Rightarrow> int list \<Rightarrow> (int \<times> int) list" where
  "inner_gaps e p [] = (if e - p > 21 then [(p + 1, e)] else [])"
| "inner_gaps e p (d # ds) = (if d - p > 21 then [(p + 1, d - 1)] else []) @ inner_gaps e d ds"

fun day_gaps :: "int \<Rightarrow> int \<Rightarrow> int list \<Rightarrow> (int \<times> int) list" where
  "day_gaps s e [] = [(s, e)]"
| "day_gaps s e (d # ds) = (if s < d then [(s, d - 1)] else []) @ inner_gaps e d ds"

definition gap_days :: "(int \<times> int) list \<Rightarrow> int set" where
  "gap_days gs = (\<Union>(a, b) \<in> set gs. {a..b})"

lemma gap_days_simps [simp]:
  "gap_days [] = {}" "gap_days (g # gs) = {fst g..snd g} \<union> gap_days gs" "gap_days (gs @ hs) = gap_days gs \<union> gap_days hs"
  by (auto simp: gap_days_def split: prod.splits)

lemma inner_gaps_range:
  "sorted (p # ds) \<Longrightarrow> \<forall>d \<in> set (p # ds). d \<le> e \<Longrightarrow> (a, b) \<in> set (inner_gaps e p ds) \<Longrightarrow> p < a \<and> a + 20 \<le> b \<and> b \<le> e"
  by (induction e p ds rule: inner_gaps.induct) (fastforce split: if_splits)+

lemma inner_gaps_sorted:
  "sorted (p # ds) \<Longrightarrow> \<forall>d \<in> set (p # ds). d \<le> e \<Longrightarrow> sorted_wrt (\<lambda>g h. snd g < fst h) (inner_gaps e p ds)"
proof (induction e p ds rule: inner_gaps.induct)
  case (2 e p d ds)
  have "\<forall>g \<in> set (inner_gaps e d ds). d < fst g"
    using inner_gaps_range [of d ds e] 2(2,3) by fastforce
  with 2 show ?case by (auto simp: sorted_wrt_append)
qed simp

lemma inner_gaps_clear:
  "sorted (p # ds) \<Longrightarrow> \<forall>d \<in> set (p # ds). d \<le> e \<Longrightarrow> d \<in> set (p # ds) \<Longrightarrow> d \<notin> gap_days (inner_gaps e p ds)"
proof (induction e p ds rule: inner_gaps.induct)
  case (2 e p d' ds)
  have g: "x \<in> gap_days (inner_gaps e d' ds) \<Longrightarrow> d' < x" for x
    using inner_gaps_range [of d' ds e] 2(2,3) by (fastforce simp: gap_days_def)
  show ?case
  proof (cases "d = p")
    case True
    then show ?thesis using g [of p] 2(2) by auto
  next
    case False
    then have "d \<in> set (d' # ds)" using 2(4) by simp
    moreover from this have "d' \<le> d" using 2(2) by auto
    ultimately show ?thesis using 2(1) 2(2,3) by auto
  qed
qed auto

lemma inner_gaps_near:
  "sorted (p # ds) \<Longrightarrow> p \<le> x \<Longrightarrow> x \<le> e \<Longrightarrow> x \<notin> gap_days (inner_gaps e p ds) \<Longrightarrow>
   \<exists>d \<in> set (p # ds). d \<le> x \<and> x - d \<le> 21"
proof (induction e p ds rule: inner_gaps.induct)
  case (2 e p d ds)
  show ?case
  proof (cases "d \<le> x")
    case True
    then show ?thesis using 2 by (auto split: if_splits)
  next
    case False
    then have "d - p > 21 \<Longrightarrow> x = p" using 2(3,5) by (auto split: if_splits)
    then show ?thesis using False 2(3) by (cases "d - p > 21") auto
  qed
qed (auto split: if_splits)

text \<open>The four facts of the specification.\<close>

lemma day_gaps_spec:
  assumes "s \<le> e" and "sorted ds" and "\<forall>d \<in> set ds. s \<le> d \<and> d \<le> e"
  shows "sorted_wrt (\<lambda>g h. snd g < fst h) (day_gaps s e ds)"
    and "\<forall>(a, b) \<in> set (day_gaps s e ds). s \<le> a \<and> a \<le> b \<and> b \<le> e"
    and "\<forall>d \<in> set ds. d \<notin> gap_days (day_gaps s e ds)"
    and "\<forall>x \<in> {s..e} - gap_days (day_gaps s e ds). \<exists>d \<in> set ds. d \<le> x \<and> x - d \<le> 21"
proof -
  show "sorted_wrt (\<lambda>g h. snd g < fst h) (day_gaps s e ds)"
  proof (cases ds)
    case (Cons d ds')
    have "\<forall>g \<in> set (inner_gaps e d ds'). d < fst g"
      using inner_gaps_range [of d ds' e] assms Cons by fastforce
    then show ?thesis using inner_gaps_sorted [of d ds' e] assms Cons by (auto simp: sorted_wrt_append)
  qed simp
  show "\<forall>(a, b) \<in> set (day_gaps s e ds). s \<le> a \<and> a \<le> b \<and> b \<le> e"
  proof (cases ds)
    case (Cons d ds')
    then show ?thesis using inner_gaps_range [of d ds' e] assms by fastforce
  qed (use assms(1) in simp)
  show "\<forall>d \<in> set ds. d \<notin> gap_days (day_gaps s e ds)"
  proof (cases ds)
    case (Cons d ds')
    then show ?thesis using inner_gaps_clear [of d ds' e] assms by auto
  qed simp
  show "\<forall>x \<in> {s..e} - gap_days (day_gaps s e ds). \<exists>d \<in> set ds. d \<le> x \<and> x - d \<le> 21"
  proof (cases ds)
    case (Cons d ds')
    show ?thesis
    proof
      fix x assume x: "x \<in> {s..e} - gap_days (day_gaps s e ds)"
      then have "d \<le> x" using Cons by (auto split: if_splits)
      then show "\<exists>d \<in> set ds. d \<le> x \<and> x - d \<le> 21"
        using inner_gaps_near [of d ds' x e] x assms(2) Cons by auto
    qed
  qed simp
qed

section \<open>The code finds these gaps\<close>

text \<open>The dates of the request and the times of the bars are in one location; the bars are in time order.\<close>

definition bar_day :: "bar \<Rightarrow> int" where
  "bar_day b = local_day (b_time b)"

definition as_gap :: "int \<Rightarrow> int \<times> int \<Rightarrow> bar_gap" where
  "as_gap z g = \<lparr>g_start = midnight z (fst g), g_end = midnight z (snd g)\<rparr>"

lemma midnight_positive: "0 < t_nanos (midnight z s) \<Longrightarrow> s \<le> d \<Longrightarrow> 0 < t_nanos (midnight z d)"
  using midnight_less_iff [of z s d] by (cases "s = d") auto

lemma midnight_nonzero: "0 < t_nanos (midnight z s) \<Longrightarrow> s \<le> d \<Longrightarrow> \<not> is_zero (midnight z d)"
  using midnight_positive [of z s d] by (simp add: is_zero_def)

lemma midnight_after: "after (midnight z d) (midnight z e) \<longleftrightarrow> e < d"
  by (simp add: after_def midnight_less_iff)

lemma midnight_gap: "time_sub (midnight z d) (midnight z e) > max_daily_bar_gap \<longleftrightarrow> d - e > 21"
proof -
  have g: "max_daily_bar_gap = 21 * day_ns" by (simp add: max_daily_bar_gap_def second_def day_ns_def)
  have "time_sub (midnight z d) (midnight z e) > max_daily_bar_gap \<longleftrightarrow> d * day_ns - e * day_ns > 21 * day_ns"
    unfolding g by (subst time_sub_gt) (simp_all add: day_ns_def midnight_def)
  also have "\<dots> \<longleftrightarrow> (d - e) * day_ns > 21 * day_ns" by (simp add: left_diff_distrib)
  also have "\<dots> \<longleftrightarrow> d - e > 21" by (subst mult_less_cancel_right_pos) simp_all
  finally show ?thesis .
qed

lemma local_day_mono: "t_zone s = t_zone t \<Longrightarrow> t_nanos s \<le> t_nanos t \<Longrightarrow> local_day s \<le> local_day t"
  by (simp add: local_day_def zdiv_mono1)

lemma midnight_le_day:
  assumes "t_zone t = z"
  shows "t_nanos (midnight z d) \<le> t_nanos t \<longleftrightarrow> d \<le> local_day t"
proof
  assume "t_nanos (midnight z d) \<le> t_nanos t"
  then show "d \<le> local_day t" using local_day_mono [of "midnight z d" t] assms by simp
next
  assume "d \<le> local_day t"
  then have "t_nanos (midnight z d) \<le> t_nanos (midnight z (local_day t))"
    using midnight_less_iff [of z "local_day t" d] by linarith
  then show "t_nanos (midnight z d) \<le> t_nanos t" using midnight_le [of t] assms by simp
qed

lemma normalize_midnight: "0 < t_nanos t \<Longrightarrow> normalize_date t = midnight (t_zone t) (local_day t)"
  by (simp add: normalize_date_def is_zero_def)

lemma gap_scan_days:
  assumes "0 < t_nanos (midnight z s)" and "s \<le> p"
    and "\<forall>b \<in> set bs. t_zone (b_time b) = z \<and> s \<le> bar_day b" and "sorted (p # map bar_day bs)"
  shows "gap_scan (midnight z p) bs @
      (let final = midnight z (last (p # map bar_day bs)) in
       if after (midnight z e) final \<and> time_sub (midnight z e) final > max_daily_bar_gap
       then [\<lparr>g_start = add_days final 1, g_end = midnight z e\<rparr>] else []) =
    map (as_gap z) (inner_gaps e p (map bar_day bs))"
  using assms
proof (induction bs arbitrary: p)
  case Nil
  then show ?case by (simp add: Let_def midnight_after midnight_gap as_gap_def add_days_midnight)
next
  case (Cons b bs)
  let ?d = "bar_day b"
  have pos: "0 < t_nanos (b_time b)"
    using Cons.prems(1,3) midnight_positive [of z s ?d] midnight_le [of "b_time b"] by (auto simp: bar_day_def)
  have n: "normalize_date (b_time b) = midnight z ?d"
    using normalize_midnight [OF pos] Cons.prems(3) by (simp add: bar_day_def)
  have z: "\<not> is_zero (midnight z p)" "\<not> is_zero (midnight z ?d)"
    using Cons.prems midnight_nonzero by auto
  have step: "gap_scan (midnight z p) (b # bs) =
      (if ?d - p > 21 then [as_gap z (p + 1, ?d - 1)] else []) @ gap_scan (midnight z ?d) bs"
    by (auto simp: n z Let_def midnight_after midnight_gap as_gap_def add_days_midnight)
  have "last (p # map bar_day (b # bs)) = last (?d # map bar_day bs)" by simp
  then show ?case
    using Cons.IH [of ?d] Cons.prems unfolding step by (simp add: Let_def)
qed

definition daily_request :: "int \<Rightarrow> kline_request \<Rightarrow> bool" where
  "daily_request z req \<longleftrightarrow> k_period req = PeriodDay \<and> t_zone (k_start_date req) = z \<and> t_zone (k_end_date req) = z \<and>
     0 < t_nanos (midnight z (local_day (k_start_date req))) \<and> local_day (k_start_date req) \<le> local_day (k_end_date req)"

definition bars_in :: "int \<Rightarrow> bar list \<Rightarrow> bool" where
  "bars_in z bars \<longleftrightarrow> list_all (\<lambda>b. t_zone (b_time b) = z) bars \<and> sorted (map bar_order bars)"

text \<open>The bars the gaps are computed from: those from the first midnight to the last.\<close>

definition day_bars :: "bar list \<Rightarrow> kline_request \<Rightarrow> bar list" where
  "day_bars bars req = filter_bars_by_date bars (normalize_date (k_start_date req)) (normalize_date (k_end_date req))"

lemma daily_dates:
  assumes "daily_request z req"
  shows "normalize_date (k_start_date req) = midnight z (local_day (k_start_date req))"
    and "normalize_date (k_end_date req) = midnight z (local_day (k_end_date req))"
    and "\<not> is_zero (k_start_date req)" and "\<not> is_zero (k_end_date req)"
proof -
  let ?s = "k_start_date req" and ?e = "k_end_date req"
  have z: "t_zone ?s = z" "t_zone ?e = z" "0 < t_nanos (midnight z (local_day ?s))" "local_day ?s \<le> local_day ?e"
    using assms by (simp_all add: daily_request_def)
  then have "0 < t_nanos ?s" "0 < t_nanos ?e"
    using midnight_le [of ?s] midnight_le [of ?e] midnight_positive [of z "local_day ?s" "local_day ?e"] by simp_all
  then show "normalize_date ?s = midnight z (local_day ?s)" "normalize_date ?e = midnight z (local_day ?e)"
    "\<not> is_zero ?s" "\<not> is_zero ?e"
    using z normalize_midnight [of ?s] normalize_midnight [of ?e] by (simp_all add: is_zero_def)
qed

lemma day_bars_days:
  assumes "daily_request z req" and "bars_in z bars"
  shows "sorted (map bar_day (day_bars bars req))"
    and "\<forall>b \<in> set (day_bars bars req). t_zone (b_time b) = z \<and> local_day (k_start_date req) \<le> bar_day b \<and>
      bar_day b \<le> local_day (k_end_date req)"
proof -
  let ?s = "local_day (k_start_date req)" and ?e = "local_day (k_end_date req)"
  note d = daily_dates [OF assms(1)]
  have pos: "0 < t_nanos (midnight z ?s)" "?s \<le> ?e" using assms(1) by (simp_all add: daily_request_def)
  have nz: "\<not> is_zero (midnight z ?s)" "\<not> is_zero (midnight z ?e)" using midnight_nonzero pos by blast+
  have nn: "normalize_date (midnight z ?s) = midnight z ?s"
    using normalize_midnight [OF pos(1)] by simp
  have eq: "day_bars bars req = filter (\<lambda>b. t_nanos (midnight z ?s) \<le> t_nanos (b_time b) \<and>
      t_nanos (b_time b) \<le> t_nanos (midnight z ?e)) bars"
    by (auto simp: day_bars_def filter_bars_by_date_def Let_def d nn nz before_def after_def intro!: filter_cong)
  show "\<forall>b \<in> set (day_bars bars req). t_zone (b_time b) = z \<and> ?s \<le> bar_day b \<and> bar_day b \<le> ?e"
    using assms(2) midnight_le_day local_day_mono [of _ "midnight z ?e"]
    by (auto simp: eq bars_in_def list_all_iff bar_day_def)
  have "sorted_wrt (\<lambda>a b. bar_order a \<le> bar_order b) (day_bars bars req)"
    using assms(2) by (simp add: eq bars_in_def sorted_wrt_map sorted_wrt_filter)
  moreover have "\<forall>b \<in> set (day_bars bars req). t_zone (b_time b) = z"
    using assms(2) by (auto simp: eq bars_in_def list_all_iff)
  ultimately show "sorted (map bar_day (day_bars bars req))"
    unfolding sorted_wrt_map
    by (elim sorted_wrt_mono_rel [rotated]) (simp add: bar_order_def bar_day_def local_day_mono)
qed

lemma bar_gaps_days:
  assumes "daily_request z req" and "bars_in z bars"
  shows "bar_gaps_for_request bars req =
    map (as_gap z) (day_gaps (local_day (k_start_date req)) (local_day (k_end_date req)) (map bar_day (day_bars bars req)))"
proof -
  let ?s = "local_day (k_start_date req)" and ?e = "local_day (k_end_date req)"
  note d = daily_dates [OF assms(1)] and days = day_bars_days [OF assms]
  have pos: "0 < t_nanos (midnight z ?s)" "?s \<le> ?e" "k_period req = PeriodDay"
    using assms(1) by (simp_all add: daily_request_def)
  have nz: "\<not> is_zero (midnight z ?s)" "\<not> is_zero (midnight z ?e)" using midnight_nonzero pos(1,2) by blast+
  have nb: "\<not> before (midnight z ?e) (midnight z ?s)" using pos(2) midnight_less_iff [of z ?e ?s] by (simp add: before_def)
  have db: "filter_bars_by_date bars (midnight z ?s) (midnight z ?e) = day_bars bars req"
    by (simp add: day_bars_def d)
  show ?thesis
  proof (cases "day_bars bars req")
    case Nil
    then show ?thesis using pos nz nb by (simp add: bar_gaps_for_request_def Let_def d db as_gap_def)
  next
    case (Cons b bs)
    have norm: "normalize_date (b_time c) = midnight z (bar_day c)" if "c \<in> set (day_bars bars req)" for c
    proof -
      have "0 < t_nanos (midnight z (bar_day c))" using midnight_positive [OF pos(1)] days(2) that by blast
      then have "0 < t_nanos (b_time c)" using midnight_le [of "b_time c"] days(2) that by (auto simp: bar_day_def)
      then show ?thesis using normalize_midnight days(2) that by (simp add: bar_day_def)
    qed
    have l: "normalize_date (b_time (last (b # bs))) = midnight z (last (map bar_day (b # bs)))"
      using norm [of "last (b # bs)"] Cons by (simp add: last_map)
    have scan: "gap_scan (midnight z (bar_day b)) bs @
      (let final = midnight z (last (bar_day b # map bar_day bs)) in
       if after (midnight z ?e) final \<and> time_sub (midnight z ?e) final > max_daily_bar_gap
       then [\<lparr>g_start = add_days final 1, g_end = midnight z ?e\<rparr>] else []) =
      map (as_gap z) (inner_gaps ?e (bar_day b) (map bar_day bs))"
      using pos(1) days Cons by (intro gap_scan_days [of z ?s]) auto
    have "bar_gaps_for_request bars req =
      (if after (midnight z (bar_day b)) (midnight z ?s)
       then [\<lparr>g_start = midnight z ?s, g_end = add_days (midnight z (bar_day b)) (- 1)\<rparr>] else []) @
      map (as_gap z) (inner_gaps ?e (bar_day b) (map bar_day bs))"
      using pos(3) nz nb norm [of b] Cons l unfolding scan [symmetric]
      by (simp add: bar_gaps_for_request_def Let_def d db)
    then show ?thesis by (simp add: Cons midnight_after as_gap_def add_days_midnight)
  qed
qed

lemma day_range: "daily_request z req \<Longrightarrow> local_day (k_start_date req) \<le> local_day (k_end_date req)"
  by (simp add: daily_request_def)

lemma bar_gaps_exact_nil:
  assumes "daily_request z req" and "bars_in z bars" and "bar_gaps_for_request bars req = []"
  shows "\<forall>x \<in> {local_day (k_start_date req)..local_day (k_end_date req)}.
    \<exists>b \<in> set (day_bars bars req). bar_day b \<le> x \<and> x - bar_day b \<le> 21"
proof -
  let ?ds = "map bar_day (day_bars bars req)"
  have "day_gaps (local_day (k_start_date req)) (local_day (k_end_date req)) ?ds = []"
    using bar_gaps_days [OF assms(1,2)] assms(3) by simp
  then show ?thesis
    using day_gaps_spec(4) [OF day_range [OF assms(1)], of ?ds] day_bars_days [OF assms(1,2)] by simp
qed

section \<open>Properties\<close>

definition day_sample :: "int \<Rightarrow> bar" where
  "day_sample d = \<lparr>b_symbol = mk_symbol ''SH'' ''600000'', b_period = PeriodDay, b_adjust = AdjustNone,
     b_time = midnight 0 d, b_open = 0, b_high = 0, b_low = 0, b_close = 0, b_volume = 0, b_amount = 0, b_source = []\<rparr>"

definition sample_request :: "int \<Rightarrow> int \<Rightarrow> kline_request" where
  "sample_request s e = \<lparr>k_period = PeriodDay, k_start = 0, k_count = 0, k_times = 0,
     k_start_date = midnight 0 s, k_end_date = midnight 0 e, k_force = False\<rparr>"

lemma sample_daily: "daily_request 0 (sample_request 700000 700100)"
  by (simp add: daily_request_def sample_request_def midnight_def day_ns_def local_day_def)

lemma sample_bars: "bars_in 0 [day_sample 700030, day_sample 700031]"
  by (simp add: bars_in_def day_sample_def bar_order_def midnight_def day_ns_def)



text \<open>
  what \<open>localBarsCoverRequest\<close> promises for a daily range.  When it lets the service answer
  from the store, every day of the range has a stored bar on it or within the three weeks before
  it, the first stored bar is not after the start of the range, and the requested count fits.
\<close>

theorem local_cover_sound:
  fixes z :: int and req :: kline_request and bars filtered :: "bar list"
  assumes "daily_request z req" and "bars_in z bars" and "local_bars_cover_request bars filtered req"
  shows "(\<forall>x \<in> {local_day (k_start_date req)..local_day (k_end_date req)}.
      \<exists>b \<in> set (day_bars bars req). bar_day b \<le> x \<and> x - bar_day b \<le> 21) \<and>
    \<not> after (normalize_date (b_time (hd bars))) (normalize_date (k_start_date req)) \<and>
    (k_count req \<noteq> 0 \<longrightarrow> unat (k_start req) + unat (k_count req) \<le> length filtered)"
proof -
  have nil: "bar_gaps_for_request bars req = []" and ne: "bars \<noteq> []"
    and rest: "0 < k_count req \<Longrightarrow> unat (k_start req) + unat (k_count req) \<le> length filtered"
    "\<not> after (normalize_date (b_time (hd bars))) (normalize_date (k_start_date req))"
    using assms(3) daily_dates [OF assms(1)] assms(1) midnight_nonzero
    by (auto simp: local_bars_cover_request_def Let_def daily_request_def split: if_splits)
  from bar_gaps_exact_nil [OF assms(1,2) nil] rest show ?thesis by (simp add: word_gt_0)
qed

theorem local_cover_sound_witness:
  "local_bars_cover_request [day_sample 700000, day_sample 700010] [day_sample 700000, day_sample 700010]
     (sample_request 700000 700020) \<and>
   \<not> after (normalize_date (b_time (day_sample 700000))) (normalize_date (k_start_date (sample_request 700000 700020)))"
proof -
  have d: "daily_request 0 (sample_request 700000 700020)"
    by (simp add: daily_request_def sample_request_def midnight_def day_ns_def local_day_def)
  have b: "bars_in 0 [day_sample 700000, day_sample 700010]"
    by (simp add: bars_in_def day_sample_def bar_order_def midnight_def day_ns_def)
  have c: "local_bars_cover_request [day_sample 700000, day_sample 700010] [day_sample 700000, day_sample 700010]
      (sample_request 700000 700020)"
    by code_simp
  show ?thesis using local_cover_sound [OF d b c] c by simp
qed

end
