(* ===== verification/Market_Service.thy ===== *)
theory Market_Service
  imports Bar_Coverage Backfill_Queue Memory_Cache
begin

text \<open>
  \<^verbatim>\<open>internal/service/market_data.go\<close>: the service that coordinates cache, local history, single flight
  and provider.  Its dependencies are the Go interfaces of package \<open>domain\<close> and \<open>cache\<close>: records of operations
  over a common state, each an option because the code checks the interface for \<open>nil\<close>.
\<close>

section \<open>Interfaces\<close>

text \<open>The operations of one request: the context is fixed in them.\<close>

record 'w provider_ops =
  pv_quotes :: "symbol list \<Rightarrow> ('w, quote list) op"
  pv_order_book :: "symbol list \<Rightarrow> ('w, order_book list) op"
  pv_ticks :: "symbol \<Rightarrow> tick_request \<Rightarrow> ('w, tick list) op"
  pv_history_ticks :: "symbol \<Rightarrow> history_tick_request \<Rightarrow> ('w, tick list) op"
  pv_kline :: "symbol \<Rightarrow> kline_request \<Rightarrow> ('w, bar list) op"
  pv_adjusted_kline :: "symbol \<Rightarrow> kline_request \<Rightarrow> string \<Rightarrow> ('w, bar list) op"
  pv_xdxr :: "symbol \<Rightarrow> ('w, xdxr_event list) op"
  pv_security_info :: "security_query \<Rightarrow> ('w, security_info list) op"
  pv_finance :: "symbol \<Rightarrow> ('w, finance_info option) op"
  pv_trading_day :: "('w, trading_day_info option) op"

record 'w store_ops =
  st_coverage :: "coverage_request \<Rightarrow> ('w, history_coverage) op"
  st_put_coverage :: "history_coverage \<Rightarrow> ('w, unit) op"
  st_put_ticks :: "tick list \<Rightarrow> ('w, unit) op"
  st_query_ticks :: "history_tick_query \<Rightarrow> ('w, tick list) op"
  st_put_bars :: "bar list \<Rightarrow> ('w, unit) op"
  st_query_bars :: "bar_query \<Rightarrow> ('w, bar list) op"

record 'w queue_ops =
  qu_enqueue :: "backfill_task \<Rightarrow> ('w, backfill_task \<times> bool) op"
  qu_next :: "('w, backfill_task \<times> bool) op"
  qu_update :: "backfill_task \<Rightarrow> ('w, unit) op"
  qu_list :: "backfill_filter \<Rightarrow> ('w, backfill_task list) op"

record 'w cache_ops =
  ca_get_quotes :: "symbol list \<Rightarrow> ('w, (string \<rightharpoonup> quote) \<times> symbol list) op"
  ca_put_quotes :: "quote list \<Rightarrow> ('w, unit) op"
  ca_get_order_books :: "symbol list \<Rightarrow> ('w, (string \<rightharpoonup> order_book) \<times> symbol list) op"
  ca_put_order_books :: "order_book list \<Rightarrow> ('w, unit) op"
  ca_get_tick_page :: "string \<Rightarrow> ('w, tick list option) op"
  ca_put_tick_page :: "string \<Rightarrow> tick list \<Rightarrow> int \<Rightarrow> ('w, unit) op"
  ca_put_history_tick_page :: "string \<Rightarrow> tick list \<Rightarrow> ('w, unit) op"
  ca_get_bars :: "string \<Rightarrow> ('w, bar list option) op"
  ca_put_bars :: "string \<Rightarrow> bar list \<Rightarrow> ('w, unit) op"
  ca_get_xdxr :: "symbol \<Rightarrow> ('w, xdxr_event list option) op"
  ca_put_xdxr :: "symbol \<Rightarrow> xdxr_event list \<Rightarrow> ('w, unit) op"
  ca_get_securities :: "string \<Rightarrow> ('w, security_info list option) op"
  ca_put_securities :: "string \<Rightarrow> security_info list \<Rightarrow> ('w, unit) op"
  ca_get_finance :: "symbol \<Rightarrow> ('w, finance_info option) op"
  ca_put_finance :: "symbol \<Rightarrow> finance_info option \<Rightarrow> ('w, unit) op"
  ca_get_trading_day :: "('w, trading_day_info option) op"
  ca_put_trading_day :: "trading_day_info option \<Rightarrow> ('w, unit) op"

text \<open>
  The service.  \<open>sv_clock\<close> is the field \<open>Clock\<close>, \<open>None\<close> when it is \<open>nil\<close>; \<open>sv_time_now\<close> is \<open>time.Now\<close>,
  which some helpers call directly; \<open>sv_ctx_err\<close> is \<open>ctx.Err()\<close>; \<open>sv_grouped\<close> tells whether the single-flight
  groups exist, as they do in every service that \<open>NewMarketDataService\<close> built.
\<close>

record 'w service =
  sv_provider :: "'w provider_ops option"
  sv_store :: "'w store_ops option"
  sv_queue :: "'w queue_ops option"
  sv_cache :: "'w cache_ops option"
  sv_clock :: "('w \<Rightarrow> gotime) option"
  sv_time_now :: "'w \<Rightarrow> gotime"
  sv_ctx_err :: "'w \<Rightarrow> go_error option"
  sv_grouped :: bool

section \<open>Helpers\<close>

definition when_some :: "'a option \<Rightarrow> ('w, 'b) op \<Rightarrow> ('a \<Rightarrow> ('w, 'b) op) \<Rightarrow> ('w, 'b) op" where
  "when_some x d f = (case x of None \<Rightarrow> d | Some y \<Rightarrow> f y)"

lemma when_some_simps [simp]: "when_some None d f = d" "when_some (Some y) d f = f y"
  by (simp_all add: when_some_def)

definition new_market_data_service ::
  "'w provider_ops option \<Rightarrow> 'w store_ops option \<Rightarrow> 'w queue_ops option \<Rightarrow> 'w cache_ops option \<Rightarrow>
   ('w \<Rightarrow> gotime) \<Rightarrow> ('w \<Rightarrow> go_error option) \<Rightarrow> 'w service" where
  "new_market_data_service p st q c time_now ctx_err = \<lparr>sv_provider = p, sv_store = st, sv_queue = q,
     sv_cache = c, sv_clock = Some time_now, sv_time_now = time_now, sv_ctx_err = ctx_err, sv_grouped = True\<rparr>"

definition service_now :: "'w service \<Rightarrow> 'w \<Rightarrow> gotime" where
  "service_now sv w = (case sv_clock sv of None \<Rightarrow> sv_time_now sv w | Some f \<Rightarrow> f w)"

text \<open>
  \<open>doGroup\<close> for a call that no other call of its key overlaps: \<open>Group.Do\<close> gives up on a dead context
  and loads.  What overlapping calls do is the subject of \<open>Single_Flight\<close>: they get the value of the one load.
\<close>

definition do_group :: "'w service \<Rightarrow> string \<Rightarrow> ('w, 'a) op \<Rightarrow> ('w, 'a) op" where
  "do_group sv key fn w = (if sv_grouped sv then guard (sv_ctx_err sv w) fn w else fn w)"

definition upstream :: "'w service \<Rightarrow> ('w provider_ops \<Rightarrow> ('w, 'a) op) \<Rightarrow> ('w, 'a) op" where
  "upstream sv call = when_some (sv_provider sv) (fail ErrUpstreamUnavailable) call"

definition service_enqueue :: "'w service \<Rightarrow> backfill_task \<Rightarrow> ('w, unit) op" where
  "service_enqueue sv task = when_some (sv_queue sv) (ret ()) (\<lambda>q.
     bnd (qu_enqueue q (if bt_status task = [] then task\<lparr>bt_status := BackfillPending\<rparr> else task)) (\<lambda>_. ret ()))"

definition service_put_coverage :: "'w service \<Rightarrow> history_coverage \<Rightarrow> ('w, unit) op" where
  "service_put_coverage sv c = when_some (sv_store sv) (ret ()) (\<lambda>st. st_put_coverage st c)"

fun validate_symbols_loop :: "symbol list \<Rightarrow> go_error option" where
  "validate_symbols_loop [] = None"
| "validate_symbols_loop (s # ss) =
     (case validate_symbol s of Some e \<Rightarrow> Some e | None \<Rightarrow> validate_symbols_loop ss)"

definition validate_symbols :: "symbol list \<Rightarrow> go_error option" where
  "validate_symbols ss = (if ss = [] then Some ErrInvalidRequest else validate_symbols_loop ss)"

text \<open>\<open>orderQuotes\<close> and \<open>orderBooks\<close> are the same code at two types; \<open>sym_of\<close> reads the field \<open>Symbol\<close>.\<close>

definition order_items :: "('q \<Rightarrow> symbol) \<Rightarrow> symbol list \<Rightarrow> (string \<rightharpoonup> 'q) \<Rightarrow> 'q list \<Rightarrow> 'q list" where
  "order_items sym_of symbols hits remote =
     (let items = put_all (\<lambda>q. symbol_key (sym_of q)) id remote hits;
          found = filter (\<lambda>s. items (symbol_key s) \<noteq> None) symbols;
          seen = map symbol_key found
      in map (\<lambda>s. the (items (symbol_key s))) found @
         filter (\<lambda>q. symbol_key (sym_of q) \<notin> set seen) remote)"

definition order_quotes :: "symbol list \<Rightarrow> (string \<rightharpoonup> quote) \<Rightarrow> quote list \<Rightarrow> quote list" where
  "order_quotes = order_items q_symbol"

definition order_books :: "symbol list \<Rightarrow> (string \<rightharpoonup> order_book) \<Rightarrow> order_book list \<Rightarrow> order_book list" where
  "order_books = order_items ob_symbol"

definition symbols_key :: "string \<Rightarrow> symbol list \<Rightarrow> string" where
  "symbols_key prefix ss = prefix @ ''|'' @ join '','' (sort (map symbol_key ss))"

section \<open>Cache keys\<close>

definition tick_cache_key :: "string \<Rightarrow> symbol \<Rightarrow> u16 \<Rightarrow> u16 \<Rightarrow> bool \<Rightarrow> bool \<Rightarrow> string" where
  "tick_cache_key prefix sy start cnt full force = join ''|''
     [prefix, symbol_key sy, ''start='' @ nat_dec (unat start), ''count='' @ nat_dec (unat cnt),
      ''full='' @ bool_text full, ''force='' @ bool_text force]"

definition history_tick_cache_key :: "symbol \<Rightarrow> history_tick_request \<Rightarrow> string" where
  "history_tick_cache_key sy req = join ''|''
     [''history_tick_v2'', symbol_key sy, ''date='' @ format_compact (normalize_date (ht_trade_date req)),
      ''start='' @ nat_dec (unat (ht_start req)), ''count='' @ nat_dec (unat (ht_count req)),
      ''full='' @ bool_text (ht_full req), ''trans='' @ bool_text (ht_with_flag req)]"

definition bar_cache_key :: "symbol \<Rightarrow> kline_request \<Rightarrow> string \<Rightarrow> string" where
  "bar_cache_key sy req adjust = join ''|''
     [''bar'', symbol_key sy, ''period='' @ k_period req, ''adjust='' @ adjust,
      ''start='' @ nat_dec (unat (k_start req)), ''count='' @ nat_dec (unat (k_count req)),
      ''times='' @ nat_dec (unat (k_times req)),
      ''from='' @ format_compact (normalize_date (k_start_date req)),
      ''to='' @ format_compact (normalize_date (k_end_date req))]"

definition security_cache_key :: "security_query \<Rightarrow> string" where
  "security_cache_key req = join ''|''
     [''securities'', ''markets='' @ join '','' (sort (map normalize_market (sq_markets req))),
      ''symbols='' @ join '','' (sort (map symbol_key (sq_symbols req))),
      ''start='' @ nat_dec (unat (sq_start req)), ''count='' @ nat_dec (unat (sq_count req))]"

text \<open>The markets of the symbols, each once, in order of first use.\<close>

fun fetch_markets :: "symbol list \<Rightarrow> string list \<Rightarrow> string list" where
  "fetch_markets [] markets = markets"
| "fetch_markets (s # ss) markets =
     (let market = normalize_market (s_market s) in
      if market = MarketUnknown \<or> market \<in> set markets then fetch_markets ss markets
      else fetch_markets ss (markets @ [market]))"

definition security_fetch_query :: "security_query \<Rightarrow> security_query" where
  "security_fetch_query req =
     \<lparr>sq_markets = (if sq_markets req = [] then fetch_markets (sq_symbols req) [] else sq_markets req),
      sq_symbols = [], sq_types = [], sq_start = 0, sq_count = 0, sq_refresh = sq_refresh req\<rparr>"

definition filter_security_info :: "security_info list \<Rightarrow> security_query \<Rightarrow> security_info list result" where
  "filter_security_info items req =
     (case collect (\<lambda>sy. case validate_symbol sy of Some e \<Rightarrow> Inl e | None \<Rightarrow> Inr ()) (sq_symbols req) of
        Inl e \<Rightarrow> Inl e
      | Inr _ \<Rightarrow>
          let out = sort_key security_order (filter (security_matches req) items) in
          if word_of_nat (length out) < sq_start req then Inr []
          else let from = unat (sq_start req); limit = from + unat (sq_count req);
                   to = (if 0 < sq_count req \<and> limit < length out then limit else length out)
               in Inr (subslice from to out))"

section \<open>Quotes, order books, ticks\<close>

definition cache_put :: "'w service \<Rightarrow> ('w cache_ops \<Rightarrow> ('w, unit) op) \<Rightarrow> ('w, unit) op" where
  "cache_put sv put = when_some (sv_cache sv) (ret ()) put"

text \<open>A look into the cache that is skipped when there is none or the request bypasses it.\<close>

definition cache_look :: "'w service \<Rightarrow> bool \<Rightarrow> ('w cache_ops \<Rightarrow> ('w, 'a option) op) \<Rightarrow> ('w, 'a option) op" where
  "cache_look sv bypass look = (if bypass then ret None else when_some (sv_cache sv) (ret None) look)"

definition service_get_quotes :: "'w service \<Rightarrow> symbol list \<Rightarrow> ('w, quote list) op" where
  "service_get_quotes sv symbols = guard (validate_symbols symbols)
     (bnd (when_some (sv_cache sv) (ret (Map.empty, symbols)) (\<lambda>c. ca_get_quotes c symbols)) (\<lambda>(hits, misses).
        if sv_cache sv \<noteq> None \<and> misses = [] then ret (order_quotes symbols hits [])
        else bnd (do_group sv (symbols_key ''quotes'' misses) (upstream sv (\<lambda>p. pv_quotes p misses))) (\<lambda>quotes.
             bnd (cache_put sv (\<lambda>c. ca_put_quotes c quotes)) (\<lambda>_.
             ret (order_quotes symbols hits quotes)))))"

definition service_get_order_book :: "'w service \<Rightarrow> symbol list \<Rightarrow> ('w, order_book list) op" where
  "service_get_order_book sv symbols = guard (validate_symbols symbols)
     (bnd (when_some (sv_cache sv) (ret (Map.empty, symbols)) (\<lambda>c. ca_get_order_books c symbols)) (\<lambda>(hits, misses).
        if sv_cache sv \<noteq> None \<and> misses = [] then ret (order_books symbols hits [])
        else bnd (do_group sv (symbols_key ''orderbook'' misses) (upstream sv (\<lambda>p. pv_order_book p misses))) (\<lambda>books.
             bnd (cache_put sv (\<lambda>c. ca_put_order_books c books)) (\<lambda>_.
             ret (order_books symbols hits books)))))"

text \<open>The read-through shape the remaining lookups share: a hit is the answer, a miss is fetched and put.\<close>

definition read_through :: "('w, 'a option) op \<Rightarrow> ('w, 'a) op \<Rightarrow> ('a \<Rightarrow> ('w, unit) op) \<Rightarrow> ('w, 'a) op" where
  "read_through look load put = bnd look (\<lambda>hit.
     case hit of Some x \<Rightarrow> ret x | None \<Rightarrow> bnd load (\<lambda>x. bnd (put x) (\<lambda>_. ret x)))"

definition service_get_ticks :: "'w service \<Rightarrow> symbol \<Rightarrow> tick_request \<Rightarrow> ('w, tick list) op" where
  "service_get_ticks sv sy req = guard (validate_symbol sy)
     (let key = tick_cache_key ''ticks'' sy (tr_start req) (tr_count req) (tr_full req) (tr_force req) in
      read_through (cache_look sv (tr_force req) (\<lambda>c. ca_get_tick_page c key))
        (do_group sv key (upstream sv (\<lambda>p. pv_ticks p sy req)))
        (\<lambda>ticks. cache_put sv (\<lambda>c. ca_put_tick_page c key ticks 0)))"

definition service_get_xdxr :: "'w service \<Rightarrow> symbol \<Rightarrow> ('w, xdxr_event list) op" where
  "service_get_xdxr sv sy = guard (validate_symbol sy)
     (read_through (cache_look sv False (\<lambda>c. ca_get_xdxr c sy))
        (do_group sv (''xdxr|'' @ symbol_key sy) (upstream sv (\<lambda>p. pv_xdxr p sy)))
        (\<lambda>events. cache_put sv (\<lambda>c. ca_put_xdxr c sy events)))"

definition service_get_finance :: "'w service \<Rightarrow> symbol \<Rightarrow> ('w, finance_info option) op" where
  "service_get_finance sv sy = guard (validate_symbol sy)
     (read_through (bnd (cache_look sv False (\<lambda>c. ca_get_finance c sy)) (\<lambda>hit. ret (map_option Some hit)))
        (do_group sv (''finance|'' @ symbol_key sy) (upstream sv (\<lambda>p. pv_finance p sy)))
        (\<lambda>info. cache_put sv (\<lambda>c. ca_put_finance c sy info)))"

definition service_get_trading_day :: "'w service \<Rightarrow> ('w, trading_day_info option) op" where
  "service_get_trading_day sv =
     read_through (bnd (cache_look sv False (\<lambda>c. ca_get_trading_day c)) (\<lambda>hit. ret (map_option Some hit)))
       (do_group sv ''trading_day|status'' (upstream sv (\<lambda>p. pv_trading_day p)))
       (\<lambda>info. cache_put sv (\<lambda>c. ca_put_trading_day c info))"

definition service_get_security_info :: "'w service \<Rightarrow> security_query \<Rightarrow> ('w, security_info list) op" where
  "service_get_security_info sv req =
     (let fetch_req = security_fetch_query req; fetch_key = security_cache_key fetch_req in
      bnd (read_through (cache_look sv (sq_refresh req) (\<lambda>c. ca_get_securities c fetch_key))
             (do_group sv fetch_key (upstream sv (\<lambda>p. pv_security_info p fetch_req)))
             (\<lambda>items. cache_put sv (\<lambda>c. ca_put_securities c fetch_key items)))
        (\<lambda>items. lift_result (filter_security_info items req)))"

section \<open>Historical ticks\<close>

definition default_history_tick_count :: u16 where
  "default_history_tick_count = 600"

definition history_tick_coverage_full_marker :: string where
  "history_tick_coverage_full_marker = ''full''"

definition history_tick_local_limit :: "history_tick_request \<Rightarrow> int" where
  "history_tick_local_limit req =
     (if ht_full req then 0
      else uint (if ht_count req = 0 then default_history_tick_count else ht_count req))"

definition history_ticks_have_full_coverage :: "'w service \<Rightarrow> symbol \<Rightarrow> gotime \<Rightarrow> ('w, bool) op" where
  "history_ticks_have_full_coverage sv sy date = when_some (sv_store sv) (ret True) (\<lambda>st.
     bnd (st_coverage st \<lparr>cr_dataset = DatasetHistoryTick, cr_symbol = sy, cr_trade_date = date,
            cr_period = [], cr_adjust = []\<rparr>)
       (\<lambda>c. ret (hc_status c = CoverageCovered \<and> hc_checksum c = history_tick_coverage_full_marker)))"

definition history_ticks_cover_request ::
  "'w service \<Rightarrow> symbol \<Rightarrow> gotime \<Rightarrow> tick list \<Rightarrow> history_tick_request \<Rightarrow> ('w, bool) op" where
  "history_ticks_cover_request sv sy date ticks req =
     (if ticks = [] then ret False
      else bnd (history_ticks_have_full_coverage sv sy date) (\<lambda>full.
        if ht_full req then ret full
        else let limit = history_tick_local_limit req in
          if 0 < limit \<and> limit \<le> int (length ticks) then ret True else ret full))"

definition mark_ticks_cached :: "tick list \<Rightarrow> tick list" where
  "mark_ticks_cached = map (tk_cached_update (\<lambda>_. True))"

definition history_tick_task :: "symbol \<Rightarrow> gotime \<Rightarrow> string \<Rightarrow> backfill_task" where
  "history_tick_task sy date msg = zero_task\<lparr>bt_dataset := DatasetHistoryTick, bt_symbol := sy,
     bt_start := date, bt_end := date, bt_priority := 100, bt_error := msg\<rparr>"

definition history_tick_coverage :: "symbol \<Rightarrow> gotime \<Rightarrow> string \<Rightarrow> int \<Rightarrow> string \<Rightarrow> gotime \<Rightarrow> history_coverage" where
  "history_tick_coverage sy date status rows checksum fetched = \<lparr>hc_dataset = DatasetHistoryTick,
     hc_symbol = sy, hc_trade_date = date, hc_period = [], hc_adjust = [], hc_status = status,
     hc_row_count = rows, hc_checksum = checksum, hc_source_address = [], hc_last_fetch = fetched,
     hc_last_error = []\<rparr>"

text \<open>The three parts of \<open>GetHistoryTicks\<close>: the cached page, the local rows, the fill from upstream.
  \<open>None\<close> means that the part does not answer and the next one is tried.\<close>

definition history_ticks_cached :: "'w service \<Rightarrow> symbol \<Rightarrow> gotime \<Rightarrow> history_tick_request \<Rightarrow> ('w, tick list option) op" where
  "history_ticks_cached sv sy date req =
     bnd (cache_look sv (ht_force req) (\<lambda>c. ca_get_tick_page c (history_tick_cache_key sy req))) (\<lambda>hit.
       case hit of None \<Rightarrow> ret None
       | Some ticks \<Rightarrow> bnd (history_ticks_cover_request sv sy date ticks req) (\<lambda>covers.
           ret (if covers then Some ticks else None)))"

definition history_ticks_local :: "'w service \<Rightarrow> symbol \<Rightarrow> gotime \<Rightarrow> history_tick_request \<Rightarrow> ('w, tick list option) op" where
  "history_ticks_local sv sy date req =
     (if ht_force req then ret None
      else when_some (sv_store sv) (ret None) (\<lambda>st.
        catch (st_query_ticks st \<lparr>hq_symbol = sy, hq_trade_date = date, hq_start = uint (ht_start req),
                 hq_limit = history_tick_local_limit req\<rparr>)
          (\<lambda>e. if e = ErrNoData then ret None else fail e)
          (\<lambda>rows. bnd (history_ticks_cover_request sv sy date rows req) (\<lambda>covers.
             if covers
             then bnd (cache_put sv (\<lambda>c. ca_put_history_tick_page c (history_tick_cache_key sy req) (mark_ticks_cached rows)))
                    (\<lambda>_. ret (Some (mark_ticks_cached rows)))
             else ret None))))"

definition history_ticks_load :: "'w service \<Rightarrow> symbol \<Rightarrow> gotime \<Rightarrow> history_tick_request \<Rightarrow> ('w, tick list) op" where
  "history_ticks_load sv sy date req = when_some (sv_provider sv)
     (bnd (ignore_err (service_enqueue sv (history_tick_task sy date []))) (\<lambda>_. fail ErrNoData))
     (\<lambda>p. pv_history_ticks p sy req)"

definition history_ticks_fill :: "'w service \<Rightarrow> symbol \<Rightarrow> gotime \<Rightarrow> history_tick_request \<Rightarrow> ('w, tick list) op" where
  "history_ticks_fill sv sy date req =
     catch (do_group sv (history_tick_cache_key sy req) (history_ticks_load sv sy date req))
       (\<lambda>e. bnd (ignore_err (service_enqueue sv (history_tick_task sy date (err_text e)))) (\<lambda>_. fail e))
       (\<lambda>remote.
          if remote = []
          then bnd (ignore_err (service_put_coverage sv (history_tick_coverage sy date CoverageMissing 0 [] zero_time)))
                 (\<lambda>_. fail ErrNoData)
          else bnd (when_some (sv_store sv) (ret ()) (\<lambda>st.
                  bnd (st_put_ticks st remote) (\<lambda>_.
                    if ht_full req
                    then (\<lambda>w. service_put_coverage sv (history_tick_coverage sy date CoverageCovered
                            (int (length remote)) history_tick_coverage_full_marker (service_now sv w)) w)
                    else ret ()))) (\<lambda>_.
               bnd (cache_put sv (\<lambda>c. ca_put_history_tick_page c (history_tick_cache_key sy req) remote)) (\<lambda>_.
               ret remote)))"

definition or_else :: "('w, 'a option) op \<Rightarrow> ('w, 'a) op \<Rightarrow> ('w, 'a) op" where
  "or_else first rest = bnd first (\<lambda>x. case x of Some y \<Rightarrow> ret y | None \<Rightarrow> rest)"

definition service_get_history_ticks :: "'w service \<Rightarrow> symbol \<Rightarrow> history_tick_request \<Rightarrow> ('w, tick list) op" where
  "service_get_history_ticks sv sy req = guard (validate_symbol sy)
     (let date = normalize_date (ht_trade_date req) in
      if is_zero date then fail ErrInvalidRequest
      else or_else (history_ticks_cached sv sy date req)
             (or_else (history_ticks_local sv sy date req) (history_ticks_fill sv sy date req)))"

section \<open>K-lines\<close>

type_synonym 'w bar_fetch = "symbol \<Rightarrow> kline_request \<Rightarrow> ('w, bar list) op"

fun fetch_bar_gaps :: "'w service \<Rightarrow> bar_gap list \<Rightarrow> symbol \<Rightarrow> kline_request \<Rightarrow> 'w bar_fetch \<Rightarrow> ('w, bar list) op" where
  "fetch_bar_gaps sv [] sy req fetch = ret []"
| "fetch_bar_gaps sv (gap # gaps) sy req fetch = (\<lambda>w. guard (sv_ctx_err sv w)
     (bnd (fetch sy (req\<lparr>k_start := 0, k_count := 0, k_start_date := g_start gap, k_end_date := g_end gap\<rparr>)) (\<lambda>bars.
      bnd (fetch_bar_gaps sv gaps sy req fetch) (\<lambda>rest. ret (bars @ rest)))) w)"

definition bar_task :: "string \<Rightarrow> symbol \<Rightarrow> gotime \<times> gotime \<Rightarrow> string \<Rightarrow> string \<Rightarrow> backfill_task" where
  "bar_task adjust sy days period msg = zero_task\<lparr>bt_dataset := dataset_for_adjust adjust, bt_symbol := sy,
     bt_start := fst days, bt_end := snd days, bt_period := period, bt_adjust := adjust,
     bt_priority := 90, bt_error := msg\<rparr>"

definition bars_cached :: "'w service \<Rightarrow> symbol \<Rightarrow> kline_request \<Rightarrow> string \<Rightarrow> ('w, bar list option) op" where
  "bars_cached sv sy req adjust =
     bnd (cache_look sv (k_force req) (\<lambda>c. ca_get_bars c (bar_cache_key sy req adjust))) (\<lambda>hit.
       case hit of None \<Rightarrow> ret None
       | Some bars \<Rightarrow> ret (if cached_bars_cover_request bars req
                           then Some (slice_bars_by_start_count bars (k_start req) (k_count req)) else None))"

definition bars_fill_gaps :: "'w service \<Rightarrow> 'w store_ops \<Rightarrow> symbol \<Rightarrow> kline_request \<Rightarrow> string \<Rightarrow> 'w bar_fetch \<Rightarrow>
    bar list \<Rightarrow> bar_gap list \<Rightarrow> ('w, bar list option) op" where
  "bars_fill_gaps sv st sy req adjust fetch rows gaps = (\<lambda>w0.
     catch (fetch_bar_gaps sv gaps sy req fetch)
       (\<lambda>e w. bnd (ignore_err (service_enqueue sv (bar_task adjust sy (gap_task_range (sv_time_now sv w) gaps) (k_period req) (err_text e))))
              (\<lambda>_. fail e) w)
       (\<lambda>remote. bnd (if remote = [] then ret () else st_put_bars st remote) (\<lambda>_.
          let merged = slice_bars_by_start_count
                (merge_bars rows (filter_bars_by_date remote (k_start_date req) (k_end_date req)))
                (k_start req) (k_count req)
          in bnd (if cached_bars_cover_request merged req
                  then cache_put sv (\<lambda>c. ca_put_bars c (bar_cache_key sy req adjust) merged) else ret ())
               (\<lambda>_. ret (Some merged)))) w0)"

definition bars_local :: "'w service \<Rightarrow> symbol \<Rightarrow> kline_request \<Rightarrow> string \<Rightarrow> 'w bar_fetch \<Rightarrow> ('w, bar list option) op" where
  "bars_local sv sy req adjust fetch =
     (if k_force req then ret None
      else when_some (sv_store sv) (ret None) (\<lambda>st.
        catch (st_query_bars st \<lparr>bq_symbol = sy, bq_period = k_period req, bq_adjust = adjust,
                 bq_start = zero_time, bq_end = k_end_date req\<rparr>)
          (\<lambda>e. if e = ErrNoData then ret None else fail e)
          (\<lambda>all_bars.
             let rows = filter_bars_by_date all_bars (k_start_date req) (k_end_date req) in
             if local_bars_cover_request all_bars rows req
             then let page = slice_bars_by_start_count rows (k_start req) (k_count req) in
                  bnd (cache_put sv (\<lambda>c. ca_put_bars c (bar_cache_key sy req adjust) page)) (\<lambda>_. ret (Some page))
             else if k_period req = PeriodDay \<and> \<not> is_zero (k_start_date req) \<and> \<not> is_zero (k_end_date req) \<and>
                     bar_gaps_for_request all_bars req \<noteq> []
             then bars_fill_gaps sv st sy req adjust fetch rows (bar_gaps_for_request all_bars req)
             else ret None)))"

definition bar_coverage :: "string \<Rightarrow> symbol \<Rightarrow> gotime \<Rightarrow> string \<Rightarrow> int \<Rightarrow> gotime \<Rightarrow> history_coverage" where
  "bar_coverage adjust sy date period rows fetched = \<lparr>hc_dataset = dataset_for_adjust adjust,
     hc_symbol = sy, hc_trade_date = date, hc_period = period, hc_adjust = adjust,
     hc_status = CoverageCovered, hc_row_count = rows, hc_checksum = [], hc_source_address = [],
     hc_last_fetch = fetched, hc_last_error = []\<rparr>"

definition bars_fill :: "'w service \<Rightarrow> symbol \<Rightarrow> kline_request \<Rightarrow> string \<Rightarrow> 'w bar_fetch \<Rightarrow> ('w, bar list) op" where
  "bars_fill sv sy req adjust fetch =
     catch (do_group sv (bar_cache_key sy req adjust) (fetch sy req))
       (\<lambda>e w. bnd (ignore_err (service_enqueue sv
              (bar_task adjust sy (bar_task_range (sv_time_now sv w) req []) (k_period req) (err_text e))))
            (\<lambda>_. fail e) w)
       (\<lambda>remote w1.
          (let days = bar_task_range (sv_time_now sv w1) req remote in
           if remote = []
           then bnd (ignore_err (service_enqueue sv (bar_task adjust sy days (k_period req) []))) (\<lambda>_. fail ErrNoData)
           else bnd (when_some (sv_store sv) (ret ()) (\<lambda>st.
                   bnd (st_put_bars st remote) (\<lambda>_ w. service_put_coverage sv
                     (bar_coverage adjust sy (fst days) (k_period req) (int (length remote)) (service_now sv w)) w))) (\<lambda>_.
                bnd (cache_put sv (\<lambda>c. ca_put_bars c (bar_cache_key sy req adjust) remote)) (\<lambda>_.
                ret (slice_bars_by_start_count remote (k_start req) (k_count req))))) w1)"

definition service_get_bars :: "'w service \<Rightarrow> symbol \<Rightarrow> kline_request \<Rightarrow> string \<Rightarrow> 'w bar_fetch \<Rightarrow> ('w, bar list) op" where
  "service_get_bars sv sy req adjust0 fetch = guard (validate_symbol sy)
     (if k_period req = PeriodUnknown then fail ErrInvalidRequest
      else let adjust = (if adjust0 = [] then AdjustNone else adjust0) in
        or_else (bars_cached sv sy req adjust)
          (or_else (bars_local sv sy req adjust fetch) (bars_fill sv sy req adjust fetch)))"

definition service_get_kline :: "'w service \<Rightarrow> symbol \<Rightarrow> kline_request \<Rightarrow> ('w, bar list) op" where
  "service_get_kline sv sy req =
     service_get_bars sv sy req AdjustNone (\<lambda>s r. upstream sv (\<lambda>p. pv_kline p s r))"

definition service_get_adjusted_kline :: "'w service \<Rightarrow> symbol \<Rightarrow> kline_request \<Rightarrow> string \<Rightarrow> ('w, bar list) op" where
  "service_get_adjusted_kline sv sy req adjust =
     service_get_bars sv sy req adjust (\<lambda>s r. upstream sv (\<lambda>p. pv_adjusted_kline p s r adjust))"

end
