(* ===== verification/Market_World.thy ===== *)
theory Market_World
  imports Market_Service
begin

text \<open>
  The service on the components the default configuration gives it: \<open>MemoryStore\<close> as history store
  and backfill queue, \<open>Memory\<close> as cache, and any provider.  The laws the service relies on are locales,
  interpreted here on these components.
\<close>

section \<open>The world of one process\<close>

record 'p world =
  w_store :: memory_store
  w_cache :: memory
  w_provider :: 'p
  w_now :: gotime
  w_ctx :: "go_error option"

definition on_store :: "(go_error option \<Rightarrow> (memory_store, 'a) op) \<Rightarrow> ('p world, 'a) op" where
  "on_store m w = (case m (w_ctx w) (w_store w) of (r, s) \<Rightarrow> (r, w\<lparr>w_store := s\<rparr>))"

definition on_cache :: "(go_error option \<Rightarrow> gotime \<Rightarrow> (memory, 'a) op) \<Rightarrow> ('p world, 'a) op" where
  "on_cache m w = (case m (w_ctx w) (w_now w) (w_cache w) of (r, c) \<Rightarrow> (r, w\<lparr>w_cache := c\<rparr>))"

definition on_provider :: "('p, 'a) op \<Rightarrow> ('p world, 'a) op" where
  "on_provider m w = (case m (w_provider w) of (r, p) \<Rightarrow> (r, w\<lparr>w_provider := p\<rparr>))"

definition world_provider :: "'p provider_ops \<Rightarrow> 'p world provider_ops" where
  "world_provider p = \<lparr>pv_quotes = on_provider \<circ> pv_quotes p, pv_order_book = on_provider \<circ> pv_order_book p,
     pv_ticks = (\<lambda>s r. on_provider (pv_ticks p s r)), pv_history_ticks = (\<lambda>s r. on_provider (pv_history_ticks p s r)),
     pv_kline = (\<lambda>s r. on_provider (pv_kline p s r)),
     pv_adjusted_kline = (\<lambda>s r a. on_provider (pv_adjusted_kline p s r a)),
     pv_xdxr = on_provider \<circ> pv_xdxr p, pv_security_info = on_provider \<circ> pv_security_info p,
     pv_finance = on_provider \<circ> pv_finance p, pv_trading_day = on_provider (pv_trading_day p)\<rparr>"

definition memory_store_ops :: "'p world store_ops" where
  "memory_store_ops = \<lparr>st_coverage = (\<lambda>r. on_store (\<lambda>ctx. coverage ctx r)),
     st_put_coverage = (\<lambda>c. on_store (\<lambda>ctx. put_coverage ctx c)),
     st_put_ticks = (\<lambda>ts. on_store (\<lambda>ctx. put_ticks ctx ts)),
     st_query_ticks = (\<lambda>q. on_store (\<lambda>ctx. query_ticks ctx q)),
     st_put_bars = (\<lambda>bs. on_store (\<lambda>ctx. put_bars ctx bs)),
     st_query_bars = (\<lambda>q. on_store (\<lambda>ctx. query_bars ctx q))\<rparr>"

definition memory_queue_ops :: "'p world queue_ops" where
  "memory_queue_ops = \<lparr>qu_enqueue = (\<lambda>t w. on_store (\<lambda>ctx. enqueue ctx (w_now w) t) w),
     qu_next = (\<lambda>w. on_store (\<lambda>ctx. next_task ctx (w_now w)) w),
     qu_update = (\<lambda>t w. on_store (\<lambda>ctx. update_task ctx (w_now w) t) w),
     qu_list = (\<lambda>f. on_store (\<lambda>ctx. list_tasks ctx f))\<rparr>"

definition memory_cache_ops :: "'p world cache_ops" where
  "memory_cache_ops = \<lparr>ca_get_quotes = (\<lambda>ss. on_cache (\<lambda>ctx t. get_quotes ctx t ss)),
     ca_put_quotes = (\<lambda>qs. on_cache (\<lambda>ctx t. put_quotes ctx t qs)),
     ca_get_order_books = (\<lambda>ss. on_cache (\<lambda>ctx t. get_order_books ctx t ss)),
     ca_put_order_books = (\<lambda>bs. on_cache (\<lambda>ctx t. put_order_books ctx t bs)),
     ca_get_tick_page = (\<lambda>k. on_cache (\<lambda>ctx t. get_tick_page ctx t k)),
     ca_put_tick_page = (\<lambda>k v ttl. on_cache (\<lambda>ctx t. put_tick_page ctx t k v ttl)),
     ca_put_history_tick_page = (\<lambda>k v. on_cache (\<lambda>ctx t. put_history_tick_page ctx t k v)),
     ca_get_bars = (\<lambda>k. on_cache (\<lambda>ctx t. get_bars_mem ctx t k)),
     ca_put_bars = (\<lambda>k v. on_cache (\<lambda>ctx t. put_bars_mem ctx t k v)),
     ca_get_xdxr = (\<lambda>s. on_cache (\<lambda>ctx t. get_xdxr ctx t s)),
     ca_put_xdxr = (\<lambda>s v. on_cache (\<lambda>ctx t. put_xdxr ctx t s v)),
     ca_get_securities = (\<lambda>k. on_cache (\<lambda>ctx t. get_securities_mem ctx t k)),
     ca_put_securities = (\<lambda>k v. on_cache (\<lambda>ctx t. put_securities_mem ctx t k v)),
     ca_get_finance = (\<lambda>s. on_cache (\<lambda>ctx t. get_finance ctx t s)),
     ca_put_finance = (\<lambda>s v. on_cache (\<lambda>ctx t. put_finance ctx t s v)),
     ca_get_trading_day = on_cache (\<lambda>ctx t. get_trading_day ctx t),
     ca_put_trading_day = (\<lambda>v. on_cache (\<lambda>ctx t. put_trading_day ctx t v))\<rparr>"

definition memory_service :: "'p provider_ops option \<Rightarrow> 'p world service" where
  "memory_service p = new_market_data_service (map_option world_provider p) (Some memory_store_ops)
     (Some memory_queue_ops) (Some memory_cache_ops) w_now w_ctx"

lemma memory_service_simps [simp]:
  "sv_provider (memory_service p) = map_option world_provider p" "sv_store (memory_service p) = Some memory_store_ops"
  "sv_queue (memory_service p) = Some memory_queue_ops" "sv_cache (memory_service p) = Some memory_cache_ops"
  "sv_clock (memory_service p) = Some w_now" "sv_time_now (memory_service p) = w_now"
  "sv_ctx_err (memory_service p) = w_ctx" "sv_grouped (memory_service p)"
  by (simp_all add: memory_service_def new_market_data_service_def)

lemma service_now_memory [simp]: "service_now (memory_service p) w = w_now w"
  by (simp add: service_now_def)

section \<open>Laws of the interfaces\<close>

text \<open>
  An operation is \<^emph>\<open>local\<close> to a component when it leaves what \<open>peek\<close> reads of the state alone.  The
  sequencing combinators of the service keep this, so a path of the service without an upstream call is local.
\<close>

locale frame =
  fixes peek :: "'w \<Rightarrow> 'p"
begin

definition quiet :: "('w, 'a) op \<Rightarrow> bool" where
  "quiet m \<longleftrightarrow> (\<forall>w. peek (snd (m w)) = peek w)"

lemma quiet_ret: "quiet (ret x)"
  by (simp add: quiet_def ret_def)

lemma quiet_fail: "quiet (fail e)"
  by (simp add: quiet_def fail_def)

lemma quiet_bnd: "quiet m \<Longrightarrow> (\<And>x. quiet (f x)) \<Longrightarrow> quiet (bnd m f)"
  by (auto simp: quiet_def bnd_def split: sum.split prod.split) (metis snd_conv)+

lemma quiet_catch: "quiet m \<Longrightarrow> (\<And>e. quiet (h e)) \<Longrightarrow> (\<And>x. quiet (f x)) \<Longrightarrow> quiet (catch m h f)"
  by (auto simp: quiet_def catch_def split: sum.split prod.split) (metis snd_conv)+

lemma quiet_when_some: "quiet d \<Longrightarrow> (\<And>y. x = Some y \<Longrightarrow> quiet (f y)) \<Longrightarrow> quiet (when_some x d f)"
  by (cases x) (simp_all add: when_some_def)

lemma quiet_if: "(b \<Longrightarrow> quiet m) \<Longrightarrow> (\<not> b \<Longrightarrow> quiet n) \<Longrightarrow> quiet (if b then m else n)"
  by simp

lemma quiet_option: "quiet m \<Longrightarrow> (\<And>y. quiet (f y)) \<Longrightarrow> quiet (case x of None \<Rightarrow> m | Some y \<Rightarrow> f y)"
  by (cases x) simp_all

lemmas quiet_rules = quiet_ret quiet_fail quiet_bnd quiet_catch quiet_when_some quiet_if quiet_option

end

text \<open>
  A service whose cache and store are quiet about the provider: the cached and the local part of a request
  never touch it.
\<close>

locale local_first = frame peek for peek :: "'w \<Rightarrow> 'p" +
  fixes sv :: "'w service"
  assumes quiet_cache: "sv_cache sv = Some c \<Longrightarrow>
      quiet (ca_get_tick_page c key) \<and> quiet (ca_put_history_tick_page c key ticks) \<and>
      quiet (ca_get_bars c key) \<and> quiet (ca_put_bars c key bars)"
    and quiet_store: "sv_store sv = Some st \<Longrightarrow>
      quiet (st_coverage st cr) \<and> quiet (st_query_ticks st tq)"
begin

lemma quiet_look: "(\<And>c. sv_cache sv = Some c \<Longrightarrow> quiet (f c)) \<Longrightarrow> quiet (cache_look sv b f)"
  by (simp add: cache_look_def quiet_rules)

lemma quiet_put: "(\<And>c. sv_cache sv = Some c \<Longrightarrow> quiet (f c)) \<Longrightarrow> quiet (cache_put sv f)"
  by (simp add: cache_put_def quiet_rules)

lemma quiet_cover: "quiet (history_ticks_cover_request sv sy date ticks req)"
  using quiet_store
  by (auto simp: history_ticks_cover_request_def history_ticks_have_full_coverage_def Let_def intro!: quiet_rules)

lemma quiet_history_cached: "quiet (history_ticks_cached sv sy date req)"
  unfolding history_ticks_cached_def using quiet_cache
  by (intro quiet_rules quiet_look quiet_cover) blast

lemma quiet_history_local: "quiet (history_ticks_local sv sy date req)"
  unfolding history_ticks_local_def using quiet_cache quiet_store
  by (intro quiet_rules quiet_put quiet_cover) blast+

lemma quiet_bars_cached: "quiet (bars_cached sv sy req adjust)"
  unfolding bars_cached_def using quiet_cache
  by (intro quiet_rules quiet_look) blast

text \<open>A request the cache or the store answers leaves the provider as it was.\<close>

lemma history_answered_locally:
  assumes "validate_symbol sy = None" and "\<not> is_zero (normalize_date (ht_trade_date req))"
    and "or_else (history_ticks_cached sv sy (normalize_date (ht_trade_date req)) req)
      (bnd (history_ticks_local sv sy (normalize_date (ht_trade_date req)) req)
         (\<lambda>x. case x of Some y \<Rightarrow> ret y | None \<Rightarrow> fail ErrNoData)) w = (Inr ticks, w')"
  shows "service_get_history_ticks sv sy req w = (Inr ticks, w') \<and> peek w' = peek w"
proof -
  let ?d = "normalize_date (ht_trade_date req)"
  have "quiet (or_else (history_ticks_cached sv sy ?d req)
      (bnd (history_ticks_local sv sy ?d req) (\<lambda>x. case x of Some y \<Rightarrow> ret y | None \<Rightarrow> fail ErrNoData)))"
    unfolding or_else_def
    by (intro quiet_rules quiet_history_cached quiet_history_local)
  then have "peek w' = peek w" using assms(3) by (simp add: quiet_def) (metis snd_conv)
  moreover have "service_get_history_ticks sv sy req w = (Inr ticks, w')"
    using assms unfolding service_get_history_ticks_def
    by (auto simp: or_else_def Let_def bnd_eq_Inr fail_def split: option.splits)
      (auto simp: bnd_def fail_def ret_def split: option.splits sum.splits prod.splits)
  ultimately show ?thesis by blast
qed

end

lemma on_store_provider: "w_provider (snd (on_store m w)) = w_provider w"
  by (simp add: on_store_def split: prod.split)

lemma on_cache_provider: "w_provider (snd (on_cache m w)) = w_provider w"
  by (simp add: on_cache_def split: prod.split)

interpretation fr: frame w_provider .

interpretation mem: local_first w_provider "memory_service p"
  by unfold_locales
    (auto simp: fr.quiet_def memory_cache_ops_def memory_store_ops_def on_store_provider on_cache_provider)

section \<open>Calls on the memory components\<close>

lemma on_store_Inr: "m (w_ctx w) (w_store w) = (r, s) \<Longrightarrow> on_store m w = (r, w\<lparr>w_store := s\<rparr>)"
  by (simp add: on_store_def)

lemma on_cache_Inr: "m (w_ctx w) (w_now w) (w_cache w) = (r, c) \<Longrightarrow> on_cache m w = (r, w\<lparr>w_cache := c\<rparr>)"
  by (simp add: on_cache_def)

lemma on_provider_Inr: "m (w_provider w) = (r, p) \<Longrightarrow> on_provider m w = (r, w\<lparr>w_provider := p\<rparr>)"
  by (simp add: on_provider_def)

lemma upstream_memory:
  "upstream (memory_service (Some p)) f = f (world_provider p)" "upstream (memory_service None) f = fail ErrUpstreamUnavailable"
  by (simp_all add: upstream_def)

lemma do_group_live: "w_ctx w = None \<Longrightarrow> do_group (memory_service p) key m w = m w"
  by (simp add: do_group_def)

lemma cache_look_bypass [simp]: "cache_look sv True f = ret None"
  by (simp add: cache_look_def)

lemma cache_memory:
  "cache_look (memory_service p) False f = f memory_cache_ops" "cache_put (memory_service p) g = g memory_cache_ops"
  by (simp_all add: cache_look_def cache_put_def)

lemma or_else_None: "m w = (Inr None, w') \<Longrightarrow> or_else m rest w = rest w'"
  by (simp add: or_else_def bnd_def)

lemma or_else_Some: "m w = (Inr (Some x), w') \<Longrightarrow> or_else m rest w = (Inr x, w')"
  by (simp add: or_else_def bnd_def ret_def)

lemma bnd_step: "m w = (Inr x, w') \<Longrightarrow> bnd m f w = f x w'"
  by (simp add: bnd_def)

lemma bnd_stop: "m w = (Inl e, w') \<Longrightarrow> bnd m f w = (Inl e, w')"
  by (simp add: bnd_def)

lemma catch_step: "m w = (Inr x, w') \<Longrightarrow> catch m h f w = f x w'"
  by (simp add: catch_def)

lemma catch_stop: "m w = (Inl e, w') \<Longrightarrow> \<not> is_panic e \<Longrightarrow> catch m h f w = h e w'"
  by (simp add: catch_def)

section \<open>Historical ticks, filled and read back\<close>

definition day_ticks :: "symbol \<Rightarrow> gotime \<Rightarrow> tick list \<Rightarrow> bool" where
  "day_ticks sy d ticks \<longleftrightarrow>
     list_all (\<lambda>t. tk_symbol t = sy \<and> date_key (tk_trade_date t) = date_key d \<and> tick_ok t) ticks"

lemma day_ticks_prepare:
  assumes "day_ticks sy d ticks" and "validate_symbol sy = None" and "\<not> is_zero (normalize_date d)"
  shows "collect prepare_tick ticks = Inr (map dated_tick ticks)"
    and "filter (\<lambda>t. tick_group t = tick_key sy d) (map dated_tick ticks) = map dated_tick ticks"
proof -
  have nz: "date_key d \<noteq> []" using assms(3) by (simp add: date_key_eq_Nil)
  have one: "prepare_tick t = Inr (dated_tick t) \<and> tick_group (dated_tick t) = tick_key sy d"
    if t: "t \<in> set ticks" for t
  proof -
    have t: "tk_symbol t = sy" "date_key (tk_trade_date t) = date_key d"
      using assms(1) that by (auto simp: day_ticks_def list_all_iff)
    then have "\<not> is_zero (normalize_date (tk_trade_date t))" using nz by (simp add: date_key_eq_Nil [symmetric])
    moreover from this have "\<not> is_zero (tk_trade_date t)" by (rule normalize_date_nonzero)
    ultimately show ?thesis
      using t assms(2) by (simp add: prepare_tick_def dated_tick_def tick_group_def tick_key_def)
  qed
  then show "collect prepare_tick ticks = Inr (map dated_tick ticks)" by (intro collect_all) blast
  show "filter (\<lambda>t. tick_group t = tick_key sy d) (map dated_tick ticks) = map dated_tick ticks"
    using one by (simp add: filter_id_conv)
qed

definition stored_ticks :: "memory_store \<Rightarrow> symbol \<Rightarrow> gotime \<Rightarrow> tick list" where
  "stored_ticks s sy d = get_list (ms_ticks s) (tick_key sy d)"

definition full_coverage :: "symbol \<Rightarrow> gotime \<Rightarrow> tick list \<Rightarrow> gotime \<Rightarrow> history_coverage" where
  "full_coverage sy d ticks now = history_tick_coverage sy (normalize_date d) CoverageCovered (int (length ticks))
     history_tick_coverage_full_marker now"

text \<open>The store after a complete day was fetched.\<close>

definition filled_store :: "symbol \<Rightarrow> gotime \<Rightarrow> tick list \<Rightarrow> gotime \<Rightarrow> memory_store \<Rightarrow> memory_store" where
  "filled_store sy d ticks now s =
     snd (put_coverage None (full_coverage sy d ticks now) (snd (put_ticks None ticks s)))"

lemma history_fill_ok:
  assumes "day_ticks sy d remote" and "validate_symbol sy = None" and "\<not> is_zero (normalize_date d)"
    and "remote \<noteq> []" and "ht_full req" and "w_ctx w = None"
    and "pv_history_ticks p sy req (w_provider w) = (Inr remote, p')"
  shows "history_ticks_fill (memory_service (Some p)) sy (normalize_date d) req w =
    (Inr remote, w\<lparr>w_provider := p', w_store := filled_store sy d remote (w_now w) (w_store w),
       w_cache := snd (put_history_tick_page None (w_now w) (history_tick_cache_key sy req) remote (w_cache w))\<rparr>)"
proof -
  have load: "do_group (memory_service (Some p)) (history_tick_cache_key sy req)
      (history_ticks_load (memory_service (Some p)) sy (normalize_date d) req) w = (Inr remote, w\<lparr>w_provider := p'\<rparr>)"
    using assms(6,7) by (simp add: do_group_live history_ticks_load_def world_provider_def on_provider_Inr)
  obtain s1 where put: "put_ticks None remote (w_store w) = (Inr (), s1)"
    using day_ticks_prepare(1) [OF assms(1-3)] by (simp add: put_ticks_def)
  obtain s2 where cov: "put_coverage None (full_coverage sy d remote (w_now w)) s1 = (Inr (), s2)"
    using assms(2) by (simp add: put_coverage_def Let_def full_coverage_def history_tick_coverage_def)
  obtain c where page: "put_history_tick_page None (w_now w) (history_tick_cache_key sy req) remote (w_cache w) = (Inr (), c)"
    by (simp add: put_history_tick_page_def put_tick_page_def)
  have s2: "filled_store sy d remote (w_now w) (w_store w) = s2"
    by (simp add: filled_store_def put cov)
  show ?thesis unfolding history_ticks_fill_def catch_def load
    using assms(4-6)
    by (simp add: bnd_def ret_def memory_store_ops_def memory_cache_ops_def on_store_def on_cache_def cache_memory
        service_put_coverage_def put cov page full_coverage_def [symmetric] s2)
qed

lemma filled_store_ticks:
  fixes now :: gotime
  assumes "day_ticks sy d remote" and "validate_symbol sy = None" and "\<not> is_zero (normalize_date d)"
    and "store_ok s"
  defines "rows \<equiv> stored_ticks (filled_store sy d remote now s) sy d"
  shows "sorted_wrt (<) (map tick_order rows)"
    and "rows_map tick_row_key rows =
      put_all tick_row_key id (map dated_tick remote) (rows_map tick_row_key (stored_ticks s sy d))"
    and "remote \<noteq> [] \<Longrightarrow> rows \<noteq> []"
proof -
  define s1 where "s1 = snd (put_ticks None remote s)"
  have put: "put_ticks None remote s = (Inr (), s1)"
    using day_ticks_prepare(1) [OF assms(1-3)] by (simp add: put_ticks_def s1_def)
  have rows: "rows = get_list (ms_ticks s1) (tick_key sy d)"
    by (simp add: rows_def stored_ticks_def filled_store_def s1_def put_coverage_def guard_def Let_def split: option.split)
  have "list_all tick_ok remote" using assms(1) by (simp add: day_ticks_def list_all_iff)
  then have "store_ok s1" using put_ticks_ok [OF assms(4)] by (simp add: s1_def)
  then show "sorted_wrt (<) (map tick_order rows)"
    by (simp add: rows store_ok_def ticks_ok_def tick_rows.rows_ok_def)
  show m: "rows_map tick_row_key rows =
      put_all tick_row_key id (map dated_tick remote) (rows_map tick_row_key (stored_ticks s sy d))"
    using merged_ticks_map [OF assms(4)] put_ticks_Inr [OF put] day_ticks_prepare(2) [OF assms(1-3)]
    by (simp add: rows stored_ticks_def)
  assume "remote \<noteq> []"
  then have "dom (rows_map tick_row_key rows) \<noteq> {}" unfolding m by (simp add: put_all_dom)
  then show "rows \<noteq> []" by auto
qed

lemma filled_store_coverage:
  assumes "validate_symbol sy = None"
  shows "coverage None \<lparr>cr_dataset = DatasetHistoryTick, cr_symbol = sy, cr_trade_date = normalize_date d,
      cr_period = [], cr_adjust = []\<rparr> (filled_store sy d remote now s) =
    (Inr (normalize_coverage (full_coverage sy d remote now)), filled_store sy d remote now s)"
  using assms
  by (simp add: coverage_def filled_store_def put_coverage_def Let_def full_coverage_def history_tick_coverage_def
      normalize_coverage_def coverage_key_def)

lemma history_local_hit:
  assumes "day_ticks sy d remote" and "validate_symbol sy = None" and "\<not> is_zero (normalize_date d)"
    and "store_ok s" and "remote \<noteq> []" and "ht_start req = 0" and "ht_full req" and "\<not> ht_force req"
    and "w_ctx w = None" and "w_store w = filled_store sy d remote now s"
  shows "history_ticks_local (memory_service p) sy (normalize_date d) req w =
    (Inr (Some (mark_ticks_cached (stored_ticks (w_store w) sy d))),
     w\<lparr>w_cache := snd (put_history_tick_page None (w_now w) (history_tick_cache_key sy req)
        (mark_ticks_cached (stored_ticks (w_store w) sy d)) (w_cache w))\<rparr>)"
proof -
  let ?rows = "stored_ticks (w_store w) sy d"
  have ne: "?rows \<noteq> []" using filled_store_ticks(3) [OF assms(1-4)] assms(5,10) by simp
  have q: "st_query_ticks memory_store_ops \<lparr>hq_symbol = sy, hq_trade_date = normalize_date d,
      hq_start = uint (ht_start req), hq_limit = history_tick_local_limit req\<rparr> w = (Inr ?rows, w)"
    using assms(2,3,6,7,9) ne
    by (simp add: memory_store_ops_def on_store_def query_ticks_def history_tick_local_limit_def stored_ticks_def
        Let_def tick_window_all)
  have c: "history_ticks_cover_request (memory_service p) sy (normalize_date d) ?rows req w = (Inr True, w)"
    using ne assms(7,9,10) filled_store_coverage [OF assms(2), of d remote now s]
    by (simp add: history_ticks_cover_request_def history_ticks_have_full_coverage_def memory_store_ops_def
        on_store_def bnd_def ret_def normalize_coverage_def full_coverage_def history_tick_coverage_def)
  show ?thesis
    using assms(8,9)
    by (simp add: history_ticks_local_def catch_def q c cache_memory memory_cache_ops_def
        on_cache_def put_history_tick_page_def put_tick_page_def bnd_def ret_def)
qed

lemma history_cached_miss:
  assumes "w_ctx w = None" and "entry_get (w_now w) (m_tick_pages (w_cache w)) (history_tick_cache_key sy req) = None"
  shows "history_ticks_cached (memory_service p) sy date req w = (Inr None, w)"
  using assms
  by (cases "ht_force req")
    (simp_all add: history_ticks_cached_def cache_memory memory_cache_ops_def on_cache_def get_tick_page_def bnd_def ret_def)

section \<open>A failed fetch leaves a task\<close>

text \<open>The task a failed history request leaves in the queue, complete with identifier and times.\<close>

definition queued :: "gotime \<Rightarrow> backfill_task \<Rightarrow> memory_store \<Rightarrow> memory_store" where
  "queued now task s = snd (enqueue None now (task\<lparr>bt_status := BackfillPending\<rparr>) s)"

lemma enqueue_memory:
  assumes "w_ctx w = None" and "validate_symbol (bt_symbol task) = None" and "\<not> invalid_task task" and "bt_status task = []"
  shows "ignore_err (service_enqueue (memory_service p) task) w = (Inr (), w\<lparr>w_store := queued (w_now w) task (w_store w)\<rparr>)"
  using assms
  by (cases "enqueue None (w_now w) (task\<lparr>bt_status := BackfillPending\<rparr>) (w_store w)")
    (auto simp: service_enqueue_def memory_queue_ops_def on_store_def ignore_err_def bnd_def ret_def queued_def enqueue_def
      Let_def invalid_task_def split: option.splits)

lemma history_task_valid:
  assumes "\<not> is_zero (normalize_date d)"
  shows "\<not> invalid_task (history_tick_task sy (normalize_date d) msg)"
    and "bt_status (history_tick_task sy (normalize_date d) msg) = []"
    and "bt_symbol (history_tick_task sy (normalize_date d) msg) = sy"
  using assms by (simp_all add: history_tick_task_def zero_task_def invalid_task_def before_def)

lemma history_fill_fails:
  assumes "validate_symbol sy = None" and "\<not> is_zero (normalize_date d)" and "w_ctx w = None"
    and "pv_history_ticks p sy req (w_provider w) = (Inl e, p')" and "\<not> is_panic e"
  shows "history_ticks_fill (memory_service (Some p)) sy (normalize_date d) req w =
    (Inl e, w\<lparr>w_provider := p',
       w_store := queued (w_now w) (history_tick_task sy (normalize_date d) (err_text e)) (w_store w)\<rparr>)"
proof -
  have load: "do_group (memory_service (Some p)) (history_tick_cache_key sy req)
      (history_ticks_load (memory_service (Some p)) sy (normalize_date d) req) w = (Inl e, w\<lparr>w_provider := p'\<rparr>)"
    using assms(3,4) by (simp add: do_group_live history_ticks_load_def world_provider_def on_provider_Inr)
  show ?thesis unfolding history_ticks_fill_def catch_def load
    using assms(3,5) enqueue_memory [of "w\<lparr>w_provider := p'\<rparr>" "history_tick_task sy (normalize_date d) (err_text e)"]
      history_task_valid [OF assms(2)] assms(1)
    by (simp add: bnd_def fail_def)
qed

definition history_key :: "symbol \<Rightarrow> gotime \<Rightarrow> string" where
  "history_key sy d = task_key (normalize_task (history_tick_task sy d []))"

lemma history_key_msg: "task_key (normalize_task ((history_tick_task sy d msg)\<lparr>bt_status := BackfillPending\<rparr>)) = history_key sy d"
  by (simp add: history_key_def task_key_def normalize_task_def history_tick_task_def zero_task_def)

lemma queued_tasks:
  assumes "validate_symbol sy = None" and "\<not> is_zero (normalize_date d)"
  shows "ms_tasks (queued now (history_tick_task sy (normalize_date d) msg) s) =
    (case ms_tasks s (history_key sy (normalize_date d)) of
       Some t \<Rightarrow> ms_tasks s
     | None \<Rightarrow> (ms_tasks s)(history_key sy (normalize_date d) \<mapsto>
         fresh_task (history_key sy (normalize_date d)) now
           (normalize_task ((history_tick_task sy (normalize_date d) msg)\<lparr>bt_status := BackfillPending\<rparr>))))"
  using assms(1) history_task_valid [OF assms(2), of sy msg]
  by (auto simp: queued_def enqueue_def Let_def history_key_msg invalid_task_def split: option.splits)

lemma queued_fields:
  assumes "\<not> is_zero (normalize_date d)"
    and "t = fresh_task key now (normalize_task ((history_tick_task sy (normalize_date d) msg)\<lparr>bt_status := BackfillPending\<rparr>))"
  shows "bt_status t = BackfillPending \<and> bt_priority t = 100 \<and> bt_symbol t = sy \<and>
    bt_start t = normalize_date d \<and> bt_end t = normalize_date d \<and> bt_error t = msg \<and> claimable t"
  using assms by (simp add: fresh_task_def normalize_task_def history_tick_task_def zero_task_def claimable_def)

section \<open>Quotes\<close>

lemma order_items_known:
  assumes "\<forall>s \<in> set symbols. put_all (\<lambda>q. symbol_key (sym_of q)) id remote hits (symbol_key s) \<noteq> None"
    and "symbol_key ` sym_of ` set remote \<subseteq> symbol_key ` set symbols"
  shows "order_items sym_of symbols hits remote =
    map (\<lambda>s. the (put_all (\<lambda>q. symbol_key (sym_of q)) id remote hits (symbol_key s))) symbols"
proof -
  have "filter (\<lambda>s. put_all (\<lambda>q. symbol_key (sym_of q)) id remote hits (symbol_key s) \<noteq> None) symbols = symbols"
    using assms(1) by (simp add: filter_id_conv)
  moreover have "filter (\<lambda>q. symbol_key (sym_of q) \<notin> set (map symbol_key symbols)) remote = []"
    using assms(2) by (auto simp: filter_empty_conv)
  ultimately show ?thesis unfolding order_items_def Let_def by (simp only: append_Nil2)
qed

text \<open>The cached quotes sit under their own keys, as \<open>PutQuotes\<close> leaves them.\<close>

definition own_keys :: "(string \<rightharpoonup> quote entry) \<Rightarrow> bool" where
  "own_keys m \<longleftrightarrow> (\<forall>k e. m k = Some e \<longrightarrow> symbol_key (q_symbol (e_value e)) = k)"

lemma own_keys_entry: "own_keys m \<Longrightarrow> own_keys (entry_put now ttl (symbol_key (q_symbol q)) (q\<lparr>q_cached := False\<rparr>) m)"
  by (auto simp: own_keys_def entry_put_def)

lemma own_keys_loop: "own_keys m \<Longrightarrow> own_keys (put_quotes_loop now ttl qs m)"
  by (induction qs arbitrary: m) (simp_all add: own_keys_entry)

lemma put_quotes_own_keys: "own_keys (m_quotes m) \<Longrightarrow> own_keys (m_quotes (snd (put_quotes ctx now qs m)))"
  by (cases ctx) (simp_all add: put_quotes_def own_keys_loop)

definition cached_quote :: "'p world \<Rightarrow> symbol \<Rightarrow> quote option" where
  "cached_quote w s = entry_get (w_now w) (m_quotes (w_cache w)) (symbol_key s)"

definition missed :: "'p world \<Rightarrow> symbol list \<Rightarrow> symbol list" where
  "missed w = filter (\<lambda>s. cached_quote w s = None)"

lemma get_quotes_memory:
  assumes "w_ctx w = None"
  shows "ca_get_quotes memory_cache_ops symbols w =
    (Inr ((\<lambda>k. if k \<in> symbol_key ` set symbols
               then map_option (q_cached_update (\<lambda>_. True)) (entry_get (w_now w) (m_quotes (w_cache w)) k) else None),
       missed w symbols), w)"
proof -
  have "split_hits (w_now w) (m_quotes (w_cache w)) (q_cached_update (\<lambda>_. True)) symbols Map.empty [] =
    ((\<lambda>k. if k \<in> symbol_key ` set symbols
          then map_option (q_cached_update (\<lambda>_. True)) (entry_get (w_now w) (m_quotes (w_cache w)) k) else None),
     missed w symbols)"
    by (intro prod_eqI) (auto simp: fun_eq_iff split_hits_hits split_hits_misses missed_def cached_quote_def)
  then show ?thesis using assms by (simp add: memory_cache_ops_def on_cache_def get_quotes_def)
qed

section \<open>K-lines from the store and from the cache\<close>

lemma slice_all: "slice_bars_by_start_count bars start 0 = drop (unat start) bars"
  by (simp add: slice_bars_by_start_count_def Let_def subslice_def)

definition stored_bars :: "memory_store \<Rightarrow> symbol \<Rightarrow> kline_request \<Rightarrow> string \<Rightarrow> bar list result" where
  "stored_bars s sy req adjust = fst (query_bars None \<lparr>bq_symbol = sy, bq_period = k_period req,
     bq_adjust = adjust, bq_start = zero_time, bq_end = k_end_date req\<rparr> s)"

lemma query_bars_state: "snd (query_bars ctx q s) = s"
  by (auto simp: query_bars_def guard_def Let_def split: option.split)

lemma query_bars_memory:
  assumes "w_ctx w = None"
  shows "st_query_bars memory_store_ops \<lparr>bq_symbol = sy, bq_period = k_period req, bq_adjust = adjust,
      bq_start = zero_time, bq_end = k_end_date req\<rparr> w = (stored_bars (w_store w) sy req adjust, w)"
  using assms query_bars_state [of None "\<lparr>bq_symbol = sy, bq_period = k_period req, bq_adjust = adjust,
      bq_start = zero_time, bq_end = k_end_date req\<rparr>" "w_store w"]
  by (simp add: memory_store_ops_def on_store_def stored_bars_def split: prod.split) auto

lemma zero_time_is_zero [simp]: "is_zero zero_time"
  by (simp add: is_zero_def zero_time_def)

lemma stored_bars_in_range:
  "stored_bars s sy req adjust = Inr rows \<Longrightarrow> list_all (\<lambda>b. is_zero (k_end_date req) \<or> \<not> after (b_time b) (k_end_date req)) rows \<and> rows \<noteq> []"
  by (auto simp: stored_bars_def query_bars_def guard_def Let_def in_bar_range_def list_all_iff split: option.splits if_splits)

lemma whole_history_covered:
  assumes "stored_bars s sy req adjust = Inr rows" and "is_zero (k_start_date req)" and "k_count req = 0"
  shows "filter_bars_by_date rows (k_start_date req) (k_end_date req) = rows"
    and "local_bars_cover_request rows rows req"
proof -
  show "filter_bars_by_date rows (k_start_date req) (k_end_date req) = rows"
    using stored_bars_in_range [OF assms(1)] assms(2)
    by (auto simp: filter_bars_by_date_def Let_def filter_id_conv list_all_iff)
  show "local_bars_cover_request rows rows req"
    using stored_bars_in_range [OF assms(1)] assms(2,3)
    by (simp add: local_bars_cover_request_def bar_gaps_for_request_def)
qed

lemma bars_cached_memory:
  assumes "w_ctx w = None" and "\<not> k_force req"
  shows "bars_cached (memory_service p) sy req adjust w =
    (Inr (case entry_get (w_now w) (m_bar_ranges (w_cache w)) (bar_cache_key sy req adjust) of
        None \<Rightarrow> None
      | Some bars \<Rightarrow> if cached_bars_cover_request bars req
          then Some (slice_bars_by_start_count bars (k_start req) (k_count req)) else None), w)"
  using assms
  by (simp add: bars_cached_def cache_memory memory_cache_ops_def on_cache_def get_bars_mem_def bnd_def ret_def split: option.split)

lemma bars_local_memory:
  assumes "w_ctx w = None" and "\<not> k_force req" and "stored_bars (w_store w) sy req adjust = Inr rows"
    and "is_zero (k_start_date req)" and "k_count req = 0"
  shows "bars_local (memory_service p) sy req adjust fetch w =
    (Inr (Some (drop (unat (k_start req)) rows)),
     w\<lparr>w_cache := snd (put_bars_mem None (w_now w) (bar_cache_key sy req adjust) (drop (unat (k_start req)) rows) (w_cache w))\<rparr>)"
  using assms(1,2,5) whole_history_covered [OF assms(3-5)]
  by (simp add: bars_local_def query_bars_memory [OF assms(1)] assms(3) catch_def slice_all Let_def cache_memory
      memory_cache_ops_def on_cache_def put_bars_mem_def bnd_def ret_def)

section \<open>Cache keys\<close>

definition no_bar :: "string \<Rightarrow> bool" where
  "no_bar w \<longleftrightarrow> CHR ''|'' \<notin> set w"

lemma no_bar_simps [simp]:
  "no_bar []" "no_bar (c # w) \<longleftrightarrow> c \<noteq> CHR ''|'' \<and> no_bar w" "no_bar (v @ w) \<longleftrightarrow> no_bar v \<and> no_bar w"
  "no_bar (bool_text b)" "no_bar (nat_dec n)"
  using nat_dec_digits [of "CHR ''|''" n] by (auto simp: no_bar_def is_digit_def)

lemma joined_keys:
  "length ws = length vs \<Longrightarrow> list_all no_bar ws \<Longrightarrow> list_all no_bar vs \<Longrightarrow> join ''|'' ws = join ''|'' vs \<longleftrightarrow> ws = vs"
  using join_inj [of ws vs "CHR ''|''"] by (auto simp: list_all_iff no_bar_def)

lemma no_bar_compact [simp]: "no_bar (format_compact t)"
  using date_key_no_bar by (simp add: no_bar_def)

section \<open>Sample values for the witnesses\<close>

text \<open>A provider that counts its calls and answers every request for ticks and quotes alike.\<close>

definition fixed_provider :: "tick list result \<Rightarrow> quote list result \<Rightarrow> nat provider_ops" where
  "fixed_provider ticks quotes = \<lparr>pv_quotes = (\<lambda>_ n. (quotes, Suc n)), pv_order_book = (\<lambda>_. fail ErrNoData),
     pv_ticks = (\<lambda>_ _ n. (ticks, Suc n)), pv_history_ticks = (\<lambda>_ _ n. (ticks, Suc n)),
     pv_kline = (\<lambda>_ _. fail ErrNoData), pv_adjusted_kline = (\<lambda>_ _ _. fail ErrNoData), pv_xdxr = (\<lambda>_. fail ErrNoData),
     pv_security_info = (\<lambda>_. fail ErrNoData), pv_finance = (\<lambda>_. fail ErrNoData), pv_trading_day = fail ErrNoData\<rparr>"

definition sample_world :: "nat world" where
  "sample_world = \<lparr>w_store = new_memory_store, w_cache = new_memory default_config, w_provider = 0,
     w_now = sample_time 0, w_ctx = None\<rparr>"

definition sample_history_request :: "bool \<Rightarrow> history_tick_request" where
  "sample_history_request force = \<lparr>ht_trade_date = sample_time 0, ht_start = 0, ht_count = 0, ht_full = True,
     ht_with_flag = False, ht_force = force\<rparr>"

definition sample_quote :: quote where
  "sample_quote = \<lparr>q_symbol = sample_symbol, q_last_price = 1, q_open = 1, q_high = 1, q_low = 1, q_pre_close = 1,
     q_volume = 1, q_amount = 1, q_bid_levels = [], q_ask_levels = [], q_quote_time = zero_time,
     q_source_time = zero_time, q_cached = False\<rparr>"

definition second_bar_request :: kline_request where
  "second_bar_request = \<lparr>k_period = PeriodDay, k_start = 1, k_count = 0, k_times = 0, k_start_date = zero_time,
     k_end_date = zero_time, k_force = False\<rparr>"

definition two_bars_world :: "nat world" where
  "two_bars_world = sample_world\<lparr>w_store := new_memory_store\<lparr>ms_bars :=
     [bar_key sample_symbol PeriodDay AdjustNone \<mapsto>
        [sample_bar 0\<lparr>b_adjust := AdjustNone\<rparr>, sample_bar 1\<lparr>b_adjust := AdjustNone\<rparr>]]\<rparr>\<rparr>"

section \<open>Properties\<close>

text \<open>
  C15: a day of ticks is fetched once.  A forced full request that the provider answers with ticks of that
  symbol and day stores them; from then on the same request without force is answered from the local
  store, whatever the provider is by then (even none), as soon as no cached page is live: the rows come
  in strict order of time and sequence, they are the stored day overwritten by the fetched ticks, they are marked as cached,
  and neither provider nor store is touched.
\<close>

theorem history_fill_then_local:
  fixes p :: "'p provider_ops" and q :: "'p provider_ops option" and w w2 :: "'p world"
  assumes "store_ok (w_store w)" and "validate_symbol sy = None" and "\<not> is_zero (normalize_date (ht_trade_date req))"
    and "day_ticks sy (ht_trade_date req) remote" and "remote \<noteq> []"
    and "ht_start req = 0" and "ht_full req" and "ht_force req" and "w_ctx w = None"
    and "pv_history_ticks p sy req (w_provider w) = (Inr remote, p')"
    and "w_store w2 = w_store (snd (service_get_history_ticks (memory_service (Some p)) sy req w))" and "w_ctx w2 = None"
    and "entry_get (w_now w2) (m_tick_pages (w_cache w2)) (history_tick_cache_key sy req) = None"
  shows "fst (service_get_history_ticks (memory_service (Some p)) sy req w) = Inr remote \<and>
    (\<exists>rows c. service_get_history_ticks (memory_service q) sy (req\<lparr>ht_force := False\<rparr>) w2 =
        (Inr (mark_ticks_cached rows), w2\<lparr>w_cache := c\<rparr>) \<and>
      sorted_wrt (<) (map tick_order rows) \<and>
      rows_map tick_row_key rows = put_all tick_row_key id (map dated_tick remote)
        (rows_map tick_row_key (stored_ticks (w_store w) sy (ht_trade_date req))))"
proof -
  let ?d = "ht_trade_date req" and ?req = "req\<lparr>ht_force := False\<rparr>"
  have skip: "history_ticks_cached sv sy d req w = (Inr None, w)" "history_ticks_local sv sy d req w = (Inr None, w)"
    for sv :: "'p world service" and d
    using assms(8) by (simp_all add: history_ticks_cached_def history_ticks_local_def bnd_def ret_def)
  have one: "service_get_history_ticks (memory_service (Some p)) sy req w =
      history_ticks_fill (memory_service (Some p)) sy (normalize_date ?d) req w"
    using assms(2,3) by (simp add: service_get_history_ticks_def Let_def or_else_def bnd_def skip)
  note fill = history_fill_ok [OF assms(4,2,3,5,7,9,10)]
  have s2: "w_store w2 = filled_store sy ?d remote (w_now w) (w_store w)"
    using assms(11) by (simp add: one fill)
  note rows = filled_store_ticks [OF assms(4,2,3,1), of "w_now w"]
  have miss: "history_ticks_cached (memory_service q) sy (normalize_date ?d) ?req w2 = (Inr None, w2)"
    using history_cached_miss [OF assms(12), of sy ?req] assms(13) by (simp add: history_tick_cache_key_def)
  have hit: "history_ticks_local (memory_service q) sy (normalize_date ?d) ?req w2 =
    (Inr (Some (mark_ticks_cached (stored_ticks (w_store w2) sy ?d))),
     w2\<lparr>w_cache := snd (put_history_tick_page None (w_now w2) (history_tick_cache_key sy ?req)
        (mark_ticks_cached (stored_ticks (w_store w2) sy ?d)) (w_cache w2))\<rparr>)"
    by (rule history_local_hit [OF assms(4,2,3,1,5)]) (use assms(6,7,12) s2 in simp_all)
  have two: "service_get_history_ticks (memory_service q) sy ?req w2 =
    (Inr (mark_ticks_cached (stored_ticks (w_store w2) sy ?d)),
     w2\<lparr>w_cache := snd (put_history_tick_page None (w_now w2) (history_tick_cache_key sy ?req)
        (mark_ticks_cached (stored_ticks (w_store w2) sy ?d)) (w_cache w2))\<rparr>)"
    using assms(2,3) miss hit
    by (simp add: service_get_history_ticks_def Let_def or_else_def bnd_def ret_def)
  show ?thesis
    by (intro conjI exI, simp add: one fill, rule two) (use rows(1,2) s2 in simp_all)
qed

theorem history_fill_then_local_witness:
  "\<exists>rows c w1. fst (service_get_history_ticks (memory_service (Some (fixed_provider (Inr [sample_tick 0 1]) (Inr []))))
      sample_symbol (sample_history_request True) sample_world) = Inr [sample_tick 0 1] \<and>
    w1 = sample_world\<lparr>w_store := w_store (snd (service_get_history_ticks
      (memory_service (Some (fixed_provider (Inr [sample_tick 0 1]) (Inr [])))) sample_symbol (sample_history_request True) sample_world))\<rparr> \<and>
    service_get_history_ticks (memory_service None) sample_symbol (sample_history_request False) w1 =
      (Inr (mark_ticks_cached rows), w1\<lparr>w_cache := c\<rparr>) \<and> rows_map tick_row_key rows (tick_row_key (sample_tick 0 1)) \<noteq> None"
proof -
  let ?p = "fixed_provider (Inr [sample_tick 0 1]) (Inr [])"
  define w1 where "w1 = sample_world\<lparr>w_store := w_store (snd (service_get_history_ticks (memory_service (Some ?p))
    sample_symbol (sample_history_request True) sample_world))\<rparr>"
  have w: "store_ok (w_store sample_world)" "w_ctx sample_world = None" "w_ctx w1 = None"
    using new_memory_store_ok by (simp_all add: sample_world_def w1_def)
  have r: "\<not> is_zero (normalize_date (ht_trade_date (sample_history_request True)))"
    "day_ticks sample_symbol (ht_trade_date (sample_history_request True)) [sample_tick 0 1]" "[sample_tick 0 1] \<noteq> []"
    "ht_start (sample_history_request True) = 0" "ht_full (sample_history_request True)" "ht_force (sample_history_request True)"
    using sample_date_ok sample_time_ok [of 0]
    by (simp_all add: sample_history_request_def day_ticks_def sample_tick_def tick_ok_def)
  have p: "pv_history_ticks ?p sample_symbol (sample_history_request True) (w_provider sample_world) = (Inr [sample_tick 0 1], Suc 0)"
    by (simp add: fixed_provider_def sample_world_def)
  have e: "w_store w1 = w_store (snd (service_get_history_ticks (memory_service (Some ?p)) sample_symbol
      (sample_history_request True) sample_world))"
    "entry_get (w_now w1) (m_tick_pages (w_cache w1)) (history_tick_cache_key sample_symbol (sample_history_request True)) = None"
    by (simp_all add: w1_def sample_world_def new_memory_def entry_get_def)
  have f: "(sample_history_request True)\<lparr>ht_force := False\<rparr> = sample_history_request False"
    by (simp add: sample_history_request_def)
  obtain rows c where h: "fst (service_get_history_ticks (memory_service (Some ?p)) sample_symbol
      (sample_history_request True) sample_world) = Inr [sample_tick 0 1]"
    "service_get_history_ticks (memory_service None) sample_symbol (sample_history_request False) w1 =
      (Inr (mark_ticks_cached rows), w1\<lparr>w_cache := c\<rparr>)"
    "rows_map tick_row_key rows = put_all tick_row_key id (map dated_tick [sample_tick 0 1])
        (rows_map tick_row_key (stored_ticks (w_store sample_world) sample_symbol (ht_trade_date (sample_history_request True))))"
    using history_fill_then_local [OF w(1) sample_symbol_valid r w(2) p e(1) w(3) e(2), of None] unfolding f by blast
  have "tick_row_key (dated_tick (sample_tick 0 1)) = tick_row_key (sample_tick 0 1)"
    by (simp add: tick_row_key_def dated_tick_def)
  then have "rows_map tick_row_key rows (tick_row_key (sample_tick 0 1)) \<noteq> None" using h(3) by simp
  with h(1,2) w1_def show ?thesis by blast
qed



text \<open>The answer of \<open>GetQuotes\<close> when some symbols are missed.\<close>

lemma quotes_answer:
  fixes p :: "'p provider_ops" and w :: "'p world"
  assumes "validate_symbols symbols = None" and "w_ctx w = None" and "own_keys (m_quotes (w_cache w))"
    and "missed w symbols \<noteq> []"
    and "pv_quotes p (missed w symbols) (w_provider w) = (Inr quotes, p')"
    and "symbol_key ` q_symbol ` set quotes = symbol_key ` set (missed w symbols)"
  shows "\<exists>out w'. service_get_quotes (memory_service (Some p)) symbols w = (Inr out, w') \<and>
    w_provider w' = p' \<and> w_store w' = w_store w \<and>
    map (\<lambda>q. symbol_key (q_symbol q)) out = map symbol_key symbols \<and>
    (\<forall>i < length symbols. case cached_quote w (symbols ! i) of
       Some q \<Rightarrow> out ! i = q\<lparr>q_cached := True\<rparr> | None \<Rightarrow> out ! i \<in> set quotes)"
proof -
  define hits where "hits = (\<lambda>k. if k \<in> symbol_key ` set symbols
    then map_option (q_cached_update (\<lambda>_. True)) (entry_get (w_now w) (m_quotes (w_cache w)) k) else None)"
  let ?item = "put_all (\<lambda>q. symbol_key (q_symbol q)) id quotes hits"
  have hit: "?item (symbol_key s) = map_option (q_cached_update (\<lambda>_. True)) (cached_quote w s)"
    if "s \<in> set symbols" "cached_quote w s \<noteq> None" for s
  proof -
    have "symbol_key s \<notin> symbol_key ` set (missed w symbols)"
      using that(2) by (auto simp: missed_def cached_quote_def)
    then have "symbol_key s \<notin> (\<lambda>q. symbol_key (q_symbol q)) ` set quotes" using assms(6) by (simp add: image_image)
    then show ?thesis using that(1) by (simp add: put_all_other hits_def cached_quote_def)
  qed
  have miss: "\<exists>q \<in> set quotes. symbol_key (q_symbol q) = symbol_key s \<and> ?item (symbol_key s) = Some q"
    if "s \<in> set symbols" "cached_quote w s = None" for s
  proof -
    have "s \<in> set (missed w symbols)" using that by (simp add: missed_def)
    then have "symbol_key s \<in> (\<lambda>q. symbol_key (q_symbol q)) ` set quotes"
      using assms(6) by (metis image_eqI image_image)
    then show ?thesis using put_all_hit [of "symbol_key s" _ quotes id hits] by simp
  qed
  have some: "\<exists>q. ?item (symbol_key s) = Some q \<and> symbol_key (q_symbol q) = symbol_key s" if "s \<in> set symbols" for s
  proof (cases "cached_quote w s")
    case (Some q)
    then have "symbol_key (q_symbol q) = symbol_key s"
      using assms(3) by (auto simp: cached_quote_def entry_get_def own_keys_def split: option.splits if_splits)
    then show ?thesis using hit [OF that] Some by simp
  qed (use miss [OF that] in blast)
  define out where "out = map (\<lambda>s. the (?item (symbol_key s))) symbols"
  have order: "order_quotes symbols hits quotes = out"
    unfolding order_quotes_def out_def
    by (rule order_items_known) (use some assms(6) in \<open>fastforce simp: missed_def\<close>)+
  define w' where "w' = w\<lparr>w_provider := p', w_cache := snd (put_quotes None (w_now w) quotes (w_cache w))\<rparr>"
  have get: "ca_get_quotes memory_cache_ops symbols w = (Inr (hits, missed w symbols), w)"
    unfolding hits_def by (rule get_quotes_memory) (fact assms(2))
  have load: "do_group (memory_service (Some p)) key (upstream (memory_service (Some p)) (\<lambda>p. pv_quotes p (missed w symbols))) w =
      (Inr quotes, w\<lparr>w_provider := p'\<rparr>)" for key
    using assms(2,5) by (simp add: do_group_live upstream_memory world_provider_def on_provider_Inr)
  have put: "ca_put_quotes memory_cache_ops quotes (w\<lparr>w_provider := p'\<rparr>) = (Inr (), w')"
    using assms(2) by (simp add: memory_cache_ops_def on_cache_def put_quotes_def w'_def)
  have "service_get_quotes (memory_service (Some p)) symbols w = (Inr out, w')"
    using assms(1,4) order by (simp add: service_get_quotes_def bnd_def ret_def get load put cache_memory)
  moreover have "map (\<lambda>q. symbol_key (q_symbol q)) out = map symbol_key symbols"
    unfolding out_def using some by fastforce
  moreover have "case cached_quote w (symbols ! i) of
      Some q \<Rightarrow> out ! i = q\<lparr>q_cached := True\<rparr> | None \<Rightarrow> out ! i \<in> set quotes" if "i < length symbols" for i
    using that hit [of "symbols ! i"] miss [of "symbols ! i"]
    by (cases "cached_quote w (symbols ! i)") (auto simp: out_def)
  ultimately show ?thesis by (intro exI [of _ out] exI [of _ w']) (simp add: w'_def)
qed

text \<open>
  C17: quotes come back one per requested symbol, in the order requested.  The provider is asked exactly once, for the
  symbols without a live cached quote; when it answers these symbols, position \<open>i\<close> of the result is a quote of
  symbol \<open>i\<close>: the cached one, marked as cached, or one the provider returned.
\<close>

theorem quotes_in_order:
  fixes p :: "'p provider_ops" and w :: "'p world"
  assumes "validate_symbols symbols = None" and "w_ctx w = None" and "own_keys (m_quotes (w_cache w))"
    and "missed w symbols \<noteq> []"
    and "pv_quotes p (missed w symbols) (w_provider w) = (Inr quotes, p')"
    and "symbol_key ` q_symbol ` set quotes = symbol_key ` set (missed w symbols)"
  shows "\<exists>out w'. service_get_quotes (memory_service (Some p)) symbols w = (Inr out, w') \<and>
    w_provider w' = p' \<and> w_store w' = w_store w \<and>
    map (\<lambda>q. symbol_key (q_symbol q)) out = map symbol_key symbols \<and>
    (\<forall>i < length symbols. case cached_quote w (symbols ! i) of
       Some q \<Rightarrow> out ! i = q\<lparr>q_cached := True\<rparr> | None \<Rightarrow> out ! i \<in> set quotes)"
  by (rule quotes_answer [OF assms])

theorem quotes_in_order_witness:
  "\<exists>out w'. service_get_quotes (memory_service (Some (fixed_provider (Inr []) (Inr [sample_quote]))))
      [sample_symbol, sample_symbol] sample_world = (Inr out, w') \<and> w_provider w' = 1 \<and>
    map (\<lambda>q. symbol_key (q_symbol q)) out = [symbol_key sample_symbol, symbol_key sample_symbol]"
proof -
  let ?p = "fixed_provider (Inr []) (Inr [sample_quote])" and ?ss = "[sample_symbol, sample_symbol]"
  have a: "validate_symbols ?ss = None" "w_ctx sample_world = None" "own_keys (m_quotes (w_cache sample_world))"
    by (simp_all add: validate_symbols_def sample_world_def new_memory_def own_keys_def)
  have m: "missed sample_world ?ss = ?ss"
    by (simp add: missed_def cached_quote_def sample_world_def new_memory_def entry_get_def)
  then have b: "missed sample_world ?ss \<noteq> []" by simp
  have p: "pv_quotes ?p (missed sample_world ?ss) (w_provider sample_world) = (Inr [sample_quote], Suc 0)"
    by (simp add: fixed_provider_def sample_world_def)
  have q: "symbol_key ` q_symbol ` set [sample_quote] = symbol_key ` set (missed sample_world ?ss)"
    by (simp add: m sample_quote_def)
  obtain out w' where "service_get_quotes (memory_service (Some ?p)) ?ss sample_world = (Inr out, w')"
    "w_provider w' = Suc 0" "map (\<lambda>q. symbol_key (q_symbol q)) out = map symbol_key ?ss"
    using quotes_in_order [OF a b p q] by blast
  then show ?thesis by (intro exI [of _ out] exI [of _ w']) simp
qed

text \<open>
  the same K-line request answers differently the second time.  A request for the whole history
  with \<open>Start = n\<close> and no count is answered from the store with the bars from position \<open>n\<close>; the page goes
  into the cache already cut, and within its lifetime the next identical request cuts it again,
  so it answers with the bars from position \<open>2 n\<close>.
\<close>

theorem kline_cut_twice:
  fixes p :: "'p provider_ops option" and w :: "'p world"
  assumes "validate_symbol sy = None" and "k_period req \<noteq> PeriodUnknown" and "\<not> k_force req" and "w_ctx w = None"
    and "is_zero (k_start_date req)" and "k_count req = 0"
    and "stored_bars (w_store w) sy req AdjustNone = Inr rows" and "unat (k_start req) < length rows"
    and "entry_get (w_now w) (m_bar_ranges (w_cache w)) (bar_cache_key sy req AdjustNone) = None"
  shows "\<exists>w'. service_get_kline (memory_service p) sy req w = (Inr (drop (unat (k_start req)) rows), w') \<and> w_now w' = w_now w \<and>
    (\<forall>t. t_nanos t < t_nanos (w_now w) + cf_bar_ttl (m_cfg (w_cache w)) \<longrightarrow>
      fst (service_get_kline (memory_service p) sy req (w'\<lparr>w_now := t\<rparr>)) = Inr (drop (2 * unat (k_start req)) rows))"
proof -
  let ?n = "unat (k_start req)" and ?key = "bar_cache_key sy req AdjustNone"
  define w' where "w' = w\<lparr>w_cache := snd (put_bars_mem None (w_now w) ?key (drop ?n rows) (w_cache w))\<rparr>"
  have fst_call: "service_get_kline (memory_service p) sy req w = (Inr (drop ?n rows), w')"
    using assms(1,2,9) bars_local_memory [OF assms(4,3,7,5,6)] bars_cached_memory [OF assms(4,3)]
    by (simp add: service_get_kline_def service_get_bars_def Let_def or_else_def bnd_def ret_def w'_def)
  have cover: "cached_bars_cover_request (drop ?n rows) req"
    using assms(5,6,8) by (simp add: cached_bars_cover_request_def)
  have "fst (service_get_kline (memory_service p) sy req (w'\<lparr>w_now := t\<rparr>)) = Inr (drop (2 * ?n) rows)"
    if "t_nanos t < t_nanos (w_now w) + cf_bar_ttl (m_cfg (w_cache w))" for t
  proof -
    have "entry_get t (m_bar_ranges (w_cache w')) ?key = Some (drop ?n rows)"
      using that by (simp add: w'_def put_bars_mem_def entry_defs)
    then show ?thesis
      using assms(1,2,4,6) cover bars_cached_memory [of "w'\<lparr>w_now := t\<rparr>" req p sy AdjustNone] assms(3)
      by (simp add: service_get_kline_def service_get_bars_def Let_def or_else_def bnd_def ret_def slice_all w'_def mult_2)
  qed
  moreover have "w_now w' = w_now w" by (simp add: w'_def)
  ultimately show ?thesis using fst_call by blast
qed

theorem kline_cut_twice_witness:
  "\<exists>w'. service_get_kline (memory_service None) sample_symbol second_bar_request two_bars_world =
      (Inr [sample_bar 1\<lparr>b_adjust := AdjustNone\<rparr>], w') \<and>
    fst (service_get_kline (memory_service None) sample_symbol second_bar_request w') = Inr []"
proof -
  let ?rows = "[sample_bar 0\<lparr>b_adjust := AdjustNone\<rparr>, sample_bar 1\<lparr>b_adjust := AdjustNone\<rparr>]"
  have a: "k_period second_bar_request \<noteq> PeriodUnknown" "\<not> k_force second_bar_request" "w_ctx two_bars_world = None"
    "is_zero (k_start_date second_bar_request)" "k_count second_bar_request = 0"
    by (simp_all add: second_bar_request_def two_bars_world_def sample_world_def)
  have b: "stored_bars (w_store two_bars_world) sample_symbol second_bar_request AdjustNone = Inr ?rows"
    by (simp add: stored_bars_def two_bars_world_def sample_world_def query_bars_def second_bar_request_def get_list_def
        in_bar_range_def new_memory_store_def Let_def)
  have c: "unat (k_start second_bar_request) < length ?rows" by (simp add: second_bar_request_def)
  have d: "entry_get (w_now two_bars_world) (m_bar_ranges (w_cache two_bars_world))
      (bar_cache_key sample_symbol second_bar_request AdjustNone) = None"
    by (simp add: two_bars_world_def sample_world_def new_memory_def entry_get_def)
  obtain w' where h: "service_get_kline (memory_service None) sample_symbol second_bar_request two_bars_world =
      (Inr (drop (unat (k_start second_bar_request)) ?rows), w')"
    "w_now w' = w_now two_bars_world"
    "\<forall>t. t_nanos t < t_nanos (w_now two_bars_world) + cf_bar_ttl (m_cfg (w_cache two_bars_world)) \<longrightarrow>
      fst (service_get_kline (memory_service None) sample_symbol second_bar_request (w'\<lparr>w_now := t\<rparr>)) =
        Inr (drop (2 * unat (k_start second_bar_request)) ?rows)"
    using kline_cut_twice [OF sample_symbol_valid a b c d, of None] by blast
  have "fst (service_get_kline (memory_service None) sample_symbol second_bar_request (w'\<lparr>w_now := w_now w'\<rparr>)) =
      Inr (drop (2 * unat (k_start second_bar_request)) ?rows)"
    using h(3) [rule_format, of "w_now w'"] h(2)
    by (simp add: two_bars_world_def sample_world_def new_memory_def normalize_config_def default_config_def or_default_def second_def)
  then show ?thesis using h(1) by (simp add: second_bar_request_def)
qed

text \<open>
  what the key of a cached page of bars keeps of the request.  For symbols, periods and adjustments
  without the separator, two keys are equal exactly when symbol key, period, adjustment, start, count
  and times agree and the start and end dates fall on the same days: the time of day of the dates, by which the bars are
  filtered, is not part of it.
\<close>

theorem bar_cache_key_exact:
  assumes "no_bar (symbol_key sy)" and "no_bar (k_period req)" and "no_bar adjust"
    and "no_bar (symbol_key sy')" and "no_bar (k_period req')" and "no_bar adjust'"
  shows "bar_cache_key sy req adjust = bar_cache_key sy' req' adjust' \<longleftrightarrow>
    symbol_key sy = symbol_key sy' \<and> k_period req = k_period req' \<and> adjust = adjust' \<and>
    k_start req = k_start req' \<and> k_count req = k_count req' \<and> k_times req = k_times req' \<and>
    local_day (normalize_date (k_start_date req)) = local_day (normalize_date (k_start_date req')) \<and>
    local_day (normalize_date (k_end_date req)) = local_day (normalize_date (k_end_date req'))"
  using assms unfolding bar_cache_key_def
  by (subst joined_keys) (simp_all add: format_compact_inj word_unat_eq_iff)

theorem bar_cache_key_exact_witness:
  "bar_cache_key sample_symbol second_bar_request AdjustNone \<noteq>
   bar_cache_key sample_symbol (second_bar_request\<lparr>k_count := 1\<rparr>) AdjustNone"
proof -
  have t: "trim_space ''SH'' = ''SH''" "trim_space ''600000'' = ''600000''" "to_upper ''SH'' = ''SH''"
    by code_simp+
  have k: "no_bar (symbol_key sample_symbol)"
    by (simp add: symbol_key_def sample_symbol_def normalize_market_def normalize_code_def t)
  have "no_bar (k_period second_bar_request)" "no_bar (k_period (second_bar_request\<lparr>k_count := 1\<rparr>))" "no_bar AdjustNone"
    by (simp_all add: second_bar_request_def)
  from bar_cache_key_exact [OF k this(1,3) k this(2,3)] show ?thesis
    by (simp add: second_bar_request_def)
qed

end
