(* ===== verification/Live_Client.thy ===== *)
theory Live_Client
  imports Go_Strings Go_Prelude "HOL-Library.Multiset" "HOL-Library.List_Lexorder" "HOL-Library.Char_ord" "HOL-Library.Product_Lexorder"
begin

text \<open>
  The connection layer of \<^verbatim>\<open>internal/provider/gotdx/provider.go\<close>: the live client that reconnects once
  when an operation fails (for the quote protocol and for the MAC protocol), and the choice of the hosts a pool
  connects to.  The vendor's client is a parameter: a handle of a type of the caller's choice, with the operations
  that connect, disconnect and use it as calls over the state of the outside world.
\<close>

section \<open>The live client\<close>

record 'h live_client =
  lc_address :: string
  lc_timeout :: int
  lc_client :: "'h option"

text \<open>\<open>lk_name\<close> is what the messages call the client: \<open>gotdx\<close> or \<open>gotdx mac\<close>.\<close>

record ('w, 'h) link =
  lk_name :: string
  lk_connect :: "string \<Rightarrow> int \<Rightarrow> ('w, 'h) op"
  lk_disconnect :: "'h \<Rightarrow> ('w, unit) op"

type_synonym ('w, 'h, 'a) live_op = "('w \<times> 'h live_client, 'a) op"

definition live_error :: "('w, 'h) link \<Rightarrow> string \<Rightarrow> string \<Rightarrow> go_error" where
  "live_error k operation rest = Wrapped ErrUpstreamUnavailable (lk_name k @ '' '' @ operation @ '' '' @ rest)"

definition connect_locked :: "('w, 'h) link \<Rightarrow> ('w, 'h, unit) live_op" where
  "connect_locked k = (\<lambda>(w, c).
     case lk_connect k (lc_address c) (lc_timeout c) w of
       (Inl e, w') \<Rightarrow> (Inl e, w', c)
     | (Inr h, w') \<Rightarrow> (Inr (), w', c\<lparr>lc_client := Some h\<rparr>))"

text \<open>The error of \<open>Disconnect\<close> is dropped, a panic of it is not.\<close>

definition drop_client :: "('w, 'h) link \<Rightarrow> ('w, 'h, unit) live_op" where
  "drop_client k = (\<lambda>(w, c).
     case lc_client c of
       None \<Rightarrow> (Inr (), w, c)
     | Some h \<Rightarrow> (case ignore_err (lk_disconnect k h) w of
         (Inl e, w') \<Rightarrow> (Inl e, w', c)
       | (Inr u, w') \<Rightarrow> (Inr (), w', c\<lparr>lc_client := None\<rparr>)))"

definition reconnect_locked :: "('w, 'h) link \<Rightarrow> ('w, 'h, unit) live_op" where
  "reconnect_locked k = bnd (drop_client k) (\<lambda>_. connect_locked k)"

definition disconnect :: "('w, 'h) link \<Rightarrow> ('w, 'h, unit) live_op" where
  "disconnect k = (\<lambda>(w, c).
     case lc_client c of
       None \<Rightarrow> (Inr (), w, c)
     | Some h \<Rightarrow> (case lk_disconnect k h w of (r, w') \<Rightarrow> (r, w', c\<lparr>lc_client := None\<rparr>)))"

text \<open>\<open>recover\<close> turns a panic of the vendor's client into an error.\<close>

definition call_live_client :: "('w, 'h) link \<Rightarrow> string \<Rightarrow> ('h \<Rightarrow> ('w, 'a) op) \<Rightarrow> 'h \<Rightarrow> ('w, 'a) op" where
  "call_live_client k operation fn h w =
     (case fn h w of
        (Inl (GoPanic s), w') \<Rightarrow> (Inl (live_error k operation (''panic: '' @ s)), w')
      | (r, w') \<Rightarrow> (r, w'))"

definition use_client :: "('w, 'h) link \<Rightarrow> string \<Rightarrow> ('h \<Rightarrow> ('w, 'a) op) \<Rightarrow> ('w, 'h, 'a) live_op" where
  "use_client k operation fn = (\<lambda>(w, c).
     case lc_client c of
       None \<Rightarrow> (Inl (GoPanic ''nil client''), w, c)
     | Some h \<Rightarrow> (case call_live_client k operation fn h w of (r, w') \<Rightarrow> (r, w', c)))"

definition ensure_connected :: "('w, 'h) link \<Rightarrow> string \<Rightarrow> ('w, 'h, unit) live_op" where
  "ensure_connected k operation = (\<lambda>(w, c).
     case lc_client c of
       Some h \<Rightarrow> (Inr (), w, c)
     | None \<Rightarrow> catch (connect_locked k)
         (\<lambda>e. fail (live_error k operation (''connect failed: '' @ err_text e))) ret (w, c))"

definition with_live_client :: "('w, 'h) link \<Rightarrow> string \<Rightarrow> ('h \<Rightarrow> ('w, 'a) op) \<Rightarrow> ('w, 'h, 'a) live_op" where
  "with_live_client k operation fn =
     bnd (ensure_connected k operation) (\<lambda>_.
     catch (use_client k operation fn)
       (\<lambda>e. catch (reconnect_locked k)
          (\<lambda>e'. fail (live_error k operation (''failed: '' @ err_text e @ ''; reconnect failed: '' @ err_text e')))
          (\<lambda>_. catch (use_client k operation fn)
             (\<lambda>e'. fail (live_error k operation (''failed after reconnect: '' @ err_text e'))) ret))
       ret)"

text \<open>\<open>newConnectedLiveClient\<close> and \<open>newConnectedLiveMACClient\<close>.\<close>

definition new_connected_live_client :: "('w, 'h) link \<Rightarrow> string \<Rightarrow> int \<Rightarrow> ('w, 'h live_client) op" where
  "new_connected_live_client k address timeout w =
     (case connect_locked k (w, \<lparr>lc_address = address, lc_timeout = timeout, lc_client = None\<rparr>) of
        (Inl e, w', c) \<Rightarrow> (Inl e, w')
      | (Inr u, w', c) \<Rightarrow> (Inr c, w'))"

text \<open>The two clients: the code has each function twice, once per protocol.\<close>

definition quote_link :: "(string \<Rightarrow> int \<Rightarrow> ('w, 'h) op) \<Rightarrow> ('h \<Rightarrow> ('w, unit) op) \<Rightarrow> ('w, 'h) link" where
  "quote_link conn disc = \<lparr>lk_name = ''gotdx'', lk_connect = conn, lk_disconnect = disc\<rparr>"

definition mac_link :: "(string \<Rightarrow> int \<Rightarrow> ('w, 'h) op) \<Rightarrow> ('h \<Rightarrow> ('w, unit) op) \<Rightarrow> ('w, 'h) link" where
  "mac_link conn disc = \<lparr>lk_name = ''gotdx mac'', lk_connect = conn, lk_disconnect = disc\<rparr>"

definition with_live_mac_client ::
  "(string \<Rightarrow> int \<Rightarrow> ('w, 'h) op) \<Rightarrow> ('h \<Rightarrow> ('w, unit) op) \<Rightarrow> string \<Rightarrow> ('h \<Rightarrow> ('w, 'a) op) \<Rightarrow> ('w, 'h, 'a) live_op" where
  "with_live_mac_client conn disc = with_live_client (mac_link conn disc)"

section \<open>The hosts of a pool\<close>

definition default_max_hosts_per_pool :: int where
  "default_max_hosts_per_pool = 4"

fun unique_hosts_loop :: "string list \<Rightarrow> string list \<Rightarrow> string list" where
  "unique_hosts_loop [] out = out"
| "unique_hosts_loop (host # hosts) out =
     (if host = [] \<or> host \<in> set out then unique_hosts_loop hosts out else unique_hosts_loop hosts (out @ [host]))"

definition unique_non_empty_hosts :: "string list \<Rightarrow> string list" where
  "unique_non_empty_hosts hosts = unique_hosts_loop hosts []"

definition select_limited_hosts :: "string list \<Rightarrow> int \<Rightarrow> string list" where
  "select_limited_hosts hosts max_hosts0 =
     (let unique = unique_non_empty_hosts hosts;
          max_hosts = (if max_hosts0 = 0 then default_max_hosts_per_pool else max_hosts0)
      in if 0 < max_hosts \<and> max_hosts < int (length unique) then take (nat max_hosts) unique else unique)"

record probe_result =
  pr_address :: string
  pr_latency :: int
  pr_reachable :: bool

text \<open>The order of \<open>probeLiveHosts\<close>; the addresses are distinct, so it is total and the order in which the
  probes finish does not matter.\<close>

definition probe_order :: "probe_result \<Rightarrow> nat \<times> int \<times> string" where
  "probe_order r = (if pr_reachable r then 0 else 1, pr_latency r, pr_address r)"

definition probe_live_hosts :: "(string \<Rightarrow> int \<times> bool) \<Rightarrow> string list \<Rightarrow> probe_result list" where
  "probe_live_hosts probe hosts = sort_key probe_order
     (map (\<lambda>h. \<lparr>pr_address = h, pr_latency = fst (probe h), pr_reachable = snd (probe h)\<rparr>) hosts)"

text \<open>The loop over the results stops when enough hosts are selected.\<close>

fun pick_reachable :: "int \<Rightarrow> probe_result list \<Rightarrow> string list \<Rightarrow> string list" where
  "pick_reachable max_hosts [] selected = selected"
| "pick_reachable max_hosts (r # rs) selected =
     (if \<not> pr_reachable r then pick_reachable max_hosts rs selected
      else let selected' = selected @ [pr_address r] in
        if max_hosts \<le> int (length selected') then selected' else pick_reachable max_hosts rs selected')"

definition select_live_hosts :: "go_error option \<Rightarrow> (string \<Rightarrow> int \<times> bool) \<Rightarrow> string list \<Rightarrow> int \<Rightarrow> string list" where
  "select_live_hosts ctx probe hosts max_hosts0 =
     (let unique = unique_non_empty_hosts hosts in
      if unique = [] then []
      else if max_hosts0 < 0 \<or> int (length unique) \<le> max_hosts0 then unique
      else let max_hosts = (if max_hosts0 = 0 then default_max_hosts_per_pool else max_hosts0) in
        if int (length unique) \<le> max_hosts then unique
        else if ctx \<noteq> None then take (nat max_hosts) unique
        else let selected = pick_reachable max_hosts (probe_live_hosts probe unique) [] in
          if selected = [] then take (nat max_hosts) unique else selected)"

text \<open>\<open>liveHostSelector\<close>: a selection is made once per list of hosts.\<close>

record host_selector =
  hs_timeout :: int
  hs_max_hosts :: int
  hs_cache :: "string \<rightharpoonup> string list"

definition new_live_host_selector :: "int \<Rightarrow> int \<Rightarrow> host_selector" where
  "new_live_host_selector timeout max_hosts = \<lparr>hs_timeout = timeout, hs_max_hosts = max_hosts, hs_cache = Map.empty\<rparr>"

definition select_for :: "go_error option \<Rightarrow> (string \<Rightarrow> int \<times> bool) \<Rightarrow> string list \<Rightarrow> host_selector \<Rightarrow> string list \<times> host_selector" where
  "select_for ctx probe hosts s =
     (let unique = unique_non_empty_hosts hosts;
          key = ''timeout='' @ int_dec (hs_timeout s) @ '';max='' @ int_dec (hs_max_hosts s) @ '';hosts='' @ join [CHR 0x00] unique
      in case hs_cache s key of
           Some selected \<Rightarrow> (selected, s)
         | None \<Rightarrow> let selected = select_live_hosts ctx probe unique (hs_max_hosts s)
             in (selected, s\<lparr>hs_cache := (hs_cache s)(key \<mapsto> selected)\<rparr>))"

section \<open>The pools of a provider\<close>

record live_config =
  lv_quote_hosts :: "string list"
  lv_tick_hosts :: "string list"
  lv_history_hosts :: "string list"
  lv_kline_hosts :: "string list"
  lv_adjust_hosts :: "string list"
  lv_static_hosts :: "string list"
  lv_mac_hosts :: "string list"
  lv_timeout :: int
  lv_clients_per_host :: int
  lv_max_hosts_per_pool :: int

definition default_timeout_sec :: int where "default_timeout_sec = 3"
definition default_clients_per_host :: int where "default_clients_per_host = 1"

definition or_hosts :: "string list \<Rightarrow> string list \<Rightarrow> string list" where
  "or_hosts hosts fallback = (if hosts = [] then fallback else hosts)"

text \<open>The defaults of \<open>NewLiveProvider\<close>; \<open>main_hosts\<close> and \<open>mac_hosts\<close> are the lists of the vendor's library.\<close>

definition fill_live_config :: "string list \<Rightarrow> string list \<Rightarrow> live_config \<Rightarrow> live_config" where
  "fill_live_config main_hosts mac_hosts c =
     (let quote = or_hosts (lv_quote_hosts c) main_hosts in
      c\<lparr>lv_quote_hosts := quote, lv_tick_hosts := or_hosts (lv_tick_hosts c) quote,
        lv_history_hosts := or_hosts (lv_history_hosts c) quote, lv_kline_hosts := or_hosts (lv_kline_hosts c) quote,
        lv_adjust_hosts := or_hosts (lv_adjust_hosts c) quote, lv_static_hosts := or_hosts (lv_static_hosts c) quote,
        lv_mac_hosts := or_hosts (lv_mac_hosts c) mac_hosts,
        lv_timeout := (if lv_timeout c = 0 then default_timeout_sec else lv_timeout c),
        lv_clients_per_host := (if lv_clients_per_host c = 0 then default_clients_per_host else lv_clients_per_host c),
        lv_max_hosts_per_pool := (if lv_max_hosts_per_pool c = 0 then default_max_hosts_per_pool
          else lv_max_hosts_per_pool c)\<rparr>)"

text \<open>One pool to open: its name, hosts and clients per host, and whether it speaks the MAC protocol.\<close>

record pool_spec =
  ps_name :: string
  ps_hosts :: "string list"
  ps_clients :: int
  ps_mac :: bool

text \<open>\<open>source.NewPool\<close> and \<open>Pool.Close\<close> as calls over the outside world (their own behaviour is in
  \<open>Source_Pool\<close> and \<open>Pool_Machine\<close>).\<close>

record ('w, 'p) pool_ops =
  po_new :: "pool_spec \<Rightarrow> int \<Rightarrow> ('w, 'p) op"
  po_close :: "'p \<Rightarrow> ('w, unit) op"

definition new_live_pool :: "('w, 'p) pool_ops \<Rightarrow> int \<Rightarrow> pool_spec \<Rightarrow> ('w, 'p) op" where
  "new_live_pool po timeout s =
     (if ps_hosts s = [] then fail (OtherError (''gotdx '' @ ps_name s @ '' requires at least one host''))
      else po_new po s timeout)"

fun close_pools :: "('w, 'p) pool_ops \<Rightarrow> 'p list \<Rightarrow> ('w, unit) op" where
  "close_pools po [] = ret ()"
| "close_pools po (p # ps) = bnd (ignore_err (po_close po p)) (\<lambda>_. close_pools po ps)"

text \<open>The ladder of \<open>NewLiveProvider\<close>: a pool that cannot be opened closes those opened before it.\<close>

fun open_pools :: "('w, 'p) pool_ops \<Rightarrow> int \<Rightarrow> pool_spec list \<Rightarrow> 'p list \<Rightarrow> ('w, 'p list) op" where
  "open_pools po timeout [] opened = ret opened"
| "open_pools po timeout (s # ss) opened =
     catch (new_live_pool po timeout s)
       (\<lambda>e. bnd (close_pools po opened) (\<lambda>_. fail e))
       (\<lambda>p. open_pools po timeout ss (opened @ [p]))"

fun select_all :: "go_error option \<Rightarrow> (string \<Rightarrow> int \<times> bool) \<Rightarrow> string list list \<Rightarrow> host_selector \<Rightarrow> string list list" where
  "select_all ctx probe [] s = []"
| "select_all ctx probe (hosts # rest) s =
     (case select_for ctx probe hosts s of (selected, s') \<Rightarrow> selected # select_all ctx probe rest s')"

definition pool_specs :: "go_error option \<Rightarrow> (string \<Rightarrow> int \<times> bool) \<Rightarrow> live_config \<Rightarrow> pool_spec list" where
  "pool_specs ctx probe c =
     (let hosts = select_all ctx probe [lv_quote_hosts c, lv_tick_hosts c, lv_history_hosts c, lv_kline_hosts c,
            lv_adjust_hosts c, lv_static_hosts c] (new_live_host_selector (lv_timeout c) (lv_max_hosts_per_pool c));
          names = [''quote-pool'', ''tick-pool'', ''history-pool'', ''kline-pool'', ''adjust-pool'', ''static-pool''];
          per = lv_clients_per_host c;
          clients = [per, per, per, per, 1, 1]
      in map (\<lambda>(n, h, k). \<lparr>ps_name = n, ps_hosts = h, ps_clients = k, ps_mac = False\<rparr>) (zip names (zip hosts clients)) @
         [\<lparr>ps_name = ''mac-pool'', ps_hosts = select_limited_hosts (lv_mac_hosts c) (lv_max_hosts_per_pool c),
           ps_clients = 1, ps_mac = True\<rparr>])"

definition new_live_provider ::
  "('w, 'p) pool_ops \<Rightarrow> string list \<Rightarrow> string list \<Rightarrow> go_error option \<Rightarrow> (string \<Rightarrow> int \<times> bool) \<Rightarrow> live_config \<Rightarrow> ('w, 'p list) op" where
  "new_live_provider po main_hosts mac_hosts ctx probe cfg =
     (let c = fill_live_config main_hosts mac_hosts cfg in open_pools po (lv_timeout c) (pool_specs ctx probe c) [])"

section \<open>Facts\<close>

lemma unique_hosts_loop_spec:
  "distinct out \<Longrightarrow> [] \<notin> set out \<Longrightarrow> distinct (unique_hosts_loop hosts out) \<and>
   set (unique_hosts_loop hosts out) = set out \<union> (set hosts - {[]})"
  by (induction hosts out rule: unique_hosts_loop.induct) auto

lemma unique_hosts: "distinct (unique_non_empty_hosts hosts)" "set (unique_non_empty_hosts hosts) = set hosts - {[]}"
  using unique_hosts_loop_spec [of "[]" hosts] by (simp_all add: unique_non_empty_hosts_def)

lemma probe_addresses: "mset (map pr_address (probe_live_hosts probe hosts)) = mset hosts"
  by (simp add: probe_live_hosts_def image_mset.compositionality comp_def)

lemma pick_reachable_app:
  "int (length sel) < m \<Longrightarrow> pick_reachable m rs sel =
     sel @ take (nat m - length sel) (map pr_address (filter pr_reachable rs))"
proof (induction rs arbitrary: sel)
  case (Cons r rs)
  show ?case
  proof (cases "pr_reachable r")
    case True
    show ?thesis
    proof (cases "m \<le> int (length (sel @ [pr_address r]))")
      case True
      then have "nat m - length sel = 1" using Cons.prems by simp
      then show ?thesis using True \<open>pr_reachable r\<close> by (simp add: Let_def)
    next
      case False
      then have "nat m - length sel = Suc (nat m - length (sel @ [pr_address r]))" by simp
      then show ?thesis using False \<open>pr_reachable r\<close> Cons.IH [of "sel @ [pr_address r]"] by (simp add: Let_def)
    qed
  qed (use Cons in simp)
qed simp

lemma is_panic_GoPanic: "is_panic e \<longleftrightarrow> (\<exists>s. e = GoPanic s)"
  by (cases e) auto

text \<open>What a call does, step by step, when connecting and disconnecting do not panic.\<close>

definition calm_link :: "('w, 'h) link \<Rightarrow> bool" where
  "calm_link k \<longleftrightarrow> (\<forall>a t w e w'. lk_connect k a t w = (Inl e, w') \<longrightarrow> \<not> is_panic e) \<and>
     (\<forall>h w e w'. lk_disconnect k h w = (Inl e, w') \<longrightarrow> \<not> is_panic e)"

text \<open>\<open>calls\<close> counts the uses of the client; connecting does not use it.\<close>

definition counted :: "('w, 'h) link \<Rightarrow> ('h \<Rightarrow> ('w, 'a) op) \<Rightarrow> ('w \<Rightarrow> nat) \<Rightarrow> bool" where
  "counted k fn calls \<longleftrightarrow> (\<forall>h w. calls (snd (fn h w)) = Suc (calls w)) \<and>
     (\<forall>a t w. calls (snd (lk_connect k a t w)) = calls w) \<and> (\<forall>h w. calls (snd (lk_disconnect k h w)) = calls w)"

lemma calm_connect: "calm_link k \<Longrightarrow> lk_connect k a t w = (Inl e, w') \<Longrightarrow> \<not> is_panic e"
  by (simp add: calm_link_def) blast

lemma calm_disconnect: "calm_link k \<Longrightarrow> lk_disconnect k h w = (Inl e, w') \<Longrightarrow> \<not> is_panic e"
  by (simp add: calm_link_def) blast

lemma connect_step:
  assumes "calm_link k" and "counted k fn calls"
  obtains (error) e w' where "connect_locked k (w, c) = (Inl e, w', c)" "\<not> is_panic e" "calls w' = calls w"
  | (success) h w' where "connect_locked k (w, c) = (Inr (), w', c\<lparr>lc_client := Some h\<rparr>)" "calls w' = calls w"
proof (cases "lk_connect k (lc_address c) (lc_timeout c) w")
  case (Pair r w')
  then have "calls w' = calls w" using assms(2) by (metis counted_def snd_conv)
  then show ?thesis using that calm_connect [OF assms(1), of _ _ w] Pair by (cases r) (auto simp: connect_locked_def)
qed

lemma use_step:
  assumes "counted k fn calls" and "lc_client c = Some h"
  obtains (error) e w' where "use_client k operation fn (w, c) = (Inl e, w', c)" "\<not> is_panic e" "calls w' = Suc (calls w)"
  | (success) x w' where "use_client k operation fn (w, c) = (Inr x, w', c)" "calls w' = Suc (calls w)"
proof (cases "fn h w")
  case (Pair r w')
  have n: "calls w' = Suc (calls w)" using assms(1) Pair by (metis counted_def snd_conv)
  show ?thesis
  proof (cases r)
    case (Inl e)
    then show ?thesis
      using that(1) n assms(2) Pair by (cases e) (auto simp: use_client_def call_live_client_def live_error_def)
  next
    case (Inr x)
    then show ?thesis using that(2) n assms(2) Pair by (auto simp: use_client_def call_live_client_def)
  qed
qed

lemma reconnect_step:
  assumes "calm_link k" and "counted k fn calls"
  obtains (error) e w' c' where "reconnect_locked k (w, c) = (Inl e, w', c')" "\<not> is_panic e" "calls w' = calls w"
    "lc_client c' = None"
  | (success) h w' c' where "reconnect_locked k (w, c) = (Inr (), w', c')" "calls w' = calls w" "lc_client c' = Some h"
proof -
  obtain w1 where d: "drop_client k (w, c) = (Inr (), w1, c\<lparr>lc_client := None\<rparr>)" "calls w1 = calls w"
  proof (cases "lc_client c")
    case None
    then have "c\<lparr>lc_client := None\<rparr> = c" by simp
    then show ?thesis using that None by (simp add: drop_client_def)
  next
    case (Some h)
    obtain r w' where p: "lk_disconnect k h w = (r, w')" by fastforce
    then have "calls w' = calls w" using assms(2) by (metis counted_def snd_conv)
    moreover have "ignore_err (lk_disconnect k h) w = (Inr (), w')"
      using calm_disconnect [OF assms(1), of h w] p by (cases r) (auto simp: ignore_err_def)
    ultimately show ?thesis using that Some by (simp add: drop_client_def)
  qed
  from assms show ?thesis
  proof (cases rule: connect_step [where w = w1 and c = "c\<lparr>lc_client := None\<rparr>"])
    case (error e w')
    then show ?thesis using that(1) d by (simp add: reconnect_locked_def bnd_def)
  next
    case (success h w')
    then show ?thesis using that(2) d by (simp add: reconnect_locked_def bnd_def)
  qed
qed

lemma probe_sorted: "sorted (map probe_order (probe_live_hosts probe hosts))"
  by (simp add: probe_live_hosts_def)

lemma probe_set: "r \<in> set (probe_live_hosts probe hosts) \<longleftrightarrow>
    pr_address r \<in> set hosts \<and> pr_latency r = fst (probe (pr_address r)) \<and> pr_reachable r = snd (probe (pr_address r))"
proof
  assume r: "pr_address r \<in> set hosts \<and> pr_latency r = fst (probe (pr_address r)) \<and> pr_reachable r = snd (probe (pr_address r))"
  then have "r = \<lparr>pr_address = pr_address r, pr_latency = fst (probe (pr_address r)), pr_reachable = snd (probe (pr_address r))\<rparr>"
    by simp
  then show "r \<in> set (probe_live_hosts probe hosts)"
    using r unfolding probe_live_hosts_def set_sort set_map by blast
qed (auto simp: probe_live_hosts_def)

lemma probe_distinct: "distinct hosts \<Longrightarrow> distinct (map pr_address (probe_live_hosts probe hosts))"
  using probe_addresses [of probe hosts] by (metis mset_eq_imp_distinct_iff)

text \<open>The first \<open>n\<close> reachable hosts in the order of the probes are the fastest.\<close>

definition fastest :: "(string \<Rightarrow> int \<times> bool) \<Rightarrow> string list \<Rightarrow> nat \<Rightarrow> string list" where
  "fastest probe hosts n = take n (map pr_address (filter pr_reachable (probe_live_hosts probe hosts)))"

lemma fastest_distinct: "distinct hosts \<Longrightarrow> distinct (fastest probe hosts n)"
  unfolding fastest_def by (intro distinct_take distinct_map_filter probe_distinct)

lemma fastest_reachable: "h \<in> set (fastest probe hosts n) \<Longrightarrow> h \<in> set hosts \<and> snd (probe h)"
  unfolding fastest_def by (drule in_set_takeD) (auto simp: probe_set)

lemma sorted_take_rest:
  "sorted (map f xs) \<Longrightarrow> x \<in> set (take n xs) \<Longrightarrow> y \<in> set (drop n xs) \<Longrightarrow> f x \<le> f y"
proof -
  assume "sorted (map f xs)" and xy: "x \<in> set (take n xs)" "y \<in> set (drop n xs)"
  then have "sorted (map f (take n xs) @ map f (drop n xs))" by (simp flip: map_append)
  then show "f x \<le> f y" using xy by (simp add: sorted_append)
qed

lemma fastest_order:
  assumes "h \<in> set (fastest probe hosts n)" and "h' \<in> set hosts" and "snd (probe h')" and "h' \<notin> set (fastest probe hosts n)"
  shows "fst (probe h) \<le> fst (probe h')"
proof -
  define rs where "rs = filter pr_reachable (probe_live_hosts probe hosts)"
  have f: "fastest probe hosts n = map pr_address (take n rs)" by (simp add: fastest_def rs_def take_map)
  obtain r where r: "r \<in> set (take n rs)" "h = pr_address r" using assms(1) f by auto
  have "\<exists>r' \<in> set rs. h' = pr_address r'"
    using assms(2,3)
    by (intro bexI [of _ "\<lparr>pr_address = h', pr_latency = fst (probe h'), pr_reachable = snd (probe h')\<rparr>"])
      (simp_all add: rs_def probe_set)
  then obtain r' where r': "r' \<in> set rs" "h' = pr_address r'" by blast
  then have "r' \<in> set (drop n rs)"
    using assms(4) f by (metis Un_iff append_take_drop_id image_eqI list.set_map set_append)
  moreover have "sorted (map probe_order rs)"
    using probe_sorted [of probe hosts] by (simp add: rs_def sorted_filter)
  ultimately have "probe_order r \<le> probe_order r'" using r(1) by (intro sorted_take_rest)
  moreover have "r \<in> set rs" using r(1) by (rule in_set_takeD)
  ultimately show ?thesis using r r' by (auto simp: rs_def probe_set probe_order_def less_eq_prod_def)
qed

lemma select_live_eq:
  "select_live_hosts ctx probe hosts m =
     (let unique = unique_non_empty_hosts hosts; n = (if m = 0 then 4 else nat m) in
      if m < 0 \<or> length unique \<le> n then unique
      else if ctx \<noteq> None \<or> fastest probe unique n = [] then take n unique else fastest probe unique n)"
proof -
  have p: "pick_reachable (int n) (probe_live_hosts probe u) [] = fastest probe u n" if "0 < n" for n u
    using that by (simp add: pick_reachable_app fastest_def)
  show ?thesis
  proof (cases "m = 0")
    case True
    then show ?thesis using p [of 4] by (auto simp: select_live_hosts_def Let_def default_max_hosts_per_pool_def)
  next
    case False
    then show ?thesis using p [of "nat m"] by (auto simp: select_live_hosts_def Let_def nat_le_iff)
  qed
qed

text \<open>A ledger of the open pools: a pool that opens is new, one that does not leaves nothing, and closing removes.\<close>

definition ledger :: "('w, 'p) pool_ops \<Rightarrow> ('w \<Rightarrow> 'p set) \<Rightarrow> bool" where
  "ledger po opened \<longleftrightarrow>
     (\<forall>s t w. case po_new po s t w of
        (Inr p, w') \<Rightarrow> p \<notin> opened w \<and> opened w' = insert p (opened w)
      | (Inl e, w') \<Rightarrow> \<not> is_panic e \<and> opened w' = opened w) \<and>
     (\<forall>p w. case po_close po p w of
        (Inr u, w') \<Rightarrow> opened w' = opened w - {p}
      | (Inl e, w') \<Rightarrow> \<not> is_panic e \<and> opened w' = opened w - {p})"

lemma ledger_close:
  assumes "ledger po opened"
  shows "\<exists>w'. ignore_err (po_close po p) w = (Inr (), w') \<and> opened w' = opened w - {p}"
proof (cases "po_close po p w")
  case (Pair r w')
  have "case po_close po p w of
        (Inr u, w') \<Rightarrow> opened w' = opened w - {p}
      | (Inl e, w') \<Rightarrow> \<not> is_panic e \<and> opened w' = opened w - {p}"
    using assms by (simp add: ledger_def)
  then show ?thesis using Pair by (cases r) (auto simp: ignore_err_def)
qed

lemma ledger_close_pools:
  "ledger po opened \<Longrightarrow> \<exists>w'. close_pools po ps w = (Inr (), w') \<and> opened w' = opened w - set ps"
proof (induction ps arbitrary: w)
  case (Cons p ps)
  obtain w1 where "ignore_err (po_close po p) w = (Inr (), w1)" "opened w1 = opened w - {p}"
    using ledger_close [OF Cons.prems] by blast
  moreover obtain w' where "close_pools po ps w1 = (Inr (), w')" "opened w' = opened w1 - set ps"
    using Cons by blast
  ultimately show ?case by (auto simp: bnd_def)
qed (simp add: ret_def)

lemma ledger_new:
  assumes "ledger po opened"
  obtains p w' where "new_live_pool po t s w = (Inr p, w')" "p \<notin> opened w" "opened w' = insert p (opened w)"
  | e w' where "new_live_pool po t s w = (Inl e, w')" "\<not> is_panic e" "opened w' = opened w"
proof (cases "ps_hosts s = []")
  case True
  then show ?thesis using that(2) by (simp add: new_live_pool_def fail_def)
next
  case False
  obtain r w' where p: "po_new po s t w = (r, w')" by fastforce
  have "case po_new po s t w of
        (Inr p, w') \<Rightarrow> p \<notin> opened w \<and> opened w' = insert p (opened w)
      | (Inl e, w') \<Rightarrow> \<not> is_panic e \<and> opened w' = opened w"
    using assms by (simp add: ledger_def)
  then show ?thesis using that p False by (cases r) (auto simp: new_live_pool_def)
qed

lemma ledger_open_pools:
  assumes "ledger po opened"
  shows "set acc \<subseteq> opened w \<Longrightarrow> distinct acc \<Longrightarrow>
    case open_pools po t ss acc w of
      (Inr ps, w') \<Rightarrow> distinct ps \<and> length ps = length acc + length ss \<and> set acc \<subseteq> set ps \<and>
        opened w' = opened w \<union> set ps \<and> set ps - set acc \<subseteq> - opened w
    | (Inl e, w') \<Rightarrow> opened w' = opened w - set acc"
proof (induction ss arbitrary: acc w)
  case (Cons s ss)
  from assms show ?case
  proof (cases rule: ledger_new [where t = t and s = s and w = w])
    case (1 p w1)
    have sub: "set (acc @ [p]) \<subseteq> opened w1" "distinct (acc @ [p])" using Cons.prems 1 by auto
    have eq: "open_pools po t (s # ss) acc w = open_pools po t ss (acc @ [p]) w1" using 1 by (simp add: catch_def)
    obtain r w' where o: "open_pools po t ss (acc @ [p]) w1 = (r, w')" by fastforce
    show ?thesis
    proof (cases r)
      case (Inl e)
      then show ?thesis using Cons.IH [OF sub] 1 Cons.prems(1) unfolding eq o by auto
    next
      case (Inr ps)
      then show ?thesis using Cons.IH [OF sub] 1 Cons.prems unfolding eq o by auto
    qed
  next
    case (2 e w1)
    obtain w' where "close_pools po acc w1 = (Inr (), w')" "opened w' = opened w1 - set acc"
      using ledger_close_pools [OF assms] by blast
    then show ?thesis using 2 by (simp add: catch_def bnd_def fail_def)
  qed
qed (auto simp: ret_def)

section \<open>Properties\<close>


text \<open>A vendor client that counts its uses and fails the first time.\<close>

definition flaky :: "unit \<Rightarrow> (nat, nat) op" where
  "flaky h n = (if n = 0 then Inl (GoPanic ''short frame'') else Inr n, Suc n)"

definition sample_link :: "(nat, unit) link" where
  "sample_link = quote_link (\<lambda>a t. ret ()) (\<lambda>h. ret ())"


text \<open>
  the hosts a pool gets.  For any list with a host in it and any limit that is not negative
  (0 means 4), \<open>selectLiveHosts\<close> returns at least one and at most that many hosts of the list, each once; when
  there are more candidates than the limit, the context is live and a probe succeeds, every selected
  host is reachable and none of them is slower than a reachable host left out.
\<close>

theorem selected_hosts:
  fixes probe :: "string \<Rightarrow> int \<times> bool" and ctx :: "go_error option"
  assumes "h0 \<in> set hosts" and "h0 \<noteq> []" and "0 \<le> m"
  defines "limit \<equiv> (if m = 0 then 4 else m)" and "sel \<equiv> select_live_hosts ctx probe hosts m"
  shows "sel \<noteq> [] \<and> distinct sel \<and> set sel \<subseteq> set hosts - {[]} \<and> int (length sel) \<le> limit \<and>
    (ctx = None \<and> limit < int (card (set hosts - {[]})) \<and> (\<exists>h \<in> set hosts - {[]}. snd (probe h)) \<longrightarrow>
      (\<forall>h \<in> set sel. snd (probe h) \<and> (\<forall>h' \<in> set hosts - {[]} - set sel. snd (probe h') \<longrightarrow> fst (probe h) \<le> fst (probe h'))))"
proof -
  define u where "u = unique_non_empty_hosts hosts"
  define n where "n = (if m = 0 then 4 else nat m)"
  have u: "distinct u" "set u = set hosts - {[]}" using unique_hosts by (simp_all add: u_def)
  have "h0 \<in> set u" unfolding u(2) using assms(1,2) by simp
  then have ne: "u \<noteq> []" by (cases u) simp_all
  have n: "int n = limit" "0 < n" using assms(3) by (auto simp: n_def limit_def)
  have c: "card (set hosts - {[]}) = length u" using distinct_card [OF u(1)] by (simp add: u(2))
  have sel: "sel = (if length u \<le> n then u else if ctx \<noteq> None \<or> fastest probe u n = [] then take n u else fastest probe u n)"
    using assms(3) by (simp add: sel_def select_live_eq u_def n_def Let_def)
  have some: "fastest probe u n \<noteq> []" if "h \<in> set hosts - {[]}" "snd (probe h)" for h
  proof -
    have "\<lparr>pr_address = h, pr_latency = fst (probe h), pr_reachable = snd (probe h)\<rparr> \<in>
        set (filter pr_reachable (probe_live_hosts probe u))"
      using that u(2) by (simp add: probe_set)
    then have "filter pr_reachable (probe_live_hosts probe u) \<noteq> []" by (metis empty_iff list.set(1))
    then show ?thesis using n(2) by (simp only: fastest_def take_eq_Nil map_is_Nil_conv) simp
  qed
  show ?thesis
  proof (cases "length u \<le> n")
    case True
    then show ?thesis using ne u n sel c by auto
  next
    case big: False
    show ?thesis
    proof (cases "ctx \<noteq> None \<or> fastest probe u n = []")
      case True
      then have s: "sel = take n u" using big sel by simp
      have "take n u \<noteq> []" using ne n(2) by simp
      moreover have "distinct (take n u)" "set (take n u) \<subseteq> set u" using u(1) by (auto dest: in_set_takeD)
      ultimately show ?thesis using True some n u(2) unfolding s by auto
    next
      case False
      then have s: "sel = fastest probe u n" using big sel by simp
      have "length (fastest probe u n) \<le> n" by (simp add: fastest_def)
      then show ?thesis
        using False n u(2) fastest_distinct [OF u(1)] fastest_reachable [of _ probe u n] fastest_order [of _ probe u n]
        unfolding s by auto
    qed
  qed
qed

definition sample_probe :: "string \<Rightarrow> int \<times> bool" where
  "sample_probe h = (if h = ''a:1'' then (30, True) else if h = ''b:1'' then (10, True) else (5, False))"

theorem selected_hosts_witness:
  "select_live_hosts None sample_probe [''a:1'', ''c:1'', [], ''b:1'', ''a:1''] 1 = [''b:1''] \<and>
   snd (sample_probe ''b:1'') \<and> fst (sample_probe ''b:1'') \<le> fst (sample_probe ''a:1'')"
proof -
  let ?hosts = "[''a:1'', ''c:1'', [], ''b:1'', ''a:1'']"
  have e: "select_live_hosts None sample_probe ?hosts 1 = [''b:1'']" by code_simp
  have s: "set ?hosts - {[]} = {''a:1'', ''c:1'', ''b:1''}" by auto
  have l: "None = None \<and> (if (1::int) = 0 then 4 else 1) < int (card (set ?hosts - {[]})) \<and> (\<exists>h \<in> set ?hosts - {[]}. snd (sample_probe h))"
    unfolding s by (simp add: sample_probe_def)
  have "''a:1'' \<in> set ?hosts" "''a:1'' \<noteq> []" "(0::int) \<le> 1" by simp_all
  from selected_hosts [OF this, of None sample_probe] l
  have "\<forall>h \<in> set (select_live_hosts None sample_probe ?hosts 1). snd (sample_probe h) \<and>
      (\<forall>h' \<in> set ?hosts - {[]} - set (select_live_hosts None sample_probe ?hosts 1).
        snd (sample_probe h') \<longrightarrow> fst (sample_probe h) \<le> fst (sample_probe h'))"
    by blast
  then have "snd (sample_probe ''b:1'') \<and> (snd (sample_probe ''a:1'') \<longrightarrow> fst (sample_probe ''b:1'') \<le> fst (sample_probe ''a:1''))"
    unfolding s unfolding e by simp
  moreover have "snd (sample_probe ''a:1'')" by (simp add: sample_probe_def)
  ultimately show ?thesis using e by blast
qed


text \<open>A world of open pools, named by a counter, that cannot open the MAC pool.\<close>

definition sample_pools :: "(nat \<times> nat set, nat) pool_ops" where
  "sample_pools = \<lparr>po_new = (\<lambda>s t (n, ps). if ps_mac s \<or> n \<in> ps then (Inl ErrUpstreamUnavailable, (n, ps))
       else (Inr n, (Suc n, insert n ps))), po_close = (\<lambda>p (n, ps). (Inr (), (n, ps - {p})))\<rparr>"


end
