(* ===== verification/Go_Float.thy ===== *)
theory Go_Float
  imports Go_Prelude "HOL-Library.Log_Nat"
begin

text \<open>
  The arithmetic of \<open>float64\<close> that the code does, on bit patterns: IEEE 754 binary64 with rounding to
  nearest, ties to even.  A finite pattern stands for \<open>m * 2 ^ x\<close> with a sign; results are computed exactly on
  integers and rounded once.  A result that is not a number is one fixed pattern (Go leaves the payload open).
\<close>

unbundle bit_operations_syntax

section \<open>Patterns\<close>

definition f_sign :: "float64 \<Rightarrow> bool" where
  "f_sign b \<longleftrightarrow> bit b 63"

definition f_exp :: "float64 \<Rightarrow> nat" where
  "f_exp b = unat b div 2 ^ 52 mod 2 ^ 11"

definition f_frac :: "float64 \<Rightarrow> nat" where
  "f_frac b = unat b mod 2 ^ 52"

definition f_nan :: "float64 \<Rightarrow> bool" where
  "f_nan b \<longleftrightarrow> f_exp b = 2047 \<and> f_frac b \<noteq> 0"

definition f_inf :: "float64 \<Rightarrow> bool" where
  "f_inf b \<longleftrightarrow> f_exp b = 2047 \<and> f_frac b = 0"

definition nan_bits :: float64 where
  "nan_bits = 0x7FF8000000000000"

text \<open>A finite pattern is \<open>f_man b * 2 ^ (f_scale b - 1074)\<close> up to its sign.\<close>

definition f_man :: "float64 \<Rightarrow> nat" where
  "f_man b = (if f_exp b = 0 then f_frac b else f_frac b + 2 ^ 52)"

definition f_scale :: "float64 \<Rightarrow> nat" where
  "f_scale b = f_exp b - 1"

text \<open>The signed integer that a finite pattern is in units of \<open>2 ^ -1074\<close>.\<close>

definition f_units :: "float64 \<Rightarrow> int" where
  "f_units b = (if f_sign b then - 1 else 1) * int (f_man b * 2 ^ f_scale b)"

section \<open>Rounding\<close>

definition round_even :: "nat \<Rightarrow> nat \<Rightarrow> nat" where
  "round_even m s =
     (if s = 0 then m
      else let q = m div 2 ^ s; r = m mod 2 ^ s; half = 2 ^ (s - 1)
           in if half < r \<or> (r = half \<and> odd q) then q + 1 else q)"

text \<open>The pattern without sign of \<open>m * 2 ^ (x - 1074)\<close>, rounded.  The significand \<open>q\<close> and the exponent add up to the
  pattern, also when rounding carries into the next binade.\<close>

definition round_nat :: "nat \<Rightarrow> int \<Rightarrow> nat" where
  "round_nat m x =
     (if m = 0 then 0
      else let y = max (x + int (floorlog 2 m) - 53) 0;
               q = (if y \<le> x then m * 2 ^ nat (x - y) else round_even m (nat (y - x)));
               bits = nat y * 2 ^ 52 + q
           in if 2047 * 2 ^ 52 \<le> bits then 2047 * 2 ^ 52 else bits)"

definition signed_bits :: "bool \<Rightarrow> nat \<Rightarrow> float64" where
  "signed_bits neg n = (if neg then word_of_nat (2 ^ 63 + n) else word_of_nat n)"

section \<open>Operations\<close>

text \<open>\<open>float64(i)\<close> for an integer.\<close>

definition f_of_int :: "int \<Rightarrow> float64" where
  "f_of_int i = signed_bits (i < 0) (round_nat (nat \<bar>i\<bar>) 1074)"

definition f_mul :: "float64 \<Rightarrow> float64 \<Rightarrow> float64" where
  "f_mul a b =
     (let neg = (f_sign a \<noteq> f_sign b) in
      if f_nan a \<or> f_nan b then nan_bits
      else if f_inf a \<or> f_inf b
      then (if float_is_zero a \<or> float_is_zero b then nan_bits else signed_bits neg (2047 * 2 ^ 52))
      else signed_bits neg (round_nat (f_man a * f_man b) (int (f_scale a) + int (f_scale b) - 1074)))"

definition f_add :: "float64 \<Rightarrow> float64 \<Rightarrow> float64" where
  "f_add a b =
     (if f_nan a \<or> f_nan b then nan_bits
      else if f_inf a then (if f_inf b \<and> f_sign a \<noteq> f_sign b then nan_bits else a)
      else if f_inf b then b
      else let i = f_units a + f_units b in
        if i = 0 then signed_bits (f_sign a \<and> f_sign b) 0
        else signed_bits (i < 0) (round_nat (nat \<bar>i\<bar>) 0))"

definition f_neg :: "float64 \<Rightarrow> float64" where
  "f_neg a = a XOR 0x8000000000000000"

definition f_sub :: "float64 \<Rightarrow> float64 \<Rightarrow> float64" where
  "f_sub a b = f_add a (f_neg b)"

text \<open>The quotient of two finite patterns, the divisor not zero: enough bits and a sticky bit.\<close>

definition f_div :: "float64 \<Rightarrow> float64 \<Rightarrow> float64" where
  "f_div a b =
     (let neg = (f_sign a \<noteq> f_sign b); n = f_man a * 2 ^ 110; q = n div f_man b;
          m = 2 * q + (if n mod f_man b = 0 then 0 else 1)
      in signed_bits neg (round_nat m (int (f_scale a) - int (f_scale b) + 1074 - 111)))"

definition f_less :: "float64 \<Rightarrow> float64 \<Rightarrow> bool" where
  "f_less a b \<longleftrightarrow>
     (if f_nan a \<or> f_nan b then False
      else if f_inf a then f_sign a \<and> \<not> (f_inf b \<and> f_sign b)
      else if f_inf b then \<not> f_sign b
      else f_units a < f_units b)"

text \<open>A \<open>float32\<close> is its pattern; \<open>float64(v)\<close> is exact.\<close>

type_synonym float32 = "32 word"

definition f_widen :: "float32 \<Rightarrow> float64" where
  "f_widen v =
     (let n = unat v; neg = bit v 31; e = n div 2 ^ 23 mod 2 ^ 8; f = n mod 2 ^ 23 in
      if e = 255 then (if f = 0 then signed_bits neg (2047 * 2 ^ 52) else nan_bits)
      else signed_bits neg (round_nat (if e = 0 then f else f + 2 ^ 23) (int (e - 1) + 1074 - 149)))"

end
