(* ===== verification/Gotdx_Mapper.thy ===== *)
theory Gotdx_Mapper
  imports Domain Go_Float
begin

text \<open>
  \<^verbatim>\<open>internal/provider/gotdx/mapper.go\<close>: the translation between the domain and the vendor's protocol.  The
  vendor's structs are records of the fields this file reads, the vendor's constants a parameter \<open>gotdx_types\<close>.
  A field that the code converts (\<open>int64(item.Vol)\<close>) is the converted value; a field it only boxes into a
  \<open>map[string]any\<close> is a dynamic value.
\<close>

section \<open>The vendor's side\<close>

record gotdx_types =
  gt_market_sz :: u8
  gt_market_sh :: u8
  gt_market_bj :: u8
  gt_market_hk :: u8
  gt_market_usa :: u8
  gt_1min :: u16
  gt_5min :: u16
  gt_15min :: u16
  gt_30min :: u16
  gt_1hour :: u16
  gt_daily :: u16
  gt_weekly :: u16
  gt_monthly :: u16
  gt_3month :: u16
  gt_yearly :: u16
  gt_adjust_none :: u16
  gt_adjust_qfq :: u16
  gt_adjust_hfq :: u16

record vendor_level =
  vl_price :: float64
  vl_vol :: int

record security_quote =
  vq_market :: u8
  vq_code :: string
  vq_price :: float64
  vq_close :: float64
  vq_open :: float64
  vq_high :: float64
  vq_low :: float64
  vq_pre_close :: float64
  vq_last_close :: float64
  vq_vol :: int
  vq_amount :: float64
  vq_bid_levels :: "vendor_level list"
  vq_ask_levels :: "vendor_level list"

record transaction_data =
  vt_time :: string
  vt_price :: float64
  vt_vol :: int
  vt_action :: string

text \<open>The two structs of historical transactions have the same fields here.\<close>

record history_transaction_data =
  hd_time :: gotime
  hd_price :: float64
  hd_vol :: int
  hd_action :: string

record security_bar =
  sb_time :: gotime
  sb_open :: float64
  sb_high :: float64
  sb_low :: float64
  sb_close :: float64
  sb_vol :: float64
  sb_amount :: float64

record xdxr_item =
  xi_date :: gotime
  xi_category :: go_any
  xi_name :: string
  xi_fenhong :: "float32 option"
  xi_peigujia :: "float32 option"
  xi_songzhuangu :: "float32 option"
  xi_peigu :: "float32 option"
  xi_suogu :: "float32 option"
  xi_xingquanjia :: "float32 option"
  xi_fenshu :: "float32 option"
  xi_pre_float_shares :: "float32 option"
  xi_pre_total_shares :: "float32 option"
  xi_post_float_shares :: "float32 option"
  xi_post_total_shares :: "float32 option"

record vendor_security =
  vs_code :: string
  vs_name :: string
  vs_vol_unit :: go_any
  vs_decimal_point :: go_any
  vs_pre_close :: go_any

record finance_reply =
  fr_float_shares :: go_any
  fr_total_shares :: go_any
  fr_eps :: go_any
  fr_total_assets :: go_any
  fr_operating_revenue :: go_any
  fr_operating_profit :: go_any
  fr_net_profit :: go_any
  fr_net_assets_per_share :: go_any
  fr_updated_date :: go_any
  fr_ipo_date :: go_any
  fr_shareholder_count :: go_any
  fr_undistributed_profit :: go_any

section \<open>Codes\<close>

definition market_to_gotdx :: "gotdx_types \<Rightarrow> string \<Rightarrow> u8 result" where
  "market_to_gotdx g market =
     (let m = normalize_market market in
      if m = MarketSZ then Inr (gt_market_sz g)
      else if m = MarketSH then Inr (gt_market_sh g)
      else if m = MarketBJ then Inr (gt_market_bj g)
      else if m = MarketHK then Inr (gt_market_hk g)
      else if m = MarketUS then Inr (gt_market_usa g)
      else Inl ErrInvalidRequest)"

definition market_from_gotdx :: "gotdx_types \<Rightarrow> u8 \<Rightarrow> string" where
  "market_from_gotdx g market =
     (if market = gt_market_sz g then MarketSZ
      else if market = gt_market_sh g then MarketSH
      else if market = gt_market_bj g then MarketBJ
      else if market = gt_market_hk g then MarketHK
      else if market = gt_market_usa g then MarketUS
      else MarketUnknown)"

definition period_to_gotdx :: "gotdx_types \<Rightarrow> string \<Rightarrow> u16 result" where
  "period_to_gotdx g period =
     (if period = Period1Min then Inr (gt_1min g)
      else if period = Period5Min then Inr (gt_5min g)
      else if period = Period15Min then Inr (gt_15min g)
      else if period = Period30Min then Inr (gt_30min g)
      else if period = Period1Hour then Inr (gt_1hour g)
      else if period = PeriodDay then Inr (gt_daily g)
      else if period = PeriodWeek then Inr (gt_weekly g)
      else if period = PeriodMonth then Inr (gt_monthly g)
      else if period = PeriodQuarter then Inr (gt_3month g)
      else if period = PeriodYear then Inr (gt_yearly g)
      else Inl ErrInvalidRequest)"

definition adjust_to_gotdx :: "gotdx_types \<Rightarrow> string \<Rightarrow> u16 result" where
  "adjust_to_gotdx g adjust =
     (if adjust = [] \<or> adjust = AdjustNone then Inr (gt_adjust_none g)
      else if adjust = AdjustQFQ then Inr (gt_adjust_qfq g)
      else if adjust = AdjustHFQ then Inr (gt_adjust_hfq g)
      else Inl ErrInvalidRequest)"

section \<open>Values\<close>

fun first_non_zero :: "float64 list \<Rightarrow> float64" where
  "first_non_zero [] = 0"
| "first_non_zero (v # vs) = (if float_is_zero v then first_non_zero vs else v)"

definition action_to_direction :: "string \<Rightarrow> string" where
  "action_to_direction action =
     (let a = to_upper (trim_space action) in
      if a = ''BUY'' then ''buy'' else if a = ''SELL'' then ''sell''
      else if a = ''NEUTRAL'' then ''neutral'' else ''unknown'')"

text \<open>
  \<open>Sscanf(s, "%d:%d", &hour, &minute)\<close>, errors dropped.  The verb skips spaces (a line break ends the scan),
  takes an optional sign and digits, and fails outside \<open>int64\<close>; what is not scanned stays 0.
\<close>

function skip_scan_space :: "string \<Rightarrow> string option" where
  "skip_scan_space s =
     (case s of
        c # t \<Rightarrow> if c = CHR 0x0A \<or> (c = CHR 0x0D \<and> take 1 t = [CHR 0x0A]) then None
                 else (case drop_space s of None \<Rightarrow> Some s | Some t' \<Rightarrow> skip_scan_space t')
      | [] \<Rightarrow> Some [])"
  by pat_completeness auto
termination
  by (relation "measure length") (auto dest: drop_space_shorter)

declare skip_scan_space.simps [simp del]

definition scan_int :: "string \<Rightarrow> (int \<times> string) option" where
  "scan_int s =
     (case skip_scan_space s of None \<Rightarrow> None
      | Some t \<Rightarrow>
          let neg = (take 1 t = ''-''); u = (if take 1 t = ''-'' \<or> take 1 t = ''+'' then drop 1 t else t);
              digits = takeWhile is_digit u; v = (if neg then - int (dec_val digits) else int (dec_val digits))
          in if digits = [] \<or> \<not> fits64 v then None else Some (v, dropWhile is_digit u))"

definition scan_clock :: "string \<Rightarrow> int \<times> int" where
  "scan_clock s =
     (case scan_int s of None \<Rightarrow> (0, 0)
      | Some (hour, rest) \<Rightarrow>
          (if take 1 rest = '':''
           then (case scan_int (drop 1 rest) of None \<Rightarrow> (hour, 0) | Some (minute, _) \<Rightarrow> (hour, minute))
           else (hour, 0)))"

text \<open>\<open>time.Date\<close> normalises hours and minutes outside their ranges; \<open>wall\<close> is \<open>time.Now()\<close>.\<close>

definition parse_intraday_time :: "gotime \<Rightarrow> gotime \<Rightarrow> string \<Rightarrow> gotime" where
  "parse_intraday_time wall base hhmm =
     (let date = (if is_zero (normalize_date base) then normalize_date wall else normalize_date base);
          (hour, minute) = scan_clock hhmm
      in time_add (midnight (t_zone date) (local_day date)) ((hour * 3600 + minute * 60) * second))"

section \<open>Structs\<close>

definition levels_to_domain :: "vendor_level list \<Rightarrow> level list" where
  "levels_to_domain = map (\<lambda>l. \<lparr>l_price = vl_price l, l_volume = vl_vol l\<rparr>)"

definition quote_to_domain :: "gotdx_types \<Rightarrow> security_quote \<Rightarrow> gotime \<Rightarrow> quote" where
  "quote_to_domain g item source_time =
     \<lparr>q_symbol = mk_symbol (market_from_gotdx g (vq_market item)) (trim_space (vq_code item)),
      q_last_price = first_non_zero [vq_price item, vq_close item], q_open = vq_open item,
      q_high = vq_high item, q_low = vq_low item,
      q_pre_close = first_non_zero [vq_pre_close item, vq_last_close item], q_volume = vq_vol item,
      q_amount = vq_amount item, q_bid_levels = levels_to_domain (vq_bid_levels item),
      q_ask_levels = levels_to_domain (vq_ask_levels item), q_quote_time = zero_time,
      q_source_time = source_time, q_cached = False\<rparr>"

definition quote_to_order_book :: "gotdx_types \<Rightarrow> security_quote \<Rightarrow> gotime \<Rightarrow> order_book" where
  "quote_to_order_book g item source_time =
     \<lparr>ob_symbol = mk_symbol (market_from_gotdx g (vq_market item)) (trim_space (vq_code item)),
      ob_bid_levels = levels_to_domain (vq_bid_levels item),
      ob_ask_levels = levels_to_domain (vq_ask_levels item), ob_source_time = source_time, ob_cached = False\<rparr>"

definition transaction_to_domain :: "gotime \<Rightarrow> symbol \<Rightarrow> transaction_data \<Rightarrow> int \<Rightarrow> gotime \<Rightarrow> tick" where
  "transaction_to_domain wall sy item sq now =
     (let trade_time = parse_intraday_time wall now (vt_time item) in
      \<lparr>tk_symbol = sy, tk_trade_date = normalize_date trade_time, tk_trade_time = trade_time,
       tk_price = vt_price item, tk_volume = vt_vol item,
       tk_amount = f_mul (vt_price item) (f_of_int (vt_vol item)),
       tk_direction = action_to_direction (vt_action item), tk_sequence = sq, tk_source = ''gotdx'',
       tk_cached = False\<rparr>)"

definition history_transaction_to_domain :: "symbol \<Rightarrow> history_transaction_data \<Rightarrow> int \<Rightarrow> tick" where
  "history_transaction_to_domain sy item sq =
     \<lparr>tk_symbol = sy, tk_trade_date = normalize_date (hd_time item), tk_trade_time = hd_time item,
      tk_price = hd_price item, tk_volume = hd_vol item,
      tk_amount = f_mul (hd_price item) (f_of_int (hd_vol item)),
      tk_direction = action_to_direction (hd_action item), tk_sequence = sq, tk_source = ''gotdx'',
      tk_cached = False\<rparr>"

definition history_transaction_with_trans_to_domain :: "symbol \<Rightarrow> history_transaction_data \<Rightarrow> int \<Rightarrow> tick" where
  "history_transaction_with_trans_to_domain = history_transaction_to_domain"

definition bar_to_domain :: "symbol \<Rightarrow> string \<Rightarrow> string \<Rightarrow> security_bar \<Rightarrow> bar" where
  "bar_to_domain sy period adjust item =
     \<lparr>b_symbol = sy, b_period = period, b_adjust = adjust, b_time = sb_time item, b_open = sb_open item,
      b_high = sb_high item, b_low = sb_low item, b_close = sb_close item, b_volume = sb_vol item,
      b_amount = sb_amount item, b_source = ''gotdx''\<rparr>"

definition put_float32 :: "string \<Rightarrow> float32 option \<Rightarrow> (string \<rightharpoonup> go_any) \<Rightarrow> (string \<rightharpoonup> go_any)" where
  "put_float32 key v m = (case v of None \<Rightarrow> m | Some x \<Rightarrow> m(key \<mapsto> AnyFloat (f_widen x)))"

definition or_zero32 :: "float32 option \<Rightarrow> float64" where
  "or_zero32 v = (case v of None \<Rightarrow> 0 | Some x \<Rightarrow> f_widen x)"

definition xdxr_to_domain :: "symbol \<Rightarrow> xdxr_item \<Rightarrow> xdxr_event" where
  "xdxr_to_domain sy item =
     (let raw = [''category'' \<mapsto> xi_category item, ''name'' \<mapsto> AnyString (xi_name item)];
          raw = put_float32 ''fenhong'' (xi_fenhong item) raw;
          raw = put_float32 ''peigujia'' (xi_peigujia item) raw;
          raw = put_float32 ''songzhuangu'' (xi_songzhuangu item) raw;
          raw = put_float32 ''peigu'' (xi_peigu item) raw;
          raw = put_float32 ''suogu'' (xi_suogu item) raw;
          raw = put_float32 ''xingquanjia'' (xi_xingquanjia item) raw;
          raw = put_float32 ''fenshu'' (xi_fenshu item) raw;
          raw = put_float32 ''pre_float_shares'' (xi_pre_float_shares item) raw;
          raw = put_float32 ''pre_total_shares'' (xi_pre_total_shares item) raw;
          raw = put_float32 ''post_float_shares'' (xi_post_float_shares item) raw;
          raw = put_float32 ''post_total_shares'' (xi_post_total_shares item) raw
      in \<lparr>x_symbol = sy, x_event_date = normalize_date (xi_date item), x_event_type = xi_name item,
          x_cash_dividend = or_zero32 (xi_fenhong item), x_bonus_share = or_zero32 (xi_songzhuangu item),
          x_allotment_price = or_zero32 (xi_peigujia item), x_allotment_ratio = or_zero32 (xi_peigu item),
          x_raw_fields = raw\<rparr>)"

definition security_to_domain :: "string \<Rightarrow> vendor_security \<Rightarrow> security_info" where
  "security_to_domain market item =
     \<lparr>si_symbol = \<lparr>s_market = market, s_code = trim_space (vs_code item), s_name = trim_space (vs_name item),
        s_type = [], s_status = ''active''\<rparr>,
      si_fields = [''vol_unit'' \<mapsto> vs_vol_unit item, ''decimal_point'' \<mapsto> vs_decimal_point item,
        ''pre_close'' \<mapsto> vs_pre_close item], si_cached = False\<rparr>"

definition finance_to_domain :: "symbol \<Rightarrow> finance_reply option \<Rightarrow> finance_info option" where
  "finance_to_domain sy reply =
     (case reply of None \<Rightarrow> None
      | Some item \<Rightarrow> Some \<lparr>f_symbol = sy, f_fields = [''float_shares'' \<mapsto> fr_float_shares item,
          ''total_shares'' \<mapsto> fr_total_shares item, ''eps'' \<mapsto> fr_eps item,
          ''total_assets'' \<mapsto> fr_total_assets item, ''operating_revenue'' \<mapsto> fr_operating_revenue item,
          ''operating_profit'' \<mapsto> fr_operating_profit item, ''net_profit'' \<mapsto> fr_net_profit item,
          ''net_assets_per_share'' \<mapsto> fr_net_assets_per_share item, ''updated_date'' \<mapsto> fr_updated_date item,
          ''ipo_date'' \<mapsto> fr_ipo_date item, ''shareholder_count'' \<mapsto> fr_shareholder_count item,
          ''undistributed_profit'' \<mapsto> fr_undistributed_profit item],
          f_source_time = zero_time, f_cached = False\<rparr>)"

end
