(* ===== verification/Kline_Paging.thy ===== *)
theory Kline_Paging
  imports Gotdx_Mapper Bar_Coverage
begin

text \<open>
  The paging of \<^verbatim>\<open>internal/provider/gotdx/provider.go\<close>: K-lines are fetched in pages of at most 799 bars counted
  from the newest, securities in pages of at most 800.  The vendor's client is a parameter, the record of the
  methods of the interface \<open>Client\<close>; what the paging relies on it for is stated as laws on that record.
\<close>

section \<open>The client\<close>

record 'w client_ops =
  cl_quotes_detail :: "u8 list \<Rightarrow> string list \<Rightarrow> ('w, security_quote list) op"
  cl_transaction :: "u8 \<Rightarrow> string \<Rightarrow> u16 \<Rightarrow> u16 \<Rightarrow> ('w, transaction_data list) op"
  cl_full_transaction :: "u8 \<Rightarrow> string \<Rightarrow> ('w, transaction_data list) op"
  cl_history_transaction :: "u32 \<Rightarrow> u8 \<Rightarrow> string \<Rightarrow> u16 \<Rightarrow> u16 \<Rightarrow> ('w, history_transaction_data list) op"
  cl_history_full_transaction :: "u32 \<Rightarrow> u8 \<Rightarrow> string \<Rightarrow> ('w, history_transaction_data list) op"
  cl_history_transaction_with_trans :: "u32 \<Rightarrow> u8 \<Rightarrow> string \<Rightarrow> u16 \<Rightarrow> u16 \<Rightarrow> ('w, history_transaction_data list) op"
  cl_history_full_transaction_with_trans :: "u32 \<Rightarrow> u8 \<Rightarrow> string \<Rightarrow> ('w, history_transaction_data list) op"
  cl_kline :: "u16 \<Rightarrow> u8 \<Rightarrow> string \<Rightarrow> u16 \<Rightarrow> u16 \<Rightarrow> u16 \<Rightarrow> u16 \<Rightarrow> ('w, security_bar list) op"
  cl_full_kline :: "u16 \<Rightarrow> u8 \<Rightarrow> string \<Rightarrow> u16 \<Rightarrow> u16 \<Rightarrow> (security_bar \<Rightarrow> bool) \<Rightarrow> ('w, security_bar list) op"
  cl_xdxr_info :: "u8 \<Rightarrow> string \<Rightarrow> ('w, xdxr_item list option) op"
  cl_stock_list :: "u8 \<Rightarrow> u32 \<Rightarrow> u32 \<Rightarrow> ('w, vendor_security list) op"
  cl_stock_all :: "u8 \<Rightarrow> ('w, vendor_security list) op"
  cl_finance_info :: "u8 \<Rightarrow> string \<Rightarrow> ('w, finance_reply option) op"
  cl_disconnect :: "('w, unit) op"

definition default_kline_count :: u16 where "default_kline_count = 800"
definition max_gotdx_kline_count :: u16 where "max_gotdx_kline_count = 799"
definition default_security_page_size :: u32 where "default_security_page_size = 800"

section \<open>K-lines\<close>

text \<open>The arguments of \<open>StockKLine\<close> that do not change from page to page.\<close>

record kline_series =
  ks_category :: u16
  ks_market :: u8
  ks_code :: string
  ks_times :: u16
  ks_adjust :: u16

definition stock_kline :: "'w client_ops \<Rightarrow> kline_series \<Rightarrow> u16 \<Rightarrow> u16 \<Rightarrow> ('w, security_bar list) op" where
  "stock_kline cl ks start cnt = cl_kline cl (ks_category ks) (ks_market ks) (ks_code ks) start cnt (ks_times ks) (ks_adjust ks)"

definition normalize_kline_count :: "u16 \<Rightarrow> u16" where
  "normalize_kline_count cnt = (if cnt = 0 then default_kline_count else cnt)"

lemma rest_less:
  fixes remaining page :: "'a::len word"
  assumes "remaining \<noteq> 0" and "page \<noteq> 0"
  shows "unat (remaining - min remaining page) < unat remaining"
proof -
  have "min remaining page \<le> remaining" by (rule min.cobounded1)
  moreover have "min remaining page \<noteq> 0" using assms by (simp add: min_def)
  then have "0 < unat (min remaining page)" by (simp add: unat_gt_0)
  ultimately show ?thesis by (simp add: unat_sub word_le_nat_alt)
qed

function fetch_kline_page_loop ::
  "'w client_ops \<Rightarrow> ('w \<Rightarrow> go_error option) \<Rightarrow> kline_series \<Rightarrow> u16 \<Rightarrow> u16 \<Rightarrow> security_bar list \<Rightarrow> 'w \<Rightarrow> security_bar list result \<times> 'w" where
  "fetch_kline_page_loop cl ctx ks remaining current out w =
     (if remaining = 0 then (Inr out, w)
      else case ctx w of
        Some e \<Rightarrow> (Inl e, w)
      | None \<Rightarrow>
        (case stock_kline cl ks current (min remaining max_gotdx_kline_count) w of
           (Inl e, w') \<Rightarrow> (Inl e, w')
         | (Inr page, w') \<Rightarrow>
             if word_of_nat (length page) < min remaining max_gotdx_kline_count then (Inr (out @ page), w')
             else fetch_kline_page_loop cl ctx ks (remaining - min remaining max_gotdx_kline_count)
                    (current + min remaining max_gotdx_kline_count) (out @ page) w'))"
  by pat_completeness auto
termination
  by (relation "measure (\<lambda>(cl, ctx, ks, remaining, current, out, w). unat remaining)")
    (simp_all add: rest_less max_gotdx_kline_count_def)

declare fetch_kline_page_loop.simps [simp del]

definition fetch_kline_page ::
  "'w client_ops \<Rightarrow> ('w \<Rightarrow> go_error option) \<Rightarrow> kline_series \<Rightarrow> u16 \<Rightarrow> u16 \<Rightarrow> ('w, security_bar list) op" where
  "fetch_kline_page cl ctx ks start cnt = fetch_kline_page_loop cl ctx ks cnt start []"

text \<open>The loop over \<open>start\<close>, a \<open>uint32\<close> that ends above the largest \<open>uint16\<close>.\<close>

function fetch_kline_range_loop ::
  "'w client_ops \<Rightarrow> ('w \<Rightarrow> go_error option) \<Rightarrow> kline_series \<Rightarrow> gotime \<Rightarrow> nat \<Rightarrow> security_bar list \<Rightarrow> 'w \<Rightarrow> security_bar list result \<times> 'w" where
  "fetch_kline_range_loop cl ctx ks stop start out w =
     (if 65535 < start then (Inr out, w)
      else case ctx w of
        Some e \<Rightarrow> (Inl e, w)
      | None \<Rightarrow>
        (case fetch_kline_page cl ctx ks (word_of_nat start) max_gotdx_kline_count w of
           (Inl e, w') \<Rightarrow> (Inl e, w')
         | (Inr page, w') \<Rightarrow>
             if page = [] then (Inr out, w')
             else if \<not> after (sb_time (hd page)) stop \<or> length page < unat max_gotdx_kline_count then (Inr (page @ out), w')
             else fetch_kline_range_loop cl ctx ks stop (start + unat max_gotdx_kline_count) (page @ out) w'))"
  by pat_completeness auto
termination
  by (relation "measure (\<lambda>(cl, ctx, ks, stop, start, out, w). 65536 - start)") (auto simp: max_gotdx_kline_count_def)

declare fetch_kline_range_loop.simps [simp del]

definition fetch_kline_range ::
  "'w client_ops \<Rightarrow> ('w \<Rightarrow> go_error option) \<Rightarrow> kline_series \<Rightarrow> gotime \<Rightarrow> gotime \<Rightarrow> ('w, security_bar list) op" where
  "fetch_kline_range cl ctx ks start_date end_date =
     (let stop = (if is_zero start_date then end_date else start_date) in
      if is_zero stop then fetch_kline_page cl ctx ks 0 default_kline_count
      else fetch_kline_range_loop cl ctx ks stop 0 [])"

section \<open>Securities\<close>

function fetch_security_range_loop ::
  "'w client_ops \<Rightarrow> u8 \<Rightarrow> u32 \<Rightarrow> u32 \<Rightarrow> vendor_security list \<Rightarrow> 'w \<Rightarrow> vendor_security list result \<times> 'w" where
  "fetch_security_range_loop cl market remaining offset out w =
     (if remaining = 0 then (Inr out, w)
      else case cl_stock_list cl market offset (min remaining default_security_page_size) w of
        (Inl e, w') \<Rightarrow> (Inl e, w')
      | (Inr page, w') \<Rightarrow>
          if length page < unat (min remaining default_security_page_size) then (Inr (out @ page), w')
          else fetch_security_range_loop cl market (remaining - min remaining default_security_page_size)
                 (offset + min remaining default_security_page_size) (out @ page) w')"
  by pat_completeness auto
termination
  by (relation "measure (\<lambda>(cl, market, remaining, offset, out, w). unat remaining)")
    (simp_all add: rest_less default_security_page_size_def)

declare fetch_security_range_loop.simps [simp del]

definition fetch_security_range ::
  "'w client_ops \<Rightarrow> ('w \<Rightarrow> go_error option) \<Rightarrow> u8 \<Rightarrow> u32 \<Rightarrow> u32 \<Rightarrow> ('w, vendor_security list) op" where
  "fetch_security_range cl ctx market start cnt w = guard (ctx w) (fetch_security_range_loop cl market cnt start []) w"

text \<open>
  The loop of \<open>fetchSecurities\<close> has no bound of its own, and its offset wraps around: the fuel counts its turns,
  and \<open>None\<close> means that it is still running when the fuel is used up.
\<close>

fun fetch_all_securities ::
  "'w client_ops \<Rightarrow> ('w \<Rightarrow> go_error option) \<Rightarrow> u8 \<Rightarrow> nat \<Rightarrow> u32 \<Rightarrow> vendor_security list \<Rightarrow> 'w \<Rightarrow>
   (vendor_security list result \<times> 'w) option" where
  "fetch_all_securities cl ctx market 0 offset out w = None"
| "fetch_all_securities cl ctx market (Suc fuel) offset out w =
     (case fetch_security_range cl ctx market offset default_security_page_size w of
        (Inl e, w') \<Rightarrow> Some (Inl e, w')
      | (Inr page, w') \<Rightarrow>
          if length page < unat default_security_page_size then Some (Inr (out @ page), w')
          else fetch_all_securities cl ctx market fuel (offset + default_security_page_size) (out @ page) w')"

definition fetch_securities ::
  "'w client_ops option \<Rightarrow> ('w \<Rightarrow> go_error option) \<Rightarrow> nat \<Rightarrow> u8 \<Rightarrow> u32 \<Rightarrow> u32 \<Rightarrow> 'w \<Rightarrow> (vendor_security list result \<times> 'w) option" where
  "fetch_securities client ctx fuel market start cnt w =
     (case client of
        None \<Rightarrow> Some (Inl ErrUpstreamUnavailable, w)
      | Some cl \<Rightarrow>
          if 0 < cnt then Some (fetch_security_range cl ctx market start cnt w)
          else fetch_all_securities cl ctx market fuel 0 [] w)"

section \<open>The laws of the client\<close>

text \<open>
  The bars a server has, oldest first, are served by their distance from the newest: \<open>StockKLine\<close> with \<open>start\<close> and
  \<open>count\<close> answers the \<open>count\<close> bars that end \<open>start\<close> bars before the newest, oldest first.  The code relies on it where it
  puts later pages in front and takes the first bar of a page for its oldest.
\<close>

definition kpage :: "security_bar list \<Rightarrow> nat \<Rightarrow> nat \<Rightarrow> security_bar list" where
  "kpage hist start cnt = subslice (length hist - start - cnt) (length hist - start) hist"

definition serves_history :: "'w client_ops \<Rightarrow> ('w \<Rightarrow> go_error option) \<Rightarrow> kline_series \<Rightarrow> security_bar list \<Rightarrow> bool" where
  "serves_history cl ctx ks hist \<longleftrightarrow> (\<forall>w. ctx w = None) \<and>
     (\<forall>start cnt w. fst (stock_kline cl ks start cnt w) = Inr (kpage hist (unat start) (unat cnt)))"

text \<open>\<open>StockList\<close> answers the part of the market's list that the offset and the count ask for.\<close>

definition serves_list :: "'w client_ops \<Rightarrow> ('w \<Rightarrow> go_error option) \<Rightarrow> u8 \<Rightarrow> vendor_security list \<Rightarrow> bool" where
  "serves_list cl ctx market secs \<longleftrightarrow> (\<forall>w. ctx w = None) \<and>
     (\<forall>offset cnt w. fst (cl_stock_list cl market offset cnt w) = Inr (take (unat cnt) (drop (unat offset) secs)))"

section \<open>Facts\<close>

lemma length_kpage: "length (kpage hist start cnt) = min cnt (length hist - start)"
  by (simp add: kpage_def subslice_def)

lemma kpage_split: "start \<le> length hist \<Longrightarrow> kpage hist start cnt @ drop (length hist - start) hist = drop (length hist - start - cnt) hist"
proof -
  let ?n = "length hist - start"
  have "take (?n - (?n - cnt)) (drop (?n - cnt) hist) @ drop (?n - (?n - cnt)) (drop (?n - cnt) hist) = drop (?n - cnt) hist"
    by (rule append_take_drop_id)
  moreover have "?n - (?n - cnt) + (?n - cnt) = ?n" by simp
  ultimately show ?thesis unfolding kpage_def subslice_def drop_drop by metis
qed

lemma unat_max_kline [simp]: "unat max_gotdx_kline_count = 799"
  by (simp add: max_gotdx_kline_count_def)

lemma unat_page_size [simp]: "unat default_security_page_size = 800"
  by (simp add: default_security_page_size_def)

lemma serves_kline:
  assumes "serves_history cl ctx ks hist"
  shows "stock_kline cl ks start cnt w = (Inr (kpage hist (unat start) (unat cnt)), snd (stock_kline cl ks start cnt w))"
  using assms by (simp add: serves_history_def prod_eq_iff)

lemma serves_live: "serves_history cl ctx ks hist \<Longrightarrow> ctx w = None"
  by (simp add: serves_history_def)

lemma u16_nat: "n \<le> 65535 \<Longrightarrow> unat (word_of_nat n :: u16) = n"
  by (simp add: unat_of_nat)

lemma kpage_enough: "\<not> (word_of_nat (length (kpage hist start (unat cnt))) < (cnt :: u16)) \<longleftrightarrow> unat cnt \<le> length hist - start"
proof -
  let ?n = "length (kpage hist start (unat cnt))"
  have "unat cnt < 2 ^ LENGTH(16)" by (rule unsigned_less)
  then have "?n < 2 ^ 16" by (simp add: length_kpage)
  then have "unat (word_of_nat ?n :: u16) = ?n" by (intro u16_nat) simp
  then show ?thesis by (auto simp: word_less_nat_alt length_kpage)
qed

lemma page_step:
  assumes "serves_history cl ctx ks hist" and "cnt \<noteq> 0" and "cnt \<le> max_gotdx_kline_count"
  shows "fetch_kline_page_loop cl ctx ks cnt start out w =
    (Inr (out @ kpage hist (unat start) (unat cnt)), snd (stock_kline cl ks start cnt w))"
proof -
  note s = serves_kline [OF assms(1), of start cnt w] serves_live [OF assms(1), of w]
  have m: "min cnt max_gotdx_kline_count = cnt" using assms(3) by simp
  show ?thesis
    by (subst fetch_kline_page_loop.simps, simp only: m s(2) assms(2) option.case if_False, subst s(1))
      (simp add: fetch_kline_page_loop.simps [of cl ctx ks 0])
qed

lemma page_small:
  assumes "serves_history cl ctx ks hist" and "cnt \<noteq> 0" and "cnt \<le> max_gotdx_kline_count"
  shows "fetch_kline_page cl ctx ks start cnt w = (Inr (kpage hist (unat start) (unat cnt)), snd (stock_kline cl ks start cnt w))"
  using page_step [OF assms, of start "[]" w] by (simp add: fetch_kline_page_def)

text \<open>More than 799 and at most 1598 bars: a full page and, behind it, the older rest.\<close>

lemma page_two:
  assumes "serves_history cl ctx ks hist" and "max_gotdx_kline_count < cnt" and "unat cnt \<le> 1598"
    and "unat start + 799 \<le> length hist" and "unat start + 799 < 65536"
  shows "fst (fetch_kline_page cl ctx ks start cnt w) =
    Inr (kpage hist (unat start) 799 @ kpage hist (unat start + 799) (unat cnt - 799))"
proof -
  let ?m = max_gotdx_kline_count
  note s = serves_kline [OF assms(1), of start ?m w] serves_live [OF assms(1), of w]
  have m: "min cnt ?m = ?m" "cnt \<noteq> 0" using assms(2) by (auto simp: min_def max_gotdx_kline_count_def)
  have c: "unat (cnt - ?m) = unat cnt - 799"
    using assms(2) unat_max_kline by (simp add: unat_sub word_less_nat_alt word_le_nat_alt)
  have d: "cnt - ?m \<noteq> 0" "cnt - ?m \<le> ?m"
    using assms(2,3) c unat_max_kline by (auto simp: word_le_nat_alt)
  have a: "unat (start + ?m) = unat start + 799"
    using assms(5) unat_max_kline by (simp add: unat_word_ariths(1))
  have full: "\<not> (word_of_nat (length (kpage hist (unat start) (unat ?m))) < ?m)"
    using assms(4) unfolding kpage_enough by simp
  have "fetch_kline_page cl ctx ks start cnt w =
      fetch_kline_page_loop cl ctx ks (cnt - ?m) (start + ?m) (kpage hist (unat start) (unat ?m)) (snd (stock_kline cl ks start ?m w))"
    unfolding fetch_kline_page_def
    by (subst fetch_kline_page_loop.simps, simp only: m s(2) if_False option.case, subst s(1))
      (simp only: m full if_False prod.case sum.case append_Nil)
  then show ?thesis using page_step [OF assms(1) d] c a by simp
qed

lemma uses_kline_page:
  assumes "serves_history cl ctx ks hist"
  shows "fetch_kline_page cl ctx ks start max_gotdx_kline_count w =
    (Inr (kpage hist (unat start) 799), snd (stock_kline cl ks start max_gotdx_kline_count w))"
  using page_small [OF assms, of max_gotdx_kline_count start w] by (simp add: max_gotdx_kline_count_def)

definition bar_times :: "security_bar list \<Rightarrow> int list" where
  "bar_times = map (\<lambda>b. t_nanos (sb_time b))"

lemma range_step:
  fixes w :: 'w
  assumes "serves_history cl ctx ks hist" and "start \<le> 65535" and "start \<le> length hist"
  defines "w' \<equiv> snd (stock_kline cl ks (word_of_nat start) max_gotdx_kline_count w)"
  shows "fetch_kline_range_loop cl ctx ks stop start (drop (length hist - start) hist) w =
    (if kpage hist start 799 = [] then (Inr (drop (length hist - start) hist), w')
     else if \<not> after (sb_time (hd (kpage hist start 799))) stop \<or> length hist - start < 799
     then (Inr (drop (length hist - start - 799) hist), w')
     else fetch_kline_range_loop cl ctx ks stop (start + 799) (drop (length hist - start - 799) hist) w')"
proof -
  have page: "fetch_kline_page cl ctx ks (word_of_nat start) max_gotdx_kline_count w = (Inr (kpage hist start 799), w')"
    using uses_kline_page [OF assms(1), of "word_of_nat start" w] u16_nat [OF assms(2)] by (simp add: w'_def)
  have cat: "kpage hist start 799 @ drop (length hist - start) hist = drop (length hist - start - 799) hist"
    by (rule kpage_split) (fact assms(3))
  have small: "\<not> 65535 < start" using assms(2) by simp
  show ?thesis
    by (subst fetch_kline_range_loop.simps)
      (simp only: small if_False serves_live [OF assms(1)] option.case page prod.case sum.case cat length_kpage unat_max_kline, simp)
qed

lemma range_loop_spec:
  assumes "serves_history cl ctx ks hist" and "sorted_wrt (<) (bar_times hist)" and "length hist \<le> 83 * 799"
    and "\<forall>start cnt w. calls (snd (stock_kline cl ks start cnt w)) \<le> Suc (calls w)"
  shows "i \<le> 83 \<Longrightarrow> 799 * i \<le> length hist \<Longrightarrow>
    \<exists>k w'. fetch_kline_range_loop cl ctx ks stop (799 * i) (drop (length hist - 799 * i) hist) w = (Inr (drop k hist), w') \<and>
      calls w' \<le> calls w + (83 - i) \<and> (\<forall>b \<in> set (take k hist). before (sb_time b) stop)"
proof (induction "83 - i" arbitrary: i w)
  case 0
  then have i: "i = 83" "length hist = 799 * i" using assms(3) by simp_all
  then show ?case by (intro exI [of _ 0]) (simp add: fetch_kline_range_loop.simps [of cl ctx ks stop])
next
  case (Suc n)
  let ?start = "799 * i" and ?w = "snd (stock_kline cl ks (word_of_nat (799 * i)) max_gotdx_kline_count w)"
  let ?k = "length hist - ?start - 799"
  have le: "?start \<le> 65535" using Suc.hyps(2) by simp
  have calls: "calls ?w \<le> Suc (calls w)" using assms(4) by simp
  note step = range_step [OF assms(1) le Suc.prems(2), of stop w]
  consider "length hist = ?start" | "kpage hist ?start 799 \<noteq> []" "length hist - ?start < 799"
    | "kpage hist ?start 799 \<noteq> []" "799 \<le> length hist - ?start" "\<not> after (sb_time (hd (kpage hist ?start 799))) stop"
    | "kpage hist ?start 799 \<noteq> []" "799 \<le> length hist - ?start" "after (sb_time (hd (kpage hist ?start 799))) stop"
    using Suc.prems(2) length_kpage [of hist ?start 799] by (cases "length hist = ?start") (fastforce simp flip: length_greater_0_conv)+
  then show ?case
  proof cases
    case 1
    then have "kpage hist ?start 799 = []" using length_kpage [of hist ?start 799] by simp
    then show ?thesis using step 1 calls Suc.hyps(2) by (intro exI [of _ 0]) simp
  next
    case 2
    then show ?thesis using step calls Suc.hyps(2) by (intro exI [of _ 0]) simp
  next
    case 3
    have hd: "kpage hist ?start 799 ! 0 = hist ! ?k"
      using 3(2) by (simp add: kpage_def subslice_def)
    have "t_nanos (sb_time b) < t_nanos (sb_time (hist ! ?k))" if "b \<in> set (take ?k hist)" for b
    proof -
      obtain j where j: "j < ?k" "j < length hist" "b = hist ! j" using \<open>b \<in> set (take ?k hist)\<close> by (auto simp: in_set_conv_nth)
      have "?k < length hist" using 3(2) by linarith
      then show ?thesis using assms(2) j by (simp add: bar_times_def sorted_wrt_iff_nth_less)
    qed
    then have "\<forall>b \<in> set (take ?k hist). before (sb_time b) stop"
      using 3(1,3) hd by (fastforce simp: before_def after_def hd_conv_nth)
    then show ?thesis using step 3 calls Suc.hyps(2) by (intro exI [of _ ?k] exI [of _ ?w]) simp
  next
    case 4
    have "n = 83 - Suc i" "Suc i \<le> 83" "799 * Suc i \<le> length hist" using Suc.hyps(2) 4(2) by simp_all
    from Suc.hyps(1) [OF this, of ?w]
    obtain k w' where h: "fetch_kline_range_loop cl ctx ks stop (799 * Suc i) (drop (length hist - 799 * Suc i) hist) ?w =
        (Inr (drop k hist), w')" "calls w' \<le> calls ?w + (83 - Suc i)" "\<forall>b \<in> set (take k hist). before (sb_time b) stop" by blast
    have e: "799 * Suc i = ?start + 799" "length hist - 799 * Suc i = ?k" by simp_all
    show ?thesis
      using step 4 h(1,3) h(2) calls Suc.hyps(2) unfolding e by (intro exI [of _ k] exI [of _ w']) simp
  qed
qed

lemma serves_securities:
  assumes "serves_list cl ctx market secs"
  shows "cl_stock_list cl market offset cnt w =
    (Inr (take (unat cnt) (drop (unat offset) secs)), snd (cl_stock_list cl market offset cnt w))"
  using assms by (simp add: serves_list_def prod_eq_iff)

text \<open>A page of 800 is one call.\<close>

lemma security_page:
  assumes "\<forall>w. ctx w = None"
    and "cl_stock_list cl market offset default_security_page_size w = (Inr page, w')"
  shows "fetch_security_range cl ctx market offset default_security_page_size w = (Inr page, w')"
proof -
  have z: "default_security_page_size \<noteq> 0" by (simp add: default_security_page_size_def)
  have "fetch_security_range_loop cl market default_security_page_size offset [] w = (Inr page, w')"
    by (subst fetch_security_range_loop.simps, simp only: min.idem z if_False, subst assms(2))
      (simp add: fetch_security_range_loop.simps [of cl market 0])
  then show ?thesis using assms(1) by (simp add: fetch_security_range_def)
qed

lemma u32_nat: "n < 2 ^ 32 \<Longrightarrow> unat (word_of_nat n :: u32) = n"
  by (simp add: unat_of_nat)

lemma fetch_all_loop:
  assumes "serves_list cl ctx market secs" and "length secs < 2 ^ 32 - 800"
  shows "800 * i \<le> length secs \<Longrightarrow> length secs < 800 * (i + fuel) \<Longrightarrow>
    \<exists>w'. fetch_all_securities cl ctx market fuel (word_of_nat (800 * i)) (take (800 * i) secs) w = Some (Inr secs, w')"
proof (induction fuel arbitrary: i w)
  case (Suc fuel)
  let ?o = "word_of_nat (800 * i) :: u32" and ?w = "snd (cl_stock_list cl market (word_of_nat (800 * i)) default_security_page_size w)"
  have o: "unat ?o = 800 * i" using Suc.prems(1) assms(2) by (intro u32_nat) simp
  have live: "\<forall>w. ctx w = None" using assms(1) by (simp add: serves_list_def)
  have page: "fetch_security_range cl ctx market ?o default_security_page_size w = (Inr (take 800 (drop (800 * i) secs)), ?w)"
    using security_page [OF live serves_securities [OF assms(1), of ?o default_security_page_size w]]
    by (simp only: o unat_page_size)
  have cat: "take (800 * i) secs @ take 800 (drop (800 * i) secs) = take (800 * Suc i) secs"
    by (simp add: take_add [symmetric] add.commute)
  have nxt: "?o + default_security_page_size = word_of_nat (800 * Suc i)"
    by (simp add: default_security_page_size_def)
  have step: "fetch_all_securities cl ctx market (Suc fuel) ?o (take (800 * i) secs) w =
    (if length secs - 800 * i < 800 then Some (Inr (take (800 * Suc i) secs), ?w)
     else fetch_all_securities cl ctx market fuel (word_of_nat (800 * Suc i)) (take (800 * Suc i) secs) ?w)"
    by (simp only: fetch_all_securities.simps page prod.case sum.case cat nxt unat_page_size) (simp add: min_def)
  show ?case
  proof (cases "length secs - 800 * i < 800")
    case True
    then show ?thesis using step by (intro exI [of _ ?w]) simp
  next
    case False
    then show ?thesis unfolding step using Suc.IH [of "Suc i" ?w] Suc.prems by simp
  qed
qed simp

text \<open>A client whose pages are always full.\<close>

definition always_full :: "'w client_ops \<Rightarrow> ('w \<Rightarrow> go_error option) \<Rightarrow> u8 \<Rightarrow> bool" where
  "always_full cl ctx market \<longleftrightarrow> (\<forall>w. ctx w = None) \<and>
     (\<forall>offset w. \<exists>page w'. cl_stock_list cl market offset default_security_page_size w = (Inr page, w') \<and> length page = 800)"

lemma always_full_runs:
  assumes "always_full cl ctx market"
  shows "fetch_all_securities cl ctx market fuel offset out w = None"
proof (induction fuel arbitrary: offset out w)
  case (Suc fuel)
  obtain page w' where p: "cl_stock_list cl market offset default_security_page_size w = (Inr page, w')" "length page = 800"
    using assms unfolding always_full_def by blast
  have "\<forall>w. ctx w = None" using assms by (simp add: always_full_def)
  from security_page [OF this p(1)] Suc.IH show ?case by (simp add: p(2))
qed simp

lemma subslice_map: "i \<le> j \<Longrightarrow> j \<le> length xs \<Longrightarrow> subslice i j xs = map ((!) xs) [i..<j]"
  by (rule nth_equalityI) (auto simp: subslice_def)

lemma upt_split: "i \<le> j \<Longrightarrow> j \<le> k \<Longrightarrow> [i..<j] @ [j..<k] = [i..<k]"
  using upt_add_eq_append [of i j "k - j"] by simp

text \<open>What \<open>fetchKLineRange\<close> answers, for any count of the calls.\<close>

lemma range_answer:
  assumes "serves_history cl ctx ks hist" and "sorted_wrt (<) (bar_times hist)" and "length hist \<le> 66317"
    and "\<forall>start cnt w. calls (snd (stock_kline cl ks start cnt w)) \<le> Suc (calls w)"
    and "stop = (if is_zero start_date then end_date else start_date)" and "\<not> is_zero stop"
  shows "\<exists>k w'. fetch_kline_range cl ctx ks start_date end_date w = (Inr (drop k hist), w') \<and>
    calls w' \<le> calls w + 83 \<and> (\<forall>b \<in> set hist. \<not> before (sb_time b) stop \<longrightarrow> b \<in> set (drop k hist))"
proof -
  have "length hist \<le> 83 * 799" using assms(3) by simp
  from range_loop_spec [OF assms(1,2) this assms(4), of 0 stop w]
  obtain k w' where h: "fetch_kline_range_loop cl ctx ks stop 0 [] w = (Inr (drop k hist), w')"
    "calls w' \<le> calls w + 83" "\<forall>b \<in> set (take k hist). before (sb_time b) stop" by auto
  have "b \<in> set (drop k hist)" if "b \<in> set hist" "\<not> before (sb_time b) stop" for b
    using that h(3) by (metis Un_iff append_take_drop_id set_append)
  then show ?thesis using h(1,2) assms(5,6) by (auto simp: fetch_kline_range_def Let_def)
qed

section \<open>A sample server\<close>

text \<open>It has one bar per second, a list of securities per request, and counts the calls.\<close>

definition sample_client :: "security_bar list \<Rightarrow> (u32 \<Rightarrow> u32 \<Rightarrow> vendor_security list) \<Rightarrow> nat client_ops" where
  "sample_client hist secs = \<lparr>cl_quotes_detail = (\<lambda>_ _. fail ErrNoData), cl_transaction = (\<lambda>_ _ _ _. fail ErrNoData),
     cl_full_transaction = (\<lambda>_ _. fail ErrNoData), cl_history_transaction = (\<lambda>_ _ _ _ _. fail ErrNoData),
     cl_history_full_transaction = (\<lambda>_ _ _. fail ErrNoData),
     cl_history_transaction_with_trans = (\<lambda>_ _ _ _ _. fail ErrNoData),
     cl_history_full_transaction_with_trans = (\<lambda>_ _ _. fail ErrNoData),
     cl_kline = (\<lambda>_ _ _ start cnt _ _ n. (Inr (kpage hist (unat start) (unat cnt)), Suc n)),
     cl_full_kline = (\<lambda>_ _ _ _ _ _. fail ErrNoData), cl_xdxr_info = (\<lambda>_ _. fail ErrNoData),
     cl_stock_list = (\<lambda>_ offset cnt n. (Inr (secs offset cnt), Suc n)), cl_stock_all = (\<lambda>_. fail ErrNoData),
     cl_finance_info = (\<lambda>_ _. fail ErrNoData), cl_disconnect = ret ()\<rparr>"

definition sample_security_bar :: "nat \<Rightarrow> security_bar" where
  "sample_security_bar n = \<lparr>sb_time = \<lparr>t_nanos = int (Suc n) * second, t_zone = 0\<rparr>, sb_open = 1, sb_high = 1, sb_low = 1,
     sb_close = 1, sb_vol = 1, sb_amount = 1\<rparr>"

definition sample_series :: kline_series where
  "sample_series = \<lparr>ks_category = 4, ks_market = 1, ks_code = ''600000'', ks_times = 1, ks_adjust = 0\<rparr>"

definition sample_security :: vendor_security where
  "sample_security = \<lparr>vs_code = ''600000'', vs_name = ''sample'', vs_vol_unit = AnyInt 100, vs_decimal_point = AnyInt 2, vs_pre_close = AnyInt 0\<rparr>"

lemma sample_serves: "serves_history (sample_client hist secs) (\<lambda>_. None) sample_series hist"
  by (simp add: serves_history_def stock_kline_def sample_client_def)

lemma sample_calls: "\<forall>start cnt w. id (snd (stock_kline (sample_client hist secs) sample_series start cnt w)) = Suc (id w)"
  by (simp add: stock_kline_def sample_client_def)

lemma sample_increasing: "sorted_wrt (<) (bar_times (map sample_security_bar [0..<n]))"
  by (simp add: bar_times_def sorted_wrt_map sample_security_bar_def second_def sorted_wrt_upt
      sorted_wrt_mono_rel [OF _ sorted_wrt_upt])

section \<open>Properties\<close>

text \<open>
  C20: a range of K-lines is complete, in order and bounded.  From a server that has at most 66317 bars with strictly
  increasing times and serves them by distance from the newest, \<open>fetchKLineRange\<close> with a start date (or else an end date)
  returns a final part of that history, oldest first, that contains every bar not before that date, with at most
  83 calls of \<open>StockKLine\<close>.
\<close>

theorem kline_range_complete:
  assumes "serves_history cl ctx ks hist" and "sorted_wrt (<) (bar_times hist)" and "length hist \<le> 66317"
    and "\<forall>start cnt w. calls (snd (stock_kline cl ks start cnt w)) = Suc (calls w)"
    and "stop = (if is_zero start_date then end_date else start_date)" and "\<not> is_zero stop"
  shows "\<exists>k w'. fetch_kline_range cl ctx ks start_date end_date w = (Inr (drop k hist), w') \<and>
    calls w' \<le> calls w + 83 \<and> (\<forall>b \<in> set hist. \<not> before (sb_time b) stop \<longrightarrow> b \<in> set (drop k hist))"
  using range_answer [OF assms(1-3) _ assms(5,6), of calls w] assms(4) by simp

theorem kline_range_complete_witness:
  "\<exists>k w'. fetch_kline_range (sample_client (map sample_security_bar [0..<1000]) (\<lambda>_ _. [])) (\<lambda>_. None) sample_series
      \<lparr>t_nanos = 100 * second, t_zone = 0\<rparr> zero_time 0 = (Inr (drop k (map sample_security_bar [0..<1000])), w') \<and> w' \<le> 83 \<and>
      sample_security_bar 99 \<in> set (drop k (map sample_security_bar [0..<1000]))"
proof -
  let ?h = "map sample_security_bar [0..<1000]" and ?d = "\<lparr>t_nanos = 100 * second, t_zone = 0\<rparr>"
  have a: "length ?h \<le> 66317" "?d = (if is_zero ?d then zero_time else ?d)" "\<not> is_zero ?d"
    by (simp_all add: is_zero_def second_def)
  obtain k w' where h: "fetch_kline_range (sample_client ?h (\<lambda>_ _. [])) (\<lambda>_. None) sample_series ?d zero_time 0 = (Inr (drop k ?h), w')"
    "id w' \<le> id 0 + 83" "\<forall>b \<in> set ?h. \<not> before (sb_time b) ?d \<longrightarrow> b \<in> set (drop k ?h)"
    using kline_range_complete [OF sample_serves sample_increasing a(1) sample_calls a(2,3), of "\<lambda>_ _. []" 0] by blast
  have "sample_security_bar 99 \<in> set ?h" by simp
  moreover have "\<not> before (sb_time (sample_security_bar 99)) ?d" by (simp add: sample_security_bar_def before_def)
  ultimately have "sample_security_bar 99 \<in> set (drop k ?h)" using h(3) by blast
  with h(1,2) show ?thesis by (intro exI [of _ k] exI [of _ w']) simp
qed

text \<open>
  a page of more than 799 bars is out of order.  When the server has the bars, \<open>fetchKLinePage\<close> with a
  count from 800 to 1598 returns the newest 799 of them first and the older rest behind them,
  so with strictly increasing times the last bar it returns is older than the first.  The
  default count of 800 is such a count.
\<close>

theorem kline_page_misordered:
  assumes "serves_history cl ctx ks hist" and "sorted_wrt (<) (bar_times hist)"
    and "799 < unat cnt" and "unat cnt \<le> 1598" and "unat start + unat cnt \<le> length hist" and "unat start + 799 < 65536"
  shows "\<exists>newer older. fst (fetch_kline_page cl ctx ks start cnt w) = Inr (newer @ older) \<and>
    older @ newer = kpage hist (unat start) (unat cnt) \<and> newer \<noteq> [] \<and> older \<noteq> [] \<and>
    before (sb_time (last older)) (sb_time (hd newer))"
proof -
  let ?newer = "kpage hist (unat start) 799" and ?older = "kpage hist (unat start + 799) (unat cnt - 799)"
  let ?k = "length hist - unat start - unat cnt" and ?n = "length hist - unat start"
  have c: "max_gotdx_kline_count < cnt" using assms(3) by (simp add: word_less_nat_alt)
  have r: "fst (fetch_kline_page cl ctx ks start cnt w) = Inr (?newer @ ?older)"
    using page_two [OF assms(1) c assms(4) _ assms(6)] assms(3,5) by simp
  have i: "?n - 799 - (unat cnt - 799) = ?k" "length hist - (unat start + 799) = ?n - 799"
    using assms(3,5) by simp_all
  have le: "?k < ?n - 799" "?n - 799 < ?n" "?n \<le> length hist" using assms(3,5) by auto
  have o: "?older = map ((!) hist) [?k..<?n - 799]" unfolding kpage_def i
    by (rule subslice_map) (use le in linarith)+
  have n: "?newer = map ((!) hist) [?n - 799..<?n]" unfolding kpage_def by (rule subslice_map) (use le in linarith)+
  have w: "kpage hist (unat start) (unat cnt) = map ((!) hist) [?k..<?n]"
    unfolding kpage_def by (rule subslice_map) (use le in linarith)+
  have "?older @ ?newer = kpage hist (unat start) (unat cnt)"
    unfolding o n w map_append [symmetric] using upt_split [of ?k "?n - 799" ?n] le by simp
  moreover have "last ?older = hist ! (?n - 799 - 1)" "hd ?newer = hist ! (?n - 799)"
    using le by (simp_all add: o n last_map hd_map)
  moreover have "t_nanos (sb_time (hist ! (?n - 799 - 1))) < t_nanos (sb_time (hist ! (?n - 799)))"
    using assms(2) le by (simp add: bar_times_def sorted_wrt_iff_nth_less)
  moreover have "?newer \<noteq> []" "?older \<noteq> []" using le by (simp_all add: o n)
  ultimately show ?thesis using r by (intro exI [of _ ?newer] exI [of _ ?older]) (simp add: before_def)
qed

theorem kline_page_misordered_witness:
  "\<exists>newer older. fst (fetch_kline_page (sample_client (map sample_security_bar [0..<1000]) (\<lambda>_ _. [])) (\<lambda>_. None) sample_series
      0 (normalize_kline_count 0) 0) = Inr (newer @ older) \<and> before (sb_time (last older)) (sb_time (hd newer))"
proof -
  let ?h = "map sample_security_bar [0..<1000]"
  have c: "unat (normalize_kline_count 0) = 800" by (simp add: normalize_kline_count_def default_kline_count_def)
  have a: "799 < unat (normalize_kline_count 0)" "unat (normalize_kline_count 0) \<le> 1598"
    "unat (0 :: u16) + unat (normalize_kline_count 0) \<le> length ?h" "unat (0 :: u16) + 799 < 65536"
    by (simp_all add: c)
  show ?thesis using kline_page_misordered [OF sample_serves sample_increasing a, of "\<lambda>_ _. []" 0] by blast
qed

text \<open>
  C21: listing all securities ends exactly when the server's list does.  A server that serves a list of
  fewer than \<open>2 ^ 32 - 800\<close> securities by offset gives \<open>fetchSecurities\<close> (without a count) the whole list in order,
  after at most one turn per started page; a server whose pages are always full keeps it running for ever, because nothing
  else ends the loop.
\<close>

theorem securities_listing:
  "(serves_list cl ctx market secs \<and> length secs < 2 ^ 32 - 800 \<and> length secs < 800 * fuel \<longrightarrow>
      (\<exists>w'. fetch_securities (Some cl) ctx fuel market start 0 w = Some (Inr secs, w'))) \<and>
   (always_full cl ctx market \<longrightarrow> fetch_securities (Some cl) ctx fuel market start 0 w = None)"
  using fetch_all_loop [of cl ctx market secs 0 fuel w] always_full_runs [of cl ctx market fuel 0 "[]" w]
  by (simp add: fetch_securities_def)

theorem securities_listing_witness:
  "(\<exists>w'. fetch_securities (Some (sample_client [] (\<lambda>offset cnt. take (unat cnt) (drop (unat offset) [sample_security])))) (\<lambda>_. None) 1 1 0 0 0 =
      Some (Inr [sample_security], w')) \<and>
   fetch_securities (Some (sample_client [] (\<lambda>offset cnt. replicate (unat cnt) sample_security))) (\<lambda>_. None) 100000 1 0 0 0 = None"
proof -
  have a: "serves_list (sample_client [] (\<lambda>offset cnt. take (unat cnt) (drop (unat offset) [sample_security]))) (\<lambda>_. None) 1 [sample_security]"
    by (simp add: serves_list_def sample_client_def)
  have b: "always_full (sample_client [] (\<lambda>offset cnt. replicate (unat cnt) sample_security)) (\<lambda>_. None) 1"
    by (simp add: always_full_def sample_client_def)
  have c: "length [sample_security] < 2 ^ 32 - 800" "length [sample_security] < 800 * 1" by simp_all
  show ?thesis
    using securities_listing [of "sample_client [] (\<lambda>offset cnt. take (unat cnt) (drop (unat offset) [sample_security]))" "\<lambda>_. None" 1 "[sample_security]" 1 0 0]
      securities_listing [of "sample_client [] (\<lambda>offset cnt. replicate (unat cnt) sample_security)" "\<lambda>_. None" 1 "[sample_security]" 100000 0 0] a b c
    by blast
qed

end
