(* ===== verification/Live_Ops.thy ===== *)
theory Live_Ops
  imports Live_Client Kline_Paging
begin

text \<open>
  The methods of the two live clients of \<^verbatim>\<open>internal/provider/gotdx/provider.go\<close>: every method of the vendor's
  client, run under the reconnecting call of \<open>Live_Client\<close>.  The vendor's methods are a parameter, given for each
  handle as the record of the interface \<open>Client\<close>; the result is that same record over the state that also holds
  the live client, so that the paging and the provider run on it as they run on any client.
\<close>

definition live_ops :: "('w, 'h) link \<Rightarrow> ('h \<Rightarrow> 'w client_ops) \<Rightarrow> ('w \<times> 'h live_client) client_ops" where
  "live_ops k v = \<lparr>
     cl_quotes_detail = (\<lambda>markets codes. with_live_client k ''StockQuotesDetail'' (\<lambda>h. cl_quotes_detail (v h) markets codes)),
     cl_transaction = (\<lambda>market code start cnt.
       with_live_client k ''StockTransaction'' (\<lambda>h. cl_transaction (v h) market code start cnt)),
     cl_full_transaction = (\<lambda>market code.
       with_live_client k ''StockFullTransaction'' (\<lambda>h. cl_full_transaction (v h) market code)),
     cl_history_transaction = (\<lambda>date market code start cnt.
       with_live_client k ''StockHistoryTransaction'' (\<lambda>h. cl_history_transaction (v h) date market code start cnt)),
     cl_history_full_transaction = (\<lambda>date market code.
       with_live_client k ''StockHistoryFullTransaction'' (\<lambda>h. cl_history_full_transaction (v h) date market code)),
     cl_history_transaction_with_trans = (\<lambda>date market code start cnt.
       with_live_client k ''StockHistoryTransactionWithTrans''
         (\<lambda>h. cl_history_transaction_with_trans (v h) date market code start cnt)),
     cl_history_full_transaction_with_trans = (\<lambda>date market code.
       with_live_client k ''StockHistoryFullTransactionWithTrans''
         (\<lambda>h. cl_history_full_transaction_with_trans (v h) date market code)),
     cl_kline = (\<lambda>category market code start cnt times adjust.
       with_live_client k ''StockKLine'' (\<lambda>h. cl_kline (v h) category market code start cnt times adjust)),
     cl_full_kline = (\<lambda>category market code times adjust f.
       with_live_client k ''StockFullKLine'' (\<lambda>h. cl_full_kline (v h) category market code times adjust f)),
     cl_xdxr_info = (\<lambda>market code. with_live_client k ''GetXDXRInfo'' (\<lambda>h. cl_xdxr_info (v h) market code)),
     cl_stock_list = (\<lambda>market start cnt. with_live_client k ''StockList'' (\<lambda>h. cl_stock_list (v h) market start cnt)),
     cl_stock_all = (\<lambda>market. with_live_client k ''StockAll'' (\<lambda>h. cl_stock_all (v h) market)),
     cl_finance_info = (\<lambda>market code. with_live_client k ''GetFinanceInfo'' (\<lambda>h. cl_finance_info (v h) market code)),
     cl_disconnect = disconnect k\<rparr>"

definition live_mac_server_info ::
  "(string \<Rightarrow> int \<Rightarrow> ('w, 'h) op) \<Rightarrow> ('h \<Rightarrow> ('w, unit) op) \<Rightarrow> ('h \<Rightarrow> ('w, 'a) op) \<Rightarrow> ('w, 'h, 'a) live_op" where
  "live_mac_server_info conn disc info = with_live_mac_client conn disc ''MACServerInfo'' info"

end
