(* ===== verification/Gotdx_Provider.thy ===== *)
theory Gotdx_Provider
  imports Kline_Paging Live_Ops Go_Date
begin

text \<open>
  \<open>Provider\<close> of \<^verbatim>\<open>internal/provider/gotdx/provider.go\<close> and \<^verbatim>\<open>trading_day.go\<close>: each request translates its
  arguments, leases a client from the pool of its class, calls it, reports the outcome, gives the lease back and
  translates the answer.  The pools are used through the methods of \<open>source.Pool\<close> and \<open>source.Lease\<close>
  (their own model is \<open>Source_Pool\<close>).
\<close>

section \<open>Pools and leases\<close>

text \<open>\<open>pi_id\<close> is the pointer of the pool; the client is \<open>lease.Client\<close>, a parameter of the lease.\<close>

record ('w, 'l, 'c) pool_iface =
  pi_id :: nat
  pi_acquire :: "('w, 'l) op"
  pi_client :: "'l \<Rightarrow> 'c"
  pi_report_success :: "'l \<Rightarrow> ('w, unit) op"
  pi_report_failure :: "'l \<Rightarrow> go_error \<Rightarrow> ('w, unit) op"
  pi_release :: "'l \<Rightarrow> ('w, unit) op"
  pi_close :: "('w, unit) op"

text \<open>The reply of \<open>MACServerInfo\<close> and its sessions: the fields the adapter reads.\<close>

record mac_session =
  mc_open_minutes :: u16
  mc_close_minutes :: u16
  mc_open :: string
  mc_close :: string

record mac_reply =
  mr_today :: string
  mr_last_trading_day :: string
  mr_last_trading_day2 :: string
  mr_sessions1 :: "mac_session list"
  mr_sessions2 :: "mac_session list"

text \<open>
  The provider.  The pools that are \<open>nil\<close> are \<open>None\<close>; \<open>gp_clock\<close> is the field \<open>clock\<close>.  The last fields are the request's
  surroundings: \<open>ctx.Err()\<close>, \<open>time.Now\<close>, the offset of \<open>time.Local\<close>, the vendor's constants, and the turns that the one
  loop without a bound is followed for.
\<close>

record ('w, 'l) gotdx_provider =
  gp_quote_pool :: "('w, 'l, 'w client_ops) pool_iface option"
  gp_tick_pool :: "('w, 'l, 'w client_ops) pool_iface option"
  gp_history_pool :: "('w, 'l, 'w client_ops) pool_iface option"
  gp_kline_pool :: "('w, 'l, 'w client_ops) pool_iface option"
  gp_adjust_pool :: "('w, 'l, 'w client_ops) pool_iface option"
  gp_static_pool :: "('w, 'l, 'w client_ops) pool_iface option"
  gp_mac_pool :: "('w, 'l, ('w, mac_reply option) op) pool_iface option"
  gp_clock :: "('w \<Rightarrow> gotime) option"
  gp_ctx_err :: "'w \<Rightarrow> go_error option"
  gp_time_now :: "'w \<Rightarrow> gotime"
  gp_local :: int
  gp_types :: gotdx_types
  gp_fuel :: nat

text \<open>\<open>NewProvider\<close> and its options.  The surroundings of the request come with the record that is filled in.\<close>

type_synonym ('w, 'l) provider_option = "('w, 'l) gotdx_provider \<Rightarrow> ('w, 'l) gotdx_provider"

definition with_tick_pool :: "('w, 'l, 'w client_ops) pool_iface option \<Rightarrow> ('w, 'l) provider_option" where
  "with_tick_pool pool p = p\<lparr>gp_tick_pool := pool\<rparr>"

definition with_history_pool :: "('w, 'l, 'w client_ops) pool_iface option \<Rightarrow> ('w, 'l) provider_option" where
  "with_history_pool pool p = p\<lparr>gp_history_pool := pool\<rparr>"

definition with_kline_pool :: "('w, 'l, 'w client_ops) pool_iface option \<Rightarrow> ('w, 'l) provider_option" where
  "with_kline_pool pool p = p\<lparr>gp_kline_pool := pool\<rparr>"

definition with_adjust_pool :: "('w, 'l, 'w client_ops) pool_iface option \<Rightarrow> ('w, 'l) provider_option" where
  "with_adjust_pool pool p = p\<lparr>gp_adjust_pool := pool\<rparr>"

definition with_static_pool :: "('w, 'l, 'w client_ops) pool_iface option \<Rightarrow> ('w, 'l) provider_option" where
  "with_static_pool pool p = p\<lparr>gp_static_pool := pool\<rparr>"

definition with_mac_pool :: "('w, 'l, ('w, mac_reply option) op) pool_iface option \<Rightarrow> ('w, 'l) provider_option" where
  "with_mac_pool pool p = p\<lparr>gp_mac_pool := pool\<rparr>"

definition with_clock :: "('w \<Rightarrow> gotime) option \<Rightarrow> ('w, 'l) provider_option" where
  "with_clock clock p = (case clock of None \<Rightarrow> p | Some f \<Rightarrow> p\<lparr>gp_clock := Some f\<rparr>)"

definition new_provider :: "('w, 'l) gotdx_provider \<Rightarrow> ('w, 'l, 'w client_ops) pool_iface option \<Rightarrow>
    ('w, 'l) provider_option list \<Rightarrow> ('w, 'l) gotdx_provider" where
  "new_provider env quote_pool opts = fold (\<lambda>opt p. opt p) opts
     (env\<lparr>gp_quote_pool := quote_pool, gp_tick_pool := None, gp_history_pool := None, gp_kline_pool := None,
        gp_adjust_pool := None, gp_static_pool := None, gp_mac_pool := None, gp_clock := Some (gp_time_now env)\<rparr>)"

definition provider_now :: "('w, 'l) gotdx_provider \<Rightarrow> 'w \<Rightarrow> gotime" where
  "provider_now p w = (case gp_clock p of None \<Rightarrow> gp_time_now p w | Some f \<Rightarrow> f w)"

definition pick_pool :: "('w, 'l) gotdx_provider \<Rightarrow> ('w, 'l, 'w client_ops) pool_iface option \<Rightarrow>
    ('w, 'l, 'w client_ops) pool_iface option" where
  "pick_pool p pool = (case pool of None \<Rightarrow> gp_quote_pool p | Some q \<Rightarrow> Some q)"

definition acquire :: "('w, 'l, 'c) pool_iface option \<Rightarrow> ('w, 'l) op" where
  "acquire pool = (case pool of None \<Rightarrow> fail ErrUpstreamUnavailable | Some q \<Rightarrow> pi_acquire q)"

text \<open>
  What every request does with the outcome of its call: it reports it (a panic is not reported), answers, and the
  deferred \<open>Release\<close> gives the lease back.  The answer is translated between report and release, in the state \<open>w2\<close>.
\<close>

definition finish_lease :: "('w, 'l, 'c) pool_iface \<Rightarrow> 'l \<Rightarrow> ('a \<Rightarrow> 'w \<Rightarrow> 'b result) \<Rightarrow> 'a result \<times> 'w \<Rightarrow> 'b result \<times> 'w" where
  "finish_lease q l conv outcome =
     (case outcome of (r, w1) \<Rightarrow>
        (case r of
           Inl e \<Rightarrow> if is_panic e then bnd (ignore_err (pi_release q l)) (\<lambda>_. fail e) w1
             else bnd (ignore_err (pi_report_failure q l e)) (\<lambda>_. bnd (ignore_err (pi_release q l)) (\<lambda>_. fail e)) w1
         | Inr x \<Rightarrow> bnd (ignore_err (pi_report_success q l))
             (\<lambda>_ w2. bnd (ignore_err (pi_release q l)) (\<lambda>_. lift_result (conv x w2)) w2) w1))"

definition with_lease :: "('w, 'l, 'c) pool_iface option \<Rightarrow> ('c \<Rightarrow> ('w, 'a) op) \<Rightarrow> ('a \<Rightarrow> 'w \<Rightarrow> 'b result) \<Rightarrow> ('w, 'b) op" where
  "with_lease pool call conv =
     (case pool of None \<Rightarrow> fail ErrUpstreamUnavailable
      | Some q \<Rightarrow> bnd (pi_acquire q) (\<lambda>l w. finish_lease q l conv (call (pi_client q l) w)))"

section \<open>Requests\<close>

text \<open>\<open>symbolsToGotdx\<close>: the markets and codes, or the first error.\<close>

definition symbol_to_gotdx :: "gotdx_types \<Rightarrow> symbol \<Rightarrow> (u8 \<times> string) result" where
  "symbol_to_gotdx g sy =
     (case validate_symbol sy of Some e \<Rightarrow> Inl e
      | None \<Rightarrow> (case market_to_gotdx g (s_market sy) of Inl e \<Rightarrow> Inl e | Inr m \<Rightarrow> Inr (m, s_code sy)))"

definition symbols_to_gotdx :: "gotdx_types \<Rightarrow> symbol list \<Rightarrow> (u8 list \<times> string list) result" where
  "symbols_to_gotdx g ss =
     (if ss = [] then Inl ErrInvalidRequest
      else case collect (symbol_to_gotdx g) ss of Inl e \<Rightarrow> Inl e | Inr ps \<Rightarrow> Inr (map fst ps, map snd ps))"

text \<open>\<open>yyyymmdd\<close>: the scan of a date that is not eight digits of a \<open>uint32\<close> leaves 0.\<close>

definition yyyymmdd :: "gotime \<Rightarrow> u32" where
  "yyyymmdd t = (if is_zero t then 0 else case parse_uint 32 (format_compact t) of None \<Rightarrow> 0 | Some n \<Rightarrow> word_of_nat n)"

definition provider_get_quotes :: "('w, 'l) gotdx_provider \<Rightarrow> symbol list \<Rightarrow> ('w, quote list) op" where
  "provider_get_quotes p symbols = bnd (lift_result (symbols_to_gotdx (gp_types p) symbols)) (\<lambda>(markets, codes).
     with_lease (gp_quote_pool p) (\<lambda>c. cl_quotes_detail c markets codes)
       (\<lambda>items w. Inr (map (\<lambda>item. quote_to_domain (gp_types p) item (provider_now p w)) items)))"

definition provider_get_order_book :: "('w, 'l) gotdx_provider \<Rightarrow> symbol list \<Rightarrow> ('w, order_book list) op" where
  "provider_get_order_book p symbols = bnd (lift_result (symbols_to_gotdx (gp_types p) symbols)) (\<lambda>(markets, codes).
     with_lease (gp_quote_pool p) (\<lambda>c. cl_quotes_detail c markets codes)
       (\<lambda>items w. Inr (map (\<lambda>item. quote_to_order_book (gp_types p) item (provider_now p w)) items)))"

definition indexed :: "(int \<Rightarrow> 'a \<Rightarrow> 'b) \<Rightarrow> 'a list \<Rightarrow> 'b list" where
  "indexed f items = map (\<lambda>(i, item). f (int i) item) (enumerate 0 items)"

definition tick_count :: "u16 \<Rightarrow> u16" where
  "tick_count cnt = (if cnt = 0 then 600 else cnt)"

definition provider_get_ticks :: "('w, 'l) gotdx_provider \<Rightarrow> symbol \<Rightarrow> tick_request \<Rightarrow> ('w, tick list) op" where
  "provider_get_ticks p sy req = bnd (lift_result (market_to_gotdx (gp_types p) (s_market sy))) (\<lambda>market.
     with_lease (pick_pool p (gp_tick_pool p))
       (\<lambda>c. if tr_full req then cl_full_transaction c market (s_code sy)
            else cl_transaction c market (s_code sy) (tr_start req) (tick_count (tr_count req)))
       (\<lambda>items w. Inr (indexed (\<lambda>i item. transaction_to_domain (gp_time_now p w) sy item i (provider_now p w)) items)))"

definition provider_get_history_ticks :: "('w, 'l) gotdx_provider \<Rightarrow> symbol \<Rightarrow> history_tick_request \<Rightarrow> ('w, tick list) op" where
  "provider_get_history_ticks p sy req = bnd (lift_result (market_to_gotdx (gp_types p) (s_market sy))) (\<lambda>market.
     let date = yyyymmdd (ht_trade_date req); code = s_code sy; cnt = tick_count (ht_count req) in
     if date = 0 then fail ErrInvalidRequest
     else with_lease (pick_pool p (gp_history_pool p))
       (\<lambda>c. if ht_with_flag req
            then (if ht_full req then cl_history_full_transaction_with_trans c date market code
                  else cl_history_transaction_with_trans c date market code (ht_start req) cnt)
            else (if ht_full req then cl_history_full_transaction c date market code
                  else cl_history_transaction c date market code (ht_start req) cnt))
       (\<lambda>items w. Inr (indexed (\<lambda>i item. if ht_with_flag req
          then history_transaction_with_trans_to_domain sy item i else history_transaction_to_domain sy item i) items)))"

definition provider_get_xdxr :: "('w, 'l) gotdx_provider \<Rightarrow> symbol \<Rightarrow> ('w, xdxr_event list) op" where
  "provider_get_xdxr p sy = bnd (lift_result (market_to_gotdx (gp_types p) (s_market sy))) (\<lambda>market.
     with_lease (pick_pool p (gp_adjust_pool p)) (\<lambda>c. cl_xdxr_info c market (s_code sy))
       (\<lambda>reply w. case reply of None \<Rightarrow> Inl (GoPanic ''nil reply'') | Some items \<Rightarrow> Inr (map (xdxr_to_domain sy) items)))"

definition provider_get_finance :: "('w, 'l) gotdx_provider \<Rightarrow> symbol \<Rightarrow> ('w, finance_info option) op" where
  "provider_get_finance p sy = bnd (lift_result (market_to_gotdx (gp_types p) (s_market sy))) (\<lambda>market.
     with_lease (pick_pool p (gp_static_pool p)) (\<lambda>c. cl_finance_info c market (s_code sy))
       (\<lambda>reply w. Inr (finance_to_domain sy reply)))"

text \<open>The loop over the markets, under the fuel of the listing of one market.\<close>

fun list_markets :: "('w, 'l) gotdx_provider \<Rightarrow> 'w client_ops \<Rightarrow> u32 \<Rightarrow> u32 \<Rightarrow> string list \<Rightarrow> security_info list \<Rightarrow> 'w \<Rightarrow>
    (security_info list result \<times> 'w) option" where
  "list_markets p c start cnt [] out w = Some (Inr out, w)"
| "list_markets p c start cnt (m # ms) out w =
     (case market_to_gotdx (gp_types p) m of
        Inl e \<Rightarrow> Some (Inl e, w)
      | Inr market \<Rightarrow>
          (case fetch_securities (Some c) (gp_ctx_err p) (gp_fuel p) market start cnt w of
             None \<Rightarrow> None
           | Some (Inl e, w') \<Rightarrow> Some (Inl e, w')
           | Some (Inr items, w') \<Rightarrow> list_markets p c start cnt ms (out @ map (security_to_domain m) items) w'))"

definition provider_get_security_info ::
  "('w, 'l) gotdx_provider \<Rightarrow> security_query \<Rightarrow> 'w \<Rightarrow> (security_info list result \<times> 'w) option" where
  "provider_get_security_info p req w =
     (let markets = (if sq_markets req = [] then [MarketSH, MarketSZ, MarketBJ] else sq_markets req) in
      case pick_pool p (gp_static_pool p) of
        None \<Rightarrow> Some (Inl ErrUpstreamUnavailable, w)
      | Some q \<Rightarrow>
          (case pi_acquire q w of
             (Inl e, w1) \<Rightarrow> Some (Inl e, w1)
           | (Inr l, w1) \<Rightarrow> map_option (finish_lease q l (\<lambda>items w. Inr items))
               (list_markets p (pi_client q l) (sq_start req) (sq_count req) markets [] w1)))"

definition slice_domain_bars_by_start_count :: "bar list \<Rightarrow> u16 \<Rightarrow> u16 \<Rightarrow> bar list" where
  "slice_domain_bars_by_start_count bars start cnt =
     (if bars = [] then bars
      else let from = unat start in
        if length bars < from then []
        else let to = (if 0 < cnt \<and> from + unat cnt < length bars then from + unat cnt else length bars)
             in subslice from to bars)"

definition keep_item :: "gotime \<Rightarrow> gotime \<Rightarrow> security_bar \<Rightarrow> bool" where
  "keep_item start_date end_date item \<longleftrightarrow>
     \<not> (\<not> is_zero start_date \<and> before (sb_time item) start_date) \<and>
     \<not> (\<not> is_zero end_date \<and> after (sb_time item) end_date)"

definition provider_get_bars :: "('w, 'l) gotdx_provider \<Rightarrow> symbol \<Rightarrow> kline_request \<Rightarrow> string \<Rightarrow> ('w, bar list) op" where
  "provider_get_bars p sy req adjust =
     bnd (lift_result (market_to_gotdx (gp_types p) (s_market sy))) (\<lambda>market.
     bnd (lift_result (period_to_gotdx (gp_types p) (k_period req))) (\<lambda>category.
     bnd (lift_result (adjust_to_gotdx (gp_types p) adjust)) (\<lambda>adjust_value.
     let ks = \<lparr>ks_category = category, ks_market = market, ks_code = s_code sy, ks_times = k_times req, ks_adjust = adjust_value\<rparr>;
         start_date = normalize_date (k_start_date req)
     in with_lease (pick_pool p (gp_kline_pool p))
          (\<lambda>c. if is_zero (k_start_date req) \<and> is_zero (k_end_date req)
               then fetch_kline_page c (gp_ctx_err p) ks (k_start req) (normalize_kline_count (k_count req))
               else fetch_kline_range c (gp_ctx_err p) ks start_date (normalize_date (k_end_date req)))
          (\<lambda>items w. Inr (slice_domain_bars_by_start_count
             (map (bar_to_domain sy (k_period req) adjust) (filter (keep_item start_date (k_end_date req)) items))
             (k_start req) (k_count req))))))"

definition provider_get_kline :: "('w, 'l) gotdx_provider \<Rightarrow> symbol \<Rightarrow> kline_request \<Rightarrow> ('w, bar list) op" where
  "provider_get_kline p sy req = provider_get_bars p sy req AdjustNone"

definition provider_get_adjusted_kline :: "('w, 'l) gotdx_provider \<Rightarrow> symbol \<Rightarrow> kline_request \<Rightarrow> string \<Rightarrow> ('w, bar list) op" where
  "provider_get_adjusted_kline p sy req adjust = provider_get_bars p sy req adjust"

text \<open>\<open>Close\<close> closes each pool once, whatever fields share it, and keeps the first error.\<close>

fun close_all :: "('w, 'l, 'c) pool_iface option list \<Rightarrow> nat list \<Rightarrow> go_error option \<Rightarrow> ('w, go_error option) op" where
  "close_all [] seen err = ret err"
| "close_all (None # pools) seen err = close_all pools seen err"
| "close_all (Some q # pools) seen err =
     (if pi_id q \<in> set seen then close_all pools seen err
      else catch (pi_close q)
        (\<lambda>e. close_all pools (seen @ [pi_id q]) (if err = None then Some e else err))
        (\<lambda>_. close_all pools (seen @ [pi_id q]) err))"

definition provider_close :: "('w, 'l) gotdx_provider \<Rightarrow> ('w, unit) op" where
  "provider_close p =
     bnd (close_all [gp_quote_pool p, gp_tick_pool p, gp_history_pool p, gp_kline_pool p, gp_adjust_pool p, gp_static_pool p] [] None)
       (\<lambda>err. bnd (close_all [gp_mac_pool p] [] err) (\<lambda>err'. case err' of None \<Rightarrow> ret () | Some e \<Rightarrow> fail e))"

section \<open>The trading calendar\<close>

text \<open>The text of the error does not repeat the raw date and the parser's own message.\<close>

definition parse_optional_mac_date :: "int \<Rightarrow> string \<Rightarrow> string \<Rightarrow> gotime result" where
  "parse_optional_mac_date zone raw field =
     (if raw = [] \<or> raw = ''0000-00-00'' then Inr zero_time
      else case parse_dashed zone raw of
        None \<Rightarrow> Inl (Wrapped ErrUpstreamUnavailable (''parse MAC server '' @ field))
      | Some t \<Rightarrow> Inr t)"

definition parse_mac_date :: "int \<Rightarrow> string \<Rightarrow> string \<Rightarrow> gotime result" where
  "parse_mac_date zone raw field =
     (case parse_optional_mac_date zone raw field of
        Inl e \<Rightarrow> Inl e
      | Inr t \<Rightarrow> if is_zero t then Inl (Wrapped ErrUpstreamUnavailable (''empty MAC server '' @ field)) else Inr t)"

definition same_date :: "gotime \<Rightarrow> gotime \<Rightarrow> bool" where
  "same_date s t \<longleftrightarrow> civil (local_day s) = civil (local_day t)"

fun map_mac_sessions_loop :: "mac_session list \<Rightarrow> (u16 \<times> u16) list \<Rightarrow> trading_session list \<Rightarrow> trading_session list" where
  "map_mac_sessions_loop [] seen out = out"
| "map_mac_sessions_loop (item # items) seen out =
     (let key = (mc_open_minutes item, mc_close_minutes item) in
      if mc_close_minutes item \<le> mc_open_minutes item \<or> key \<in> set seen then map_mac_sessions_loop items seen out
      else map_mac_sessions_loop items (seen @ [key])
        (out @ [\<lparr>ts_open_minutes = mc_open_minutes item, ts_close_minutes = mc_close_minutes item,
           ts_open = mc_open item, ts_close = mc_close item\<rparr>]))"

definition map_mac_sessions :: "mac_session list \<Rightarrow> trading_session list" where
  "map_mac_sessions items = map_mac_sessions_loop items [] []"

definition trading_day_to_domain :: "int \<Rightarrow> mac_reply option \<Rightarrow> gotime \<Rightarrow> trading_day_info result" where
  "trading_day_to_domain zone reply source_time =
     (case reply of None \<Rightarrow> Inl (Wrapped ErrUpstreamUnavailable ''empty MAC server info'')
      | Some r \<Rightarrow>
     (case parse_mac_date zone (mr_today r) ''today'' of Inl e \<Rightarrow> Inl e
      | Inr today \<Rightarrow>
     (case parse_mac_date zone (mr_last_trading_day r) ''last_trading_day'' of Inl e \<Rightarrow> Inl e
      | Inr latest \<Rightarrow>
     (case parse_optional_mac_date zone (mr_last_trading_day2 r) ''last_trading_day_2'' of Inl e \<Rightarrow> Inl e
      | Inr second_latest \<Rightarrow>
          let trading = same_date today latest;
              (previous, previous_string) =
                (if trading \<and> \<not> is_zero second_latest \<and> before second_latest today then (second_latest, mr_last_trading_day2 r)
                 else if \<not> trading then (latest, mr_last_trading_day r) else (zero_time, []))
          in Inr \<lparr>td_today = today, td_today_string = mr_today r, td_is_trading = trading, td_latest = latest,
               td_latest_string = mr_last_trading_day r, td_previous = previous, td_previous_string = previous_string,
               td_sessions = map_mac_sessions (mr_sessions1 r), td_alt_sessions = map_mac_sessions (mr_sessions2 r),
               td_source_time = source_time, td_cached = False\<rparr>))))"

definition previous_trading_day_before :: "gotime \<Rightarrow> gotime \<Rightarrow> bool" where
  "previous_trading_day_before previous today \<longleftrightarrow> \<not> is_zero previous \<and> before (normalize_date previous) (normalize_date today)"

fun previous_day_loop :: "gotime \<Rightarrow> bar list \<Rightarrow> gotime \<Rightarrow> gotime" where
  "previous_day_loop latest [] previous = previous"
| "previous_day_loop latest (b # bs) previous =
     (let day = normalize_date (b_time b) in
      if is_zero day \<or> \<not> before day (normalize_date latest) then previous_day_loop latest bs previous
      else if is_zero previous \<or> after day previous then previous_day_loop latest bs day
      else previous_day_loop latest bs previous)"

definition previous_trading_day_from_bars :: "gotime \<Rightarrow> bar list \<Rightarrow> gotime option" where
  "previous_trading_day_from_bars latest bars =
     (let previous = previous_day_loop latest bars zero_time in if is_zero previous then None else Some previous)"

definition trading_day_calendar_symbols :: "symbol list" where
  "trading_day_calendar_symbols = [mk_symbol MarketSH ''600000'', mk_symbol MarketSZ ''000001'', mk_symbol MarketSH ''600519'']"

definition calendar_request :: kline_request where
  "calendar_request = \<lparr>k_period = PeriodDay, k_start = 0, k_count = 30, k_times = 0, k_start_date = zero_time,
     k_end_date = zero_time, k_force = False\<rparr>"

fun infer_previous_loop :: "(symbol \<Rightarrow> kline_request \<Rightarrow> ('w, bar list) op) \<Rightarrow> gotime \<Rightarrow> symbol list \<Rightarrow> ('w, gotime option) op" where
  "infer_previous_loop get latest [] = ret None"
| "infer_previous_loop get latest (s # ss) =
     catch (get s calendar_request) (\<lambda>e. infer_previous_loop get latest ss)
       (\<lambda>bars. case previous_trading_day_from_bars latest bars of
          Some previous \<Rightarrow> ret (Some previous) | None \<Rightarrow> infer_previous_loop get latest ss)"

definition infer_previous_trading_day_from_kline :: "('w, 'l) gotdx_provider \<Rightarrow> gotime \<Rightarrow> ('w, gotime option) op" where
  "infer_previous_trading_day_from_kline p latest = infer_previous_loop (provider_get_kline p) latest trading_day_calendar_symbols"

definition enrich_previous_trading_day :: "('w, 'l) gotdx_provider \<Rightarrow> trading_day_info \<Rightarrow> ('w, trading_day_info) op" where
  "enrich_previous_trading_day p info =
     (if \<not> td_is_trading info \<or> previous_trading_day_before (td_previous info) (td_today info) then ret info
      else bnd (infer_previous_trading_day_from_kline p (td_today info)) (\<lambda>found.
        case found of None \<Rightarrow> ret info
        | Some previous \<Rightarrow> ret (info\<lparr>td_previous := previous, td_previous_string := format_dashed previous\<rparr>)))"

text \<open>The lease is held until the enrichment is done; its outcome was reported before.\<close>

definition provider_get_trading_day :: "('w, 'l) gotdx_provider \<Rightarrow> ('w, trading_day_info option) op" where
  "provider_get_trading_day p =
     (case gp_mac_pool p of None \<Rightarrow> fail ErrUpstreamUnavailable
      | Some q \<Rightarrow> bnd (pi_acquire q) (\<lambda>l w.
          case pi_client q l w of
            (Inl e, w1) \<Rightarrow> finish_lease q l (\<lambda>(x :: mac_reply option) w. Inr None) (Inl e, w1)
          | (Inr reply, w1) \<Rightarrow>
              bnd (ignore_err (pi_report_success q l)) (\<lambda>_ w2.
                (case bnd (lift_result (trading_day_to_domain (gp_local p) reply (provider_now p w2)))
                        (enrich_previous_trading_day p) w2 of
                   (Inl e, w3) \<Rightarrow> bnd (ignore_err (pi_release q l)) (\<lambda>_. fail e) w3
                 | (Inr info, w3) \<Rightarrow> bnd (ignore_err (pi_release q l)) (\<lambda>_. ret (Some info)) w3)) w1))"

end
