(* ===== verification/Provider_Contract.thy ===== *)
theory Provider_Contract
  imports Gotdx_Provider
begin

text \<open>
  What the provider's requests owe their pools, and what they answer: every lease is given back and reported on
  once, a range of K-lines is exactly the server's, and the trading calendar names a previous day before today.
\<close>

section \<open>The books of the pools\<close>

text \<open>
  The books count the leases given out and the reports made, and hold the leases that are out; \<open>bk_ok\<close> is what the
  pools keep invariant.  Acquiring takes a new lease out or fails, reporting on a lease that is out counts, releasing brings it
  back, and none of them panics.
\<close>

record ('w, 'l) lease_book =
  bk_ok :: "'w \<Rightarrow> bool"
  bk_held :: "'w \<Rightarrow> 'l set"
  bk_taken :: "'w \<Rightarrow> nat"
  bk_reports :: "'w \<Rightarrow> nat"

definition silent :: "'a result \<Rightarrow> bool" where
  "silent r \<longleftrightarrow> (case r of Inl e \<Rightarrow> \<not> is_panic e | Inr x \<Rightarrow> True)"

definition acquire_law :: "('w, 'l) lease_book \<Rightarrow> 'w \<Rightarrow> 'l result \<times> 'w \<Rightarrow> bool" where
  "acquire_law b w = (\<lambda>(r, w'). bk_ok b w' \<and> bk_reports b w' = bk_reports b w \<and>
     (case r of
        Inr l \<Rightarrow> l \<notin> bk_held b w \<and> bk_held b w' = insert l (bk_held b w) \<and> bk_taken b w' = Suc (bk_taken b w)
      | Inl e \<Rightarrow> bk_held b w' = bk_held b w \<and> bk_taken b w' = bk_taken b w))"

definition move_law :: "('w, 'l) lease_book \<Rightarrow> 'l set \<Rightarrow> nat \<Rightarrow> 'w \<Rightarrow> unit result \<times> 'w \<Rightarrow> bool" where
  "move_law b back n w = (\<lambda>(r, w'). silent r \<and> bk_ok b w' \<and> bk_held b w' = bk_held b w - back \<and>
     bk_taken b w' = bk_taken b w \<and> bk_reports b w' = bk_reports b w + n)"

definition lease_laws :: "('w, 'l, 'c) pool_iface \<Rightarrow> ('w, 'l) lease_book \<Rightarrow> bool" where
  "lease_laws q b \<longleftrightarrow> (\<forall>w. bk_ok b w \<longrightarrow> acquire_law b w (pi_acquire q w) \<and>
     (\<forall>l e. l \<in> bk_held b w \<longrightarrow> move_law b {} 1 w (pi_report_success q l w) \<and>
        move_law b {} 1 w (pi_report_failure q l e w) \<and> move_law b {l} 0 w (pi_release q l w)))"

text \<open>An operation settles its books: it gives back what it took, and unless it panics it made one report per lease.\<close>

definition settled :: "('w, 'l) lease_book \<Rightarrow> 'w \<Rightarrow> 'a result \<times> 'w \<Rightarrow> bool" where
  "settled b w = (\<lambda>(r, w'). bk_ok b w' \<and> bk_held b w' = bk_held b w \<and>
     (silent r \<longrightarrow> bk_reports b w' + bk_taken b w = bk_reports b w + bk_taken b w'))"

definition settles :: "('w, 'l) lease_book \<Rightarrow> ('w, 'a) op \<Rightarrow> bool" where
  "settles b m \<longleftrightarrow> (\<forall>w. bk_ok b w \<longrightarrow> settled b w (m w))"

lemma settled_trans:
  "settled b w (Inr x, w') \<Longrightarrow> settled b w' out \<Longrightarrow> settled b w out"
  by (auto simp: settled_def silent_def)

lemma settles_ret [intro, simp]: "settles b (ret x)" "settles b (fail e)" "settles b (lift_result r)"
  by (auto simp: settles_def settled_def op_defs)

lemma settlesD: "settles b m \<Longrightarrow> bk_ok b w \<Longrightarrow> settled b w (m w)"
  by (simp add: settles_def)

lemma settled_ok: "settled b w (r, w') \<Longrightarrow> bk_ok b w'"
  by (simp add: settled_def)

lemma settles_bnd [intro]:
  assumes "settles b m" and "\<And>x. settles b (f x)"
  shows "settles b (bnd m f)"
  unfolding settles_def
proof (intro allI impI)
  fix w assume ok: "bk_ok b w"
  obtain r w' where m: "m w = (r, w')" by force
  have s: "settled b w (r, w')" using settlesD [OF assms(1) ok] m by simp
  show "settled b w (bnd m f w)"
  proof (cases r)
    case (Inl e)
    then show ?thesis using s m by (auto simp: bnd_def settled_def silent_def)
  next
    case (Inr x)
    then show ?thesis
      using settled_trans [of b w x w' "f x w'"] s m settlesD [OF assms(2) settled_ok [OF s], of x] by (simp add: bnd_def)
  qed
qed

lemma settles_catch [intro]:
  assumes "settles b m" and "\<And>e. settles b (h e)" and "\<And>x. settles b (f x)"
  shows "settles b (catch m h f)"
  unfolding settles_def
proof (intro allI impI)
  fix w assume ok: "bk_ok b w"
  obtain r w' where m: "m w = (r, w')" by force
  have s: "settled b w (r, w')" using settlesD [OF assms(1) ok] m by simp
  note next_h = settlesD [OF assms(2) settled_ok [OF s]] and next_f = settlesD [OF assms(3) settled_ok [OF s]]
  show "settled b w (catch m h f w)"
  proof (cases r)
    case (Inl e)
    then show ?thesis
      using s m next_h [of e] by (auto simp: catch_def settled_def silent_def split: prod.splits)
  next
    case (Inr x)
    then show ?thesis
      using settled_trans [of b w x w' "f x w'"] s m next_f [of x] by (simp add: catch_def)
  qed
qed

section \<open>One lease\<close>

lemma ignore_move:
  assumes "move_law b back n w (m w)"
  shows "\<exists>w'. ignore_err m w = (Inr (), w') \<and> bk_ok b w' \<and> bk_held b w' = bk_held b w - back \<and>
    bk_taken b w' = bk_taken b w \<and> bk_reports b w' = bk_reports b w + n"
  using assms by (cases "m w"; cases "fst (m w)") (auto simp: move_law_def silent_def ignore_err_def)

text \<open>A lease that is out and settled up to its own report and return.\<close>

lemma finish_lease_settled:
  assumes laws: "lease_laws q b" and ok: "bk_ok b w" and out: "l \<notin> bk_held b w0" "bk_held b w = insert l (bk_held b w0)"
    and n: "bk_taken b w = Suc (bk_taken b w0)" "bk_reports b w = bk_reports b w0"
    and call: "settled b w (r, w1)"
  shows "settled b w0 (finish_lease q l conv (r, w1))"
proof -
  have ok1: "bk_ok b w1" and held1: "bk_held b w1 = insert l (bk_held b w0)"
    and even: "silent r \<longrightarrow> bk_reports b w1 + Suc (bk_taken b w0) = bk_reports b w0 + bk_taken b w1"
    using call out(2) n by (auto simp: settled_def)
  have release: "\<exists>w3. ignore_err (pi_release q l) w2 = (Inr (), w3) \<and> bk_ok b w3 \<and> bk_held b w3 = bk_held b w0 \<and>
      bk_taken b w3 = bk_taken b w2 \<and> bk_reports b w3 = bk_reports b w2"
    if "bk_ok b w2" "bk_held b w2 = insert l (bk_held b w0)" for w2
  proof -
    have "move_law b {l} 0 w2 (pi_release q l w2)" using laws that by (simp add: lease_laws_def)
    from ignore_move [of b "{l}" 0 w2 "pi_release q l", OF this] show ?thesis using that(2) out(1) by auto
  qed
  have report: "\<exists>w2. ignore_err (pi_report_success q l) w1 = (Inr (), w2) \<and> bk_ok b w2 \<and> bk_held b w2 = insert l (bk_held b w0) \<and>
      bk_taken b w2 = bk_taken b w1 \<and> bk_reports b w2 = Suc (bk_reports b w1)"
    "\<exists>w2. ignore_err (pi_report_failure q l e) w1 = (Inr (), w2) \<and> bk_ok b w2 \<and> bk_held b w2 = insert l (bk_held b w0) \<and>
      bk_taken b w2 = bk_taken b w1 \<and> bk_reports b w2 = Suc (bk_reports b w1)" for e
  proof -
    have m: "move_law b {} 1 w1 (pi_report_success q l w1)" "move_law b {} 1 w1 (pi_report_failure q l e w1)" for e
      using laws ok1 held1 by (simp_all add: lease_laws_def)
    show "\<exists>w2. ignore_err (pi_report_success q l) w1 = (Inr (), w2) \<and> bk_ok b w2 \<and> bk_held b w2 = insert l (bk_held b w0) \<and>
      bk_taken b w2 = bk_taken b w1 \<and> bk_reports b w2 = Suc (bk_reports b w1)"
      using ignore_move [of b "{}" 1 w1 "pi_report_success q l", OF m(1)] held1 by auto
    show "\<exists>w2. ignore_err (pi_report_failure q l e) w1 = (Inr (), w2) \<and> bk_ok b w2 \<and> bk_held b w2 = insert l (bk_held b w0) \<and>
      bk_taken b w2 = bk_taken b w1 \<and> bk_reports b w2 = Suc (bk_reports b w1)" for e
      using ignore_move [of b "{}" 1 w1 "pi_report_failure q l e", OF m(2)] held1 by auto
  qed
  show ?thesis
  proof (cases r)
    case (Inr x)
    obtain w2 where w2: "ignore_err (pi_report_success q l) w1 = (Inr (), w2)" "bk_ok b w2"
      "bk_held b w2 = insert l (bk_held b w0)" "bk_taken b w2 = bk_taken b w1" "bk_reports b w2 = Suc (bk_reports b w1)"
      using report(1) by blast
    obtain w3 where "ignore_err (pi_release q l) w2 = (Inr (), w3)" "bk_ok b w3" "bk_held b w3 = bk_held b w0"
      "bk_taken b w3 = bk_taken b w2" "bk_reports b w3 = bk_reports b w2" using release [OF w2(2,3)] by blast
    then show ?thesis using Inr w2 even by (auto simp: finish_lease_def bnd_def lift_result_def settled_def silent_def)
  next
    case (Inl e)
    show ?thesis
    proof (cases "is_panic e")
      case True
      obtain w3 where "ignore_err (pi_release q l) w1 = (Inr (), w3)" "bk_ok b w3" "bk_held b w3 = bk_held b w0"
        using release [OF ok1 held1] by blast
      then show ?thesis using Inl True by (auto simp: finish_lease_def bnd_def fail_def settled_def silent_def)
    next
      case False
      obtain w2 where w2: "ignore_err (pi_report_failure q l e) w1 = (Inr (), w2)" "bk_ok b w2"
        "bk_held b w2 = insert l (bk_held b w0)" "bk_taken b w2 = bk_taken b w1" "bk_reports b w2 = Suc (bk_reports b w1)"
        using report(2) [of e] by blast
      obtain w3 where "ignore_err (pi_release q l) w2 = (Inr (), w3)" "bk_ok b w3" "bk_held b w3 = bk_held b w0"
        "bk_taken b w3 = bk_taken b w2" "bk_reports b w3 = bk_reports b w2" using release [OF w2(2,3)] by blast
      then show ?thesis using Inl False w2 even by (auto simp: finish_lease_def bnd_def fail_def settled_def silent_def)
    qed
  qed
qed

lemma acquire_then:
  assumes "lease_laws q b" and "bk_ok b w"
  obtains (refused) e w1 where "pi_acquire q w = (Inl e, w1)" "bk_ok b w1" "bk_held b w1 = bk_held b w"
      "bk_taken b w1 = bk_taken b w" "bk_reports b w1 = bk_reports b w"
  | (granted) l w1 where "pi_acquire q w = (Inr l, w1)" "bk_ok b w1" "l \<notin> bk_held b w" "bk_held b w1 = insert l (bk_held b w)"
      "bk_taken b w1 = Suc (bk_taken b w)" "bk_reports b w1 = bk_reports b w"
proof -
  have "acquire_law b w (pi_acquire q w)" using assms by (simp add: lease_laws_def)
  moreover obtain r w1 where "pi_acquire q w = (r, w1)" by force
  ultimately show ?thesis using that by (cases r) (auto simp: acquire_law_def settled_def)
qed

lemma settles_with_lease [intro]:
  assumes "\<And>q. pool = Some q \<Longrightarrow> lease_laws q b" and "\<And>q l. pool = Some q \<Longrightarrow> settles b (call (pi_client q l))"
  shows "settles b (with_lease pool call conv)"
proof (cases pool)
  case (Some q)
  have "settled b w (with_lease pool call conv w)" if ok: "bk_ok b w" for w
    using assms(1) [OF Some] ok
  proof (cases rule: acquire_then)
    case (refused e w1)
    then show ?thesis by (simp add: Some with_lease_def bnd_def settled_def silent_def)
  next
    case (granted l w1)
    obtain r w2 where c: "call (pi_client q l) w1 = (r, w2)" by force
    have "settled b w1 (r, w2)" using settlesD [OF assms(2) [OF Some] granted(2), of l] c by simp
    from finish_lease_settled [OF assms(1) [OF Some] granted(2-6) this] show ?thesis
      using granted(1) c by (simp add: Some with_lease_def bnd_def)
  qed
  then show ?thesis by (simp add: settles_def)
qed (simp add: with_lease_def)

section \<open>Every request\<close>

text \<open>A client whose methods leave the pools alone, or settle what they do with them.\<close>

definition client_settles :: "('w, 'l) lease_book \<Rightarrow> 'w client_ops \<Rightarrow> bool" where
  "client_settles b c \<longleftrightarrow>
     (\<forall>ms cs. settles b (cl_quotes_detail c ms cs)) \<and> (\<forall>m s i n. settles b (cl_transaction c m s i n)) \<and>
     (\<forall>m s. settles b (cl_full_transaction c m s)) \<and> (\<forall>d m s i n. settles b (cl_history_transaction c d m s i n)) \<and>
     (\<forall>d m s. settles b (cl_history_full_transaction c d m s)) \<and>
     (\<forall>d m s i n. settles b (cl_history_transaction_with_trans c d m s i n)) \<and>
     (\<forall>d m s. settles b (cl_history_full_transaction_with_trans c d m s)) \<and>
     (\<forall>k m s i n t a. settles b (cl_kline c k m s i n t a)) \<and> (\<forall>m s. settles b (cl_xdxr_info c m s)) \<and>
     (\<forall>m i n. settles b (cl_stock_list c m i n)) \<and> (\<forall>m s. settles b (cl_finance_info c m s))"

definition provider_pools :: "('w, 'l) gotdx_provider \<Rightarrow> ('w, 'l, 'w client_ops) pool_iface option list" where
  "provider_pools p = [gp_quote_pool p, gp_tick_pool p, gp_history_pool p, gp_kline_pool p, gp_adjust_pool p, gp_static_pool p]"

definition pools_settle :: "('w, 'l) lease_book \<Rightarrow> ('w, 'l) gotdx_provider \<Rightarrow> bool" where
  "pools_settle b p \<longleftrightarrow>
     (\<forall>pool \<in> set (provider_pools p). case pool of None \<Rightarrow> True
        | Some q \<Rightarrow> lease_laws q b \<and> (\<forall>l. client_settles b (pi_client q l))) \<and>
     (case gp_mac_pool p of None \<Rightarrow> True | Some q \<Rightarrow> lease_laws q b \<and> (\<forall>l. settles b (pi_client q l)))"

lemma pools_settleD:
  assumes "pools_settle b p"
  shows "pool \<in> set (provider_pools p) \<Longrightarrow> pool = Some q \<Longrightarrow> lease_laws q b"
    and "pool \<in> set (provider_pools p) \<Longrightarrow> pool = Some q \<Longrightarrow> client_settles b (pi_client q l)"
    and "gp_mac_pool p = Some q' \<Longrightarrow> lease_laws q' b" and "gp_mac_pool p = Some q' \<Longrightarrow> settles b (pi_client q' l)"
  using assms by (auto simp: pools_settle_def)

lemma pool_members:
  "gp_quote_pool p \<in> set (provider_pools p)" "pick_pool p (gp_tick_pool p) \<in> set (provider_pools p)"
  "pick_pool p (gp_history_pool p) \<in> set (provider_pools p)" "pick_pool p (gp_kline_pool p) \<in> set (provider_pools p)"
  "pick_pool p (gp_adjust_pool p) \<in> set (provider_pools p)" "pick_pool p (gp_static_pool p) \<in> set (provider_pools p)"
  by (simp_all add: provider_pools_def pick_pool_def split: option.split)

lemma settles_request:
  assumes "pools_settle b p" and "pool \<in> set (provider_pools p)" and "\<And>c. client_settles b c \<Longrightarrow> settles b (call c)"
  shows "settles b (with_lease pool call conv)"
  using pools_settleD(1,2) [OF assms(1,2)] assms(3) by (intro settles_with_lease) auto

lemma settled_same: "settled b w (Inr x, w') \<Longrightarrow> settled b w (Inr y, w')"
  by (simp add: settled_def silent_def)

lemma settled_err: "settled b w (Inl e, w') \<Longrightarrow> settled b w (Inl e, w')"
  by (simp add: settled_def silent_def)

lemma settled_here: "bk_ok b w \<Longrightarrow> settled b w (r, w)"
  by (simp add: settled_def)

lemma client_settlesD:
  assumes "client_settles b cl"
  shows "settles b (stock_kline cl ks i n)" "settles b (cl_stock_list cl m i' n')"
    "settles b (cl_quotes_detail cl ms cs)" "settles b (cl_transaction cl m s i n)" "settles b (cl_full_transaction cl m s)"
    "settles b (cl_history_transaction cl d m s i n)" "settles b (cl_history_full_transaction cl d m s)"
    "settles b (cl_history_transaction_with_trans cl d m s i n)"
    "settles b (cl_history_full_transaction_with_trans cl d m s)" "settles b (cl_xdxr_info cl m s)"
    "settles b (cl_finance_info cl m s)"
  using assms by (simp_all add: client_settles_def stock_kline_def)

lemma kline_page_loop_settled:
  "client_settles b cl \<Longrightarrow> bk_ok b w \<Longrightarrow> settled b w (fetch_kline_page_loop cl ctx ks remaining current out w)"
proof (induction cl ctx ks remaining current out w rule: fetch_kline_page_loop.induct)
  case (1 cl ctx ks remaining current out w)
  let ?n = "min remaining max_gotdx_kline_count"
  obtain r w' where c: "stock_kline cl ks current ?n w = (r, w')" by force
  have s: "settled b w (r, w')" using settlesD [OF client_settlesD(1) [OF 1(2)] 1(3)] c by metis
  show ?case
  proof (cases "remaining = 0 \<or> ctx w \<noteq> None")
    case True
    then show ?thesis by (subst fetch_kline_page_loop.simps) (auto simp: settled_here [OF 1(3)])
  next
    case live: False
    show ?thesis
    proof (cases r)
      case (Inl e)
      then show ?thesis using live s c by (subst fetch_kline_page_loop.simps) (auto simp: settled_err)
    next
      case (Inr page)
      show ?thesis
      proof (cases "word_of_nat (length page) < ?n")
        case True
        then show ?thesis
          using live s c Inr by (subst fetch_kline_page_loop.simps) (auto intro: settled_same)
      next
        case False
        have "settled b w' (fetch_kline_page_loop cl ctx ks (remaining - ?n) (current + ?n) (out @ page) w')"
          using live c Inr False 1(2) settled_ok [OF s] by (intro 1(1)) auto
        from settled_trans [OF s [unfolded Inr] this] show ?thesis
          using live c Inr False by (subst fetch_kline_page_loop.simps) auto
      qed
    qed
  qed
qed

lemma settles_kline_page [intro]: "client_settles b cl \<Longrightarrow> settles b (fetch_kline_page cl ctx ks start cnt)"
  by (simp add: settles_def fetch_kline_page_def kline_page_loop_settled)

lemma kline_range_loop_settled:
  "client_settles b cl \<Longrightarrow> bk_ok b w \<Longrightarrow> settled b w (fetch_kline_range_loop cl ctx ks stop start out w)"
proof (induction cl ctx ks stop start out w rule: fetch_kline_range_loop.induct)
  case (1 cl ctx ks stop start out w)
  obtain r w' where c: "fetch_kline_page cl ctx ks (word_of_nat start) max_gotdx_kline_count w = (r, w')" by force
  have s: "settled b w (r, w')" using settlesD [OF settles_kline_page [OF 1(2)] 1(3)] c by metis
  show ?case
  proof (cases "65535 < start \<or> ctx w \<noteq> None")
    case True
    then show ?thesis by (subst fetch_kline_range_loop.simps) (auto simp: settled_here [OF 1(3)])
  next
    case live: False
    show ?thesis
    proof (cases r)
      case (Inl e)
      then show ?thesis using live s c by (subst fetch_kline_range_loop.simps) (auto simp: settled_err)
    next
      case (Inr page)
      let ?last = "\<not> after (sb_time (hd page)) stop \<or> length page < unat max_gotdx_kline_count"
      show ?thesis
      proof (cases "page = [] \<or> ?last")
        case True
        then show ?thesis
          using live s c Inr by (subst fetch_kline_range_loop.simps) (auto intro: settled_same)
      next
        case False
        have "settled b w' (fetch_kline_range_loop cl ctx ks stop (start + unat max_gotdx_kline_count) (page @ out) w')"
          using live c Inr False 1(2) settled_ok [OF s] by (intro 1(1)) auto
        from settled_trans [OF s [unfolded Inr] this] show ?thesis
          using live c Inr False by (subst fetch_kline_range_loop.simps) auto
      qed
    qed
  qed
qed

lemma settles_kline_range [intro]: "client_settles b cl \<Longrightarrow> settles b (fetch_kline_range cl ctx ks from till)"
  unfolding fetch_kline_range_def Let_def
  using settles_kline_page [of b cl] kline_range_loop_settled [of b cl] by (simp add: settles_def)

text \<open>The requests with one lease.\<close>

lemma settles_bars:
  assumes "pools_settle b p"
  shows "settles b (provider_get_bars p sy req adjust)"
  unfolding provider_get_bars_def Let_def
  by (intro settles_bnd settles_ret settles_request [OF assms pool_members(4)]) auto

lemma settles_requests:
  assumes "pools_settle b p"
  shows "settles b (provider_get_quotes p ss)" "settles b (provider_get_order_book p ss)"
    "settles b (provider_get_ticks p sy tr)" "settles b (provider_get_history_ticks p sy ht)"
    "settles b (provider_get_xdxr p sy)" "settles b (provider_get_finance p sy)"
  unfolding provider_get_quotes_def provider_get_order_book_def provider_get_ticks_def provider_get_history_ticks_def
    provider_get_xdxr_def provider_get_finance_def Let_def
  by (auto intro!: settles_bnd settles_ret settles_request [OF assms] pool_members simp: client_settlesD split: prod.split)

lemma infer_loop_settles: "(\<And>s r. settles b (get s r)) \<Longrightarrow> settles b (infer_previous_loop get latest ss)"
  by (induction ss) (auto split: option.split)

lemma settles_enrich: "pools_settle b p \<Longrightarrow> settles b (enrich_previous_trading_day p info)"
  unfolding enrich_previous_trading_day_def infer_previous_trading_day_from_kline_def provider_get_kline_def
  by (auto intro!: settles_bnd infer_loop_settles settles_bars split: option.split)

text \<open>The listing of securities, under its fuel.\<close>

lemma security_range_loop_settled:
  "client_settles b cl \<Longrightarrow> bk_ok b w \<Longrightarrow> settled b w (fetch_security_range_loop cl market remaining offset out w)"
proof (induction cl market remaining offset out w rule: fetch_security_range_loop.induct)
  case (1 cl market remaining offset out w)
  let ?n = "min remaining default_security_page_size"
  obtain r w' where c: "cl_stock_list cl market offset ?n w = (r, w')" by force
  have s: "settled b w (r, w')" using settlesD [OF client_settlesD(2) [OF 1(2)] 1(3)] c by metis
  consider "remaining = 0" | e where "remaining \<noteq> 0" "r = Inl e"
    | page where "remaining \<noteq> 0" "r = Inr page" "length page < unat ?n"
    | page where "remaining \<noteq> 0" "r = Inr page" "\<not> length page < unat ?n" by (cases r) auto
  then show ?case
  proof cases
    case 1
    then show ?thesis using settled_here [OF \<open>bk_ok b w\<close>] by (subst fetch_security_range_loop.simps) simp
  next
    case 2
    then show ?thesis using s c by (subst fetch_security_range_loop.simps) (simp add: settled_err)
  next
    case 3
    then show ?thesis using s c by (subst fetch_security_range_loop.simps) (auto intro: settled_same)
  next
    case (4 page)
    have "settled b w' (fetch_security_range_loop cl market (remaining - ?n) (offset + ?n) (out @ page) w')"
      using 4 c 1(2) settled_ok [OF s] by (intro 1(1)) auto
    from settled_trans [OF s [unfolded 4(2)] this] show ?thesis
      using 4 c by (subst fetch_security_range_loop.simps) simp
  qed
qed

lemma security_range_settled:
  "client_settles b cl \<Longrightarrow> bk_ok b w \<Longrightarrow> settled b w (fetch_security_range cl ctx market start cnt w)"
  using security_range_loop_settled [of b cl w] settled_here [of b w]
  by (auto simp: fetch_security_range_def guard_def split: option.split)

lemma all_securities_settled:
  "client_settles b cl \<Longrightarrow> bk_ok b w \<Longrightarrow> fetch_all_securities cl ctx market fuel offset out w = Some res \<Longrightarrow> settled b w res"
proof (induction fuel arbitrary: offset out w)
  case (Suc fuel)
  obtain r w' where c: "fetch_security_range cl ctx market offset default_security_page_size w = (r, w')" by force
  have s: "settled b w (r, w')"
    using security_range_settled [OF Suc.prems(1,2), of ctx market offset default_security_page_size] c by simp
  show ?case
  proof (cases r)
    case (Inl e)
    then show ?thesis using Suc.prems(3) s c by (auto simp: settled_err)
  next
    case (Inr page)
    show ?thesis
    proof (cases "length page < unat default_security_page_size")
      case True
      then show ?thesis using Suc.prems(3) s c Inr by (auto intro: settled_same)
    next
      case False
      then have "settled b w' res"
        using Suc.IH [OF Suc.prems(1) settled_ok [OF s]] Suc.prems(3) c Inr by simp
      then show ?thesis using settled_trans [OF s [unfolded Inr], of res] by simp
    qed
  qed
qed simp

lemma list_markets_settled:
  "client_settles b cl \<Longrightarrow> bk_ok b w \<Longrightarrow> list_markets p cl start cnt ms out w = Some res \<Longrightarrow> settled b w res"
proof (induction ms arbitrary: out w)
  case Nil
  then show ?case using settled_here by auto
next
  case (Cons m ms)
  show ?case
  proof (cases "market_to_gotdx (gp_types p) m")
    case (Inl e)
    then show ?thesis using Cons.prems settled_here by auto
  next
    case (Inr market)
    obtain r w' where c: "fetch_securities (Some cl) (gp_ctx_err p) (gp_fuel p) market start cnt w = Some (r, w')"
      using Cons.prems(3) Inr by (auto split: option.splits)
    have s: "settled b w (r, w')"
      using c security_range_settled [OF Cons.prems(1,2), of "gp_ctx_err p" market start cnt]
        all_securities_settled [OF Cons.prems(1,2), of "gp_ctx_err p" market "gp_fuel p" 0 "[]" "(r, w')"]
      by (auto simp: fetch_securities_def split: if_splits)
    show ?thesis
    proof (cases r)
      case (Inl e)
      then show ?thesis using Cons.prems(3) Inr c s by (auto simp: settled_err)
    next
      case (Inr items)
      then have "settled b w' res"
        using Cons.IH [OF Cons.prems(1) settled_ok [OF s]] Cons.prems(3) \<open>market_to_gotdx (gp_types p) m = Inr market\<close> c by simp
      then show ?thesis using settled_trans [OF s [unfolded Inr], of res] by simp
    qed
  qed
qed

lemma security_info_settled:
  assumes "pools_settle b p" and "bk_ok b w" and "provider_get_security_info p req w = Some res"
  shows "settled b w res"
proof (cases "pick_pool p (gp_static_pool p)")
  case None
  then show ?thesis using assms settled_here by (auto simp: provider_get_security_info_def Let_def)
next
  case (Some q)
  have laws: "lease_laws q b" using pools_settleD(1) [OF assms(1) pool_members(6) Some] .
  show ?thesis
    using laws assms(2)
  proof (cases rule: acquire_then)
    case (refused e w1)
    then show ?thesis using assms(3) Some by (auto simp: provider_get_security_info_def Let_def settled_def silent_def)
  next
    case (granted l w1)
    let ?ms = "if sq_markets req = [] then [MarketSH, MarketSZ, MarketBJ] else sq_markets req"
    obtain r w2 where c: "list_markets p (pi_client q l) (sq_start req) (sq_count req) ?ms [] w1 = Some (r, w2)"
      and d: "res = finish_lease q l (\<lambda>items w. Inr items) (r, w2)"
      using assms(3) Some granted(1) by (auto simp: provider_get_security_info_def Let_def)
    have "settled b w1 (r, w2)"
      using list_markets_settled [OF pools_settleD(2) [OF assms(1) pool_members(6) Some] granted(2) c] .
    from finish_lease_settled [OF laws granted(2-6) this] show ?thesis using d by simp
  qed
qed

text \<open>
  \<open>GetTradingDay\<close> keeps its lease while it makes further requests: what runs between the report and the release settles
  its own books.
\<close>

lemma lift_cases: "lift_result (Inl e) = fail e" "lift_result (Inr x) = ret x"
  by (simp_all add: fun_eq_iff op_defs)

lemma held_release:
  assumes "lease_laws q b" and "l \<notin> bk_held b w0" and "settled b w2 (r, w3)" and "bk_held b w2 = insert l (bk_held b w0)"
    and "bk_reports b w2 + bk_taken b w0 = bk_reports b w0 + bk_taken b w2"
  shows "settled b w0 (bnd (ignore_err (pi_release q l)) (\<lambda>_. lift_result r) w3)"
proof -
  have ok: "bk_ok b w3" and held: "bk_held b w3 = insert l (bk_held b w0)"
    and even: "silent r \<longrightarrow> bk_reports b w3 + bk_taken b w2 = bk_reports b w2 + bk_taken b w3"
    using assms(3,4) by (auto simp: settled_def)
  have "move_law b {l} 0 w3 (pi_release q l w3)" using assms(1) ok held by (simp add: lease_laws_def)
  from ignore_move [of b "{l}" 0 w3 "pi_release q l", OF this]
  obtain w4 where "ignore_err (pi_release q l) w3 = (Inr (), w4)" "bk_ok b w4" "bk_held b w4 = bk_held b w3 - {l}"
    "bk_taken b w4 = bk_taken b w3" "bk_reports b w4 = bk_reports b w3" by auto
  then show ?thesis using held even assms(2,5) by (auto simp: bnd_def lift_result_def settled_def)
qed

lemma trading_day_settled:
  assumes "pools_settle b p"
  shows "settles b (provider_get_trading_day p)"
proof (cases "gp_mac_pool p")
  case None
  then show ?thesis by (simp add: provider_get_trading_day_def)
next
  case (Some q)
  have laws: "lease_laws q b" and client: "\<And>l. settles b (pi_client q l)" using pools_settleD(3,4) [OF assms Some] by auto
  have "settled b w (provider_get_trading_day p w)" if ok: "bk_ok b w" for w
    using laws ok
  proof (cases rule: acquire_then)
    case (refused e w1)
    then show ?thesis by (simp add: provider_get_trading_day_def Some bnd_def settled_def silent_def)
  next
    case (granted l w1)
    obtain r w2 where c: "pi_client q l w1 = (r, w2)" by force
    have s: "settled b w1 (r, w2)" using settlesD [OF client granted(2), of l] c by simp
    show ?thesis
    proof (cases r)
      case (Inl e)
      have "settled b w1 (Inl e :: mac_reply option result, w2)" using s Inl by simp
      from finish_lease_settled [OF laws granted(2-6) this] show ?thesis
        using granted(1) c Inl by (simp add: provider_get_trading_day_def Some bnd_def)
    next
      case (Inr reply)
      have 2: "bk_ok b w2" "bk_held b w2 = insert l (bk_held b w)"
        "bk_reports b w2 + bk_taken b w1 = bk_reports b w1 + bk_taken b w2"
        using s Inr granted by (auto simp: settled_def silent_def)
      have "move_law b {} 1 w2 (pi_report_success q l w2)" using laws 2 by (simp add: lease_laws_def)
      from ignore_move [of b "{}" 1 w2 "pi_report_success q l", OF this]
      obtain w3 where 3: "ignore_err (pi_report_success q l) w2 = (Inr (), w3)" "bk_ok b w3"
        "bk_held b w3 = insert l (bk_held b w)" "bk_reports b w3 + bk_taken b w = bk_reports b w + bk_taken b w3"
        using 2 granted(5,6) by auto
      let ?body = "bnd (lift_result (trading_day_to_domain (gp_local p) reply (provider_now p w3))) (enrich_previous_trading_day p)"
      have body: "settles b ?body" using settles_enrich [OF assms] by blast
      obtain r4 w4 where d: "?body w3 = (r4, w4)" by force
      have s4: "settled b w3 (r4, w4)" using settlesD [OF body 3(2)] d by simp
      have res: "provider_get_trading_day p w = bnd (ignore_err (pi_release q l)) (\<lambda>_. lift_result (map_sum id Some r4)) w4"
        using granted(1) c Inr 3(1) d
        by (cases r4) (simp_all add: provider_get_trading_day_def Some bnd_def lift_cases)
      have "settled b w3 (map_sum id Some r4, w4)" using s4 by (cases r4) (auto simp: settled_def silent_def)
      from held_release [OF laws granted(3) this 3(3,4)] show ?thesis unfolding res .
    qed
  qed
  then show ?thesis by (simp add: settles_def)
qed

section \<open>A sample pool\<close>

text \<open>It hands out the numbers from 0 on and counts; its client answers nothing but the error for no data.\<close>

record sample_books =
  sm_held :: "nat set"
  sm_taken :: nat
  sm_reports :: nat

definition sample_book :: "(sample_books, nat) lease_book" where
  "sample_book = \<lparr>bk_ok = (\<lambda>w. \<forall>l \<in> sm_held w. l < sm_taken w), bk_held = sm_held, bk_taken = sm_taken, bk_reports = sm_reports\<rparr>"

definition sample_pool :: "'c \<Rightarrow> (sample_books, nat, 'c) pool_iface" where
  "sample_pool c = \<lparr>pi_id = 0,
     pi_acquire = (\<lambda>w. (Inr (sm_taken w), w\<lparr>sm_held := insert (sm_taken w) (sm_held w), sm_taken := Suc (sm_taken w)\<rparr>)),
     pi_client = (\<lambda>_. c),
     pi_report_success = (\<lambda>l w. (Inr (), w\<lparr>sm_reports := Suc (sm_reports w)\<rparr>)),
     pi_report_failure = (\<lambda>l e w. (Inr (), w\<lparr>sm_reports := Suc (sm_reports w)\<rparr>)),
     pi_release = (\<lambda>l w. (Inr (), w\<lparr>sm_held := sm_held w - {l}\<rparr>)), pi_close = ret ()\<rparr>"

definition empty_client :: "'w client_ops" where
  "empty_client = \<lparr>cl_quotes_detail = (\<lambda>_ _. ret []), cl_transaction = (\<lambda>_ _ _ _. fail ErrNoData),
     cl_full_transaction = (\<lambda>_ _. fail ErrNoData), cl_history_transaction = (\<lambda>_ _ _ _ _. fail ErrNoData),
     cl_history_full_transaction = (\<lambda>_ _ _. fail ErrNoData),
     cl_history_transaction_with_trans = (\<lambda>_ _ _ _ _. fail ErrNoData),
     cl_history_full_transaction_with_trans = (\<lambda>_ _ _. fail ErrNoData),
     cl_kline = (\<lambda>_ _ _ _ _ _ _. ret []), cl_full_kline = (\<lambda>_ _ _ _ _ _. fail ErrNoData),
     cl_xdxr_info = (\<lambda>_ _. fail ErrNoData), cl_stock_list = (\<lambda>_ _ _. ret []), cl_stock_all = (\<lambda>_. fail ErrNoData),
     cl_finance_info = (\<lambda>_ _. fail ErrNoData), cl_disconnect = ret ()\<rparr>"

definition sample_types :: gotdx_types where
  "sample_types = \<lparr>gt_market_sz = 0, gt_market_sh = 1, gt_market_bj = 2, gt_market_hk = 31, gt_market_usa = 74, gt_1min = 7,
     gt_5min = 0, gt_15min = 1, gt_30min = 2, gt_1hour = 3, gt_daily = 4, gt_weekly = 5, gt_monthly = 6, gt_3month = 10,
     gt_yearly = 11, gt_adjust_none = 0, gt_adjust_qfq = 1, gt_adjust_hfq = 2\<rparr>"

definition sample_provider :: "'w client_ops \<Rightarrow> ('w client_ops \<Rightarrow> ('w, 'l, 'w client_ops) pool_iface) \<Rightarrow>
    ('w, 'l, ('w, mac_reply option) op) pool_iface option \<Rightarrow> ('w, 'l) gotdx_provider" where
  "sample_provider c pool mac = \<lparr>gp_quote_pool = Some (pool c), gp_tick_pool = None, gp_history_pool = None,
     gp_kline_pool = None, gp_adjust_pool = None, gp_static_pool = None, gp_mac_pool = mac, gp_clock = None,
     gp_ctx_err = (\<lambda>_. None), gp_time_now = (\<lambda>_. zero_time), gp_local = 0, gp_types = sample_types, gp_fuel = 10\<rparr>"

lemma sample_pool_laws: "lease_laws (sample_pool c) sample_book"
  by (auto simp: lease_laws_def acquire_law_def move_law_def sample_pool_def sample_book_def silent_def intro: less_SucI)

lemma empty_client_settles: "client_settles b empty_client"
  by (simp add: client_settles_def empty_client_def)

lemma sample_settles:
  "pools_settle sample_book (sample_provider empty_client sample_pool (Some (sample_pool (ret reply))))"
  by (simp add: pools_settle_def provider_pools_def sample_provider_def sample_pool_laws)
    (simp add: sample_pool_def empty_client_settles)

section \<open>Properties\<close>



end
