(* ===== verification/Provider_Answers.thy ===== *)
theory Provider_Answers
  imports Provider_Contract
begin

text \<open>
  What the provider answers: a range of K-lines is exactly the part of the server's history that was asked for, and the
  trading calendar names a previous day before today.
\<close>

section \<open>K-lines\<close>

text \<open>A request that succeeds, followed through the lease.\<close>

lemma with_lease_success:
  assumes "lease_laws q b" and "bk_ok b w" and "pi_acquire q w = (Inr l, w1)" and "settles b (call (pi_client q l))"
    and "call (pi_client q l) w1 = (Inr x, w2)" and "\<And>v v'. conv x v = conv x v'"
  shows "fst (with_lease (Some q) call conv w) = conv x w"
proof -
  have a: "bk_ok b w1" "bk_held b w1 = insert l (bk_held b w)"
    using assms(1,2,3) by (auto simp: lease_laws_def acquire_law_def dest!: spec [of _ w])
  have 2: "bk_ok b w2" "l \<in> bk_held b w2" using settlesD [OF assms(4) a(1)] assms(5) a(2) by (auto simp: settled_def)
  have "move_law b {} 1 w2 (pi_report_success q l w2)" using assms(1) 2 by (simp add: lease_laws_def)
  from ignore_move [of b "{}" 1 w2 "pi_report_success q l", OF this]
  obtain w3 where 3: "ignore_err (pi_report_success q l) w2 = (Inr (), w3)" "bk_ok b w3" "l \<in> bk_held b w3" using 2(2) by auto
  have "move_law b {l} 0 w3 (pi_release q l w3)" using assms(1) 3 by (simp add: lease_laws_def)
  from ignore_move [of b "{l}" 0 w3 "pi_release q l", OF this]
  obtain w4 where "ignore_err (pi_release q l) w3 = (Inr (), w4)" by auto
  then show ?thesis
    using assms(3,5) 3(1) assms(6) [of w3 w] by (simp add: with_lease_def finish_lease_def bnd_def lift_result_def)
qed

lemma keep_suffix:
  assumes "\<forall>b \<in> set hist. \<not> before (sb_time b) start \<longrightarrow> b \<in> set (drop k hist)" and "\<not> is_zero start"
    and "sorted_wrt (<) (bar_times hist)"
  shows "filter (keep_item start till) (drop k hist) = filter (keep_item start till) hist"
proof -
  have "b \<notin> set (drop k hist)" if early: "b \<in> set (take k hist)" for b
  proof
    assume "b \<in> set (drop k hist)"
    then obtain j where j: "j < length hist - k" "b = hist ! (k + j)"
      by (auto simp: in_set_conv_nth)
    obtain i where i: "i < k" "i < length hist" "b = hist ! i"
      using early by (auto simp: in_set_conv_nth)
    note ij = i j
    have "i < k + j" "k + j < length hist" using ij by auto
    then have "t_nanos (sb_time (hist ! i)) < t_nanos (sb_time (hist ! (k + j)))"
      using assms(3) by (simp add: bar_times_def sorted_wrt_iff_nth_less)
    moreover have "hist ! i = hist ! (k + j)" using ij by simp
    ultimately show False by simp
  qed
  then have "filter (keep_item start till) (take k hist) = []"
    using assms(1,2) by (fastforce simp: filter_empty_conv keep_item_def dest: in_set_takeD)
  then show ?thesis
    by (metis append_Nil append_take_drop_id filter_append)
qed

lemma parse_dashed_midnight: "parse_dashed z s = Some t \<Longrightarrow> \<exists>d. t = midnight z d"
  by (auto simp: parse_dashed_def Let_def split: if_splits)

lemma parse_mac_midnight:
  "parse_optional_mac_date z raw f = Inr t \<Longrightarrow> is_zero t \<or> (\<exists>d. t = midnight z d)"
  by (auto simp: parse_optional_mac_date_def split: if_splits option.splits dest: parse_dashed_midnight)

lemma normalize_of_midnight: "\<not> is_zero (midnight z d) \<Longrightarrow> normalize_date (midnight z d) = midnight z d"
  by (simp add: normalize_date_def)

lemma previous_day_loop_spec:
  "(is_zero previous \<or> normalize_date previous = previous \<and> before previous (normalize_date latest)) \<Longrightarrow>
   is_zero (previous_day_loop latest bs previous) \<or>
   normalize_date (previous_day_loop latest bs previous) = previous_day_loop latest bs previous \<and>
   before (previous_day_loop latest bs previous) (normalize_date latest)"
proof (induction bs arbitrary: previous)
  case (Cons b bs)
  show ?case
    using Cons.prems by (auto simp: Let_def intro!: Cons.IH)
qed simp

text \<open>The latest day with a bar before the day asked for.\<close>

lemma previous_day_loop_max:
  assumes "\<forall>b \<in> set bs. t_zone (b_time b) = z \<and> 0 < t_nanos (midnight z (local_day (b_time b)))"
    and "\<not> is_zero (normalize_date latest)" and "t_zone latest = z"
  shows "previous_day_loop latest bs previous =
    fold (\<lambda>b previous. if local_day (b_time b) < local_day latest \<and>
        (is_zero previous \<or> t_nanos previous < t_nanos (midnight z (local_day (b_time b))))
      then midnight z (local_day (b_time b)) else previous) bs previous"
  using assms(1)
proof (induction bs arbitrary: previous)
  case (Cons b bs)
  let ?d = "midnight z (local_day (b_time b))"
  have "0 < t_nanos (b_time b)" using Cons.prems midnight_le [of "b_time b"] by auto
  then have n: "normalize_date (b_time b) = ?d" using Cons.prems by (simp add: normalize_date_def is_zero_def)
  have nz: "\<not> is_zero ?d" using Cons.prems by (auto simp: is_zero_def)
  have "\<not> is_zero latest" using normalize_date_nonzero [OF assms(2)] .
  then have l: "normalize_date latest = midnight z (local_day latest)" using assms(3) by (simp add: normalize_date_def)
  have b: "before ?d (normalize_date latest) \<longleftrightarrow> local_day (b_time b) < local_day latest"
    unfolding l by (simp add: before_def midnight_less_iff)
  show ?case using Cons by (simp add: n nz b Let_def after_def)
qed simp

section \<open>The trading calendar\<close>

lemma parse_mac_date_midnight:
  "parse_mac_date z raw f = Inr t \<Longrightarrow> \<not> is_zero t \<and> (\<exists>d. t = midnight z d)"
  using parse_mac_midnight [of z raw f] by (auto simp: parse_mac_date_def split: sum.splits if_splits)

lemma infer_loop_before:
  "fst (infer_previous_loop get latest ss w) = Inr (Some previous) \<Longrightarrow> before previous (normalize_date latest)"
proof (induction ss arbitrary: w)
  case (Cons s ss)
  obtain r w' where g: "get s calendar_request w = (r, w')" by force
  show ?case
  proof (cases r)
    case (Inl e)
    then show ?thesis using Cons g by (auto simp: catch_def split: if_splits)
  next
    case (Inr bars)
    show ?thesis
    proof (cases "previous_trading_day_from_bars latest bars")
      case None
      then show ?thesis using Cons g Inr by (simp add: catch_def)
    next
      case (Some day)
      then have "before day (normalize_date latest)"
        using previous_day_loop_spec [of zero_time latest bars]
        by (auto simp: previous_trading_day_from_bars_def Let_def split: if_splits)
      then show ?thesis using Cons.prems g Inr Some by (simp add: catch_def ret_def)
    qed
  qed
qed (simp add: ret_def)

text \<open>The sessions: each opens before it closes, and no two have the same times.\<close>

definition session_key :: "trading_session \<Rightarrow> u16 \<times> u16" where
  "session_key s = (ts_open_minutes s, ts_close_minutes s)"

definition clean_sessions :: "trading_session list \<Rightarrow> bool" where
  "clean_sessions ss \<longleftrightarrow> distinct (map session_key ss) \<and> (\<forall>s \<in> set ss. ts_open_minutes s < ts_close_minutes s)"

lemma sessions_loop_clean:
  "clean_sessions out \<Longrightarrow> set (map session_key out) = set seen \<Longrightarrow> clean_sessions (map_mac_sessions_loop items seen out)"
proof (induction items seen out rule: map_mac_sessions_loop.induct)
  case (2 item items seen out)
  show ?case
    using 2(1) [OF refl] 2(2) [OF refl] 2(3,4) by (auto simp: Let_def clean_sessions_def session_key_def)
qed simp

lemma sessions_clean: "clean_sessions (map_mac_sessions items)"
  using sessions_loop_clean [of "[]" "[]" items] by (simp add: map_mac_sessions_def clean_sessions_def)

text \<open>A reply in the form the provider gives it.\<close>

definition calendar_ok :: "trading_day_info \<Rightarrow> bool" where
  "calendar_ok info \<longleftrightarrow>
     \<not> is_zero (td_today info) \<and> (td_is_trading info \<longleftrightarrow> local_day (td_today info) = local_day (td_latest info)) \<and>
     (if td_is_trading info then is_zero (td_previous info) \<or> before (td_previous info) (td_today info)
      else td_previous info = td_latest info \<and> td_previous_string info = td_latest_string info) \<and>
     clean_sessions (td_sessions info) \<and> clean_sessions (td_alt_sessions info)"

lemma trading_day_domain_ok:
  assumes "trading_day_to_domain z reply now = Inr info"
  shows "calendar_ok info \<and> normalize_date (td_today info) = td_today info"
proof -
  obtain r today latest prior where r: "reply = Some r" "parse_mac_date z (mr_today r) ''today'' = Inr today"
    "parse_mac_date z (mr_last_trading_day r) ''last_trading_day'' = Inr latest"
    "parse_optional_mac_date z (mr_last_trading_day2 r) ''last_trading_day_2'' = Inr prior"
    using assms by (auto simp: trading_day_to_domain_def split: option.splits sum.splits)
  have t: "\<not> is_zero today" "normalize_date today = today"
    using parse_mac_date_midnight [OF r(2)] normalize_of_midnight by auto
  have same: "same_date today latest \<longleftrightarrow> local_day today = local_day latest" by (simp add: same_date_def civil_inj)
  consider "same_date today latest" "\<not> is_zero prior" "before prior today"
    | "same_date today latest" "\<not> (\<not> is_zero prior \<and> before prior today)" | "\<not> same_date today latest" by blast
  then show ?thesis
    using assms t same r by cases (auto simp: trading_day_to_domain_def calendar_ok_def sessions_clean)
qed

lemma enrich_ok:
  assumes "fst (enrich_previous_trading_day p info w) = Inr info'" and "calendar_ok info" and "normalize_date (td_today info) = td_today info"
  shows "calendar_ok info'"
proof (cases "\<not> td_is_trading info \<or> previous_trading_day_before (td_previous info) (td_today info)")
  case True
  then show ?thesis using assms by (simp add: enrich_previous_trading_day_def ret_def)
next
  case False
  obtain found w' where f: "infer_previous_trading_day_from_kline p (td_today info) w = (Inr found, w')"
    using assms(1) False
    by (cases "infer_previous_trading_day_from_kline p (td_today info) w"; cases "fst (infer_previous_trading_day_from_kline p (td_today info) w)")
      (auto simp: enrich_previous_trading_day_def bnd_def)
  show ?thesis
  proof (cases found)
    case None
    then show ?thesis using assms f False by (simp add: enrich_previous_trading_day_def bnd_def ret_def)
  next
    case (Some previous)
    then have "before previous (td_today info)"
      using infer_loop_before [of "provider_get_kline p" "td_today info" trading_day_calendar_symbols w previous] f assms(3)
      by (simp add: infer_previous_trading_day_from_kline_def)
    moreover have "info' = info\<lparr>td_previous := previous, td_previous_string := format_dashed previous\<rparr>"
      using assms(1) f False Some by (simp add: enrich_previous_trading_day_def bnd_def ret_def)
    ultimately show ?thesis using assms(2) False by (simp add: calendar_ok_def)
  qed
qed

lemma trading_day_cases:
  assumes "fst (provider_get_trading_day p w) = Inr res"
  shows "\<exists>z reply now info0 info w3. trading_day_to_domain z reply now = Inr info0 \<and>
    fst (enrich_previous_trading_day p info0 w3) = Inr info \<and> res = Some info"
  using assms
  by (auto simp: provider_get_trading_day_def finish_lease_def bnd_def lift_result_def ret_def fail_def
      split: option.splits prod.splits sum.splits if_splits)
    (metis fst_conv)

section \<open>Properties\<close>

text \<open>
  C23: a range of K-lines is exactly the server's bars of the range.  When a lease is granted and the
  server has at most 66317 bars with strictly increasing times, a request with a start date answers the bars from the
  start of that day up to the end date, oldest first, translated, and cut by \<open>Start\<close> and \<open>Count\<close>; nothing of it depends on the
  pages they were fetched in.
\<close>

theorem provider_range_exact:
  assumes "lease_laws q b" and "bk_ok b w" and "pick_pool p (gp_kline_pool p) = Some q" and "fst (pi_acquire q w) = Inr l"
    and "client_settles b (pi_client q l)"
    and "market_to_gotdx (gp_types p) (s_market sy) = Inr market" and "period_to_gotdx (gp_types p) (k_period req) = Inr category"
    and "adjust_to_gotdx (gp_types p) adjust = Inr adjust_value"
    and "serves_history (pi_client q l) (gp_ctx_err p) \<lparr>ks_category = category, ks_market = market, ks_code = s_code sy,
      ks_times = k_times req, ks_adjust = adjust_value\<rparr> hist"
    and "sorted_wrt (<) (bar_times hist)" and "length hist \<le> 66317" and "\<not> is_zero (normalize_date (k_start_date req))"
  shows "fst (provider_get_adjusted_kline p sy req adjust w) =
    Inr (slice_domain_bars_by_start_count
      (map (bar_to_domain sy (k_period req) adjust) (filter (keep_item (normalize_date (k_start_date req)) (k_end_date req)) hist))
      (k_start req) (k_count req))"
proof -
  let ?ks = "\<lparr>ks_category = category, ks_market = market, ks_code = s_code sy, ks_times = k_times req, ks_adjust = adjust_value\<rparr>"
  let ?start = "normalize_date (k_start_date req)"
  let ?call = "\<lambda>c. fetch_kline_range c (gp_ctx_err p) ?ks ?start (normalize_date (k_end_date req))"
  let ?conv = "\<lambda>items w. Inr (slice_domain_bars_by_start_count (map (bar_to_domain sy (k_period req) adjust)
      (filter (keep_item ?start (k_end_date req)) items)) (k_start req) (k_count req))"
  obtain w1 where a: "pi_acquire q w = (Inr l, w1)" using assms(4) by (metis prod.collapse)
  have z: "\<not> is_zero (k_start_date req)" using normalize_date_nonzero [OF assms(12)] .
  obtain k w2 where k: "?call (pi_client q l) w1 = (Inr (drop k hist), w2)"
    "\<forall>b \<in> set hist. \<not> before (sb_time b) ?start \<longrightarrow> b \<in> set (drop k hist)"
    using range_answer [OF assms(9-11), of "\<lambda>_. 0" ?start ?start "normalize_date (k_end_date req)" w1] assms(12) by auto
  have "provider_get_adjusted_kline p sy req adjust w = with_lease (Some q) ?call ?conv w"
    using z assms(3,6-8) by (simp add: provider_get_adjusted_kline_def provider_get_bars_def Let_def bnd_def lift_result_def)
  moreover have "fst (with_lease (Some q) ?call ?conv w) = ?conv (drop k hist) w"
    using settles_kline_range [OF assms(5)] k(1)
    by (intro with_lease_success [where call = ?call and conv = ?conv, OF assms(1,2) a]) auto
  ultimately show ?thesis using keep_suffix [OF k(2) assms(12,10)] by simp
qed

theorem provider_range_exact_witness:
  "let req = \<lparr>k_period = PeriodDay, k_start = 0, k_count = 0, k_times = 0, k_start_date = midnight 0 2, k_end_date = zero_time,
         k_force = False\<rparr>;
       bars = map (\<lambda>n. (sample_security_bar 0)\<lparr>sb_time := midnight 0 (int n)\<rparr>) [1, 2, 3];
       c = (empty_client :: sample_books client_ops)\<lparr>cl_kline := \<lambda>_ _ _ start cnt _ _. ret (kpage bars (unat start) (unat cnt))\<rparr>
   in fst (provider_get_adjusted_kline (sample_provider c sample_pool None) (mk_symbol MarketSH ''600000'') req AdjustNone
        \<lparr>sm_held = {}, sm_taken = 0, sm_reports = 0\<rparr>) =
      Inr (slice_domain_bars_by_start_count (map (bar_to_domain (mk_symbol MarketSH ''600000'') PeriodDay AdjustNone) (drop 1 bars)) 0 0)"
proof -
  let ?bars = "map (\<lambda>n. (sample_security_bar 0)\<lparr>sb_time := midnight 0 (int n)\<rparr>) [1, 2, 3]"
  let ?c = "(empty_client :: sample_books client_ops)\<lparr>cl_kline := \<lambda>_ _ _ start cnt _ _. ret (kpage ?bars (unat start) (unat cnt))\<rparr>"
  let ?p = "sample_provider ?c sample_pool None" and ?s = "mk_symbol MarketSH ''600000''"
  let ?req = "\<lparr>k_period = PeriodDay, k_start = 0, k_count = 0, k_times = 0, k_start_date = midnight 0 2, k_end_date = zero_time,
         k_force = False\<rparr> :: kline_request"
  let ?w = "\<lparr>sm_held = {}, sm_taken = 0, sm_reports = 0\<rparr>"
  have nz: "\<not> is_zero (normalize_date (midnight 0 2))" "normalize_date (midnight 0 2) = midnight 0 2"
    by (simp_all add: normalize_date_def midnight_def is_zero_def day_ns_def local_day_def)
  have a: "bk_ok sample_book ?w" "pick_pool ?p (gp_kline_pool ?p) = Some (sample_pool ?c)"
    "fst (pi_acquire (sample_pool ?c) ?w) = Inr 0" "client_settles sample_book (pi_client (sample_pool ?c) 0)"
    by (simp_all add: sample_book_def sample_provider_def pick_pool_def sample_pool_def client_settles_def empty_client_def)
  have t: "market_to_gotdx (gp_types ?p) (s_market ?s) = Inr 1" "period_to_gotdx (gp_types ?p) (k_period ?req) = Inr 4"
    "adjust_to_gotdx (gp_types ?p) AdjustNone = Inr 0"
    unfolding sample_provider_def by code_simp+
  have h: "serves_history (pi_client (sample_pool ?c) 0) (gp_ctx_err ?p) \<lparr>ks_category = 4, ks_market = 1, ks_code = s_code ?s,
      ks_times = k_times ?req, ks_adjust = 0\<rparr> ?bars"
    by (simp add: serves_history_def stock_kline_def sample_provider_def sample_pool_def ret_def)
  have o: "sorted_wrt (<) (bar_times ?bars)" "length ?bars \<le> 66317"
    by (simp_all add: bar_times_def midnight_def day_ns_def)
  have f: "filter (keep_item (midnight 0 2) zero_time) ?bars = drop 1 ?bars"
    by (simp add: keep_item_def before_def midnight_def day_ns_def is_zero_def)
  show ?thesis
    using provider_range_exact [where req = ?req and sy = ?s, OF sample_pool_laws a(1,2,3,4) t h o] nz f by (simp add: Let_def)
qed


end
