(* ===== verification/Http_Parse.thy ===== *)
theory Http_Parse
  imports Domain Go_Date
begin

text \<open>
  The query parameters of the HTTP interface (\<^verbatim>\<open>internal/api/http/parse.go\<close>).  A request is its method and path, the
  first value of every query parameter (what \<open>URL.Query().Get\<close> answers, empty when there is none) and the
  outcome of decoding its body as JSON: the splitting of a URL and the decoding of JSON are the standard library's.
\<close>

section \<open>Requests\<close>

record symbols_request =
  sr_market :: string
  sr_code :: string
  sr_symbol :: string
  sr_symbols :: "string list"

text \<open>An empty body, one that is not such an object, or the object.\<close>

datatype symbols_body = BodyEOF | BodyInvalid | BodyOk symbols_request

record http_request =
  hr_method :: string
  hr_path :: string
  hr_query :: "string \<Rightarrow> string"
  hr_body :: symbols_body

definition query_value :: "http_request \<Rightarrow> string \<Rightarrow> string" where
  "query_value r name = trim_space (hr_query r name)"

section \<open>Symbols\<close>

definition default_symbol :: symbol where
  "default_symbol = mk_symbol MarketSH ''600000''"

definition infer_market_from_code :: "string \<Rightarrow> string option" where
  "infer_market_from_code code =
     (case code of [] \<Rightarrow> None
      | c # cs \<Rightarrow>
          if c \<in> set ''659'' then Some MarketSH
          else if c \<in> set ''023'' then Some MarketSZ
          else if c \<in> set ''48'' then Some MarketBJ
          else None)"

fun compact_loop :: "string \<Rightarrow> string \<Rightarrow> string list \<Rightarrow> symbol result option" where
  "compact_loop raw upper [] = None"
| "compact_loop raw upper (m # ms) =
     (if has_prefix upper m \<and> length m < length raw then Some (new_symbol m (drop (length m) raw))
      else if has_suffix upper m \<and> length m < length raw then Some (new_symbol m (take (length raw - length m) raw))
      else compact_loop raw upper ms)"

definition parse_compact_symbol :: "string \<Rightarrow> symbol result" where
  "parse_compact_symbol raw =
     (case compact_loop raw (to_upper raw) known_markets of
        Some r \<Rightarrow> r
      | None \<Rightarrow> (case infer_market_from_code raw of
          Some m \<Rightarrow> new_symbol m raw | None \<Rightarrow> Inl ErrInvalidRequest))"

definition parse_delimited_symbol :: "string \<Rightarrow> string \<Rightarrow> symbol result" where
  "parse_delimited_symbol left0 right0 =
     (let left = trim_space left0; right = trim_space right0 in
      case parse_market left of
        Inr m \<Rightarrow> new_symbol m right
      | Inl e \<Rightarrow> (case parse_market right of Inr m \<Rightarrow> new_symbol m left | Inl e \<Rightarrow> Inl ErrInvalidRequest))"

definition parse_symbol_string :: "string \<Rightarrow> symbol result" where
  "parse_symbol_string raw =
     (let value = trim_space raw in
      if value = [] then Inl ErrInvalidRequest
      else case cut (CHR '':'') value of
        Some (l, r) \<Rightarrow> parse_delimited_symbol l r
      | None \<Rightarrow> (case cut (CHR ''.'') value of
          Some (l, r) \<Rightarrow> parse_delimited_symbol l r
        | None \<Rightarrow> parse_compact_symbol value))"

definition parse_symbol_list :: "string \<Rightarrow> symbol list result" where
  "parse_symbol_list raw =
     (case collect parse_symbol_string (split_on (CHR '','') raw) of
        Inl e \<Rightarrow> Inl e
      | Inr symbols \<Rightarrow> if symbols = [] then Inl ErrInvalidRequest else Inr symbols)"

text \<open>The market and the code of a request: the common end of \<open>parseSymbol\<close> and \<open>parseSymbolsBody\<close>.\<close>

definition market_and_code :: "string \<Rightarrow> string \<Rightarrow> symbol result" where
  "market_and_code market code =
     (if market = [] \<and> code = [] then Inr default_symbol
      else if market = [] then parse_symbol_string code
      else case parse_market market of Inl e \<Rightarrow> Inl e | Inr m \<Rightarrow> new_symbol m code)"

definition parse_symbol :: "http_request \<Rightarrow> symbol result" where
  "parse_symbol r =
     (if query_value r ''symbol'' \<noteq> [] then parse_symbol_string (query_value r ''symbol'')
      else market_and_code (query_value r ''market'') (query_value r ''code''))"

definition parse_optional_symbols :: "http_request \<Rightarrow> symbol list result" where
  "parse_optional_symbols r =
     (if query_value r ''symbols'' \<noteq> [] then parse_symbol_list (query_value r ''symbols'')
      else if query_value r ''symbol'' \<noteq> [] then parse_symbol_list (query_value r ''symbol'')
      else Inr [])"

definition one_symbol :: "symbol result \<Rightarrow> symbol list result" where
  "one_symbol r = (case r of Inl e \<Rightarrow> Inl e | Inr s \<Rightarrow> Inr [s])"

definition parse_symbols_body :: "http_request \<Rightarrow> symbol list result" where
  "parse_symbols_body r =
     (case hr_body r of
        BodyEOF \<Rightarrow> Inr [default_symbol]
      | BodyInvalid \<Rightarrow> Inl ErrInvalidRequest
      | BodyOk req \<Rightarrow>
          if sr_symbols req \<noteq> [] then parse_symbol_list (join '','' (sr_symbols req))
          else if trim_space (sr_symbol req) \<noteq> [] then parse_symbol_list (trim_space (sr_symbol req))
          else one_symbol (market_and_code (trim_space (sr_market req)) (trim_space (sr_code req))))"

definition parse_symbols :: "http_request \<Rightarrow> symbol list result" where
  "parse_symbols r =
     (if query_value r ''symbols'' \<noteq> [] then parse_symbol_list (query_value r ''symbols'')
      else if query_value r ''symbol'' \<noteq> [] then parse_symbol_list (query_value r ''symbol'')
      else if query_value r ''market'' \<noteq> [] \<or> query_value r ''code'' \<noteq> [] then one_symbol (parse_symbol r)
      else if hr_method r = ''POST''
      then (case parse_symbols_body r of
          Inl e \<Rightarrow> Inl e
        | Inr symbols \<Rightarrow> if symbols \<noteq> [] then Inr symbols else one_symbol (parse_symbol r))
      else one_symbol (parse_symbol r))"

section \<open>Other parameters\<close>

definition parse_markets :: "http_request \<Rightarrow> string list result" where
  "parse_markets r =
     (if query_value r ''markets'' = []
      then (if query_value r ''market'' = [] then Inr []
            else case parse_market (query_value r ''market'') of Inl e \<Rightarrow> Inl e | Inr m \<Rightarrow> Inr [m])
      else collect parse_market (split_on (CHR '','') (query_value r ''markets'')))"

definition parse_period_query :: "http_request \<Rightarrow> string \<Rightarrow> string \<Rightarrow> string result" where
  "parse_period_query r name fallback =
     (if query_value r name = [] then Inr fallback else parse_period (query_value r name))"

text \<open>What \<open>strconv.ParseBool\<close> reads as true.\<close>

definition true_words :: "string list" where
  "true_words = [''1'', ''t'', ''T'', ''TRUE'', ''true'', ''True'']"

definition parse_bool_query :: "http_request \<Rightarrow> string \<Rightarrow> bool" where
  "parse_bool_query r name \<longleftrightarrow> query_value r name \<in> set true_words"

definition parse_uint16_query :: "http_request \<Rightarrow> string \<Rightarrow> u16 \<Rightarrow> u16 result" where
  "parse_uint16_query r name fallback =
     (if query_value r name = [] then Inr fallback
      else case parse_uint 16 (query_value r name) of None \<Rightarrow> Inl ErrInvalidRequest | Some n \<Rightarrow> Inr (word_of_nat n))"

definition parse_uint32_query :: "http_request \<Rightarrow> string \<Rightarrow> u32 \<Rightarrow> u32 result" where
  "parse_uint32_query r name fallback =
     (if query_value r name = [] then Inr fallback
      else case parse_uint 32 (query_value r name) of None \<Rightarrow> Inl ErrInvalidRequest | Some n \<Rightarrow> Inr (word_of_nat n))"

text \<open>\<open>zone\<close> is the offset of \<open>time.Local\<close>.\<close>

definition parse_date_query :: "int \<Rightarrow> http_request \<Rightarrow> string \<Rightarrow> bool \<Rightarrow> gotime result" where
  "parse_date_query zone r name required =
     (if query_value r name = [] then (if required then Inl ErrInvalidRequest else Inr zero_time)
      else case parse_dashed zone (query_value r name) of
        None \<Rightarrow> Inl ErrInvalidRequest | Some t \<Rightarrow> Inr (normalize_date t))"

section \<open>Facts\<close>

lemma parse_market_err: "parse_market v = Inl e \<Longrightarrow> e = ErrInvalidRequest"
  by (auto simp: parse_market_def Let_def split: if_splits)

lemma new_symbol_err: "new_symbol m c = Inl e \<Longrightarrow> e = ErrInvalidRequest"
  by (auto simp: new_symbol_def validate_symbol_def Let_def split: option.splits if_splits)

lemma compact_loop_err: "compact_loop raw upper ms = Some (Inl e) \<Longrightarrow> e = ErrInvalidRequest"
  by (induction ms) (auto split: if_splits dest: new_symbol_err)

lemma parse_symbol_string_err: "parse_symbol_string raw = Inl e \<Longrightarrow> e = ErrInvalidRequest"
  by (auto simp: parse_symbol_string_def parse_delimited_symbol_def parse_compact_symbol_def Let_def
      dest: new_symbol_err compact_loop_err split: if_splits option.splits sum.splits)

lemma symbol_list_err: "parse_symbol_list raw = Inl e \<Longrightarrow> e = ErrInvalidRequest"
  by (auto simp: parse_symbol_list_def dest!: collect_Inl dest: parse_symbol_string_err split: sum.splits if_splits)

lemma market_and_code_err: "market_and_code m c = Inl e \<Longrightarrow> e = ErrInvalidRequest"
  by (auto simp: market_and_code_def dest: parse_symbol_string_err parse_market_err new_symbol_err split: if_splits sum.splits)

text \<open>Every error of the parsers is \<open>ErrInvalidRequest\<close>.\<close>

lemma parse_errors:
  "parse_symbol r = Inl e \<Longrightarrow> e = ErrInvalidRequest"
  "parse_symbols r = Inl e \<Longrightarrow> e = ErrInvalidRequest"
  "parse_optional_symbols r = Inl e \<Longrightarrow> e = ErrInvalidRequest"
  "parse_markets r = Inl e \<Longrightarrow> e = ErrInvalidRequest"
  "parse_uint16_query r name f = Inl e \<Longrightarrow> e = ErrInvalidRequest"
  "parse_uint32_query r name g = Inl e \<Longrightarrow> e = ErrInvalidRequest"
  "parse_date_query zone r name required = Inl e \<Longrightarrow> e = ErrInvalidRequest"
  by (auto simp: parse_symbol_def parse_symbols_def parse_optional_symbols_def parse_markets_def parse_uint16_query_def
      parse_uint32_query_def parse_date_query_def parse_symbols_body_def one_symbol_def
      dest: parse_symbol_string_err symbol_list_err market_and_code_err parse_market_err
      split: if_splits option.splits sum.splits symbols_body.splits dest!: collect_Inl)

text \<open>A trimmed text behind a visible byte stays trimmed.\<close>

lemma space3_mid: "space3 c d e \<Longrightarrow> 128 \<le> (of_char d :: nat)"
  by (simp only: space3_def char_eq_code) auto

lemma drop_space_rev_after:
  assumes "ascii_visible x" and "r \<noteq> []" and "drop_space_rev r = None"
  shows "drop_space_rev (r @ x # t) = None"
proof -
  obtain c r' where r: "r = c # r'" using assms(2) by (cases r) auto
  have x: "(of_char x :: nat) < 128" using assms(1) by (simp add: ascii_visible_def)
  show ?thesis
  proof (cases r')
    case Nil
    then show ?thesis
      using assms(3) r x by (auto simp: drop_space_rev_def split: list.splits if_splits dest: space2_code space3_mid)
  next
    case (Cons d r'')
    then show ?thesis
      using assms(3) r x
      by (cases r'') (auto simp: drop_space_rev_def split: list.splits if_splits dest: space3_code)
  qed
qed

lemma trim_behind:
  assumes "h \<noteq> []" and "ascii_visible (hd h)" and "ascii_visible (last h)" and "trim_space c = c" and "c \<noteq> []"
  shows "trim_space (h @ c) = h @ c"
proof (rule trim_space_id)
  show "drop_space (h @ c) = None" using assms(1,2) by (cases h) (simp_all add: drop_space_visible)
  have d: "drop_space_rev (rev c) = None" using trim_space_fixed(2) [of c] assms(4) by simp
  have "rev h = last h # tl (rev h)" using assms(1) by (metis hd_rev list.exhaust_sel rev_is_Nil_conv)
  then have r: "rev (h @ c) = rev c @ last h # tl (rev h)" by (metis rev_append)
  show "drop_space_rev (rev (h @ c)) = None"
    unfolding r by (rule drop_space_rev_after) (use assms(3,5) d in simp_all)
qed

lemma known_market_visible: "m \<in> set known_markets \<Longrightarrow> m \<noteq> [] \<and> ascii_visible (hd m) \<and> ascii_visible (last m)"
  by (auto simp: known_markets_def ascii_visible_def)

lemma colon_visible: "ascii_visible (CHR '':'')"
  by (simp add: ascii_visible_def)

lemma parse_known: "m \<in> set known_markets \<Longrightarrow> parse_market m = Inr m"
  by (simp add: parse_market_Inr known_markets_normal)

lemma valid_symbol_form:
  assumes "parse_market v = Inr m" and "new_symbol m c = Inr s"
  shows "m \<in> set known_markets" "s = mk_symbol m (trim_space c)" "trim_space c \<noteq> []" "symbol_key s = m @ '':'' @ trim_space c"
proof -
  have m: "m \<in> set known_markets" "normalize_market m = m" using assms(1) by (auto simp: parse_market_Inr known_markets_normal)
  then have s: "s = mk_symbol m (trim_space c)" "trim_space c \<noteq> []"
    using assms(2) by (auto simp: new_symbol_Inr normalize_code_def)
  show "m \<in> set known_markets" "s = mk_symbol m (trim_space c)" "trim_space c \<noteq> []" "symbol_key s = m @ '':'' @ trim_space c"
    using m s known_market_no_colon [OF m(1)] by (simp_all add: symbol_key_def Let_def normalize_code_def)
qed

lemma parse_key:
  assumes "parse_market v = Inr m" and "new_symbol m c = Inr s"
  shows "parse_symbol_string (symbol_key s) = Inr s"
proof -
  note f = valid_symbol_form [OF assms]
  note vis = known_market_visible [OF f(1)] and col = known_market_no_colon [OF f(1)]
  let ?c = "trim_space c"
  have t: "trim_space (m @ '':'' @ ?c) = m @ '':'' @ ?c"
    using trim_behind [of "m @ '':''" ?c] vis f(3) colon_visible by simp
  have c: "cut (CHR '':'') (m @ '':'' @ ?c) = Some (m, ?c)" using cut_append [of "CHR '':''" m ?c] col by simp
  have m: "trim_space m = m" using vis by (intro trim_space_visible) auto
  have n: "new_symbol m ?c = Inr s"
    using f(2,3) known_markets_normal [OF f(1)] col by (simp add: new_symbol_Inr normalize_code_def)
  show ?thesis
    using t c m n parse_known [OF f(1)] by (simp add: f(4) parse_symbol_string_def parse_delimited_symbol_def Let_def)
qed

text \<open>Codes of digits.\<close>

lemma digit_upper: "is_digit c \<Longrightarrow> upper_char c = c"
  by (auto simp: is_digit_def upper_char_def)

lemma digits_upper: "list_all is_digit c \<Longrightarrow> to_upper c = c"
  by (induction c) (simp_all add: to_upper_def digit_upper)

lemma market_chars: "m \<in> set known_markets \<Longrightarrow> x \<in> set m \<Longrightarrow> \<not> is_digit x"
  by (auto simp: known_markets_def is_digit_def)

lemma market_shape: "m \<in> set known_markets \<Longrightarrow> length m = 2 \<and> to_upper m = m"
  by (auto simp: known_markets_def to_upper_def upper_char_def)

lemma digits_shape:
  assumes "list_all is_digit c" and "c \<noteq> []"
  shows "is_digit (hd c)" "is_digit (last c)"
  using assms by (simp_all add: list_all_iff)

lemma compact_prefix:
  "m \<in> set ms \<Longrightarrow> \<forall>m' \<in> set ms. (has_prefix upper m' \<longleftrightarrow> m' = m) \<and> \<not> has_suffix upper m' \<Longrightarrow> length m < length raw \<Longrightarrow>
   compact_loop raw upper ms = Some (new_symbol m (drop (length m) raw))"
  by (induction ms) auto

lemma compact_suffix:
  "m \<in> set ms \<Longrightarrow> \<forall>m' \<in> set ms. (has_suffix upper m' \<longleftrightarrow> m' = m) \<and> \<not> has_prefix upper m' \<Longrightarrow> length m < length raw \<Longrightarrow>
   compact_loop raw upper ms = Some (new_symbol m (take (length raw - length m) raw))"
  by (induction ms) auto

lemma compact_none:
  "\<forall>m' \<in> set ms. \<not> has_suffix upper m' \<and> \<not> has_prefix upper m' \<Longrightarrow> compact_loop raw upper ms = None"
  by (induction ms) auto

lemma no_prefix: "m \<in> set known_markets \<Longrightarrow> s \<noteq> [] \<Longrightarrow> is_digit (hd s) \<Longrightarrow> \<not> has_prefix s m"
proof
  assume a: "m \<in> set known_markets" "s \<noteq> []" "is_digit (hd s)" "has_prefix s m"
  then have "hd m = hd s" using market_shape [OF a(1)] by (metis has_prefix_def hd_take zero_less_numeral)
  moreover have "m \<noteq> []" using market_shape [OF a(1)] by auto
  ultimately show False using market_chars [OF a(1), of "hd m"] a(3) hd_in_set [of m] by metis
qed

lemma no_suffix: "m \<in> set known_markets \<Longrightarrow> s \<noteq> [] \<Longrightarrow> is_digit (last s) \<Longrightarrow> \<not> has_suffix s m"
proof
  assume a: "m \<in> set known_markets" "s \<noteq> []" "is_digit (last s)" "has_suffix s m"
  have ne: "m \<noteq> []" using market_shape [OF a(1)] by auto
  then have "last m = last s" using a(4) by (metis has_suffix_def last_drop length_drop length_greater_0_conv zero_less_diff)
  then show False using market_chars [OF a(1), of "last m"] a(3) ne last_in_set [of m] by metis
qed

lemma market_has_prefix: "m \<in> set known_markets \<Longrightarrow> m' \<in> set known_markets \<Longrightarrow> has_prefix (m @ s) m' \<longleftrightarrow> m' = m"
  using market_shape [of m] market_shape [of m'] by (auto simp: has_prefix_def)

lemma market_has_suffix: "m \<in> set known_markets \<Longrightarrow> m' \<in> set known_markets \<Longrightarrow> has_suffix (s @ m) m' \<longleftrightarrow> m' = m"
  using market_shape [of m] market_shape [of m'] by (auto simp: has_suffix_def)

lemma to_upper_append: "to_upper (s @ t) = to_upper s @ to_upper t"
  by (simp add: to_upper_def)

lemma digit_no_sep: "is_digit x \<Longrightarrow> x \<noteq> CHR '':'' \<and> x \<noteq> CHR ''.''"
  by (auto simp: is_digit_def)

lemma market_no_sep: "m \<in> set known_markets \<Longrightarrow> CHR '':'' \<notin> set m \<and> CHR ''.'' \<notin> set m"
  by (auto simp: known_markets_def)

lemma digits_market: "list_all is_digit c \<Longrightarrow> c \<noteq> [] \<Longrightarrow> parse_market c = Inl ErrInvalidRequest"
proof -
  assume c: "list_all is_digit c" "c \<noteq> []"
  have "trim_space c = c" using c digits_shape [OF c] by (intro trim_space_visible) (auto intro: digit_visible)
  then have "normalize_market c = c" using digits_upper [OF c(1)] by (simp add: normalize_market_def)
  moreover have "c \<notin> set known_markets" using market_chars [of c "hd c"] digits_shape [OF c] c(2) by auto
  ultimately show ?thesis by (simp add: parse_market_def)
qed

lemma digits_symbol: "m \<in> set known_markets \<Longrightarrow> list_all is_digit c \<Longrightarrow> c \<noteq> [] \<Longrightarrow> new_symbol m c = Inr (mk_symbol m c)"
  using known_market_no_colon [of m] trim_space_visible [of c] digits_shape [of c] digit_visible
  by (simp add: new_symbol_Inr known_markets_normal normalize_code_def)

lemma infer_digits:
  assumes "list_all is_digit c" and "c \<noteq> []"
  shows "if hd c \<in> {CHR ''1'', CHR ''7''} then infer_market_from_code c = None
    else (\<exists>m \<in> set known_markets. infer_market_from_code c = Some m)"
proof -
  obtain x cs where c: "c = x # cs" using assms(2) by (cases c) auto
  have "is_digit x" using assms(1) c by simp
  then have "x = CHR ''0'' \<or> x = CHR ''1'' \<or> x = CHR ''2'' \<or> x = CHR ''3'' \<or> x = CHR ''4'' \<or> x = CHR ''5'' \<or> x = CHR ''6'' \<or>
      x = CHR ''7'' \<or> x = CHR ''8'' \<or> x = CHR ''9''"
    unfolding is_digit_def char_eq_code by (simp, presburger)
  then show ?thesis by (auto simp: c infer_market_from_code_def known_markets_def)
qed

lemma trim_dashed:
  assumes "civil (local_day t) = (y, m, d)" and "0 \<le> y" and "y \<le> 9999"
  shows "trim_space (format_dashed t) = format_dashed t"
proof -
  have f: "format_dashed t = pad 4 (nat y) @ ''-'' @ pad 2 m @ ''-'' @ pad 2 d"
    using assms by (simp add: format_dashed_def year_text_def)
  have "nat y < 10 ^ 4" using assms(2,3) by (simp add: nat_less_iff)
  then have l: "pad 4 (nat y) \<noteq> []" "pad 2 d \<noteq> []"
    using length_pad [of 4 "nat y"] length_pad2 [of d] civil_bounds [OF assms(1)] by auto
  then have "is_digit (hd (pad 4 (nat y)))" "is_digit (last (pad 2 d))" using pad_chars by (metis hd_in_set, metis last_in_set)
  then show ?thesis using l unfolding f by (intro trim_space_visible) (auto intro: digit_visible)
qed

section \<open>Properties\<close>

text \<open>Keys and lists of keys read back.\<close>

lemma read_back:
  assumes "\<forall>s \<in> set ss. \<exists>v m c. parse_market v = Inr m \<and> new_symbol m c = Inr s" and "ss \<noteq> []"
    and "\<forall>s \<in> set ss. CHR '','' \<notin> set (s_code s)"
  shows "(\<forall>s \<in> set ss. parse_symbol_string (symbol_key s) = Inr s) \<and>
    parse_symbol_list (join '','' (map symbol_key ss)) = Inr ss"
proof -
  have one: "parse_symbol_string (symbol_key s) = Inr s" if "s \<in> set ss" for s
    using assms(1) that parse_key by blast
  have "CHR '','' \<notin> set (symbol_key s)" if s: "s \<in> set ss" for s
  proof -
    obtain v m c where h: "parse_market v = Inr m" "new_symbol m c = Inr s" using assms(1) s by blast
    note f = valid_symbol_form [OF h]
    have "CHR '','' \<notin> set m" using f(1) by (auto simp: known_markets_def)
    then show ?thesis using assms(3) s f(2,4) by auto
  qed
  then have "split_on (CHR '','') (join '','' (map symbol_key ss)) = map symbol_key ss"
    using assms(2) by (intro split_on_join) auto
  moreover have "collect parse_symbol_string (map symbol_key ss) = Inr ss"
    by (simp add: collect_Inr list_all2_conv_all_nth one)
  ultimately show ?thesis using one assms(2) by (simp add: parse_symbol_list_def)
qed

text \<open>
  C25: the text of a symbol reads back as the symbol.  The key of any symbol that \<open>ParseMarket\<close> and \<open>NewSymbol\<close> accept, the
  form in which the interface shows symbols, is parsed to that symbol again; and a list of such symbols
  whose codes have no comma, joined by commas, is parsed to the list.
\<close>

theorem symbols_read_back:
  assumes "\<forall>s \<in> set ss. \<exists>v m c. parse_market v = Inr m \<and> new_symbol m c = Inr s" and "ss \<noteq> []"
    and "\<forall>s \<in> set ss. CHR '','' \<notin> set (s_code s)"
  shows "(\<forall>s \<in> set ss. parse_symbol_string (symbol_key s) = Inr s) \<and>
    parse_symbol_list (join '','' (map symbol_key ss)) = Inr ss"
  by (rule read_back [OF assms])

theorem symbols_read_back_witness:
  "parse_symbol_list ''SH:600000,SZ:000001'' = Inr [mk_symbol ''SH'' ''600000'', mk_symbol ''SZ'' ''000001'']"
proof -
  have p: "parse_market ''SH'' = Inr ''SH''" "parse_market ''SZ'' = Inr ''SZ''"
    "new_symbol ''SH'' ''600000'' = Inr (mk_symbol ''SH'' ''600000'')" "new_symbol ''SZ'' ''000001'' = Inr (mk_symbol ''SZ'' ''000001'')"
    by code_simp+
  have k: "symbol_key (mk_symbol ''SH'' ''600000'') = ''SH:600000''" "symbol_key (mk_symbol ''SZ'' ''000001'') = ''SZ:000001''"
    by code_simp+
  have "\<forall>s \<in> set [mk_symbol ''SH'' ''600000'', mk_symbol ''SZ'' ''000001'']. \<exists>v m c. parse_market v = Inr m \<and> new_symbol m c = Inr s"
    using p by (simp only: list.set ball_simps) blast
  from symbols_read_back [OF this] show ?thesis by (simp add: k)
qed

text \<open>
  a code of digits can be written in every usual way.  With a known market \<open>m\<close> and a code of digits \<open>c\<close>,
  the forms \<open>m:c\<close>, \<open>m.c\<close>, \<open>c:m\<close>, \<open>c.m\<close>, \<open>mc\<close> and \<open>cm\<close> are all read as that symbol, and the code alone as the symbol of
  the market its first digit stands for, or as an error for the digits 1 and 7.
\<close>

theorem symbol_spellings:
  assumes "m \<in> set known_markets" and "list_all is_digit c" and "c \<noteq> []"
  shows "(\<forall>raw \<in> {m @ '':'' @ c, m @ ''.'' @ c, c @ '':'' @ m, c @ ''.'' @ m, m @ c, c @ m}.
      parse_symbol_string raw = Inr (mk_symbol m c)) \<and>
    parse_symbol_string c = (if hd c \<in> {CHR ''1'', CHR ''7''} then Inl ErrInvalidRequest
      else Inr (mk_symbol (the (infer_market_from_code c)) c))"
proof -
  note d = digits_shape [OF assms(2,3)] and new = digits_symbol [OF assms] and mv = known_market_visible [OF assms(1)]
    and ms = market_shape [OF assms(1)] and sep = market_no_sep [OF assms(1)]
  have cs: "CHR '':'' \<notin> set c" "CHR ''.'' \<notin> set c" using assms(2) digit_no_sep by (auto simp: list_all_iff)
  have dv: "ascii_visible (hd c)" "ascii_visible (last c)" using d digit_visible by auto
  have tm: "trim_space m = m" and tc: "trim_space c = c" using mv dv assms(3) by (auto intro: trim_space_visible)
  have pc: "parse_market c = Inl ErrInvalidRequest" using digits_market [OF assms(2,3)] .
  have trims: "trim_space (m @ y @ c) = m @ y @ c" "trim_space (c @ y @ m) = c @ y @ m" for y
    using mv dv assms(3) by (auto intro!: trim_space_visible)
  have delim: "parse_delimited_symbol m c = Inr (mk_symbol m c)" "parse_delimited_symbol c m = Inr (mk_symbol m c)"
    using parse_known [OF assms(1)] tm tc new pc by (simp_all add: parse_delimited_symbol_def)
  have 1: "parse_symbol_string (m @ '':'' @ c) = Inr (mk_symbol m c)" "parse_symbol_string (c @ '':'' @ m) = Inr (mk_symbol m c)"
    using trims [of "'':''"] cut_append [of "CHR '':''" m c] cut_append [of "CHR '':''" c m] sep cs delim
    by (simp_all add: parse_symbol_string_def)
  have 2: "parse_symbol_string (m @ ''.'' @ c) = Inr (mk_symbol m c)" "parse_symbol_string (c @ ''.'' @ m) = Inr (mk_symbol m c)"
    using trims [of "''.''"] cut_append [of "CHR ''.''" m c] cut_append [of "CHR ''.''" c m] sep cs delim
      cut_None [of "CHR '':''" "m @ ''.'' @ c"] cut_None [of "CHR '':''" "c @ ''.'' @ m"]
    by (simp_all add: parse_symbol_string_def)
  have up: "to_upper (m @ c) = m @ c" "to_upper (c @ m) = c @ m" "to_upper c = c"
    using ms digits_upper [OF assms(2)] by (simp_all add: to_upper_append)
  have "compact_loop (m @ c) (m @ c) known_markets = Some (new_symbol m (drop (length m) (m @ c)))"
    using no_suffix [of _ "m @ c"] market_has_prefix [OF assms(1), of _ c] d assms by (intro compact_prefix) auto
  moreover have "compact_loop (c @ m) (c @ m) known_markets = Some (new_symbol m (take (length (c @ m) - length m) (c @ m)))"
    using no_prefix [of _ "c @ m"] market_has_suffix [OF assms(1), of _ c] d assms by (intro compact_suffix) auto
  ultimately have 3: "parse_symbol_string (m @ c) = Inr (mk_symbol m c)" "parse_symbol_string (c @ m) = Inr (mk_symbol m c)"
    using trims [of "[]"] new up sep cs cut_None [of "CHR '':''" "m @ c"] cut_None [of "CHR '':''" "c @ m"]
      cut_None [of "CHR ''.''" "m @ c"] cut_None [of "CHR ''.''" "c @ m"] assms(3)
    by (simp_all add: parse_symbol_string_def parse_compact_symbol_def)
  have "compact_loop c c known_markets = None"
    using no_prefix [of _ c] no_suffix [of _ c] d assms by (intro compact_none) auto
  then have p: "parse_symbol_string c =
      (case infer_market_from_code c of Some m \<Rightarrow> new_symbol m c | None \<Rightarrow> Inl ErrInvalidRequest)"
    using tc assms(3) cs cut_None [of "CHR '':''" c] cut_None [of "CHR ''.''" c] up
    by (simp add: parse_symbol_string_def parse_compact_symbol_def)
  show ?thesis using 1 2 3 infer_digits [OF assms(2,3)] digits_symbol [OF _ assms(2,3)] unfolding p by auto
qed

theorem symbol_spellings_witness:
  "parse_symbol_string ''600000.SZ'' = Inr (mk_symbol ''SZ'' ''600000'') \<and>
   parse_symbol_string ''600000'' = Inr (mk_symbol ''SH'' ''600000'')"
proof -
  have a: "''SZ'' \<in> set known_markets" "list_all is_digit ''600000''" "''600000'' \<noteq> []" by code_simp+
  have i: "infer_market_from_code ''600000'' = Some ''SH''" by code_simp
  from symbol_spellings [OF a] show ?thesis by (simp add: i)
qed

text \<open>
  A date reads back.  For any time in a year from 0 to 9999, the date the interface shows for it is accepted
  as a parameter and means midnight of that day in the local zone; the empty parameter is no date, or an error where a date is
  required.
\<close>

lemma date_query_reads_back:
  assumes "civil (local_day t) = (y, m, d)" and "0 \<le> y" and "y \<le> 9999" and "\<not> is_zero (midnight zone (local_day t))"
    and "hr_query r name = format_dashed t"
  shows "parse_date_query zone r name required = Inr (midnight zone (local_day t))"
proof -
  have p: "parse_dashed zone (format_dashed t) = Some (midnight zone (local_day t))"
    using parse_format_dashed [OF assms(1-3)] .
  have l: "length (format_dashed t) = 10" using p by (auto simp: parse_dashed_def Let_def split: if_splits)
  have n: "normalize_date (midnight zone (local_day t)) = midnight zone (local_day t)"
    using assms(4) by (simp add: normalize_date_def)
  have q: "query_value r name = format_dashed t"
    unfolding query_value_def assms(5) by (rule trim_dashed [OF assms(1-3)])
  show ?thesis using p l n by (auto simp: parse_date_query_def q)
qed

end
