(* ===== verification/Http_Dto.thy ===== *)
theory Http_Dto
  imports Domain
begin

text \<open>
  The values the HTTP interface answers with (\<^verbatim>\<open>internal/api/http/dto.go\<close>) and their making from the domain's.  The
  fields are those of the source in its order; the names they have in JSON are left out with the encoding.
\<close>

section \<open>Times\<close>

text \<open>\<open>time.RFC3339\<close>: seconds of the local day, and the offset in minutes, \<open>Z\<close> for none.\<close>

definition offset_text :: "int \<Rightarrow> string" where
  "offset_text zone =
     (let seconds = zone div second in
      if seconds = 0 then ''Z''
      else let minutes = nat (\<bar>seconds\<bar> div 60) in
        (if seconds < 0 then ''-'' else ''+'') @ pad 2 (minutes div 60) @ '':'' @ pad 2 (minutes mod 60))"

definition format_rfc3339 :: "gotime \<Rightarrow> string" where
  "format_rfc3339 t =
     (let s = nat ((t_nanos t + t_zone t) mod day_ns div second) in
      format_dashed t @ ''T'' @ pad 2 (s div 3600) @ '':'' @ pad 2 (s div 60 mod 60) @ '':'' @ pad 2 (s mod 60) @ offset_text (t_zone t))"

definition format_date :: "gotime \<Rightarrow> string" where
  "format_date t = (if is_zero t then [] else format_dashed (normalize_date t))"

definition format_time :: "gotime \<Rightarrow> string" where
  "format_time t = (if is_zero t then [] else format_rfc3339 t)"

fun first_non_empty :: "string list \<Rightarrow> string" where
  "first_non_empty [] = []"
| "first_non_empty (v # vs) = (if v \<noteq> [] then v else first_non_empty vs)"

section \<open>Values\<close>

record symbol_dto =
  sd_market :: string
  sd_code :: string
  sd_name :: string
  sd_type :: string
  sd_status :: string

record level_dto =
  ld_price :: float64
  ld_volume :: int

record quote_dto =
  qd_symbol :: symbol_dto
  qd_last_price :: float64
  qd_open :: float64
  qd_high :: float64
  qd_low :: float64
  qd_pre_close :: float64
  qd_volume :: int
  qd_amount :: float64
  qd_bid_levels :: "level_dto list"
  qd_ask_levels :: "level_dto list"
  qd_quote_time :: string
  qd_source_time :: string
  qd_cached :: bool

record order_book_dto =
  od_symbol :: symbol_dto
  od_bid_levels :: "level_dto list"
  od_ask_levels :: "level_dto list"
  od_source_time :: string
  od_cached :: bool

record tick_dto =
  kd_symbol :: symbol_dto
  kd_trade_date :: string
  kd_trade_time :: string
  kd_price :: float64
  kd_volume :: int
  kd_amount :: float64
  kd_direction :: string
  kd_sequence :: int
  kd_source :: string
  kd_cached :: bool

record bar_dto =
  bd_symbol :: symbol_dto
  bd_period :: string
  bd_adjust :: string
  bd_time :: string
  bd_open :: float64
  bd_high :: float64
  bd_low :: float64
  bd_close :: float64
  bd_volume :: float64
  bd_amount :: float64
  bd_source :: string

record xdxr_dto =
  xd_symbol :: symbol_dto
  xd_event_date :: string
  xd_event_type :: string
  xd_cash_dividend :: float64
  xd_bonus_share :: float64
  xd_allotment_price :: float64
  xd_allotment_ratio :: float64
  xd_raw_fields :: "string \<rightharpoonup> go_any"

record security_dto =
  ed_symbol :: symbol_dto
  ed_fields :: "string \<rightharpoonup> go_any"
  ed_cached :: bool

record trading_session_dto =
  nd_open_minutes :: u16
  nd_close_minutes :: u16
  nd_open :: string
  nd_close :: string

record trading_day_dto =
  dd_today :: string
  dd_is_trading :: bool
  dd_latest :: string
  dd_previous :: string
  dd_sessions :: "trading_session_dto list"
  dd_alt_sessions :: "trading_session_dto list"
  dd_source_time :: string
  dd_cached :: bool

record finance_dto =
  fd_symbol :: symbol_dto
  fd_fields :: "string \<rightharpoonup> go_any"
  fd_source_time :: string
  fd_cached :: bool

section \<open>Mapping\<close>

definition dto_symbol :: "symbol \<Rightarrow> symbol_dto" where
  "dto_symbol s = \<lparr>sd_market = normalize_market (s_market s), sd_code = normalize_code (s_code s), sd_name = s_name s,
     sd_type = s_type s, sd_status = s_status s\<rparr>"

definition dto_levels :: "level list \<Rightarrow> level_dto list" where
  "dto_levels items = map (\<lambda>l. \<lparr>ld_price = l_price l, ld_volume = l_volume l\<rparr>) items"

definition dto_quotes :: "quote list \<Rightarrow> quote_dto list" where
  "dto_quotes items = map (\<lambda>q. \<lparr>qd_symbol = dto_symbol (q_symbol q), qd_last_price = q_last_price q, qd_open = q_open q,
     qd_high = q_high q, qd_low = q_low q, qd_pre_close = q_pre_close q, qd_volume = q_volume q, qd_amount = q_amount q,
     qd_bid_levels = dto_levels (q_bid_levels q), qd_ask_levels = dto_levels (q_ask_levels q),
     qd_quote_time = format_time (q_quote_time q), qd_source_time = format_time (q_source_time q), qd_cached = q_cached q\<rparr>) items"

definition dto_order_books :: "order_book list \<Rightarrow> order_book_dto list" where
  "dto_order_books items = map (\<lambda>b. \<lparr>od_symbol = dto_symbol (ob_symbol b), od_bid_levels = dto_levels (ob_bid_levels b),
     od_ask_levels = dto_levels (ob_ask_levels b), od_source_time = format_time (ob_source_time b), od_cached = ob_cached b\<rparr>) items"

definition dto_ticks :: "tick list \<Rightarrow> tick_dto list" where
  "dto_ticks items = map (\<lambda>t. \<lparr>kd_symbol = dto_symbol (tk_symbol t), kd_trade_date = format_date (tk_trade_date t),
     kd_trade_time = format_time (tk_trade_time t), kd_price = tk_price t, kd_volume = tk_volume t, kd_amount = tk_amount t,
     kd_direction = tk_direction t, kd_sequence = tk_sequence t, kd_source = tk_source t, kd_cached = tk_cached t\<rparr>) items"

definition dto_bars :: "bar list \<Rightarrow> bar_dto list" where
  "dto_bars items = map (\<lambda>b. \<lparr>bd_symbol = dto_symbol (b_symbol b), bd_period = b_period b, bd_adjust = b_adjust b,
     bd_time = format_time (b_time b), bd_open = b_open b, bd_high = b_high b, bd_low = b_low b, bd_close = b_close b,
     bd_volume = b_volume b, bd_amount = b_amount b, bd_source = b_source b\<rparr>) items"

definition dto_xdxr :: "xdxr_event list \<Rightarrow> xdxr_dto list" where
  "dto_xdxr items = map (\<lambda>x. \<lparr>xd_symbol = dto_symbol (x_symbol x), xd_event_date = format_date (x_event_date x),
     xd_event_type = x_event_type x, xd_cash_dividend = x_cash_dividend x, xd_bonus_share = x_bonus_share x,
     xd_allotment_price = x_allotment_price x, xd_allotment_ratio = x_allotment_ratio x, xd_raw_fields = x_raw_fields x\<rparr>) items"

definition dto_securities :: "security_info list \<Rightarrow> security_dto list" where
  "dto_securities items = map (\<lambda>s. \<lparr>ed_symbol = dto_symbol (si_symbol s), ed_fields = si_fields s, ed_cached = si_cached s\<rparr>) items"

definition dto_trading_sessions :: "trading_session list \<Rightarrow> trading_session_dto list" where
  "dto_trading_sessions items = map (\<lambda>s. \<lparr>nd_open_minutes = ts_open_minutes s, nd_close_minutes = ts_close_minutes s,
     nd_open = ts_open s, nd_close = ts_close s\<rparr>) items"

definition dto_trading_day :: "trading_day_info option \<Rightarrow> trading_day_dto option" where
  "dto_trading_day info = map_option (\<lambda>i. \<lparr>dd_today = first_non_empty [td_today_string i, format_date (td_today i)],
     dd_is_trading = td_is_trading i, dd_latest = first_non_empty [td_latest_string i, format_date (td_latest i)],
     dd_previous = first_non_empty [td_previous_string i, format_date (td_previous i)],
     dd_sessions = dto_trading_sessions (td_sessions i), dd_alt_sessions = dto_trading_sessions (td_alt_sessions i),
     dd_source_time = format_time (td_source_time i), dd_cached = td_cached i\<rparr>) info"

definition dto_finance :: "finance_info option \<Rightarrow> finance_dto option" where
  "dto_finance item = map_option (\<lambda>i. \<lparr>fd_symbol = dto_symbol (f_symbol i), fd_fields = f_fields i,
     fd_source_time = format_time (f_source_time i), fd_cached = f_cached i\<rparr>) item"

end
