(* ===== verification/Rate_Limiter.thy ===== *)
theory Rate_Limiter
  imports Go_Float Go_Time "HOL-Library.Signed_Division"
begin

text \<open>
  The token bucket of the HTTP interface (\<^verbatim>\<open>internal/api/http/limiter.go\<close>).  Tokens are \<open>float64\<close>, computed as the
  code computes them; the readings of the clock are arguments.
\<close>

section \<open>The limiter\<close>

record rate_limit_config =
  rc_requests_per_second :: int
  rc_burst :: int

record rate_limiter =
  rl_requests_per_sec :: float64
  rl_capacity :: float64
  rl_tokens :: float64
  rl_last_refill :: gotime

text \<open>\<open>Burst\<close> after its default.\<close>

definition effective_burst :: "rate_limit_config \<Rightarrow> int" where
  "effective_burst cfg = (if rc_burst cfg \<le> 0 then rc_requests_per_second cfg else rc_burst cfg)"

definition new_rate_limiter :: "rate_limit_config \<Rightarrow> gotime \<Rightarrow> rate_limiter option" where
  "new_rate_limiter cfg now =
     (if rc_requests_per_second cfg \<le> 0 then None
      else Some \<lparr>rl_requests_per_sec = f_of_int (rc_requests_per_second cfg), rl_capacity = f_of_int (effective_burst cfg),
        rl_tokens = f_of_int (effective_burst cfg), rl_last_refill = now\<rparr>)"

text \<open>\<open>Duration.Seconds\<close>: the seconds and the rest are converted apart.\<close>

definition duration_seconds :: "int \<Rightarrow> float64" where
  "duration_seconds d = f_add (f_of_int (d sdiv 1000000000)) (f_div (f_of_int (d smod 1000000000)) (f_of_int 1000000000))"

definition refill :: "gotime \<Rightarrow> rate_limiter \<Rightarrow> rate_limiter" where
  "refill now l =
     (let elapsed = time_sub now (rl_last_refill l) in
      if 0 < elapsed
      then let tokens = f_add (rl_tokens l) (f_mul (duration_seconds elapsed) (rl_requests_per_sec l))
           in l\<lparr>rl_tokens := (if f_less (rl_capacity l) tokens then rl_capacity l else tokens), rl_last_refill := now\<rparr>
      else l)"

definition allow :: "gotime \<Rightarrow> rate_limiter \<Rightarrow> bool \<times> rate_limiter" where
  "allow now l0 =
     (let l = refill now l0 in
      if f_less (rl_tokens l) (f_of_int 1) then (False, l)
      else (True, l\<lparr>rl_tokens := f_sub (rl_tokens l) (f_of_int 1)\<rparr>))"

text \<open>A \<open>nil\<close> limiter allows everything.\<close>

definition allow_request :: "gotime \<Rightarrow> rate_limiter option \<Rightarrow> bool \<times> rate_limiter option" where
  "allow_request now limiter =
     (case limiter of None \<Rightarrow> (True, None) | Some l \<Rightarrow> (case allow now l of (ok, l') \<Rightarrow> (ok, Some l')))"

fun allow_all :: "gotime list \<Rightarrow> rate_limiter \<Rightarrow> bool list \<times> rate_limiter" where
  "allow_all [] l = ([], l)"
| "allow_all (t # ts) l = (case allow t l of (ok, l') \<Rightarrow> (case allow_all ts l' of (oks, l'') \<Rightarrow> (ok # oks, l'')))"

section \<open>Rounding\<close>

lemma round_nat_le: "round_nat m x \<le> 2047 * 2 ^ 52"
  by (simp add: round_nat_def Let_def)

lemma shift_bits: "0 < c \<Longrightarrow> (a * c + n) div c = a + n div c \<and> (a * c + n) mod c = n mod c" for a c n :: nat
  by simp

lemma unat_bits: "k < 2 ^ 64 \<Longrightarrow> unat (word_of_nat k :: float64) = k"
  by (simp add: unat_of_nat)

lemma signed_bits_fields:
  assumes "n \<le> 2047 * 2 ^ 52"
  shows "f_sign (signed_bits neg n) = neg" "f_exp (signed_bits neg n) = n div 2 ^ 52" "f_frac (signed_bits neg n) = n mod 2 ^ 52"
proof -
  have u: "unat (signed_bits neg n) = (if neg then 2 ^ 63 + n else n)"
    using assms unat_bits [of n] unat_bits [of "2 ^ 63 + n"] by (simp only: signed_bits_def) (simp split: if_split)
  have d: "(2 ^ 63 + n) div 2 ^ 52 = 2 ^ 11 + n div 2 ^ 52" "(2 ^ 63 + n) mod 2 ^ 52 = n mod 2 ^ 52"
    using shift_bits [of "2 ^ 52" "2 ^ 11" n] by (simp_all flip: power_add)
  have n: "n div 2 ^ 52 < 2 ^ 11" using assms by (simp add: less_mult_imp_div_less)
  show "f_exp (signed_bits neg n) = n div 2 ^ 52" "f_frac (signed_bits neg n) = n mod 2 ^ 52"
    using d n by (simp_all add: f_exp_def f_frac_def u)
  have "bit (unat (signed_bits neg n)) 63 = bit (signed_bits neg n) 63" by (simp add: bit_unsigned_iff)
  then have "f_sign (signed_bits neg n) \<longleftrightarrow> odd (unat (signed_bits neg n) div 2 ^ 63)"
    unfolding f_sign_def by (metis bit_iff_odd)
  also have "\<dots> = neg" using assms unfolding u by (auto simp: div_add1_eq)
  finally show "f_sign (signed_bits neg n) = neg" .
qed

lemma signed_bits_not_nan: "n \<le> 2047 * 2 ^ 52 \<Longrightarrow> \<not> f_nan (signed_bits neg n)"
  by (cases "n = 2047 * 2 ^ 52") (auto simp: f_nan_def signed_bits_fields div_nat_eqI less_mult_imp_div_less)

lemma floorlog_power: "0 < m \<Longrightarrow> floorlog 2 (m * 2 ^ s) = floorlog 2 m + s"
proof (induction s)
  case (Suc s)
  have "floorlog 2 (m * 2 ^ Suc s) = floorlog 2 (m * 2 ^ Suc s div 2) + 1"
    by (subst compute_floorlog) (use Suc.prems in simp)
  also have "m * 2 ^ Suc s div 2 = m * 2 ^ s" by simp
  finally show ?case using Suc by simp
qed simp

lemma split_bits: "k < c \<Longrightarrow> (a * c + k) div c = a \<and> (a * c + k) mod c = k" for a c k :: nat
  by simp

lemma round_even_exact:
  assumes "y \<le> s"
  shows "round_even (m * 2 ^ s) y = m * 2 ^ (s - y)"
proof -
  have e: "m * 2 ^ s = m * 2 ^ (s - y) * 2 ^ y" using assms by (simp add: mult.assoc flip: power_add)
  have "m * 2 ^ s mod 2 ^ y = 0" "m * 2 ^ s div 2 ^ y = m * 2 ^ (s - y)" unfolding e by simp_all
  moreover have "(0 :: nat) < 2 ^ (y - 1)" by simp
  ultimately show ?thesis by (simp only: round_even_def Let_def) simp
qed

text \<open>A number with at most 53 significant bits is represented exactly.\<close>

lemma round_exact:
  assumes "m < 2 ^ 53" and "s \<le> 1100"
  defines "b \<equiv> signed_bits False (round_nat (m * 2 ^ s) 0)"
  shows "f_units b = int (m * 2 ^ s)" "\<not> f_inf b" "\<not> f_nan b" "\<not> f_sign b"
proof -
  have "f_units b = int (m * 2 ^ s) \<and> \<not> f_inf b"
  proof (cases "m = 0")
    case True
    then have "b = 0" by (simp add: b_def round_nat_def signed_bits_def)
    then show ?thesis using True by (simp add: f_units_def f_man_def f_exp_def f_frac_def f_inf_def)
  next
    case False
    let ?n = "m * 2 ^ s"
    define y where "y = floorlog 2 ?n - 53"
    have fl: "floorlog 2 ?n = floorlog 2 m + s" using False by (simp add: floorlog_power)
    have "floorlog 2 m \<le> 53" using assms(1) by (intro floorlog_leI) simp_all
    then have ys: "y \<le> s" by (simp add: y_def fl)
    define q where "q = m * 2 ^ (s - y)"
    have qn: "q * 2 ^ y = ?n" using ys by (simp add: q_def mult.assoc flip: power_add)
    have bounds: "2 ^ (floorlog 2 ?n - 1) \<le> ?n" "?n < 2 ^ floorlog 2 ?n" using floorlog_bounds [of ?n 2] False by simp_all
    have "q < 2 ^ 53"
    proof -
      have "?n < 2 ^ (53 + y)" using bounds(2) by (rule less_le_trans) (simp add: y_def)
      then have "q * 2 ^ y < 2 ^ 53 * 2 ^ y" unfolding qn power_add .
      then show ?thesis by simp
    qed
    have big: "2 ^ 52 \<le> q" if "0 < y"
    proof -
      have "floorlog 2 ?n - 1 = 52 + y" using that by (simp add: y_def)
      then have "2 ^ 52 * 2 ^ y \<le> q * 2 ^ y" using bounds(1) unfolding qn power_add [symmetric] by simp
      then show ?thesis by simp
    qed
    have even: "round_even ?n y = q" using round_even_exact [OF ys] by (simp add: q_def)
    have ymax: "max (int (floorlog 2 ?n) - 53) 0 = int y" by (simp add: y_def)
    have r: "round_nat ?n 0 = y * 2 ^ 52 + q"
    proof -
      have "y \<le> 1100" using ys assms(2) by simp
      then have "y * 2 ^ 52 + q < 2047 * 2 ^ 52" using \<open>q < 2 ^ 53\<close> by simp
      moreover have "q = ?n" if "y = 0" using qn that by simp
      ultimately show ?thesis using False even ymax by (cases "y = 0") (auto simp: round_nat_def Let_def)
    qed
    have le: "y * 2 ^ 52 + q \<le> 2047 * 2 ^ 52" using round_nat_le [of ?n 0] unfolding r .
    note f = signed_bits_fields [OF le, of False]
    show ?thesis
    proof (cases "q < 2 ^ 52")
      case True
      then have "y = 0" using big by linarith
      then show ?thesis
        using True qn f by (simp add: b_def r f_units_def f_man_def f_scale_def f_inf_def)
    next
      case False
      then obtain k where k: "q = 2 ^ 52 + k" by (metis le_iff_add not_less)
      have kk: "k < 2 ^ 52" using \<open>q < 2 ^ 53\<close> k by simp
      have e: "y * 2 ^ 52 + q = (y + 1) * 2 ^ 52 + k" using k by simp
      have d: "(y * 2 ^ 52 + q) div 2 ^ 52 = y + 1" "(y * 2 ^ 52 + q) mod 2 ^ 52 = k"
        unfolding e using split_bits [OF kk, of "y + 1"] by simp_all
      have "y + 1 < 2047" using ys assms(2) by simp
      then show ?thesis
        using f d k qn by (simp add: b_def r f_units_def f_man_def f_scale_def f_inf_def add.commute)
    qed
  qed
  then show "f_units b = int (m * 2 ^ s)" "\<not> f_inf b" by simp_all
  show "\<not> f_nan b" "\<not> f_sign b"
    unfolding b_def by (rule signed_bits_not_nan [OF round_nat_le], simp add: signed_bits_fields [OF round_nat_le])
qed

text \<open>The scale can be moved into the number.\<close>

lemma round_scale:
  assumes "m < 2 ^ 53"
  shows "round_nat m (int s) = round_nat (m * 2 ^ s) 0"
proof (cases "m = 0")
  case True
  then show ?thesis by (simp add: round_nat_def)
next
  case False
  define y where "y = floorlog 2 m + s - 53"
  have "floorlog 2 m \<le> 53" using assms by (intro floorlog_leI) simp_all
  then have ys: "y \<le> s" by (simp add: y_def)
  have l: "max (int s + int (floorlog 2 m) - 53) 0 = int y" "max (0 + int (floorlog 2 (m * 2 ^ s)) - 53) 0 = int y"
    using False by (simp_all add: y_def floorlog_power)
  have q: "nat (int s - int y) = s - y" "int y \<le> 0 \<longleftrightarrow> y = 0" "nat (int y - 0) = y" "int y \<le> int s" using ys by auto
  show ?thesis
    using False unfolding round_nat_def Let_def l q(1,3) by (simp add: q(2) ys round_even_exact [OF ys])
qed

section \<open>Numbers without a sign\<close>

text \<open>One, in units of the smallest number.\<close>

definition one_units :: int where
  "one_units = 2 ^ 1074"

lemma one_units_pos: "0 < one_units"
  by (simp add: one_units_def)

definition f_pos :: "float64 \<Rightarrow> bool" where
  "f_pos b \<longleftrightarrow> \<not> f_nan b \<and> \<not> f_sign b"

lemma f_pos_signed: "n \<le> 2047 * 2 ^ 52 \<Longrightarrow> f_pos (signed_bits False n)"
  by (simp add: f_pos_def signed_bits_not_nan signed_bits_fields)

lemma f_pos_units: "f_pos b \<Longrightarrow> 0 \<le> f_units b"
  by (simp add: f_pos_def f_units_def)

lemma of_int_exact:
  assumes "0 \<le> i" and "i < 2 ^ 53"
  shows "f_units (f_of_int i) = i * one_units" "\<not> f_inf (f_of_int i)" "f_pos (f_of_int i)"
proof -
  have m: "nat i < 2 ^ 53" using assms by (simp add: nat_less_iff)
  have e: "f_of_int i = signed_bits False (round_nat (nat i * 2 ^ 1074) 0)"
    using assms round_scale [OF m, of 1074] by (simp only: f_of_int_def) (simp del: power_numeral)
  note r = round_exact [OF m, of 1074]
  show "f_units (f_of_int i) = i * one_units"
    using r(1) assms(1) unfolding e one_units_def by (simp del: power_numeral)
  show "\<not> f_inf (f_of_int i)" "f_pos (f_of_int i)"
    using r(2-4) unfolding e f_pos_def by (simp_all del: power_numeral)
qed

text \<open>An integer of the code, positive: not infinite, not zero.\<close>

lemma round_even_le: "round_even m s \<le> m div 2 ^ s + 1"
  by (simp add: round_even_def Let_def)

lemma of_int_finite:
  assumes "0 < i" and "i < 2 ^ 63"
  shows "\<not> f_inf (f_of_int i)" "\<not> float_is_zero (f_of_int i)" "f_pos (f_of_int i)"
proof -
  let ?m = "nat i"
  have m: "0 < ?m" "?m < 2 ^ 63" using assms by (simp_all add: nat_less_iff)
  let ?fl = "floorlog 2 ?m"
  have fl: "1 \<le> ?fl" "?fl \<le> 63" using m by (auto simp: compute_floorlog [of 2 ?m] intro!: floorlog_leI)
  have lt: "?m < 2 ^ ?fl" using floorlog_bounds [of ?m 2] m by simp
  define y where "y = 1021 + ?fl"
  have y: "max (1074 + int ?fl - 53) 0 = int y" by (simp add: y_def)
  define q where "q = (if int y \<le> 1074 then ?m * 2 ^ nat (1074 - int y) else round_even ?m (nat (int y - 1074)))"
  have "q \<le> 2 ^ 53"
  proof (cases "y \<le> 1074")
    case True
    have "?m * 2 ^ (53 - ?fl) \<le> 2 ^ ?fl * 2 ^ (53 - ?fl)" using lt by (intro mult_right_mono) simp_all
    also have "\<dots> = 2 ^ 53" using True by (simp add: y_def flip: power_add)
    finally show ?thesis using True by (simp add: q_def y_def nat_diff_distrib)
  next
    case False
    have "2 ^ 53 * 2 ^ (?fl - 53) = (2::nat) ^ ?fl" unfolding power_add [symmetric] using False by (simp add: y_def)
    then have "?m < 2 ^ 53 * 2 ^ (?fl - 53)" using lt by metis
    then have "?m div 2 ^ (?fl - 53) < 2 ^ 53" by (simp add: less_mult_imp_div_less)
    moreover have "nat (int y - 1074) = ?fl - 53" using False by (simp add: y_def)
    ultimately show ?thesis using False round_even_le [of ?m "?fl - 53"] by (simp add: q_def)
  qed
  moreover have "1022 \<le> y" "y \<le> 1084" using fl by (simp_all add: y_def)
  ultimately have n: "y * 2 ^ 52 + q < 2047 * 2 ^ 52" "0 < y * 2 ^ 52 + q" by simp_all
  have r: "round_nat ?m 1074 = y * 2 ^ 52 + q"
    using m(1) n(1) unfolding round_nat_def Let_def y q_def by simp
  have e: "f_of_int i = signed_bits False (y * 2 ^ 52 + q)" using assms by (simp add: f_of_int_def r)
  have le: "y * 2 ^ 52 + q \<le> 2047 * 2 ^ 52" using n(1) by simp
  show "f_pos (f_of_int i)" unfolding e by (rule f_pos_signed [OF le])
  have "(y * 2 ^ 52 + q) div 2 ^ 52 < 2047" using n(1) by (rule less_mult_imp_div_less)
  then show "\<not> f_inf (f_of_int i)" unfolding e f_inf_def signed_bits_fields [OF le] by simp
  have u: "unat (f_of_int i) = y * 2 ^ 52 + q" unfolding e signed_bits_def if_False by (rule unat_bits) (use n(1) in simp)
  have "unat (f_of_int i) \<noteq> unat (0 :: float64)" "unat (f_of_int i) \<noteq> unat (0x8000000000000000 :: float64)"
    unfolding u using n by simp_all
  then show "\<not> float_is_zero (f_of_int i)" unfolding float_is_zero_def by metis
qed

lemma of_int_zero: "f_of_int 0 = 0"
  by (simp add: f_of_int_def round_nat_def signed_bits_def)

lemma f_pos_zero: "f_pos 0" "\<not> f_inf 0" "f_units 0 = 0"
  by (simp_all add: f_pos_def f_nan_def f_inf_def f_sign_def f_exp_def f_frac_def f_units_def f_man_def)

lemma f_pos_inf: "f_pos (signed_bits False (2047 * 2 ^ 52))"
  by (rule f_pos_signed) simp

lemma f_pos_add: "f_pos a \<Longrightarrow> f_pos b \<Longrightarrow> f_pos (f_add a b)"
  using f_pos_units [of a] f_pos_units [of b]
  by (auto simp: f_add_def Let_def f_pos_def signed_bits_not_nan [OF round_nat_le] signed_bits_fields [OF round_nat_le]
      signed_bits_not_nan signed_bits_fields)

lemma f_pos_div: "\<not> f_sign a \<Longrightarrow> \<not> f_sign b \<Longrightarrow> f_pos (f_div a b)"
  using f_pos_signed [OF round_nat_le] by (simp add: f_div_def Let_def)

lemma f_pos_mul: "f_pos a \<Longrightarrow> f_pos b \<Longrightarrow> \<not> f_inf b \<Longrightarrow> \<not> float_is_zero b \<Longrightarrow> \<not> (f_inf a \<and> float_is_zero a) \<Longrightarrow> f_pos (f_mul a b)"
  by (auto simp: f_mul_def Let_def f_pos_def signed_bits_not_nan [OF round_nat_le] signed_bits_fields [OF round_nat_le]
      signed_bits_not_nan signed_bits_fields)

lemma inf_not_zero: "f_inf a \<Longrightarrow> \<not> float_is_zero a"
  by (auto simp: f_inf_def f_exp_def float_is_zero_def)

lemma f_pos_seconds:
  assumes "0 < d" and "d < 2 ^ 63"
  shows "f_pos (duration_seconds d)"
proof -
  have n: "d sdiv 1000000000 = d div 1000000000" "d smod 1000000000 = d mod 1000000000"
    using assms by (simp_all add: signed_divide_int_def signed_modulo_int_def minus_div_mult_eq_mod)
  have pos: "f_pos (f_of_int i)" if "0 \<le> i" "i < 2 ^ 63" for i
    using of_int_finite(3) [of i] of_int_zero f_pos_zero(1) that by (cases "i = 0") simp_all
  have b: "0 \<le> d div 1000000000" "d div 1000000000 < 2 ^ 63" "0 \<le> d mod 1000000000" "d mod 1000000000 < 2 ^ 63"
    using assms pos_mod_bound [of 1000000000 d] by (simp_all add: pos_imp_zdiv_nonneg_iff)
  show ?thesis
    unfolding duration_seconds_def n
    by (intro f_pos_add f_pos_div pos b) (use pos [OF b(3,4)] pos [of 1000000000] in \<open>simp_all add: f_pos_def\<close>)
qed

section \<open>The bucket\<close>

definition limiter_ok :: "int \<Rightarrow> rate_limiter \<Rightarrow> bool" where
  "limiter_ok burst l \<longleftrightarrow> rl_capacity l = f_of_int burst \<and>
     (\<exists>r. 0 < r \<and> r < 2 ^ 63 \<and> rl_requests_per_sec l = f_of_int r) \<and>
     f_pos (rl_tokens l) \<and> \<not> f_inf (rl_tokens l) \<and> f_units (rl_tokens l) \<le> burst * one_units"

text \<open>Filling up to the capacity: what is not cut off is a number below it.\<close>

lemma clamp_ok:
  assumes "0 < burst" and "burst < 2 ^ 53" and "f_pos t"
  defines "t' \<equiv> if f_less (f_of_int burst) t then f_of_int burst else t"
  shows "f_pos t'" "\<not> f_inf t'" "f_units t' \<le> burst * one_units"
proof -
  have c: "f_units (f_of_int burst) = burst * one_units" "\<not> f_inf (f_of_int burst)" "f_pos (f_of_int burst)"
    using of_int_exact [of burst] assms(1,2) by simp_all
  have "f_pos t' \<and> \<not> f_inf t' \<and> f_units t' \<le> burst * one_units"
    using c assms(3) by (auto simp: t'_def f_less_def f_pos_def split: if_splits)
  then show "f_pos t'" "\<not> f_inf t'" "f_units t' \<le> burst * one_units" by simp_all
qed

lemma refill_ok:
  assumes "0 < burst" and "burst < 2 ^ 53" and "limiter_ok burst l"
  shows "limiter_ok burst (refill now l)"
proof (cases "0 < time_sub now (rl_last_refill l)")
  case True
  obtain r where r: "0 < r" "r < 2 ^ 63" "rl_requests_per_sec l = f_of_int r" using assms(3) by (auto simp: limiter_ok_def)
  have "time_sub now (rl_last_refill l) < 2 ^ 63" by (simp add: time_sub_def)
  then have s: "f_pos (duration_seconds (time_sub now (rl_last_refill l)))" using f_pos_seconds [OF True] by simp
  have "f_pos (f_mul (duration_seconds (time_sub now (rl_last_refill l))) (rl_requests_per_sec l))"
    unfolding r(3) using f_pos_mul [OF s of_int_finite(3) [OF r(1,2)]] of_int_finite(1,2) [OF r(1,2)] inf_not_zero by blast
  then have "f_pos (f_add (rl_tokens l) (f_mul (duration_seconds (time_sub now (rl_last_refill l))) (rl_requests_per_sec l)))"
    using f_pos_add assms(3) by (simp add: limiter_ok_def)
  note c = clamp_ok [OF assms(1,2) this]
  have cap: "rl_capacity l = f_of_int burst" using assms(3) by (simp add: limiter_ok_def)
  show ?thesis
    using assms(3) True c unfolding limiter_ok_def refill_def Let_def cap by (simp add: cap split del: if_split)
qed (use assms(3) in \<open>simp add: refill_def\<close>)

lemma of_int_one: "f_units (f_of_int 1) = one_units" "\<not> f_inf (f_of_int 1)" "\<not> f_nan (f_of_int 1)"
  using of_int_exact [of 1] by (simp_all add: f_pos_def)

lemma neg_one: "f_units (f_neg (f_of_int 1)) = - one_units" "\<not> f_inf (f_neg (f_of_int 1))" "\<not> f_nan (f_neg (f_of_int 1))"
proof -
  have "floorlog 2 1 = 1" by (simp add: compute_floorlog)
  then have "f_of_int 1 = 0x3FF0000000000000" by (simp add: f_of_int_def round_nat_def Let_def signed_bits_def)
  then have e: "f_neg (f_of_int 1) = 0xBFF0000000000000" by (simp add: f_neg_def)
  have x: "f_exp 0xBFF0000000000000 = 1023" "f_frac 0xBFF0000000000000 = 0" by (simp_all add: f_exp_def f_frac_def)
  have sg: "f_sign 0xBFF0000000000000" by (simp add: f_sign_def)
  have "(2::int) ^ 52 * 2 ^ 1022 = 2 ^ 1074" unfolding power_add [symmetric] by simp
  then show "f_units (f_neg (f_of_int 1)) = - one_units" "\<not> f_inf (f_neg (f_of_int 1))" "\<not> f_nan (f_neg (f_of_int 1))"
    unfolding e by (simp_all add: f_units_def f_man_def f_scale_def f_inf_def f_nan_def x sg one_units_def del: power_numeral)
qed

text \<open>Taking one token is exact.\<close>

lemma take_token:
  assumes "f_pos t" and "\<not> f_inf t" and "one_units \<le> f_units t" and "f_units t < 2 ^ 53 * one_units"
  defines "t' \<equiv> f_sub t (f_of_int 1)"
  shows "f_units t' = f_units t - one_units" "f_pos t'" "\<not> f_inf t'"
proof -
  have u: "f_units t = int (f_man t * 2 ^ f_scale t)" using assms(1) by (simp add: f_units_def f_pos_def)
  have "f_frac t < 2 ^ 52" by (simp add: f_frac_def)
  then have man: "f_man t < 2 ^ 53" by (simp add: f_man_def)
  have scale: "f_scale t \<le> 1074"
  proof (rule ccontr)
    assume "\<not> f_scale t \<le> 1074"
    then have "1075 \<le> f_scale t" "f_exp t \<noteq> 0" by (auto simp: f_scale_def)
    then have "(2::nat) ^ 52 * 2 ^ 1075 \<le> f_man t * 2 ^ f_scale t"
      by (intro mult_mono power_increasing) (simp_all add: f_man_def)
    then have "int (2 ^ 52 * 2 ^ 1075) \<le> f_units t" unfolding u of_nat_le_iff .
    moreover have "int (2 ^ 52 * 2 ^ 1075) = 2 ^ 53 * one_units"
      by (simp only: one_units_def of_nat_mult of_nat_power of_nat_numeral flip: power_add) (simp del: power_numeral)
    ultimately show False using assms(4) by linarith
  qed
  define e where "e = (2::nat) ^ (1074 - f_scale t)"
  have one: "one_units = int (e * 2 ^ f_scale t)" using scale by (simp add: one_units_def e_def flip: power_add)
  have le: "e \<le> f_man t" using assms(3) unfolding u one by (simp only: of_nat_le_iff) simp
  have d: "f_units t - one_units = int ((f_man t - e) * 2 ^ f_scale t)"
    unfolding u one using le by (simp add: of_nat_diff algebra_simps)
  define n where "n = (f_man t - e) * 2 ^ f_scale t"
  have dn: "f_units t - one_units = int n" using d by (simp only: n_def)
  have "t' = (if int n = 0 then signed_bits False 0 else signed_bits False (round_nat n 0))"
    using assms(1,2) neg_one unfolding t'_def f_sub_def f_add_def f_pos_def Let_def
    by (simp only: neg_one(1) add_uminus_conv_diff dn) simp
  then have t': "t' = (if int n = 0 then 0 else signed_bits False (round_nat n 0))" by (simp add: signed_bits_def)
  note r = round_exact [of "f_man t - e" "f_scale t"]
  have m: "f_man t - e < 2 ^ 53" using man by simp
  show "f_units t' = f_units t - one_units" "f_pos t'" "\<not> f_inf t'"
    using r [OF m, folded n_def] scale dn f_pos_zero unfolding t' by (simp_all add: f_pos_def)
qed

text \<open>A turn without time passing grants exactly when there is a whole token, and takes it.\<close>

lemma allow_still:
  assumes "0 < burst" and "burst < 2 ^ 53" and "limiter_ok burst l" and "time_sub now (rl_last_refill l) \<le> 0"
  shows "\<exists>l'. allow now l = (one_units \<le> f_units (rl_tokens l), l') \<and> limiter_ok burst l' \<and> rl_last_refill l' = rl_last_refill l \<and>
    f_units (rl_tokens l') = f_units (rl_tokens l) - (if one_units \<le> f_units (rl_tokens l) then one_units else 0)"
proof -
  let ?t = "rl_tokens l"
  have t: "f_pos ?t" "\<not> f_inf ?t" "f_units ?t \<le> burst * one_units" using assms(3) by (simp_all add: limiter_ok_def)
  have r: "refill now l = l" using assms(4) by (simp add: refill_def Let_def)
  have less: "f_less ?t (f_of_int 1) \<longleftrightarrow> f_units ?t < one_units"
    using t of_int_one by (simp add: f_less_def f_pos_def)
  show ?thesis
  proof (cases "one_units \<le> f_units ?t")
    case True
    have "burst * one_units < 2 ^ 53 * one_units" using assms(2) one_units_pos by (intro mult_strict_right_mono)
    then have "f_units ?t < 2 ^ 53 * one_units" using t(3) by linarith
    note k = take_token [OF t(1,2) True this]
    have "f_units (f_sub ?t (f_of_int 1)) \<le> burst * one_units" using k(1) t(3) one_units_pos by linarith
    then show ?thesis
      using assms(3) r less True k by (simp add: allow_def Let_def limiter_ok_def)
  next
    case False
    then show ?thesis using assms(3) r less by (simp add: allow_def Let_def)
  qed
qed

lemma allow_ok:
  assumes "0 < burst" and "burst < 2 ^ 53" and "limiter_ok burst l"
  shows "limiter_ok burst (snd (allow now l))"
proof -
  have ok: "limiter_ok burst (refill now l)" using refill_ok [OF assms] .
  have "time_sub now (rl_last_refill (refill now l)) \<le> 0"
    by (auto simp: refill_def Let_def time_sub_def)
  then have still: "refill now (refill now l) = refill now l" by (simp add: refill_def [of now "refill now l"] Let_def)
  have "allow now l = allow now (refill now l)" by (simp add: allow_def still)
  then show ?thesis
    using allow_still [OF assms(1,2) ok \<open>time_sub now (rl_last_refill (refill now l)) \<le> 0\<close>] by auto
qed

lemma allow_all_ok: "0 < burst \<Longrightarrow> burst < 2 ^ 53 \<Longrightarrow> limiter_ok burst l \<Longrightarrow> limiter_ok burst (snd (allow_all ts l))"
proof (induction ts arbitrary: l)
  case (Cons t ts)
  obtain ok l' where a: "allow t l = (ok, l')" by force
  then have "limiter_ok burst (snd (allow_all ts l'))" using Cons allow_ok [of burst l t] by simp
  then show ?case using a by (auto split: prod.split)
qed simp

lemma granted_still:
  assumes "0 < burst" and "burst < 2 ^ 53"
  shows "limiter_ok burst l \<Longrightarrow> list_all (\<lambda>t. time_sub t (rl_last_refill l) \<le> 0) ts \<Longrightarrow>
    int (length (filter (\<lambda>ok. ok) (fst (allow_all ts l)))) = min (int (length ts)) (f_units (rl_tokens l) div one_units)"
proof (induction ts arbitrary: l)
  case Nil
  then show ?case using f_pos_units [of "rl_tokens l"] one_units_pos by (simp add: limiter_ok_def pos_imp_zdiv_nonneg_iff)
next
  case (Cons t ts)
  have "time_sub t (rl_last_refill l) \<le> 0" using Cons.prems(2) by simp
  from allow_still [OF assms Cons.prems(1) this]
  obtain l' where l': "allow t l = (one_units \<le> f_units (rl_tokens l), l')" "limiter_ok burst l'"
    "rl_last_refill l' = rl_last_refill l"
    "f_units (rl_tokens l') = f_units (rl_tokens l) - (if one_units \<le> f_units (rl_tokens l) then one_units else 0)" by blast
  have ih: "int (length (filter (\<lambda>ok. ok) (fst (allow_all ts l')))) = min (int (length ts)) (f_units (rl_tokens l') div one_units)"
    by (rule Cons.IH [OF l'(2)]) (use Cons.prems(2) l'(3) in simp)
  obtain oks l'' where a: "allow_all ts l' = (oks, l'')" by force
  have nonneg: "0 \<le> f_units (rl_tokens l)" using Cons.prems(1) f_pos_units by (simp add: limiter_ok_def)
  show ?case
  proof (cases "one_units \<le> f_units (rl_tokens l)")
    case True
    then have "f_units (rl_tokens l') div one_units = f_units (rl_tokens l) div one_units - 1"
      using l'(4) one_units_pos div_add_self2 [of one_units "f_units (rl_tokens l) - one_units"] by simp
    then show ?thesis using ih l'(1) True a by simp
  next
    case False
    then have "f_units (rl_tokens l) div one_units = 0" "f_units (rl_tokens l') = f_units (rl_tokens l)"
      using nonneg l'(4) by (simp_all add: div_pos_pos_trivial)
    then show ?thesis using ih l'(1) False a by simp
  qed
qed

lemma new_limiter_ok:
  assumes "new_rate_limiter cfg t0 = Some l" and "rc_requests_per_second cfg < 2 ^ 63" and "effective_burst cfg < 2 ^ 53"
  shows "0 < effective_burst cfg" "limiter_ok (effective_burst cfg) l" "f_units (rl_tokens l) = effective_burst cfg * one_units"
    "rl_last_refill l = t0"
proof -
  have r: "0 < rc_requests_per_second cfg" using assms(1) by (auto simp: new_rate_limiter_def split: if_splits)
  then show b: "0 < effective_burst cfg" by (simp add: effective_burst_def)
  have l: "l = \<lparr>rl_requests_per_sec = f_of_int (rc_requests_per_second cfg), rl_capacity = f_of_int (effective_burst cfg),
        rl_tokens = f_of_int (effective_burst cfg), rl_last_refill = t0\<rparr>"
    using assms(1) r by (simp add: new_rate_limiter_def)
  have e: "f_units (f_of_int (effective_burst cfg)) = effective_burst cfg * one_units" "\<not> f_inf (f_of_int (effective_burst cfg))"
    "f_pos (f_of_int (effective_burst cfg))" using of_int_exact [of "effective_burst cfg"] b assms(3) by simp_all
  have "\<exists>i. 0 < i \<and> i < 2 ^ 63 \<and> f_of_int (rc_requests_per_second cfg) = f_of_int i"
    using r assms(2) by (intro exI [of _ "rc_requests_per_second cfg"]) simp
  then show "limiter_ok (effective_burst cfg) l" "f_units (rl_tokens l) = effective_burst cfg * one_units" "rl_last_refill l = t0"
    using e unfolding l limiter_ok_def by simp_all
qed

section \<open>Properties\<close>



end
