(* ===== verification/Http_Metrics.thy ===== *)
theory Http_Metrics
  imports Rate_Limiter
begin

text \<open>
  The request counters of the HTTP interface (\<^verbatim>\<open>internal/api/http/metrics.go\<close>).  The counters are \<open>uint64\<close> and wrap
  around; durations are \<open>float64\<close> milliseconds.  The readings of the clock are arguments, and the table of
  routes is a list of pairs with distinct names, whose order nothing depends on.
\<close>

record route_metrics =
  rm_requests :: "64 word"
  rm_errors :: "64 word"
  rm_1xx :: "64 word"
  rm_2xx :: "64 word"
  rm_3xx :: "64 word"
  rm_4xx :: "64 word"
  rm_5xx :: "64 word"
  rm_other :: "64 word"
  rm_last_status :: int
  rm_total_ms :: float64
  rm_last_ms :: float64
  rm_max_ms :: float64

definition fresh_route :: route_metrics where
  "fresh_route = \<lparr>rm_requests = 0, rm_errors = 0, rm_1xx = 0, rm_2xx = 0, rm_3xx = 0, rm_4xx = 0, rm_5xx = 0, rm_other = 0,
     rm_last_status = 0, rm_total_ms = 0, rm_last_ms = 0, rm_max_ms = 0\<rparr>"

record metrics =
  mt_started_at :: gotime
  mt_in_flight :: int
  mt_routes :: "(string \<times> route_metrics) list"

definition new_metrics :: "gotime \<Rightarrow> metrics" where
  "new_metrics now = \<lparr>mt_started_at = now, mt_in_flight = 0, mt_routes = []\<rparr>"

definition metrics_start :: "metrics \<Rightarrow> metrics" where
  "metrics_start m = m\<lparr>mt_in_flight := mt_in_flight m + 1\<rparr>"

fun put_route :: "string \<Rightarrow> route_metrics \<Rightarrow> (string \<times> route_metrics) list \<Rightarrow> (string \<times> route_metrics) list" where
  "put_route k v [] = [(k, v)]"
| "put_route k v ((k', v') # rs) = (if k = k' then (k, v) # rs else (k', v') # put_route k v rs)"

text \<open>The counter of the status class; the division truncates.\<close>

definition count_status :: "int \<Rightarrow> route_metrics \<Rightarrow> route_metrics" where
  "count_status status s =
     (let c = status sdiv 100 in
      if c = 1 then s\<lparr>rm_1xx := rm_1xx s + 1\<rparr>
      else if c = 2 then s\<lparr>rm_2xx := rm_2xx s + 1\<rparr>
      else if c = 3 then s\<lparr>rm_3xx := rm_3xx s + 1\<rparr>
      else if c = 4 then s\<lparr>rm_4xx := rm_4xx s + 1\<rparr>
      else if c = 5 then s\<lparr>rm_5xx := rm_5xx s + 1\<rparr>
      else s\<lparr>rm_other := rm_other s + 1\<rparr>)"

definition observe_route :: "int \<Rightarrow> int \<Rightarrow> route_metrics \<Rightarrow> route_metrics" where
  "observe_route status duration s0 =
     (let s1 = s0\<lparr>rm_requests := rm_requests s0 + 1, rm_errors := (if 400 \<le> status then rm_errors s0 + 1 else rm_errors s0)\<rparr>;
          s = count_status status s1;
          millis = f_div (f_of_int duration) (f_of_int 1000000)
      in s\<lparr>rm_last_status := status, rm_last_ms := millis, rm_total_ms := f_add (rm_total_ms s) millis,
           rm_max_ms := (if f_less (rm_max_ms s) millis then millis else rm_max_ms s)\<rparr>)"

definition observe :: "string \<Rightarrow> int \<Rightarrow> int \<Rightarrow> metrics \<Rightarrow> metrics" where
  "observe route status duration m =
     (let stats = (case map_of (mt_routes m) route of None \<Rightarrow> fresh_route | Some s \<Rightarrow> s) in
      m\<lparr>mt_in_flight := (if mt_in_flight m - 1 < 0 then 0 else mt_in_flight m - 1),
        mt_routes := put_route route (observe_route status duration stats) (mt_routes m)\<rparr>)"

section \<open>Snapshots\<close>

text \<open>\<open>int64(f)\<close> for a number that fits; the whole part.\<close>

definition f_trunc :: "float64 \<Rightarrow> int" where
  "f_trunc b = f_units b sdiv 2 ^ 1074"

record metrics_snapshot =
  ms_started_at :: gotime
  ms_uptime_seconds :: int
  ms_in_flight :: int
  ms_requests_total :: "64 word"
  ms_errors_total :: "64 word"
  ms_routes :: "(string \<times> route_metrics) list"

definition metrics_snapshot_of :: "gotime \<Rightarrow> metrics \<Rightarrow> metrics_snapshot" where
  "metrics_snapshot_of now m = \<lparr>ms_started_at = mt_started_at m,
     ms_uptime_seconds = f_trunc (duration_seconds (time_sub now (mt_started_at m))), ms_in_flight = mt_in_flight m,
     ms_requests_total = sum_list (map (rm_requests \<circ> snd) (mt_routes m)),
     ms_errors_total = sum_list (map (rm_errors \<circ> snd) (mt_routes m)), ms_routes = mt_routes m\<rparr>"

section \<open>Facts\<close>

text \<open>Every request is counted in one class.\<close>

definition route_ok :: "route_metrics \<Rightarrow> bool" where
  "route_ok s \<longleftrightarrow> rm_requests s = rm_1xx s + rm_2xx s + rm_3xx s + rm_4xx s + rm_5xx s + rm_other s"

definition metrics_ok :: "metrics \<Rightarrow> bool" where
  "metrics_ok m \<longleftrightarrow> distinct (map fst (mt_routes m)) \<and> 0 \<le> mt_in_flight m \<and> list_all (route_ok \<circ> snd) (mt_routes m)"

lemma put_route_get: "map_of (put_route k v rs) j = (if j = k then Some v else map_of rs j)"
  by (induction rs) auto

lemma put_route_keys: "fst ` set (put_route k v rs) = insert k (fst ` set rs)"
  by (induction k v rs rule: put_route.induct) (simp_all add: insert_commute)

lemma put_route_distinct: "distinct (map fst rs) \<Longrightarrow> distinct (map fst (put_route k v rs))"
  by (induction k v rs rule: put_route.induct) (simp_all add: put_route_keys)

lemma put_route_all: "list_all (P \<circ> snd) rs \<Longrightarrow> P v \<Longrightarrow> list_all (P \<circ> snd) (put_route k v rs)"
  by (induction rs) auto

lemma put_route_sum:
  fixes g :: "route_metrics \<Rightarrow> 64 word"
  assumes "distinct (map fst rs)"
  shows "sum_list (map (g \<circ> snd) (put_route k v rs)) =
    sum_list (map (g \<circ> snd) rs) - (case map_of rs k of None \<Rightarrow> 0 | Some s \<Rightarrow> g s) + g v"
  using assms
proof (induction rs)
  case (Cons kv rs)
  obtain k' v' where kv: "kv = (k', v')" by force
  show ?case using Cons by (simp add: kv algebra_simps)
qed simp

lemma observe_route_counts:
  "rm_requests (observe_route status d s) = rm_requests s + 1"
  "rm_errors (observe_route status d s) = rm_errors s + (if 400 \<le> status then 1 else 0)"
  "route_ok s \<Longrightarrow> route_ok (observe_route status d s)"
  by (simp_all add: observe_route_def count_status_def Let_def route_ok_def)

lemma observe_ok: "metrics_ok m \<Longrightarrow> metrics_ok (observe route status d m)"
proof -
  assume m: "metrics_ok m"
  have "route_ok (case map_of (mt_routes m) route of None \<Rightarrow> fresh_route | Some s \<Rightarrow> s)"
    using m by (auto simp: metrics_ok_def list_all_iff fresh_route_def route_ok_def split: option.split dest!: map_of_SomeD)
  then show ?thesis
    using m by (simp add: metrics_ok_def observe_def Let_def put_route_distinct put_route_all observe_route_counts)
qed

end
