(* ===== verification/Http_Handler.thy ===== *)
theory Http_Handler
  imports Http_Parse Http_Dto Http_Metrics
begin

text \<open>
  The HTTP interface (\<^verbatim>\<open>internal/api/http/handler.go\<close>): the routes, the handler of each, the wrapper that counts and limits
  requests, and the answers with their status.  The service is a record of its ten methods over the outside world; the
  encoding of an answer as JSON is a parameter that can fail, as \<open>encoding/json\<close> does on a number that is not
  finite.
\<close>

section \<open>Answers\<close>

datatype api_data =
    DataHealth
  | DataMetrics metrics_snapshot
  | DataQuotes "quote_dto list"
  | DataOrderBooks "order_book_dto list"
  | DataTicks "tick_dto list"
  | DataBars "bar_dto list"
  | DataXdxr "xdxr_dto list"
  | DataSecurities "security_dto list"
  | DataFinance "finance_dto option"
  | DataTradingDay "trading_day_dto option"

text \<open>\<open>apiResponse\<close>: \<open>OK\<close> with data, or an error with its code and message.\<close>

datatype api_response = ApiOk api_data | ApiError string string

record http_reply =
  rp_status :: int
  rp_body :: api_response

text \<open>\<open>errorStatus\<close>: the first sentinel the error wraps, in this order.\<close>

definition error_status :: "go_error \<Rightarrow> int \<times> string" where
  "error_status e =
     (if errors_is e ErrInvalidRequest then (400, ''invalid_request'')
      else if errors_is e ErrRateLimited then (429, ''rate_limited'')
      else if errors_is e ErrNoData then (404, ''no_data'')
      else if errors_is e ErrUnsupportedCapability then (501, ''unsupported_capability'')
      else if errors_is e ErrUpstreamUnavailable then (503, ''upstream_unavailable'')
      else (500, ''internal_error''))"

definition write_error :: "go_error \<Rightarrow> http_reply" where
  "write_error e = (case error_status e of (status, code) \<Rightarrow> \<lparr>rp_status = status, rp_body = ApiError code (err_text e)\<rparr>)"

definition write_json :: "api_data \<Rightarrow> http_reply" where
  "write_json d = \<lparr>rp_status = 200, rp_body = ApiOk d\<rparr>"

section \<open>The response writer\<close>

text \<open>\<open>statusRecorder\<close>: \<open>sr_sent\<close> and \<open>sr_written\<close> are what reaches the wrapped writer.\<close>

record status_recorder =
  sr_status :: int
  sr_bytes :: int
  sr_sent :: "int list"
  sr_written :: "string list"

definition new_recorder :: status_recorder where
  "new_recorder = \<lparr>sr_status = 0, sr_bytes = 0, sr_sent = [], sr_written = []\<rparr>"

definition recorder_write_header :: "int \<Rightarrow> status_recorder \<Rightarrow> status_recorder" where
  "recorder_write_header status r =
     (if sr_status r \<noteq> 0 then r else r\<lparr>sr_status := status, sr_sent := sr_sent r @ [status]\<rparr>)"

text \<open>The wrapped writer takes all of the payload.\<close>

definition recorder_write :: "string \<Rightarrow> status_recorder \<Rightarrow> status_recorder" where
  "recorder_write payload r =
     (let r1 = (if sr_status r = 0 then r\<lparr>sr_status := 200\<rparr> else r) in
      r1\<lparr>sr_bytes := sr_bytes r1 + int (length payload), sr_written := sr_written r1 @ [payload]\<rparr>)"

definition recorder_status_code :: "status_recorder \<Rightarrow> int" where
  "recorder_status_code r = (if sr_status r = 0 then 200 else sr_status r)"

text \<open>The ends of \<open>writeJSON\<close> and \<open>writeError\<close>: the status, then the encoded answer, if it can be encoded.\<close>

definition send_reply :: "(api_response \<Rightarrow> string option) \<Rightarrow> http_reply \<Rightarrow> status_recorder \<Rightarrow> status_recorder" where
  "send_reply encode rep r =
     (let r1 = recorder_write_header (rp_status rep) r in
      case encode (rp_body rep) of None \<Rightarrow> r1 | Some payload \<Rightarrow> recorder_write payload r1)"

section \<open>The handlers\<close>

record 'w api_service =
  as_quotes :: "symbol list \<Rightarrow> ('w, quote list) op"
  as_order_book :: "symbol list \<Rightarrow> ('w, order_book list) op"
  as_ticks :: "symbol \<Rightarrow> tick_request \<Rightarrow> ('w, tick list) op"
  as_history_ticks :: "symbol \<Rightarrow> history_tick_request \<Rightarrow> ('w, tick list) op"
  as_kline :: "symbol \<Rightarrow> kline_request \<Rightarrow> ('w, bar list) op"
  as_adjusted_kline :: "symbol \<Rightarrow> kline_request \<Rightarrow> string \<Rightarrow> ('w, bar list) op"
  as_xdxr :: "symbol \<Rightarrow> ('w, xdxr_event list) op"
  as_security_info :: "security_query \<Rightarrow> ('w, security_info list) op"
  as_finance :: "symbol \<Rightarrow> ('w, finance_info option) op"
  as_trading_day :: "('w, trading_day_info option) op"

text \<open>
  Every handler reads its parameters, calls the service and answers; each error on the way is written and ends it.
  A panic of the service leaves the handler.
\<close>

definition answer :: "('w, 'a) op \<Rightarrow> ('a \<Rightarrow> api_data) \<Rightarrow> ('w, http_reply) op" where
  "answer m f = catch m (\<lambda>e. ret (write_error e)) (\<lambda>x. ret (write_json (f x)))"

definition with_service :: "'w api_service option \<Rightarrow> ('w api_service \<Rightarrow> ('w, http_reply) op) \<Rightarrow> ('w, http_reply) op" where
  "with_service svc k = (case svc of None \<Rightarrow> ret (write_error ErrUpstreamUnavailable) | Some s \<Rightarrow> k s)"

definition handle_health :: "('w, http_reply) op" where
  "handle_health = ret (write_json DataHealth)"

definition handle_metrics :: "gotime \<Rightarrow> metrics \<Rightarrow> ('w, http_reply) op" where
  "handle_metrics now m = ret (write_json (DataMetrics (metrics_snapshot_of now m)))"

definition handle_quotes :: "'w api_service option \<Rightarrow> http_request \<Rightarrow> ('w, http_reply) op" where
  "handle_quotes svc r = with_service svc (\<lambda>s.
     answer (bnd (lift_result (parse_symbols r)) (as_quotes s)) (\<lambda>quotes. DataQuotes (dto_quotes quotes)))"

definition handle_order_book :: "'w api_service option \<Rightarrow> http_request \<Rightarrow> ('w, http_reply) op" where
  "handle_order_book svc r = with_service svc (\<lambda>s.
     answer (bnd (lift_result (parse_symbols r)) (as_order_book s)) (\<lambda>books. DataOrderBooks (dto_order_books books)))"

definition handle_ticks :: "'w api_service option \<Rightarrow> http_request \<Rightarrow> ('w, http_reply) op" where
  "handle_ticks svc r = with_service svc (\<lambda>s.
     answer
       (bnd (lift_result (parse_symbol r)) (\<lambda>sy.
        bnd (lift_result (parse_uint16_query r ''start'' 0)) (\<lambda>start.
        bnd (lift_result (parse_uint16_query r ''count'' 0)) (\<lambda>cnt.
        as_ticks s sy \<lparr>tr_start = start, tr_count = cnt, tr_cursor = [], tr_full = parse_bool_query r ''full'',
          tr_force = parse_bool_query r ''force_refresh''\<rparr>))))
       (\<lambda>ticks. DataTicks (dto_ticks ticks)))"

text \<open>\<open>today\<close> is the reading of \<open>time.Now\<close> for a request without a date.\<close>

definition handle_history_ticks :: "'w api_service option \<Rightarrow> int \<Rightarrow> gotime \<Rightarrow> http_request \<Rightarrow> ('w, http_reply) op" where
  "handle_history_ticks svc zone today r = with_service svc (\<lambda>s.
     answer
       (bnd (lift_result (parse_symbol r)) (\<lambda>sy.
        bnd (lift_result (parse_date_query zone r ''date'' False)) (\<lambda>date.
        let trade_date = (if is_zero date then normalize_date today else date) in
        bnd (lift_result (parse_uint16_query r ''start'' 0)) (\<lambda>start.
        bnd (lift_result (parse_uint16_query r ''count'' 0)) (\<lambda>cnt.
        as_history_ticks s sy \<lparr>ht_trade_date = trade_date, ht_start = start, ht_count = cnt,
          ht_full = parse_bool_query r ''full'', ht_with_flag = parse_bool_query r ''with_transaction_flag'',
          ht_force = parse_bool_query r ''force_refresh''\<rparr>)))))
       (\<lambda>ticks. DataTicks (dto_ticks ticks)))"

definition handle_kline :: "'w api_service option \<Rightarrow> int \<Rightarrow> http_request \<Rightarrow> ('w, http_reply) op" where
  "handle_kline svc zone r = with_service svc (\<lambda>s.
     answer
       (bnd (lift_result (parse_symbol r)) (\<lambda>sy.
        bnd (lift_result (parse_period_query r ''period'' PeriodDay)) (\<lambda>period.
        bnd (lift_result (parse_adjust_type (hr_query r ''adjust''))) (\<lambda>adjust.
        bnd (lift_result (parse_uint16_query r ''start'' 0)) (\<lambda>start.
        bnd (lift_result (parse_uint16_query r ''count'' 0)) (\<lambda>cnt.
        bnd (lift_result (parse_uint16_query r ''times'' 0)) (\<lambda>times.
        bnd (lift_result (parse_date_query zone r ''start_date'' False)) (\<lambda>start_date.
        bnd (lift_result (parse_date_query zone r ''end_date'' False)) (\<lambda>end_date.
        let req = \<lparr>k_period = period, k_start = start, k_count = cnt, k_times = times, k_start_date = start_date,
              k_end_date = end_date, k_force = parse_bool_query r ''force_refresh''\<rparr>
        in if adjust = AdjustNone then as_kline s sy req else as_adjusted_kline s sy req adjust)))))))))
       (\<lambda>bars. DataBars (dto_bars bars)))"

definition handle_xdxr :: "'w api_service option \<Rightarrow> http_request \<Rightarrow> ('w, http_reply) op" where
  "handle_xdxr svc r = with_service svc (\<lambda>s.
     answer (bnd (lift_result (parse_symbol r)) (as_xdxr s)) (\<lambda>events. DataXdxr (dto_xdxr events)))"

definition handle_securities :: "'w api_service option \<Rightarrow> http_request \<Rightarrow> ('w, http_reply) op" where
  "handle_securities svc r = with_service svc (\<lambda>s.
     answer
       (bnd (lift_result (parse_markets r)) (\<lambda>markets.
        bnd (lift_result (parse_uint32_query r ''start'' 0)) (\<lambda>start.
        bnd (lift_result (parse_uint32_query r ''count'' 0)) (\<lambda>cnt.
        bnd (lift_result (parse_optional_symbols r)) (\<lambda>symbols.
        as_security_info s \<lparr>sq_markets = markets, sq_symbols = symbols, sq_types = [], sq_start = start, sq_count = cnt,
          sq_refresh = parse_bool_query r ''refresh''\<rparr>)))))
       (\<lambda>items. DataSecurities (dto_securities items)))"

definition handle_trading_day :: "'w api_service option \<Rightarrow> ('w, http_reply) op" where
  "handle_trading_day svc = with_service svc (\<lambda>s. answer (as_trading_day s) (\<lambda>info. DataTradingDay (dto_trading_day info)))"

definition handle_finance :: "'w api_service option \<Rightarrow> http_request \<Rightarrow> ('w, http_reply) op" where
  "handle_finance svc r = with_service svc (\<lambda>s.
     answer (bnd (lift_result (parse_symbol r)) (as_finance s)) (\<lambda>info. DataFinance (dto_finance info)))"

section \<open>The routes\<close>

datatype api_route = RHealth | RQuotes | ROrderBook | RTicks | RHistoryTicks | RKLine | RXdxr | RSecurities | RFinance
  | RTradingDay | RMetrics

record route_entry =
  re_method :: string
  re_path :: string
  re_name :: string
  re_route :: api_route

definition route_of :: "string \<Rightarrow> string \<Rightarrow> string \<Rightarrow> api_route \<Rightarrow> route_entry" where
  "route_of m p n k = \<lparr>re_method = m, re_path = ''/api/v1/'' @ p, re_name = n, re_route = k\<rparr>"

definition routes :: "route_entry list" where
  "routes = [
     route_of ''GET'' ''health'' ''health'' RHealth,
     route_of ''GET'' ''quotes'' ''quotes'' RQuotes, route_of ''POST'' ''quotes'' ''quotes'' RQuotes,
     route_of ''GET'' ''orderbook'' ''orderbook'' ROrderBook, route_of ''POST'' ''orderbook'' ''orderbook'' ROrderBook,
     route_of ''GET'' ''ticks'' ''ticks'' RTicks,
     route_of ''GET'' ''history-ticks'' ''history_ticks'' RHistoryTicks,
     route_of ''GET'' ''kline'' ''kline'' RKLine,
     route_of ''GET'' ''adjusted-kline'' ''adjusted_kline'' RKLine,
     route_of ''GET'' ''xdxr'' ''xdxr'' RXdxr,
     route_of ''GET'' ''securities'' ''securities'' RSecurities,
     route_of ''GET'' ''finance'' ''finance'' RFinance,
     route_of ''GET'' ''trading-day'' ''trading_day'' RTradingDay,
     route_of ''GET'' ''metrics'' ''metrics'' RMetrics]"

text \<open>The multiplexer: the route of the path whose method fits; \<open>GET\<close> fits \<open>HEAD\<close> too.\<close>

definition method_fits :: "string \<Rightarrow> string \<Rightarrow> bool" where
  "method_fits pattern meth \<longleftrightarrow> meth = pattern \<or> pattern = ''GET'' \<and> meth = ''HEAD''"

definition find_route :: "http_request \<Rightarrow> route_entry option" where
  "find_route r = find (\<lambda>e. re_path e = hr_path r \<and> method_fits (re_method e) (hr_method r)) routes"

text \<open>The readings of the clock that a request takes.\<close>

record clock_readings =
  cr_started :: gotime
  cr_allow :: gotime
  cr_handler :: gotime
  cr_done :: gotime

definition run_handler ::
  "'w api_service option \<Rightarrow> int \<Rightarrow> clock_readings \<Rightarrow> metrics \<Rightarrow> api_route \<Rightarrow> http_request \<Rightarrow> ('w, http_reply) op" where
  "run_handler svc zone clk m k r =
     (case k of
        RHealth \<Rightarrow> handle_health
      | RQuotes \<Rightarrow> handle_quotes svc r
      | ROrderBook \<Rightarrow> handle_order_book svc r
      | RTicks \<Rightarrow> handle_ticks svc r
      | RHistoryTicks \<Rightarrow> handle_history_ticks svc zone (cr_handler clk) r
      | RKLine \<Rightarrow> handle_kline svc zone r
      | RXdxr \<Rightarrow> handle_xdxr svc r
      | RSecurities \<Rightarrow> handle_securities svc r
      | RFinance \<Rightarrow> handle_finance svc r
      | RTradingDay \<Rightarrow> handle_trading_day svc
      | RMetrics \<Rightarrow> handle_metrics (cr_handler clk) m)"

section \<open>The wrapper\<close>

text \<open>The handler's own state: its counters, its limiter and the world of its service.\<close>

record 'w api_state =
  ap_metrics :: metrics
  ap_limiter :: "rate_limiter option"
  ap_world :: 'w

text \<open>
  \<open>instrument\<close>: the request is counted in flight, limited, handled, and in any case counted when the handler is
  left, be it by a panic, whose status is then the one the recorder has (200 when nothing was written).  The result is
  the panic, if there was one, and what was written.
\<close>

definition instrument ::
  "(api_response \<Rightarrow> string option) \<Rightarrow> clock_readings \<Rightarrow> string \<Rightarrow> (metrics \<Rightarrow> ('w, http_reply) op) \<Rightarrow> 'w api_state \<Rightarrow>
   (go_error option \<times> status_recorder) \<times> 'w api_state" where
  "instrument encode clk name handler st =
     (let m = metrics_start (ap_metrics st);
          (ok, limiter) = allow_request (cr_allow clk) (ap_limiter st);
          (outcome, w) = (if ok then handler m (ap_world st) else (Inr (write_error ErrRateLimited), ap_world st));
          recorder = (case outcome of Inl e \<Rightarrow> new_recorder | Inr rep \<Rightarrow> send_reply encode rep new_recorder);
          m' = observe name (recorder_status_code recorder) (time_sub (cr_done clk) (cr_started clk)) m
      in ((case outcome of Inl e \<Rightarrow> Some e | Inr rep \<Rightarrow> None, recorder),
          \<lparr>ap_metrics = m', ap_limiter = limiter, ap_world = w\<rparr>))"

text \<open>\<open>ServeHTTP\<close>: a request without a route is the multiplexer's own (\<open>None\<close>).\<close>

definition serve_http ::
  "(api_response \<Rightarrow> string option) \<Rightarrow> 'w api_service option \<Rightarrow> int \<Rightarrow> clock_readings \<Rightarrow> http_request \<Rightarrow> 'w api_state \<Rightarrow>
   (go_error option \<times> status_recorder) option \<times> 'w api_state" where
  "serve_http encode svc zone clk r st =
     (case find_route r of
        None \<Rightarrow> (None, st)
      | Some e \<Rightarrow> (case instrument encode clk (re_name e) (\<lambda>m. run_handler svc zone clk m (re_route e) r) st of
          (x, st') \<Rightarrow> (Some x, st')))"

end
