(* ===== verification/Http_Api.thy ===== *)
theory Http_Api
  imports Http_Handler Market_World
begin

text \<open>
  The HTTP interface on the model's own service, and what every request does: it is counted, answered once, kept from the
  service when a parameter does not parse, and a request for quotes is followed from its query to its answer.
\<close>

section \<open>The service behind the interface\<close>

definition api_of_service :: "'w service \<Rightarrow> 'w api_service" where
  "api_of_service sv = \<lparr>as_quotes = service_get_quotes sv, as_order_book = service_get_order_book sv,
     as_ticks = service_get_ticks sv, as_history_ticks = service_get_history_ticks sv, as_kline = service_get_kline sv,
     as_adjusted_kline = service_get_adjusted_kline sv, as_xdxr = service_get_xdxr sv,
     as_security_info = service_get_security_info sv, as_finance = service_get_finance sv,
     as_trading_day = service_get_trading_day sv\<rparr>"

section \<open>Parameters\<close>

text \<open>All parameters a route reads, in one test.\<close>

definition parses :: "'a result \<Rightarrow> bool" where
  "parses r \<longleftrightarrow> (case r of Inl e \<Rightarrow> False | Inr x \<Rightarrow> True)"

definition params_ok :: "int \<Rightarrow> api_route \<Rightarrow> http_request \<Rightarrow> bool" where
  "params_ok zone k r \<longleftrightarrow>
     (case k of
        RQuotes \<Rightarrow> parses (parse_symbols r)
      | ROrderBook \<Rightarrow> parses (parse_symbols r)
      | RTicks \<Rightarrow> parses (parse_symbol r) \<and> parses (parse_uint16_query r ''start'' 0) \<and> parses (parse_uint16_query r ''count'' 0)
      | RHistoryTicks \<Rightarrow> parses (parse_symbol r) \<and> parses (parse_date_query zone r ''date'' False) \<and>
          parses (parse_uint16_query r ''start'' 0) \<and> parses (parse_uint16_query r ''count'' 0)
      | RKLine \<Rightarrow> parses (parse_symbol r) \<and> parses (parse_period_query r ''period'' PeriodDay) \<and>
          parses (parse_adjust_type (hr_query r ''adjust'')) \<and> parses (parse_uint16_query r ''start'' 0) \<and>
          parses (parse_uint16_query r ''count'' 0) \<and> parses (parse_uint16_query r ''times'' 0) \<and>
          parses (parse_date_query zone r ''start_date'' False) \<and> parses (parse_date_query zone r ''end_date'' False)
      | RXdxr \<Rightarrow> parses (parse_symbol r)
      | RSecurities \<Rightarrow> parses (parse_markets r) \<and> parses (parse_uint32_query r ''start'' 0) \<and>
          parses (parse_uint32_query r ''count'' 0) \<and> parses (parse_optional_symbols r)
      | RFinance \<Rightarrow> parses (parse_symbol r)
      | _ \<Rightarrow> True)"

lemma parse_period_err: "parse_period v = Inl e \<Longrightarrow> e = ErrInvalidRequest"
  by (auto simp: parse_period_def Let_def split: if_splits)

lemma parse_adjust_err: "parse_adjust_type v = Inl e \<Longrightarrow> e = ErrInvalidRequest"
  by (auto simp: parse_adjust_type_def Let_def split: if_splits)

lemma period_query_err: "parse_period_query r name f = Inl e \<Longrightarrow> e = ErrInvalidRequest"
  by (auto simp: parse_period_query_def parse_period_err split: if_splits)

text \<open>An operation that fails for an invalid request before it does anything.\<close>

definition refuses :: "'w \<Rightarrow> ('w, 'a) op \<Rightarrow> bool" where
  "refuses w m \<longleftrightarrow> m w = (Inl ErrInvalidRequest, w)"

lemma refuses_bnd:
  assumes "\<And>e. r = Inl e \<Longrightarrow> e = ErrInvalidRequest" and "\<And>x. r = Inr x \<Longrightarrow> refuses w (f x)"
  shows "refuses w (bnd (lift_result r) f)"
  using assms by (cases r) (auto simp: refuses_def bnd_def lift_result_def)

lemma refuses_last: "(\<And>e. r = Inl e \<Longrightarrow> e = ErrInvalidRequest) \<Longrightarrow> \<not> parses r \<Longrightarrow> refuses w (bnd (lift_result r) f)"
  by (rule refuses_bnd) (auto simp: parses_def)

lemma answer_refused: "refuses w m \<Longrightarrow> answer m f w = (Inr (write_error ErrInvalidRequest), w)"
  by (simp add: refuses_def answer_def catch_def ret_def)

lemmas param_errors = parse_errors parse_adjust_err period_query_err

lemma bad_parameters:
  assumes "\<not> params_ok zone k r"
  shows "run_handler (Some s) zone clk m k r w = (Inr (write_error ErrInvalidRequest), w)"
proof (cases k)
  case RKLine
  show ?thesis
    using assms unfolding RKLine run_handler_def api_route.case handle_kline_def with_service_def option.case params_ok_def
    by (intro answer_refused refuses_bnd) (auto simp: parses_def dest: param_errors)
qed (use assms in \<open>auto simp: run_handler_def params_ok_def parses_def handle_quotes_def handle_order_book_def handle_ticks_def
  handle_history_ticks_def handle_xdxr_def handle_securities_def handle_finance_def with_service_def Let_def
  intro!: answer_refused refuses_bnd dest: param_errors\<close>)

section \<open>One request\<close>

lemma send_new:
  assumes "rp_status rep \<noteq> 0"
  shows "sr_sent (send_reply encode rep new_recorder) = [rp_status rep]"
    "recorder_status_code (send_reply encode rep new_recorder) = rp_status rep"
    "sr_written (send_reply encode rep new_recorder) = (case encode (rp_body rep) of None \<Rightarrow> [] | Some b \<Rightarrow> [b])"
  using assms by (auto simp: send_reply_def recorder_write_header_def recorder_write_def recorder_status_code_def new_recorder_def
      Let_def split: option.split)

lemma error_status_range: "400 \<le> fst (error_status e)"
  by (simp add: error_status_def)

lemma write_error_status: "rp_status (write_error e) = fst (error_status e)"
  by (simp add: write_error_def split: prod.split)

text \<open>Every handler ends in one of the two writers.\<close>

definition proper_reply :: "http_reply \<Rightarrow> bool" where
  "proper_reply rep \<longleftrightarrow> (\<exists>d. rep = write_json d) \<or> (\<exists>e. rep = write_error e)"

lemma answer_proper: "fst (answer m f w) = Inr rep \<Longrightarrow> proper_reply rep"
  by (auto simp: answer_def catch_def ret_def proper_reply_def split: prod.splits sum.splits if_splits)

lemma service_proper:
  "fst (with_service svc (\<lambda>s. answer (m s) f) w) = Inr rep \<Longrightarrow> proper_reply rep"
  by (auto simp: with_service_def ret_def proper_reply_def answer_proper [unfolded proper_reply_def] split: option.splits)

lemma handler_proper: "fst (run_handler svc zone clk m k r w) = Inr rep \<Longrightarrow> proper_reply rep"
  by (cases k) (auto simp: run_handler_def handle_health_def handle_metrics_def handle_quotes_def handle_order_book_def
      handle_ticks_def handle_history_ticks_def handle_kline_def handle_xdxr_def handle_securities_def handle_finance_def
      handle_trading_day_def ret_def dest: service_proper intro: proper_reply_def [THEN iffD2])

lemma proper_status: "proper_reply rep \<Longrightarrow> rp_status rep = 200 \<or> 400 \<le> rp_status rep"
  by (auto simp: proper_reply_def write_json_def write_error_status error_status_range)

text \<open>What a request does to the counters.\<close>

lemma observe_totals:
  assumes "metrics_ok m"
  shows "ms_requests_total (metrics_snapshot_of t (observe route status d m)) = ms_requests_total (metrics_snapshot_of t m) + 1"
    "ms_errors_total (metrics_snapshot_of t (observe route status d m)) =
      ms_errors_total (metrics_snapshot_of t m) + (if 400 \<le> status then 1 else 0)"
proof -
  have d: "distinct (map fst (mt_routes m))" using assms by (simp add: metrics_ok_def)
  show "ms_requests_total (metrics_snapshot_of t (observe route status d m)) = ms_requests_total (metrics_snapshot_of t m) + 1"
    using put_route_sum [OF d, of rm_requests]
    by (auto simp: metrics_snapshot_of_def observe_def Let_def observe_route_counts fresh_route_def split: option.split)
  show "ms_errors_total (metrics_snapshot_of t (observe route status d m)) =
      ms_errors_total (metrics_snapshot_of t m) + (if 400 \<le> status then 1 else 0)"
    using put_route_sum [OF d, of rm_errors]
    by (auto simp: metrics_snapshot_of_def observe_def Let_def observe_route_counts fresh_route_def split: option.split)
qed

lemma observe_in_flight: "0 \<le> mt_in_flight m \<Longrightarrow> mt_in_flight (observe route status d (metrics_start m)) = mt_in_flight m"
  by (simp add: observe_def metrics_start_def Let_def)

lemma start_ok: "metrics_ok m \<Longrightarrow> metrics_ok (metrics_start m)"
  by (simp add: metrics_ok_def metrics_start_def)

lemma start_totals: "ms_requests_total (metrics_snapshot_of t (metrics_start m)) = ms_requests_total (metrics_snapshot_of t m)"
  "ms_errors_total (metrics_snapshot_of t (metrics_start m)) = ms_errors_total (metrics_snapshot_of t m)"
  by (simp_all add: metrics_snapshot_of_def metrics_start_def)

text \<open>The wrapper, taken apart.\<close>

lemma instrument_cases:
  assumes "instrument encode clk name handler st = ((panic, rec), st')"
  shows "ap_metrics st' = observe name (recorder_status_code rec) (time_sub (cr_done clk) (cr_started clk)) (metrics_start (ap_metrics st))"
    and "if fst (allow_request (cr_allow clk) (ap_limiter st))
      then (case handler (metrics_start (ap_metrics st)) (ap_world st) of
          (Inl e, w) \<Rightarrow> panic = Some e \<and> rec = new_recorder \<and> ap_world st' = w
        | (Inr rep, w) \<Rightarrow> panic = None \<and> rec = send_reply encode rep new_recorder \<and> ap_world st' = w)
      else panic = None \<and> rec = send_reply encode (write_error ErrRateLimited) new_recorder \<and> ap_world st' = ap_world st"
  using assms by (auto simp: instrument_def Let_def split: prod.splits sum.splits if_splits)

lemma proper_nonzero: "proper_reply rep \<Longrightarrow> rp_status rep \<noteq> 0"
  using proper_status by fastforce

lemma send_proper:
  assumes "proper_reply rep"
  shows "sr_sent (send_reply encode rep new_recorder) = [recorder_status_code (send_reply encode rep new_recorder)] \<and>
    length (sr_written (send_reply encode rep new_recorder)) \<le> 1 \<and>
    (recorder_status_code (send_reply encode rep new_recorder) = 200 \<or>
     400 \<le> recorder_status_code (send_reply encode rep new_recorder))"
  using send_new [OF proper_nonzero [OF assms], of encode] proper_status [OF assms] by (auto split: option.split)

lemma send_error: "recorder_status_code (send_reply encode (write_error e) new_recorder) = fst (error_status e)"
proof -
  have "proper_reply (write_error e)" by (auto simp: proper_reply_def)
  from send_new(2) [OF proper_nonzero [OF this]] show ?thesis by (simp add: write_error_status)
qed

section \<open>Properties\<close>


text \<open>A service without data, and a state before any request.\<close>

definition idle_api :: "nat api_service" where
  "idle_api = \<lparr>as_quotes = (\<lambda>_ n. (Inl ErrNoData, Suc n)), as_order_book = (\<lambda>_. fail ErrNoData), as_ticks = (\<lambda>_ _. fail ErrNoData),
     as_history_ticks = (\<lambda>_ _. fail ErrNoData), as_kline = (\<lambda>_ _. fail ErrNoData),
     as_adjusted_kline = (\<lambda>_ _ _. fail ErrNoData), as_xdxr = (\<lambda>_. fail ErrNoData), as_security_info = (\<lambda>_. fail ErrNoData),
     as_finance = (\<lambda>_. fail ErrNoData), as_trading_day = fail ErrNoData\<rparr>"

definition start_state :: "'w \<Rightarrow> 'w api_state" where
  "start_state w = \<lparr>ap_metrics = new_metrics zero_time, ap_limiter = None, ap_world = w\<rparr>"

definition get_request :: "string \<Rightarrow> (string \<Rightarrow> string) \<Rightarrow> http_request" where
  "get_request path query = \<lparr>hr_method = ''GET'', hr_path = ''/api/v1/'' @ path, hr_query = query, hr_body = BodyEOF\<rparr>"

definition still_clock :: clock_readings where
  "still_clock = \<lparr>cr_started = zero_time, cr_allow = zero_time, cr_handler = zero_time, cr_done = zero_time\<rparr>"

lemma start_metrics_ok: "metrics_ok (ap_metrics (start_state w))"
  by (simp add: start_state_def new_metrics_def metrics_ok_def)


text \<open>
  a request whose parameters do not parse never reaches the service.  With a symbol, market, number, date,
  period or mode that is not valid on a route that reads it, the answer is status 400 with the code
  \<open>invalid_request\<close>, and the service and everything behind it is as before.
\<close>

theorem bad_parameters_refused:
  assumes "find_route r = Some e" and "\<not> params_ok zone (re_route e) r" and "fst (allow_request (cr_allow clk) (ap_limiter st))"
  shows "\<exists>rec st'. serve_http encode (Some s) zone clk r st = (Some (None, rec), st') \<and> ap_world st' = ap_world st \<and>
    sr_sent rec = [400] \<and>
    sr_written rec = (case encode (ApiError ''invalid_request'' ''marketdata: invalid request'') of None \<Rightarrow> [] | Some b \<Rightarrow> [b])"
proof -
  obtain panic rec st' where i: "instrument encode clk (re_name e) (\<lambda>m. run_handler (Some s) zone clk m (re_route e) r) st =
      ((panic, rec), st')" by (metis prod.collapse)
  have w: "write_error ErrInvalidRequest = \<lparr>rp_status = 400, rp_body = ApiError ''invalid_request'' ''marketdata: invalid request''\<rparr>"
    by (simp add: write_error_def error_status_def)
  have "panic = None \<and> rec = send_reply encode (write_error ErrInvalidRequest) new_recorder \<and> ap_world st' = ap_world st"
    using instrument_cases(2) [OF i] assms(3) bad_parameters [OF assms(2), of s clk] by simp
  moreover have "serve_http encode (Some s) zone clk r st = (Some (panic, rec), st')"
    using assms(1) i by (simp add: serve_http_def)
  ultimately show ?thesis using send_new(1,3) [of "write_error ErrInvalidRequest" encode] by (simp add: w)
qed

theorem bad_parameters_refused_witness:
  "\<exists>rec st'. serve_http (\<lambda>_. None) (Some idle_api) 0 still_clock
     (get_request ''ticks'' (\<lambda>n. if n = ''count'' then ''-1'' else [])) (start_state 7) = (Some (None, rec), st') \<and>
     ap_world st' = 7 \<and> sr_sent rec = [400]"
proof -
  let ?r = "get_request ''ticks'' (\<lambda>n. if n = ''count'' then ''-1'' else [])"
  have f: "find_route ?r = Some (route_of ''GET'' ''ticks'' ''ticks'' RTicks)"
    by (simp add: find_route_def routes_def route_of_def get_request_def method_fits_def)
  have "parse_uint16_query ?r ''count'' 0 = Inl ErrInvalidRequest" by code_simp
  then have p: "\<not> params_ok 0 (re_route (route_of ''GET'' ''ticks'' ''ticks'' RTicks)) ?r"
    by (simp add: params_ok_def route_of_def parses_def)
  have a: "fst (allow_request (cr_allow still_clock) (ap_limiter (start_state (7::nat))))"
    by (simp add: allow_request_def start_state_def)
  from bad_parameters_refused [OF f p a, of "\<lambda>_. None" idle_api] show ?thesis by (auto simp: start_state_def)
qed

text \<open>
  C28: a request for quotes, from the query to the answer.  With the service on the in-memory store and cache and any
  provider, the request for a list of known symbols, written as the interface shows them, is answered 200 with one quote
  per symbol in that order, the provider having been asked once, for the symbols that have no live cached quote.
\<close>

theorem quotes_end_to_end:
  fixes p :: "'p provider_ops" and st :: "'p world api_state"
  assumes "\<forall>s \<in> set ss. \<exists>v m c. parse_market v = Inr m \<and> new_symbol m c = Inr s" and "ss \<noteq> []"
    and "\<forall>s \<in> set ss. CHR '','' \<notin> set (s_code s)"
    and "find_route r = Some e" and "re_route e = RQuotes" and "query_value r ''symbols'' = join '','' (map symbol_key ss)"
    and "fst (allow_request (cr_allow clk) (ap_limiter st))"
    and "w_ctx (ap_world st) = None" and "own_keys (m_quotes (w_cache (ap_world st)))" and "missed (ap_world st) ss \<noteq> []"
    and "pv_quotes p (missed (ap_world st) ss) (w_provider (ap_world st)) = (Inr quotes, p')"
    and "symbol_key ` q_symbol ` set quotes = symbol_key ` set (missed (ap_world st) ss)"
  shows "\<exists>out rec st'. serve_http encode (Some (api_of_service (memory_service (Some p)))) zone clk r st = (Some (None, rec), st') \<and>
    sr_sent rec = [200] \<and> sr_written rec = (case encode (ApiOk (DataQuotes out)) of None \<Rightarrow> [] | Some b \<Rightarrow> [b]) \<and>
    map (\<lambda>d. symbol_key (mk_symbol (sd_market (qd_symbol d)) (sd_code (qd_symbol d)))) out = map symbol_key ss \<and>
    w_provider (ap_world st') = p'"
proof -
  let ?sv = "memory_service (Some p)"
  have one: "validate_symbol s = None" if s: "s \<in> set ss" for s
  proof -
    obtain v m c where h: "parse_market v = Inr m" "new_symbol m c = Inr s" using assms(1) s by blast
    note f = valid_symbol_form [OF h]
    show ?thesis using f(2,3) known_market_no_colon [OF f(1)] by (simp add: validate_symbol_def)
  qed
  have "validate_symbols_loop xs = None" if "set xs \<subseteq> set ss" for xs
    using that by (induction xs) (auto simp: one)
  then have valid: "validate_symbols ss = None" using assms(2) by (simp add: validate_symbols_def)
  obtain quoted w' where q: "service_get_quotes ?sv ss (ap_world st) = (Inr quoted, w')" "w_provider w' = p'"
    "map (\<lambda>q. symbol_key (q_symbol q)) quoted = map symbol_key ss"
    using quotes_answer [OF valid assms(8-12)] by blast
  have list: "parse_symbol_list (join '','' (map symbol_key ss)) = Inr ss" using read_back [OF assms(1-3)] by blast
  have ne: "join '','' (map symbol_key ss) \<noteq> []"
  proof
    assume e: "join '','' (map symbol_key ss) = []"
    have "parse_symbol_list [] = Inl ErrInvalidRequest" by (simp add: parse_symbol_list_def parse_symbol_string_def)
    then show False using list e by simp
  qed
  have "parse_symbols r = Inr ss" using list ne assms(6) by (simp add: parse_symbols_def)
  then have h: "run_handler (Some (api_of_service ?sv)) zone clk m (re_route e) r (ap_world st) =
      (Inr (write_json (DataQuotes (dto_quotes quoted))), w')" for m
    using q(1) assms(5) by (simp add: run_handler_def handle_quotes_def with_service_def answer_def catch_def bnd_def lift_result_def
        api_of_service_def ret_def)
  obtain panic rec st' where i: "instrument encode clk (re_name e)
      (\<lambda>m. run_handler (Some (api_of_service ?sv)) zone clk m (re_route e) r) st = ((panic, rec), st')" by (metis prod.collapse)
  have "panic = None \<and> rec = send_reply encode (write_json (DataQuotes (dto_quotes quoted))) new_recorder \<and> ap_world st' = w'"
    using instrument_cases(2) [OF i] assms(7) h by simp
  moreover have "serve_http encode (Some (api_of_service ?sv)) zone clk r st = (Some (panic, rec), st')"
    using assms(4) i by (simp add: serve_http_def)
  moreover have "map (\<lambda>d. symbol_key (mk_symbol (sd_market (qd_symbol d)) (sd_code (qd_symbol d)))) (dto_quotes quoted) =
      map (\<lambda>q. symbol_key (q_symbol q)) quoted"
    by (simp add: dto_quotes_def dto_symbol_def symbol_key_def Let_def)
  ultimately show ?thesis
    using send_new(1,3) [of "write_json (DataQuotes (dto_quotes quoted))" encode] q(2,3)
    by (intro exI [of _ "dto_quotes quoted"] exI [of _ rec] exI [of _ st']) (simp add: write_json_def)
qed

theorem quotes_end_to_end_witness:
  "\<exists>rec st'. serve_http (\<lambda>_. Some ''[]'') (Some (api_of_service (memory_service (Some (fixed_provider (Inr []) (Inr [sample_quote]))))))
     0 still_clock (get_request ''quotes'' (\<lambda>n. if n = ''symbols'' then ''SH:600000'' else [])) (start_state sample_world) =
     (Some (None, rec), st') \<and> sr_sent rec = [200] \<and> w_provider (ap_world st') = 1"
proof -
  let ?p = "fixed_provider (Inr []) (Inr [sample_quote])" and ?ss = "[mk_symbol ''SH'' ''600000'']"
  let ?r = "get_request ''quotes'' (\<lambda>n. if n = ''symbols'' then ''SH:600000'' else [])"
  let ?st = "start_state sample_world"
  have ss: "sample_symbol = mk_symbol ''SH'' ''600000''" by (simp add: sample_symbol_def)
  have "parse_market ''SH'' = Inr ''SH''" "new_symbol ''SH'' ''600000'' = Inr (mk_symbol ''SH'' ''600000'')" by code_simp+
  then have v: "\<forall>s \<in> set ?ss. \<exists>v m c. parse_market v = Inr m \<and> new_symbol m c = Inr s" by auto
  have c: "?ss \<noteq> []" "\<forall>s \<in> set ?ss. CHR '','' \<notin> set (s_code s)" by simp_all
  have f: "find_route ?r = Some (route_of ''GET'' ''quotes'' ''quotes'' RQuotes)"
    "re_route (route_of ''GET'' ''quotes'' ''quotes'' RQuotes) = RQuotes"
    by (simp_all add: find_route_def routes_def route_of_def get_request_def method_fits_def)
  have k: "symbol_key (mk_symbol ''SH'' ''600000'') = ''SH:600000''" "trim_space ''SH:600000'' = ''SH:600000''" by code_simp+
  then have j: "query_value ?r ''symbols'' = join '','' (map symbol_key ?ss)" by (simp add: query_value_def get_request_def)
  have a: "fst (allow_request (cr_allow still_clock) (ap_limiter ?st))" "w_ctx (ap_world ?st) = None"
    "own_keys (m_quotes (w_cache (ap_world ?st)))"
    by (simp_all add: allow_request_def start_state_def sample_world_def new_memory_def own_keys_def)
  have m: "missed (ap_world ?st) ?ss = ?ss"
    by (simp add: missed_def cached_quote_def start_state_def sample_world_def new_memory_def entry_get_def)
  then have b: "missed (ap_world ?st) ?ss \<noteq> []" by simp
  have p: "pv_quotes ?p (missed (ap_world ?st) ?ss) (w_provider (ap_world ?st)) = (Inr [sample_quote], Suc 0)"
    by (simp add: fixed_provider_def start_state_def sample_world_def)
  have q: "symbol_key ` q_symbol ` set [sample_quote] = symbol_key ` set (missed (ap_world ?st) ?ss)"
    by (simp add: m sample_quote_def ss)
  show ?thesis
    using quotes_end_to_end [OF v c f j a b p q, of "\<lambda>_. Some ''[]''" 0] by auto
qed

end
