(* ===== verification/Grpc_Api.thy ===== *)
theory Grpc_Api
  imports Http_Api Sql_Time
begin

text \<open>
  The gRPC interface (\<^verbatim>\<open>internal/api/grpc/server.go\<close>): the messages, the reading of their fields, a handler per method
  over the same service as the HTTP interface, and the status codes.  The transport is \<^verbatim>\<open>google.golang.org/grpc\<close>: it hands
  \<open>unaryHandler\<close> a decoder and perhaps an interceptor, both parameters.
\<close>

section \<open>Messages\<close>

record grpc_symbol =
  gs_market :: string
  gs_code :: string

record grpc_symbols_request =
  gy_symbols :: "grpc_symbol list"
  gy_market :: string
  gy_code :: string

record grpc_symbol_request =
  gw_symbol :: grpc_symbol
  gw_market :: string
  gw_code :: string

record grpc_ticks_request =
  gk_symbol :: grpc_symbol
  gk_market :: string
  gk_code :: string
  gk_start :: u32
  gk_count :: u32
  gk_full :: bool
  gk_force :: bool

record grpc_history_request =
  gh_symbol :: grpc_symbol
  gh_market :: string
  gh_code :: string
  gh_date :: string
  gh_start :: u32
  gh_count :: u32
  gh_full :: bool
  gh_with_flag :: bool
  gh_force :: bool

record grpc_kline_request =
  gl_symbol :: grpc_symbol
  gl_market :: string
  gl_code :: string
  gl_period :: string
  gl_adjust :: string
  gl_start :: u32
  gl_count :: u32
  gl_times :: u32
  gl_start_date :: string
  gl_end_date :: string
  gl_force :: bool

record grpc_securities_request =
  gc_markets :: "string list"
  gc_symbols :: "grpc_symbol list"
  gc_start :: u32
  gc_count :: u32
  gc_refresh :: bool

datatype grpc_response =
    HealthResponse string
  | QuotesResponse "quote list"
  | OrderBooksResponse "order_book list"
  | TicksResponse "tick list"
  | KLineResponse "bar list"
  | XDXRResponse "xdxr_event list"
  | SecuritiesResponse "security_info list"
  | FinanceResponse "finance_info option"
  | TradingDayResponse "trading_day_info option"

section \<open>Errors\<close>

datatype grpc_code = InvalidArgument | ResourceExhausted | NotFound | Unimplemented | Unavailable | Internal

text \<open>The failure of a call: a status, an error of the transport, or a panic of the service.\<close>

datatype grpc_failure = Status grpc_code string | TransportError string | Panicked go_error

type_synonym 'w grpc_op = "'w \<Rightarrow> (grpc_failure + grpc_response) \<times> 'w"

definition grpc_error :: "go_error \<Rightarrow> grpc_failure" where
  "grpc_error e =
     (if errors_is e ErrInvalidRequest then Status InvalidArgument (err_text e)
      else if errors_is e ErrRateLimited then Status ResourceExhausted (err_text e)
      else if errors_is e ErrNoData then Status NotFound (err_text e)
      else if errors_is e ErrUnsupportedCapability then Status Unimplemented (err_text e)
      else if errors_is e ErrUpstreamUnavailable then Status Unavailable (err_text e)
      else Status Internal (err_text e))"

section \<open>Reading a request\<close>

definition parse_single_symbol :: "grpc_symbol \<Rightarrow> string \<Rightarrow> string \<Rightarrow> symbol result" where
  "parse_single_symbol s market code =
     (if gs_market s \<noteq> [] \<or> gs_code s \<noteq> [] then new_symbol (gs_market s) (gs_code s) else new_symbol market code)"

definition parse_grpc_symbols :: "grpc_symbols_request option \<Rightarrow> symbol list result" where
  "parse_grpc_symbols r =
     (case r of
        None \<Rightarrow> Inl ErrInvalidRequest
      | Some req \<Rightarrow>
          (let raw = (if gy_symbols req = [] \<and> (gy_market req \<noteq> [] \<or> gy_code req \<noteq> [])
                      then [\<lparr>gs_market = gy_market req, gs_code = gy_code req\<rparr>] else gy_symbols req)
           in if raw = [] then Inl ErrInvalidRequest
              else collect (\<lambda>item. parse_single_symbol item [] []) raw))"

definition parse_symbol_request :: "grpc_symbol_request option \<Rightarrow> symbol result" where
  "parse_symbol_request r =
     (case r of None \<Rightarrow> Inl ErrInvalidRequest
      | Some req \<Rightarrow> parse_single_symbol (gw_symbol req) (gw_market req) (gw_code req))"

text \<open>The layouts \<^verbatim>\<open>2006-01-02\<close>, \<^verbatim>\<open>20060102\<close> and RFC 3339, in this order; \<open>zone\<close> is the offset of \<open>time.Local\<close>.\<close>

definition grpc_date_layouts :: "chunk list list" where
  "grpc_date_layouts = [date_chunks, [LYear, LMonth, LDay], rfc3339]"

definition parse_grpc_date :: "int \<Rightarrow> string \<Rightarrow> gotime result" where
  "parse_grpc_date zone raw =
     (if raw = [] then Inr zero_time
      else case first_layout zone raw grpc_date_layouts of
             Some t \<Rightarrow> Inr (normalize_date t)
           | None \<Rightarrow> Inl ErrInvalidRequest)"

definition to_uint16 :: "u32 \<Rightarrow> u16 result" where
  "to_uint16 v = (if 65535 < v then Inl ErrInvalidRequest else Inr (ucast v))"

section \<open>The handlers\<close>

text \<open>\<open>requireService\<close>; every error on the way becomes a status, a panic leaves the handler.\<close>

definition grpc_answer :: "'w api_service option \<Rightarrow> ('w api_service \<Rightarrow> ('w, 'a) op) \<Rightarrow> ('a \<Rightarrow> grpc_response) \<Rightarrow> 'w grpc_op" where
  "grpc_answer svc m f w =
     (case svc of
        None \<Rightarrow> (Inl (grpc_error ErrUpstreamUnavailable), w)
      | Some s \<Rightarrow>
          (case m s w of
             (Inl e, w') \<Rightarrow> (Inl (if is_panic e then Panicked e else grpc_error e), w')
           | (Inr x, w') \<Rightarrow> (Inr (f x), w')))"

definition required :: "'r option \<Rightarrow> ('r \<Rightarrow> ('w, 'a) op) \<Rightarrow> ('w, 'a) op" where
  "required r k = (case r of None \<Rightarrow> fail ErrInvalidRequest | Some req \<Rightarrow> k req)"

definition grpc_health :: "'w grpc_op" where
  "grpc_health w = (Inr (HealthResponse ''ok''), w)"

definition grpc_quotes :: "'w api_service option \<Rightarrow> grpc_symbols_request option \<Rightarrow> 'w grpc_op" where
  "grpc_quotes svc r = grpc_answer svc (\<lambda>s. bnd (lift_result (parse_grpc_symbols r)) (as_quotes s)) QuotesResponse"

definition grpc_order_book :: "'w api_service option \<Rightarrow> grpc_symbols_request option \<Rightarrow> 'w grpc_op" where
  "grpc_order_book svc r = grpc_answer svc (\<lambda>s. bnd (lift_result (parse_grpc_symbols r)) (as_order_book s)) OrderBooksResponse"

definition grpc_ticks :: "'w api_service option \<Rightarrow> grpc_ticks_request option \<Rightarrow> 'w grpc_op" where
  "grpc_ticks svc r = grpc_answer svc (\<lambda>s. required r (\<lambda>req.
     bnd (lift_result (parse_single_symbol (gk_symbol req) (gk_market req) (gk_code req))) (\<lambda>sy.
     bnd (lift_result (to_uint16 (gk_start req))) (\<lambda>start.
     bnd (lift_result (to_uint16 (gk_count req))) (\<lambda>cnt.
     as_ticks s sy \<lparr>tr_start = start, tr_count = cnt, tr_cursor = [], tr_full = gk_full req, tr_force = gk_force req\<rparr>)))))
     TicksResponse"

definition grpc_history_ticks :: "'w api_service option \<Rightarrow> int \<Rightarrow> gotime \<Rightarrow> grpc_history_request option \<Rightarrow> 'w grpc_op" where
  "grpc_history_ticks svc zone now r = grpc_answer svc (\<lambda>s. required r (\<lambda>req.
     bnd (lift_result (parse_single_symbol (gh_symbol req) (gh_market req) (gh_code req))) (\<lambda>sy.
     bnd (lift_result (parse_grpc_date zone (gh_date req))) (\<lambda>date.
     let trade_date = (if is_zero date then normalize_date now else date) in
     bnd (lift_result (to_uint16 (gh_start req))) (\<lambda>start.
     bnd (lift_result (to_uint16 (gh_count req))) (\<lambda>cnt.
     as_history_ticks s sy \<lparr>ht_trade_date = trade_date, ht_start = start, ht_count = cnt, ht_full = gh_full req,
       ht_with_flag = gh_with_flag req, ht_force = gh_force req\<rparr>))))))
     TicksResponse"

definition grpc_kline :: "'w api_service option \<Rightarrow> int \<Rightarrow> grpc_kline_request option \<Rightarrow> 'w grpc_op" where
  "grpc_kline svc zone r = grpc_answer svc (\<lambda>s. required r (\<lambda>req.
     bnd (lift_result (parse_single_symbol (gl_symbol req) (gl_market req) (gl_code req))) (\<lambda>sy.
     bnd (lift_result (parse_period (gl_period req))) (\<lambda>p.
     let period = (if p = PeriodUnknown then PeriodDay else p) in
     bnd (lift_result (parse_adjust_type (gl_adjust req))) (\<lambda>adjust.
     bnd (lift_result (to_uint16 (gl_start req))) (\<lambda>start.
     bnd (lift_result (to_uint16 (gl_count req))) (\<lambda>cnt.
     bnd (lift_result (to_uint16 (gl_times req))) (\<lambda>times.
     bnd (lift_result (parse_grpc_date zone (gl_start_date req))) (\<lambda>start_date.
     bnd (lift_result (parse_grpc_date zone (gl_end_date req))) (\<lambda>end_date.
     let kreq = \<lparr>k_period = period, k_start = start, k_count = cnt, k_times = times, k_start_date = start_date,
           k_end_date = end_date, k_force = gl_force req\<rparr>
     in if adjust = AdjustNone then as_kline s sy kreq else as_adjusted_kline s sy kreq adjust))))))))))
     KLineResponse"

definition grpc_xdxr :: "'w api_service option \<Rightarrow> grpc_symbol_request option \<Rightarrow> 'w grpc_op" where
  "grpc_xdxr svc r = grpc_answer svc (\<lambda>s. bnd (lift_result (parse_symbol_request r)) (as_xdxr s)) XDXRResponse"

definition grpc_securities :: "'w api_service option \<Rightarrow> grpc_securities_request option \<Rightarrow> 'w grpc_op" where
  "grpc_securities svc r = grpc_answer svc (\<lambda>s. required r (\<lambda>req.
     bnd (lift_result (collect parse_market (gc_markets req))) (\<lambda>markets.
     bnd (lift_result (collect (\<lambda>raw. parse_single_symbol raw [] []) (gc_symbols req))) (\<lambda>symbols.
     as_security_info s \<lparr>sq_markets = markets, sq_symbols = symbols, sq_types = [], sq_start = gc_start req,
       sq_count = gc_count req, sq_refresh = gc_refresh req\<rparr>))))
     SecuritiesResponse"

definition grpc_finance :: "'w api_service option \<Rightarrow> grpc_symbol_request option \<Rightarrow> 'w grpc_op" where
  "grpc_finance svc r = grpc_answer svc (\<lambda>s. bnd (lift_result (parse_symbol_request r)) (as_finance s)) FinanceResponse"

definition grpc_trading_day :: "'w api_service option \<Rightarrow> 'w grpc_op" where
  "grpc_trading_day svc = grpc_answer svc as_trading_day TradingDayResponse"

section \<open>The methods\<close>

text \<open>\<open>unaryHandler\<close>: decode, then call, through the interceptor if there is one.\<close>

definition full_method :: "string \<Rightarrow> string" where
  "full_method meth = ''/tongdaxin.marketdata.v1.MarketData/'' @ meth"

definition unary_handler ::
  "(grpc_failure + 'req) \<Rightarrow> (string \<Rightarrow> 'req \<Rightarrow> ('req \<Rightarrow> 'w grpc_op) \<Rightarrow> 'w grpc_op) option \<Rightarrow> string \<Rightarrow> ('req \<Rightarrow> 'w grpc_op) \<Rightarrow> 'w grpc_op" where
  "unary_handler dec interceptor meth call w =
     (case dec of
        Inl e \<Rightarrow> (Inl e, w)
      | Inr req \<Rightarrow> (case interceptor of None \<Rightarrow> call req w | Some i \<Rightarrow> i (full_method meth) req call w))"

text \<open>A decoded request of each method.\<close>

datatype grpc_request =
    HealthCall
  | QuotesCall grpc_symbols_request
  | OrderBookCall grpc_symbols_request
  | TicksCall grpc_ticks_request
  | HistoryTicksCall grpc_history_request
  | KLineCall grpc_kline_request
  | XDXRCall grpc_symbol_request
  | SecuritiesCall grpc_securities_request
  | FinanceCall grpc_symbol_request
  | TradingDayCall

fun method_name :: "grpc_request \<Rightarrow> string" where
  "method_name HealthCall = ''Health''"
| "method_name (QuotesCall r) = ''GetQuotes''"
| "method_name (OrderBookCall r) = ''GetOrderBook''"
| "method_name (TicksCall r) = ''GetTicks''"
| "method_name (HistoryTicksCall r) = ''GetHistoryTicks''"
| "method_name (KLineCall r) = ''GetKLine''"
| "method_name (XDXRCall r) = ''GetXDXR''"
| "method_name (SecuritiesCall r) = ''GetSecurities''"
| "method_name (FinanceCall r) = ''GetFinance''"
| "method_name TradingDayCall = ''GetTradingDay''"

text \<open>\<open>now\<close> is the reading of the server's clock, which only \<open>GetHistoryTicks\<close> takes.\<close>

fun call_method :: "'w api_service option \<Rightarrow> int \<Rightarrow> gotime \<Rightarrow> grpc_request \<Rightarrow> 'w grpc_op" where
  "call_method svc zone now HealthCall = grpc_health"
| "call_method svc zone now (QuotesCall r) = grpc_quotes svc (Some r)"
| "call_method svc zone now (OrderBookCall r) = grpc_order_book svc (Some r)"
| "call_method svc zone now (TicksCall r) = grpc_ticks svc (Some r)"
| "call_method svc zone now (HistoryTicksCall r) = grpc_history_ticks svc zone now (Some r)"
| "call_method svc zone now (KLineCall r) = grpc_kline svc zone (Some r)"
| "call_method svc zone now (XDXRCall r) = grpc_xdxr svc (Some r)"
| "call_method svc zone now (SecuritiesCall r) = grpc_securities svc (Some r)"
| "call_method svc zone now (FinanceCall r) = grpc_finance svc (Some r)"
| "call_method svc zone now TradingDayCall = grpc_trading_day svc"

definition serve_grpc ::
  "'w api_service option \<Rightarrow> int \<Rightarrow> gotime \<Rightarrow> (string \<Rightarrow> grpc_request \<Rightarrow> (grpc_request \<Rightarrow> 'w grpc_op) \<Rightarrow> 'w grpc_op) option \<Rightarrow>
   grpc_request \<Rightarrow> 'w grpc_op" where
  "serve_grpc svc zone now interceptor req =
     unary_handler (Inr req) interceptor (method_name req) (call_method svc zone now)"

section \<open>The same request over HTTP\<close>

definition request_with :: "string \<Rightarrow> (string \<times> string) list \<Rightarrow> http_request" where
  "request_with path params = \<lparr>hr_method = ''GET'', hr_path = ''/api/v1/'' @ path,
     hr_query = (\<lambda>name. case map_of params name of None \<Rightarrow> [] | Some v \<Rightarrow> v), hr_body = BodyEOF\<rparr>"

definition chosen :: "grpc_symbol \<Rightarrow> string \<Rightarrow> string \<Rightarrow> grpc_symbol" where
  "chosen s market code = (if gs_market s \<noteq> [] \<or> gs_code s \<noteq> [] then s else \<lparr>gs_market = market, gs_code = code\<rparr>)"

definition symbol_params :: "grpc_symbol \<Rightarrow> (string \<times> string) list" where
  "symbol_params s = [(''market'', gs_market s), (''code'', gs_code s)]"

definition symbol_text :: "grpc_symbol \<Rightarrow> string" where
  "symbol_text s = gs_market s @ '':'' @ gs_code s"

definition flag_text :: "bool \<Rightarrow> string" where
  "flag_text b = (if b then ''true'' else [])"

definition symbols_params :: "grpc_symbols_request \<Rightarrow> (string \<times> string) list" where
  "symbols_params r =
     (if gy_symbols r = [] then symbol_params \<lparr>gs_market = gy_market r, gs_code = gy_code r\<rparr>
      else [(''symbols'', join '','' (map symbol_text (gy_symbols r)))])"

definition number :: "u32 \<Rightarrow> string" where
  "number v = nat_dec (unat v)"

fun http_of :: "grpc_request \<Rightarrow> http_request" where
  "http_of HealthCall = request_with ''health'' []"
| "http_of (QuotesCall r) = request_with ''quotes'' (symbols_params r)"
| "http_of (OrderBookCall r) = request_with ''orderbook'' (symbols_params r)"
| "http_of (TicksCall r) = request_with ''ticks'' (symbol_params (chosen (gk_symbol r) (gk_market r) (gk_code r)) @
     [(''start'', number (gk_start r)), (''count'', number (gk_count r)), (''full'', flag_text (gk_full r)),
      (''force_refresh'', flag_text (gk_force r))])"
| "http_of (HistoryTicksCall r) = request_with ''history-ticks'' (symbol_params (chosen (gh_symbol r) (gh_market r) (gh_code r)) @
     [(''date'', gh_date r), (''start'', number (gh_start r)), (''count'', number (gh_count r)), (''full'', flag_text (gh_full r)),
      (''with_transaction_flag'', flag_text (gh_with_flag r)), (''force_refresh'', flag_text (gh_force r))])"
| "http_of (KLineCall r) = request_with ''kline'' (symbol_params (chosen (gl_symbol r) (gl_market r) (gl_code r)) @
     [(''period'', gl_period r), (''adjust'', gl_adjust r), (''start'', number (gl_start r)), (''count'', number (gl_count r)),
      (''times'', number (gl_times r)), (''start_date'', gl_start_date r), (''end_date'', gl_end_date r),
      (''force_refresh'', flag_text (gl_force r))])"
| "http_of (XDXRCall r) = request_with ''xdxr'' (symbol_params (chosen (gw_symbol r) (gw_market r) (gw_code r)))"
| "http_of (SecuritiesCall r) = request_with ''securities''
     [(''markets'', join '','' (gc_markets r)), (''symbols'', join '','' (map symbol_text (gc_symbols r))),
      (''start'', number (gc_start r)), (''count'', number (gc_count r)), (''refresh'', flag_text (gc_refresh r))]"
| "http_of (FinanceCall r) = request_with ''finance'' (symbol_params (chosen (gw_symbol r) (gw_market r) (gw_code r)))"
| "http_of TradingDayCall = request_with ''trading-day'' []"

fun http_route :: "grpc_request \<Rightarrow> api_route" where
  "http_route HealthCall = RHealth" | "http_route (QuotesCall r) = RQuotes" | "http_route (OrderBookCall r) = ROrderBook"
| "http_route (TicksCall r) = RTicks" | "http_route (HistoryTicksCall r) = RHistoryTicks" | "http_route (KLineCall r) = RKLine"
| "http_route (XDXRCall r) = RXdxr" | "http_route (SecuritiesCall r) = RSecurities" | "http_route (FinanceCall r) = RFinance"
| "http_route TradingDayCall = RTradingDay"

fun http_data :: "grpc_response \<Rightarrow> api_data" where
  "http_data (HealthResponse s) = DataHealth"
| "http_data (QuotesResponse qs) = DataQuotes (dto_quotes qs)"
| "http_data (OrderBooksResponse bs) = DataOrderBooks (dto_order_books bs)"
| "http_data (TicksResponse ts) = DataTicks (dto_ticks ts)"
| "http_data (KLineResponse bs) = DataBars (dto_bars bs)"
| "http_data (XDXRResponse xs) = DataXdxr (dto_xdxr xs)"
| "http_data (SecuritiesResponse items) = DataSecurities (dto_securities items)"
| "http_data (FinanceResponse info) = DataFinance (dto_finance info)"
| "http_data (TradingDayResponse info) = DataTradingDay (dto_trading_day info)"

fun http_failure :: "grpc_code \<Rightarrow> int \<times> string" where
  "http_failure InvalidArgument = (400, ''invalid_request'')"
| "http_failure ResourceExhausted = (429, ''rate_limited'')"
| "http_failure NotFound = (404, ''no_data'')"
| "http_failure Unimplemented = (501, ''unsupported_capability'')"
| "http_failure Unavailable = (503, ''upstream_unavailable'')"
| "http_failure Internal = (500, ''internal_error'')"

text \<open>Both interfaces leave the same world and answer the same data, or the same failure with the same text.\<close>

fun same_reply :: "grpc_failure + grpc_response \<Rightarrow> http_reply result \<Rightarrow> bool" where
  "same_reply (Inr x) (Inr rep) = (rep = write_json (http_data x))"
| "same_reply (Inl (Status c msg)) (Inr rep) =
     (rep = \<lparr>rp_status = fst (http_failure c), rp_body = ApiError (snd (http_failure c)) msg\<rparr>)"
| "same_reply (Inl (Panicked e)) (Inl e') = (e = e')"
| "same_reply x y = False"

definition same_outcome :: "(grpc_failure + grpc_response) \<times> 'w \<Rightarrow> http_reply result \<times> 'w \<Rightarrow> bool" where
  "same_outcome x y \<longleftrightarrow> snd x = snd y \<and> same_reply (fst x) (fst y)"

text \<open>
  What both interfaces read alike: an explicit known market (HTTP guesses a missing one), a list of symbols in the
  form of their keys, a date with dashes, and a period (HTTP takes daily bars for a missing one).
\<close>

definition plain_symbol :: "grpc_symbol \<Rightarrow> bool" where
  "plain_symbol s \<longleftrightarrow> gs_market s \<in> set known_markets \<and> gs_code s \<noteq> [] \<and> trim_space (gs_code s) = gs_code s \<and>
     CHR '','' \<notin> set (gs_code s)"

definition known_symbol :: "grpc_symbol \<Rightarrow> bool" where
  "known_symbol s \<longleftrightarrow> normalize_market (gs_market s) \<in> set known_markets"

definition portable_symbols :: "grpc_symbols_request \<Rightarrow> bool" where
  "portable_symbols r \<longleftrightarrow>
     (if gy_symbols r = [] then known_symbol \<lparr>gs_market = gy_market r, gs_code = gy_code r\<rparr> else list_all plain_symbol (gy_symbols r))"

definition portable_date :: "int \<Rightarrow> string \<Rightarrow> bool" where
  "portable_date zone d \<longleftrightarrow> d = [] \<or> parse_dashed zone d \<noteq> None"

fun portable :: "int \<Rightarrow> grpc_request \<Rightarrow> bool" where
  "portable zone (QuotesCall r) = portable_symbols r"
| "portable zone (OrderBookCall r) = portable_symbols r"
| "portable zone (TicksCall r) = known_symbol (chosen (gk_symbol r) (gk_market r) (gk_code r))"
| "portable zone (HistoryTicksCall r) = (known_symbol (chosen (gh_symbol r) (gh_market r) (gh_code r)) \<and> portable_date zone (gh_date r))"
| "portable zone (KLineCall r) = (known_symbol (chosen (gl_symbol r) (gl_market r) (gl_code r)) \<and>
     trim_space (gl_period r) \<noteq> [] \<and> portable_date zone (gl_start_date r) \<and> portable_date zone (gl_end_date r))"
| "portable zone (XDXRCall r) = known_symbol (chosen (gw_symbol r) (gw_market r) (gw_code r))"
| "portable zone (SecuritiesCall r) = (set (gc_markets r) \<subseteq> set known_markets \<and> list_all plain_symbol (gc_symbols r))"
| "portable zone (FinanceCall r) = known_symbol (chosen (gw_symbol r) (gw_market r) (gw_code r))"
| "portable zone req = True"

section \<open>Fields read alike\<close>

lemma single_chosen: "parse_single_symbol s m c = new_symbol (gs_market (chosen s m c)) (gs_code (chosen s m c))"
  by (simp add: parse_single_symbol_def chosen_def)

lemma new_symbol_trimmed: "known_symbol s \<Longrightarrow> market_and_code (trim_space (gs_market s)) (trim_space (gs_code s)) = new_symbol (gs_market s) (gs_code s)"
proof -
  assume k: "known_symbol s"
  let ?m = "normalize_market (gs_market s)"
  have k: "?m \<in> set known_markets" using k by (simp add: known_symbol_def)
  have ne: "trim_space (gs_market s) \<noteq> []"
    using known_market_no_colon [OF k] by (auto simp: normalize_market_def to_upper_def)
  have "parse_market (trim_space (gs_market s)) = Inr ?m" using k by (simp add: parse_market_Inr normalize_market_def)
  moreover have "new_symbol ?m (trim_space (gs_code s)) = new_symbol (gs_market s) (gs_code s)"
    using known_markets_normal [OF k] by (simp add: new_symbol_def normalize_code_def)
  ultimately show ?thesis using ne by (simp add: market_and_code_def)
qed

lemma parse_uint_number: "parse_uint bits (nat_dec n) = (if n < 2 ^ bits then Some n else None)"
  by (simp add: parse_uint_def list_all_iff nat_dec_digits)

lemma trim_digits: "list_all is_digit d \<Longrightarrow> trim_space d = d"
  by (cases "d = []") (auto simp: list_all_iff intro!: trim_space_visible digit_visible)

lemma trim_number [simp]: "trim_space (number v) = number v" and number_Nil [simp]: "number v \<noteq> []"
  by (simp_all add: number_def trim_digits list_all_iff nat_dec_digits)

lemma number16:
  "query_value r name = number v \<Longrightarrow> parse_uint16_query r name f = to_uint16 v"
proof -
  assume q: "query_value r name = number v"
  have "65535 < v \<longleftrightarrow> \<not> unat v < 65536" unfolding word_less_nat_alt by (simp, linarith)
  moreover have "(word_of_nat (unat v) :: u16) = ucast v" by simp
  ultimately show ?thesis using q by (simp add: parse_uint16_query_def to_uint16_def number_def [symmetric]) (simp add: number_def parse_uint_number)
qed

lemma u32_bound: "unat (v :: u32) < 4294967296"
proof -
  have "unat v < 2 ^ LENGTH(32)" by (rule unsigned_less)
  then show ?thesis by simp
qed

lemma number32: "query_value r name = number v \<Longrightarrow> parse_uint32_query r name f = Inr v"
  using u32_bound [of v] by (simp add: parse_uint32_query_def number_def [symmetric]) (simp add: number_def parse_uint_number)

lemma flag_read: "query_value r name = flag_text b \<Longrightarrow> parse_bool_query r name = b"
  by (simp add: parse_bool_query_def flag_text_def true_words_def)

lemma trim_flag [simp]: "trim_space (flag_text b) = flag_text b"
  by (cases b) (simp_all add: flag_text_def trim_space_visible ascii_visible_def)

text \<open>Dates: the first layout of gRPC reads what the only layout of HTTP reads.\<close>

lemma dashed_split:
  assumes "parse_dashed zone s = Some t"
  obtains y1 y2 y3 y4 m1 m2 d1 d2 where
    "s = [y1, y2, y3, y4, CHR ''-'', m1, m2, CHR ''-'', d1, d2]" "list_all is_digit [y1, y2, y3, y4, m1, m2, d1, d2]"
    "1 \<le> dec_val [m1, m2]" "dec_val [m1, m2] \<le> 12" "1 \<le> dec_val [d1, d2]"
    "dec_val [d1, d2] \<le> month_days (is_leap (int (dec_val [y1, y2, y3, y4]))) (dec_val [m1, m2])"
    "t = midnight zone (date_day (int (dec_val [y1, y2, y3, y4])) (dec_val [m1, m2]) (dec_val [d1, d2]))"
proof -
  have l: "length s = 10" using assms by (auto simp: parse_dashed_def Let_def split: if_splits)
  then obtain y1 y2 y3 y4 c1 m1 m2 c2 d1 d2 where s: "s = [y1, y2, y3, y4, c1, m1, m2, c2, d1, d2]"
    by (auto simp: length_Suc_conv numeral_eq_Suc)
  show ?thesis
    using that [of y1 y2 y3 y4 m1 m2 d1 d2] assms by (simp add: s parse_dashed_def Let_def split: if_splits)
qed

lemma dashed_layout: "parse_dashed zone s = Some t \<Longrightarrow> parse_in_location zone date_chunks s = Some t"
  by (elim dashed_split)
    (auto simp: parse_in_location_def date_chunks_def below_def no_fields_def fields_time_def midnight_def Let_def)

lemma dashed_trim: "parse_dashed zone s = Some t \<Longrightarrow> trim_space s = s \<and> s \<noteq> []"
  by (elim dashed_split) (auto intro!: trim_space_visible digit_visible)

lemma date_read:
  assumes "portable_date zone d" and "query_value r name = trim_space d"
  shows "parse_date_query zone r name False = parse_grpc_date zone d"
proof (cases "d = []")
  case True
  then show ?thesis using assms(2) by (simp add: parse_date_query_def parse_grpc_date_def)
next
  case False
  then obtain t where t: "parse_dashed zone d = Some t" using assms(1) by (auto simp: portable_date_def)
  show ?thesis
    using assms(2) False dashed_trim [OF t] dashed_layout [OF t] t
    by (simp add: parse_date_query_def parse_grpc_date_def grpc_date_layouts_def)
qed

text \<open>Symbols and markets.\<close>

lemma plain_single:
  assumes "plain_symbol s"
  shows "parse_single_symbol s [] [] = Inr (mk_symbol (gs_market s) (gs_code s))"
    and "symbol_key (mk_symbol (gs_market s) (gs_code s)) = symbol_text s"
    and "new_symbol (gs_market s) (gs_code s) = Inr (mk_symbol (gs_market s) (gs_code s))"
    and "parse_market (gs_market s) = Inr (gs_market s)"
proof -
  have k: "gs_market s \<in> set known_markets" "gs_code s \<noteq> []" "trim_space (gs_code s) = gs_code s"
    using assms by (auto simp: plain_symbol_def)
  note ne = known_market_no_colon [OF k(1)] and nm = known_markets_normal [OF k(1)]
  show n: "new_symbol (gs_market s) (gs_code s) = Inr (mk_symbol (gs_market s) (gs_code s))"
    using k ne nm by (simp add: new_symbol_Inr normalize_code_def)
  show "parse_single_symbol s [] [] = Inr (mk_symbol (gs_market s) (gs_code s))"
    using n ne by (simp add: parse_single_symbol_def)
  show p: "parse_market (gs_market s) = Inr (gs_market s)" by (rule parse_known [OF k(1)])
  show "symbol_key (mk_symbol (gs_market s) (gs_code s)) = symbol_text s"
    using valid_symbol_form(4) [OF p n] k(3) by (simp add: symbol_text_def)
qed

lemma plain_list:
  assumes "list_all plain_symbol ss" and "ss \<noteq> []"
  shows "parse_symbol_list (join '','' (map symbol_text ss)) = collect (\<lambda>item. parse_single_symbol item [] []) ss"
proof -
  let ?f = "\<lambda>s. mk_symbol (gs_market s) (gs_code s)"
  have "parse_symbol_list (join '','' (map symbol_key (map ?f ss))) = Inr (map ?f ss)"
  proof (rule conjunct2 [OF read_back])
    show "\<forall>s \<in> set (map ?f ss). \<exists>v m c. parse_market v = Inr m \<and> new_symbol m c = Inr s"
      using assms(1) plain_single(3,4) by (fastforce simp: list_all_iff)
    show "map ?f ss \<noteq> []" using assms(2) by simp
    show "\<forall>s \<in> set (map ?f ss). CHR '','' \<notin> set (s_code s)"
      using assms(1) by (auto simp: list_all_iff plain_symbol_def mk_symbol_def)
  qed
  moreover have "map symbol_key (map ?f ss) = map symbol_text ss"
    unfolding map_map by (rule map_cong) (use assms(1) plain_single(2) in \<open>simp_all add: list_all_iff\<close>)
  moreover have "collect (\<lambda>item. parse_single_symbol item [] []) ss = Inr (map ?f ss)"
    using assms(1) by (intro collect_all) (simp add: plain_single(1) list_all_iff)
  ultimately show ?thesis by (simp only:)
qed

lemma symbols_text_shape:
  assumes "list_all plain_symbol ss" and "ss \<noteq> []"
  shows "\<exists>h c. join '','' (map symbol_text ss) = h @ c \<and> h \<noteq> [] \<and> ascii_visible (hd h) \<and> last h = CHR '':'' \<and>
    trim_space c = c \<and> c \<noteq> []"
  using assms
proof (induction ss rule: induct_list012)
  case (2 s)
  then have k: "gs_market s \<in> set known_markets" "gs_code s \<noteq> []" "trim_space (gs_code s) = gs_code s"
    by (auto simp: plain_symbol_def)
  have "join '','' (map symbol_text [s]) = (gs_market s @ '':'') @ gs_code s" by (simp add: symbol_text_def)
  then show ?case using k known_market_visible [OF k(1)] by (intro exI [of _ "gs_market s @ '':''"] exI [of _ "gs_code s"]) simp
next
  case (3 s s' ss)
  then obtain h c where h: "join '','' (map symbol_text (s' # ss)) = h @ c" "h \<noteq> []" "last h = CHR '':''" "trim_space c = c" "c \<noteq> []"
    by auto
  have k: "gs_market s \<in> set known_markets" using 3 by (auto simp: plain_symbol_def)
  have "join '','' (map symbol_text (s # s' # ss)) = (symbol_text s @ '','' @ h) @ c" using h(1) by simp
  moreover have "ascii_visible (hd (symbol_text s @ '','' @ h))" using known_market_visible [OF k] by (simp add: symbol_text_def)
  moreover have "last (symbol_text s @ '','' @ h) = CHR '':''" "symbol_text s @ '','' @ h \<noteq> []" using h(2,3) by simp_all
  ultimately show ?case using h(4,5) by blast
qed simp

lemma trim_symbols: "list_all plain_symbol ss \<Longrightarrow> trim_space (join '','' (map symbol_text ss)) = join '','' (map symbol_text ss)"
proof (cases "ss = []")
  case False
  assume "list_all plain_symbol ss"
  then obtain h c where "join '','' (map symbol_text ss) = h @ c" "h \<noteq> []" "ascii_visible (hd h)" "last h = CHR '':''"
      "trim_space c = c" "c \<noteq> []"
    using symbols_text_shape [OF _ False] by blast
  then show ?thesis using trim_behind [of h c] colon_visible by simp
qed simp

lemma symbols_text_Nil: "list_all plain_symbol ss \<Longrightarrow> ss \<noteq> [] \<Longrightarrow> join '','' (map symbol_text ss) \<noteq> []"
  using symbols_text_shape [of ss] by auto

lemma join_visible:
  "\<forall>w \<in> set ws. w \<noteq> [] \<and> list_all ascii_visible w \<Longrightarrow> list_all ascii_visible (join '','' ws) \<and> (ws \<noteq> [] \<longrightarrow> join '','' ws \<noteq> [])"
  by (induction ws rule: induct_list012) (simp_all add: ascii_visible_def)

lemma markets_read:
  assumes "set ms \<subseteq> set known_markets" and "hr_query r ''markets'' = join '','' ms" and "hr_query r ''market'' = []"
  shows "parse_markets r = collect parse_market ms"
proof (cases "ms = []")
  case True
  then show ?thesis using assms(2,3) by (simp add: parse_markets_def query_value_def)
next
  case False
  have v: "\<forall>w \<in> set ms. w \<noteq> [] \<and> list_all ascii_visible w \<and> CHR '','' \<notin> set w"
    using assms(1) by (auto simp: known_markets_def ascii_visible_def)
  then have j: "list_all ascii_visible (join '','' ms)" "join '','' ms \<noteq> []" using join_visible [of ms] False by auto
  then have "trim_space (join '','' ms) = join '','' ms"
    by (intro trim_space_visible) (auto simp: list_all_iff)
  then show ?thesis
    using j(2) assms(2) split_on_join [of ms "CHR '',''"] v False by (simp add: parse_markets_def query_value_def)
qed

section \<open>Both interfaces end alike\<close>

lemma single_read:
  assumes "known_symbol s" and "hr_query r ''market'' = gs_market s" "hr_query r ''code'' = gs_code s" "hr_query r ''symbol'' = []"
  shows "parse_symbol r = new_symbol (gs_market s) (gs_code s)"
  using new_symbol_trimmed [OF assms(1)] assms(2-) by (simp add: parse_symbol_def query_value_def)

lemma error_alike: "same_reply (Inl (grpc_error e)) (Inr (write_error e))"
  by (simp add: grpc_error_def write_error_def error_status_def)

lemma answers_alike:
  assumes "\<And>x. http_data (F x) = f x"
  shows "same_outcome (grpc_answer svc m F w) (with_service svc (\<lambda>s. answer (m s) f) w)"
  using error_alike assms
  by (auto simp: same_outcome_def grpc_answer_def with_service_def answer_def catch_def ret_def split: option.split prod.split sum.split)

lemma query_with: "hr_query (request_with path params) name = (case map_of params name of None \<Rightarrow> [] | Some v \<Rightarrow> v)"
  by (simp add: request_with_def)

lemma query_value_with: "query_value (request_with path params) name =
    trim_space (case map_of params name of None \<Rightarrow> [] | Some v \<Rightarrow> v)"
  by (simp add: query_value_def query_with)

lemma method_with: "hr_method (request_with path params) = ''GET''" "hr_path (request_with path params) = ''/api/v1/'' @ path"
  by (simp_all add: request_with_def)

lemma period_read: "trim_space p \<noteq> [] \<Longrightarrow> query_value r name = trim_space p \<Longrightarrow> parse_period_query r name f = parse_period p"
  by (simp add: parse_period_query_def parse_period_def)

lemma period_not_unknown: "parse_period p = Inr x \<Longrightarrow> x \<noteq> PeriodUnknown"
  by (auto simp: parse_period_def Let_def split: if_splits)

lemma symbols_read:
  assumes "portable_symbols r"
  shows "parse_symbols (request_with path (symbols_params r)) = parse_grpc_symbols (Some r)"
proof (cases "gy_symbols r = []")
  case True
  let ?s = "\<lparr>gs_market = gy_market r, gs_code = gy_code r\<rparr>" let ?h = "request_with path (symbols_params r)"
  have k: "known_symbol ?s" using assms True by (simp add: portable_symbols_def)
  then have m: "trim_space (gy_market r) \<noteq> []"
    using known_market_no_colon by (fastforce simp: known_symbol_def normalize_market_def to_upper_def)
  then have ne: "gy_market r \<noteq> []" by auto
  have "parse_symbol ?h = new_symbol (gy_market r) (gy_code r)"
    using single_read [OF k, of ?h] True by (simp add: query_with symbols_params_def symbol_params_def)
  then show ?thesis
    using True m ne
    by (auto simp: parse_symbols_def query_value_with symbols_params_def symbol_params_def parse_grpc_symbols_def one_symbol_def
        parse_single_symbol_def Let_def split: sum.split)
next
  case False
  then have p: "list_all plain_symbol (gy_symbols r)" using assms by (simp add: portable_symbols_def)
  show ?thesis
    using False trim_symbols [OF p] symbols_text_Nil [OF p False] plain_list [OF p False]
    by (simp add: parse_symbols_def query_value_with symbols_params_def parse_grpc_symbols_def)
qed

lemmas read_alike = single_read single_chosen symbols_read number16 number32 flag_read date_read period_read markets_read

lemma single_with:
  assumes "known_symbol s" and "map_of params ''symbol'' = None"
  shows "parse_symbol (request_with path (symbol_params s @ params)) = new_symbol (gs_market s) (gs_code s)"
  using assms by (intro single_read) (simp_all add: query_with symbol_params_def)

lemma optional_symbols_read:
  assumes "list_all plain_symbol ss" and "hr_query r ''symbols'' = join '','' (map symbol_text ss)" and "hr_query r ''symbol'' = []"
  shows "parse_optional_symbols r = collect (\<lambda>raw. parse_single_symbol raw [] []) ss"
  using trim_symbols [OF assms(1)] symbols_text_Nil [OF assms(1)] plain_list [OF assms(1)] assms(2,3)
  by (cases "ss = []") (simp_all add: parse_optional_symbols_def query_value_def)

lemma ticks_alike:
  assumes "portable zone (TicksCall q)"
  shows "same_outcome (grpc_ticks svc (Some q) w) (handle_ticks svc (http_of (TicksCall q)) w)"
proof -
  let ?h = "http_of (TicksCall q)"
  have "parse_symbol ?h = parse_single_symbol (gk_symbol q) (gk_market q) (gk_code q)"
    using assms by (simp add: single_with single_chosen)
  moreover have "parse_uint16_query ?h ''start'' 0 = to_uint16 (gk_start q)" "parse_uint16_query ?h ''count'' 0 = to_uint16 (gk_count q)"
    by (rule number16; simp add: query_value_with symbol_params_def)+
  moreover have "parse_bool_query ?h ''full'' = gk_full q" "parse_bool_query ?h ''force_refresh'' = gk_force q"
    by (rule flag_read; simp add: query_value_with symbol_params_def)+
  ultimately show ?thesis
    unfolding grpc_ticks_def handle_ticks_def required_def option.case by (simp only: answers_alike http_data.simps)
qed

lemma history_alike:
  assumes "portable zone (HistoryTicksCall q)"
  shows "same_outcome (grpc_history_ticks svc zone now (Some q) w) (handle_history_ticks svc zone now (http_of (HistoryTicksCall q)) w)"
proof -
  let ?h = "http_of (HistoryTicksCall q)"
  have "parse_symbol ?h = parse_single_symbol (gh_symbol q) (gh_market q) (gh_code q)"
    using assms by (simp add: single_with single_chosen)
  moreover have "parse_uint16_query ?h ''start'' 0 = to_uint16 (gh_start q)" "parse_uint16_query ?h ''count'' 0 = to_uint16 (gh_count q)"
    by (rule number16; simp add: query_value_with symbol_params_def)+
  moreover have "parse_bool_query ?h ''full'' = gh_full q" "parse_bool_query ?h ''with_transaction_flag'' = gh_with_flag q"
      "parse_bool_query ?h ''force_refresh'' = gh_force q"
    by (rule flag_read; simp add: query_value_with symbol_params_def)+
  moreover have "parse_date_query zone ?h ''date'' False = parse_grpc_date zone (gh_date q)"
    using assms by (intro date_read) (simp_all add: query_value_with symbol_params_def)
  ultimately show ?thesis
    unfolding grpc_history_ticks_def handle_history_ticks_def required_def option.case by (simp only: answers_alike http_data.simps)
qed

lemma bnd_lift_Inr: "bnd (lift_result (Inr x)) f = f x"
  by (simp add: fun_eq_iff op_defs)

lemma period_default:
  "bnd (lift_result (parse_period p)) (\<lambda>x. let y = if x = PeriodUnknown then d else x in f y) = bnd (lift_result (parse_period p)) f"
  by (cases "parse_period p") (auto simp: fun_eq_iff op_defs dest: period_not_unknown)

lemma kline_alike:
  assumes "portable zone (KLineCall q)"
  shows "same_outcome (grpc_kline svc zone (Some q) w) (handle_kline svc zone (http_of (KLineCall q)) w)"
proof -
  let ?h = "http_of (KLineCall q)"
  have "parse_symbol ?h = parse_single_symbol (gl_symbol q) (gl_market q) (gl_code q)"
    using assms by (simp add: single_with single_chosen)
  moreover have "parse_uint16_query ?h ''start'' 0 = to_uint16 (gl_start q)" "parse_uint16_query ?h ''count'' 0 = to_uint16 (gl_count q)"
      "parse_uint16_query ?h ''times'' 0 = to_uint16 (gl_times q)"
    by (rule number16; simp add: query_value_with symbol_params_def)+
  moreover have "parse_bool_query ?h ''force_refresh'' = gl_force q"
    by (rule flag_read; simp add: query_value_with symbol_params_def)+
  moreover have "parse_date_query zone ?h ''start_date'' False = parse_grpc_date zone (gl_start_date q)"
      "parse_date_query zone ?h ''end_date'' False = parse_grpc_date zone (gl_end_date q)"
    using assms by (intro date_read; simp add: query_value_with symbol_params_def)+
  moreover have "parse_period_query ?h ''period'' PeriodDay = parse_period (gl_period q)"
    using assms by (intro period_read) (simp_all add: query_value_with symbol_params_def)
  moreover have "hr_query ?h ''adjust'' = gl_adjust q"
    by (simp add: query_with symbol_params_def)
  ultimately show ?thesis
    unfolding grpc_kline_def handle_kline_def required_def option.case period_default by (simp only: answers_alike http_data.simps)
qed

lemma securities_alike:
  assumes "portable zone (SecuritiesCall q)"
  shows "same_outcome (grpc_securities svc (Some q) w) (handle_securities svc (http_of (SecuritiesCall q)) w)"
proof -
  let ?h = "http_of (SecuritiesCall q)"
  have "parse_markets ?h = collect parse_market (gc_markets q)"
    using assms by (intro markets_read) (simp_all add: query_with)
  moreover have "parse_optional_symbols ?h = collect (\<lambda>raw. parse_single_symbol raw [] []) (gc_symbols q)"
    using assms by (intro optional_symbols_read) (simp_all add: query_with)
  moreover have "parse_uint32_query ?h ''start'' 0 = Inr (gc_start q)" "parse_uint32_query ?h ''count'' 0 = Inr (gc_count q)"
    by (rule number32; simp add: query_value_with)+
  moreover have "parse_bool_query ?h ''refresh'' = gc_refresh q"
    by (rule flag_read; simp add: query_value_with)+
  ultimately show ?thesis
    unfolding grpc_securities_def handle_securities_def required_def option.case
    by (simp only: answers_alike http_data.simps bnd_lift_Inr)
qed

lemma requests_alike:
  assumes "portable zone req" and "cr_handler clk = now"
  shows "same_outcome (serve_grpc svc zone now None req w) (run_handler svc zone clk m (http_route req) (http_of req) w)"
proof (cases req)
  case (TicksCall q)
  then show ?thesis using ticks_alike assms by (simp add: serve_grpc_def unary_handler_def run_handler_def del: http_of.simps)
next
  case (HistoryTicksCall q)
  then show ?thesis using history_alike assms by (simp add: serve_grpc_def unary_handler_def run_handler_def del: http_of.simps)
next
  case (KLineCall q)
  then show ?thesis using kline_alike assms by (simp add: serve_grpc_def unary_handler_def run_handler_def del: http_of.simps)
next
  case (SecuritiesCall q)
  then show ?thesis using securities_alike assms by (simp add: serve_grpc_def unary_handler_def run_handler_def del: http_of.simps)
next
  case (QuotesCall q)
  then have "parse_symbols (http_of req) = parse_grpc_symbols (Some q)" using assms by (simp add: symbols_read)
  then show ?thesis
    using QuotesCall by (simp add: serve_grpc_def unary_handler_def run_handler_def grpc_quotes_def handle_quotes_def answers_alike)
next
  case (OrderBookCall q)
  then have "parse_symbols (http_of req) = parse_grpc_symbols (Some q)" using assms by (simp add: symbols_read)
  then show ?thesis
    using OrderBookCall by (simp add: serve_grpc_def unary_handler_def run_handler_def grpc_order_book_def handle_order_book_def answers_alike)
next
  case (XDXRCall q)
  then have "parse_symbol (http_of req) = parse_symbol_request (Some q)"
    using assms single_with [of _ "[]"] by (simp add: parse_symbol_request_def single_chosen)
  then show ?thesis
    using XDXRCall by (simp add: serve_grpc_def unary_handler_def run_handler_def grpc_xdxr_def handle_xdxr_def answers_alike)
next
  case (FinanceCall q)
  then have "parse_symbol (http_of req) = parse_symbol_request (Some q)"
    using assms single_with [of _ "[]"] by (simp add: parse_symbol_request_def single_chosen)
  then show ?thesis
    using FinanceCall by (simp add: serve_grpc_def unary_handler_def run_handler_def grpc_finance_def handle_finance_def answers_alike)
next
  case TradingDayCall
  then show ?thesis
    by (simp add: serve_grpc_def unary_handler_def run_handler_def grpc_trading_day_def handle_trading_day_def answers_alike)
next
  case HealthCall
  then show ?thesis
    by (simp add: serve_grpc_def unary_handler_def run_handler_def grpc_health_def handle_health_def same_outcome_def ret_def)
qed

lemma routes_found: "map_option re_route (find_route (http_of req)) = Some (http_route req)"
  by (cases req) (simp_all add: find_route_def routes_def route_of_def method_fits_def method_with)

section \<open>Requests that are refused\<close>

text \<open>What a request must have before the service is asked.\<close>

definition symbol_ok :: "grpc_symbol \<Rightarrow> bool" where
  "symbol_ok s \<longleftrightarrow> trim_space (gs_market s) \<noteq> [] \<and> trim_space (gs_code s) \<noteq> []"

definition date_ok :: "int \<Rightarrow> string \<Rightarrow> bool" where
  "date_ok zone d \<longleftrightarrow> d = [] \<or> first_layout zone d grpc_date_layouts \<noteq> None"

definition symbols_ok :: "grpc_symbols_request \<Rightarrow> bool" where
  "symbols_ok r \<longleftrightarrow>
     (if gy_symbols r = [] then symbol_ok \<lparr>gs_market = gy_market r, gs_code = gy_code r\<rparr> else list_all symbol_ok (gy_symbols r))"

fun request_ok :: "int \<Rightarrow> grpc_request \<Rightarrow> bool" where
  "request_ok zone (QuotesCall r) = symbols_ok r"
| "request_ok zone (OrderBookCall r) = symbols_ok r"
| "request_ok zone (TicksCall r) =
     (symbol_ok (chosen (gk_symbol r) (gk_market r) (gk_code r)) \<and> gk_start r \<le> 65535 \<and> gk_count r \<le> 65535)"
| "request_ok zone (HistoryTicksCall r) =
     (symbol_ok (chosen (gh_symbol r) (gh_market r) (gh_code r)) \<and> date_ok zone (gh_date r) \<and> gh_start r \<le> 65535 \<and> gh_count r \<le> 65535)"
| "request_ok zone (KLineCall r) =
     (symbol_ok (chosen (gl_symbol r) (gl_market r) (gl_code r)) \<and> parses (parse_period (gl_period r)) \<and>
      parses (parse_adjust_type (gl_adjust r)) \<and> gl_start r \<le> 65535 \<and> gl_count r \<le> 65535 \<and> gl_times r \<le> 65535 \<and>
      date_ok zone (gl_start_date r) \<and> date_ok zone (gl_end_date r))"
| "request_ok zone (XDXRCall r) = symbol_ok (chosen (gw_symbol r) (gw_market r) (gw_code r))"
| "request_ok zone (SecuritiesCall r) =
     ((\<forall>m \<in> set (gc_markets r). normalize_market m \<in> set known_markets) \<and> list_all symbol_ok (gc_symbols r))"
| "request_ok zone (FinanceCall r) = symbol_ok (chosen (gw_symbol r) (gw_market r) (gw_code r))"
| "request_ok zone req = True"

lemma new_symbol_parses: "parses (new_symbol (gs_market s) (gs_code s)) \<longleftrightarrow> symbol_ok s"
  by (auto simp: parses_def symbol_ok_def new_symbol_def validate_symbol_def normalize_market_def normalize_code_def mk_symbol_def
      to_upper_def Let_def)

lemma collect_parses: "parses (collect f xs) \<longleftrightarrow> list_all (\<lambda>x. parses (f x)) xs"
  by (induction xs) (auto simp: parses_def split: sum.splits)

lemma single_parses: "parses (parse_single_symbol s m c) \<longleftrightarrow> symbol_ok (chosen s m c)"
  by (simp add: single_chosen new_symbol_parses)

lemma chosen_empty: "symbol_ok (chosen s [] []) \<longleftrightarrow> symbol_ok s"
  by (auto simp: chosen_def symbol_ok_def)

lemma grpc_symbols_parse: "parses (parse_grpc_symbols (Some r)) \<longleftrightarrow> symbols_ok r"
  by (auto simp: parse_grpc_symbols_def collect_parses single_parses chosen_empty symbols_ok_def Let_def parses_def [of "Inl _"])
     (auto simp: symbol_ok_def)

lemma uint16_parses: "parses (to_uint16 v) \<longleftrightarrow> v \<le> 65535"
  by (auto simp: parses_def to_uint16_def)

lemma date_parses: "parses (parse_grpc_date zone d) \<longleftrightarrow> date_ok zone d"
  by (auto simp: parses_def parse_grpc_date_def date_ok_def split: option.splits)

lemma single_err: "parse_single_symbol s m c = Inl e \<Longrightarrow> e = ErrInvalidRequest"
  by (auto simp: parse_single_symbol_def dest: new_symbol_err split: if_splits)

lemma collect_err: "collect f xs = Inl e \<Longrightarrow> (\<And>x e. f x = Inl e \<Longrightarrow> e = ErrInvalidRequest) \<Longrightarrow> e = ErrInvalidRequest"
  by (auto dest!: collect_Inl)

lemma grpc_symbols_err: "parse_grpc_symbols r = Inl e \<Longrightarrow> e = ErrInvalidRequest"
  unfolding parse_grpc_symbols_def Let_def by (auto split: option.splits if_splits simp del: collect.simps elim: collect_err intro: single_err)

lemma grpc_param_errors:
  "parse_single_symbol s m c = Inl e \<Longrightarrow> e = ErrInvalidRequest"
  "parse_grpc_symbols r = Inl e \<Longrightarrow> e = ErrInvalidRequest"
  "parse_symbol_request r' = Inl e \<Longrightarrow> e = ErrInvalidRequest"
  "to_uint16 v = Inl e \<Longrightarrow> e = ErrInvalidRequest"
  "parse_grpc_date zone d = Inl e \<Longrightarrow> e = ErrInvalidRequest"
  "collect parse_market ms = Inl e \<Longrightarrow> e = ErrInvalidRequest"
  "collect (\<lambda>raw. parse_single_symbol raw [] []) ss = Inl e \<Longrightarrow> e = ErrInvalidRequest"
  by (auto simp: parse_symbol_request_def to_uint16_def parse_grpc_date_def single_err grpc_symbols_err
      elim: collect_err dest: parse_market_err single_err split: if_splits option.splits)

definition refused_grpc :: "grpc_failure + grpc_response" where
  "refused_grpc = Inl (Status InvalidArgument ''marketdata: invalid request'')"

lemma answer_refuses: "refuses w (m s) \<Longrightarrow> grpc_answer (Some s) m F w = (refused_grpc, w)"
  by (simp add: refuses_def grpc_answer_def grpc_error_def refused_grpc_def)

lemma markets_parse: "parses (collect parse_market ms) \<longleftrightarrow> (\<forall>m \<in> set ms. normalize_market m \<in> set known_markets)"
  unfolding collect_parses list_all_iff by (auto simp: parses_def parse_market_def Let_def)

lemma symbol_list_parse: "parses (collect (\<lambda>raw. parse_single_symbol raw [] []) ss) \<longleftrightarrow> list_all symbol_ok ss"
  by (simp add: collect_parses single_parses chosen_empty)

lemmas grpc_parses = single_parses [symmetric] grpc_symbols_parse [symmetric] uint16_parses [symmetric] date_parses [symmetric]
  markets_parse [symmetric] symbol_list_parse [symmetric]

lemma bad_request:
  assumes "\<not> request_ok zone req"
  shows "call_method (Some s) zone now req w = (refused_grpc, w)"
proof (cases req)
  case (KLineCall r)
  show ?thesis
    using assms unfolding KLineCall call_method.simps grpc_kline_def required_def option.case request_ok.simps grpc_parses Let_def
    by (intro answer_refuses refuses_bnd) (auto simp: parses_def dest: grpc_param_errors parse_period_err parse_adjust_err)
next
  case (HistoryTicksCall r)
  show ?thesis
    using assms unfolding HistoryTicksCall call_method.simps grpc_history_ticks_def required_def option.case request_ok.simps grpc_parses Let_def
    by (intro answer_refuses refuses_bnd) (auto simp: parses_def dest: grpc_param_errors)
next
  case (TicksCall r)
  show ?thesis
    using assms unfolding TicksCall call_method.simps grpc_ticks_def required_def option.case request_ok.simps grpc_parses Let_def
    by (intro answer_refuses refuses_bnd) (auto simp: parses_def dest: grpc_param_errors)
next
  case (SecuritiesCall r)
  show ?thesis
    using assms unfolding SecuritiesCall call_method.simps grpc_securities_def required_def option.case request_ok.simps grpc_parses
    by (intro answer_refuses refuses_bnd) (auto simp: parses_def dest: grpc_param_errors)
qed (use assms in \<open>auto simp: grpc_quotes_def grpc_order_book_def grpc_xdxr_def grpc_finance_def grpc_parses parse_symbol_request_def
  intro!: answer_refuses refuses_last dest: grpc_param_errors\<close>)

section \<open>Properties\<close>

text \<open>
  C39: gRPC and HTTP are one interface.  Every gRPC request with an explicit known market, dates with dashes
  and a period does to the service and its world what the \<open>GET\<close> request with the same parameters does, and is
  answered with the same data, or with the status of the same failure and the same message; a panic leaves both.
\<close>

theorem grpc_serves_like_http:
  assumes "portable zone req" and "cr_handler clk = now"
  shows "map_option re_route (find_route (http_of req)) = Some (http_route req) \<and>
    same_outcome (serve_grpc svc zone now None req w) (run_handler svc zone clk m (http_route req) (http_of req) w)"
  by (intro conjI routes_found requests_alike assms)

text \<open>A request for two days of bars before the service is up.\<close>

definition sample_kline_call :: grpc_request where
  "sample_kline_call = KLineCall \<lparr>gl_symbol = \<lparr>gs_market = ''sh'', gs_code = ''600000''\<rparr>, gl_market = [], gl_code = [],
     gl_period = ''day'', gl_adjust = [], gl_start = 0, gl_count = 70000, gl_times = 0, gl_start_date = ''2024-01-02'',
     gl_end_date = [], gl_force = False\<rparr>"

lemma sample_date: "parse_dashed 0 ''2024-01-02'' \<noteq> None"
  by (simp add: parse_dashed_def is_digit_def dec_val_def month_days_def)

lemma sample_portable: "portable 0 sample_kline_call"
proof -
  have "trim_space ''sh'' = ''sh''" "to_upper ''sh'' = ''SH''" "trim_space ''day'' = ''day''" by code_simp+
  then show ?thesis
    using sample_date by (simp add: sample_kline_call_def known_symbol_def chosen_def normalize_market_def portable_date_def known_markets_def)
qed

theorem grpc_serves_like_http_witness:
  "map_option re_route (find_route (http_of sample_kline_call)) = Some (http_route sample_kline_call) \<and>
   same_outcome (serve_grpc None 0 zero_time None sample_kline_call ())
     (run_handler None 0 \<lparr>cr_started = zero_time, cr_allow = zero_time, cr_handler = zero_time, cr_done = zero_time\<rparr>
       (new_metrics zero_time) (http_route sample_kline_call) (http_of sample_kline_call) ())"
  by (rule grpc_serves_like_http [OF sample_portable]) simp

text \<open>
  C40: a gRPC request that is not in order never reaches the service.  Without a market and a code for every
  symbol, with a number above 65535, an unknown market of a listing, an unknown adjustment, an unknown period or a date
  in none of the three layouts, every method answers \<open>InvalidArgument\<close> and leaves the world as it was; a K-line request
  without a period is such a request, although the handler has a default for it.
\<close>

theorem grpc_bad_requests_refused:
  "(\<not> request_ok zone req \<longrightarrow>
      serve_grpc (Some s) zone now None req w = (Inl (Status InvalidArgument ''marketdata: invalid request''), w)) \<and>
   (trim_space (gl_period k) = [] \<longrightarrow>
      serve_grpc (Some s) zone now None (KLineCall k) w = (Inl (Status InvalidArgument ''marketdata: invalid request''), w))"
proof -
  have "serve_grpc (Some s) zone now None req w = (Inl (Status InvalidArgument ''marketdata: invalid request''), w)"
    if "\<not> request_ok zone req" for req
    using bad_request [OF that] by (simp add: serve_grpc_def unary_handler_def refused_grpc_def)
  moreover have "\<not> request_ok zone (KLineCall k)" if "trim_space (gl_period k) = []"
    using that by (simp add: parses_def parse_period_def Let_def to_lower_def)
  ultimately show ?thesis by blast
qed

theorem grpc_bad_requests_refused_witness:
  "\<exists>s. serve_grpc (Some s) 0 zero_time None sample_kline_call () = (Inl (Status InvalidArgument ''marketdata: invalid request''), ())"
proof -
  have "\<not> request_ok 0 sample_kline_call" by (simp add: sample_kline_call_def)
  then show ?thesis by (intro exI) (rule grpc_bad_requests_refused [THEN conjunct1, rule_format])
qed

text \<open>
  the market of a gRPC symbol is not checked.  \<open>parseSingleSymbol\<close> takes any market, and two requests for
  different symbols can have one key, under which cache and store then keep both.
\<close>

theorem grpc_keys_collide:
  "\<exists>a b s t. parse_single_symbol a [] [] = Inr s \<and> parse_single_symbol b [] [] = Inr t \<and> s \<noteq> t \<and> symbol_key s = symbol_key t"
proof -
  let ?a = "\<lparr>gs_market = ''SH:6'', gs_code = ''00''\<rparr>" and ?b = "\<lparr>gs_market = ''SH'', gs_code = ''6:00''\<rparr>"
  let ?s = "mk_symbol ''SH:6'' ''00''" and ?t = "mk_symbol ''SH'' ''6:00''"
  have "parse_single_symbol ?a [] [] = Inr ?s" "parse_single_symbol ?b [] [] = Inr ?t" "symbol_key ?s = symbol_key ?t" by code_simp+
  moreover have "?s \<noteq> ?t" by (simp add: mk_symbol_def)
  ultimately show ?thesis by blast
qed

end
