(* ===== verification/Spec2Isabelle.thy ===== *)
theory Spec2Isabelle
  imports Sql_Queue Sql_Open Redis_Cache Backfill_Queue Memory_Cache Single_Flight Pool_Machine Market_World Live_Client Provider_Answers Http_Api Grpc_Api
begin

text \<open>
  A verification library of \<^verbatim>\<open>tongdaxin\<close>, a market-data server in Go: it fetches quotes, order books, ticks, K-lines,
  dividends, security lists, finance and the trading calendar from the TDX hosts of a vendor's client library, keeps
  them in a cache and a history store, and serves them over HTTP and gRPC.

  \<^bold>\<open>How the program hangs together.\<close>  A request enters through a handler of \<^verbatim>\<open>internal/api\<close>, which reads its
  parameters and calls the service of \<^verbatim>\<open>internal/service\<close>.  The service asks the cache (\<^verbatim>\<open>internal/cache\<close>), then the
  history store (\<^verbatim>\<open>internal/history\<close> or \<^verbatim>\<open>internal/storage\<close>), then, one load per key at a time, the provider of
  \<^verbatim>\<open>internal/provider/gotdx\<close>; it merges, stores and caches what comes back, and leaves a task in the backfill queue when
  a history request fails.  The provider leases a client from a pool of \<^verbatim>\<open>internal/source\<close>, one pool per class of
  request, calls it page by page and reports the outcome to the circuit breaker of the host.  A pooled client is a live
  client that reconnects once.

  \<^bold>\<open>Common modelling.\<close>  A call that may fail and works on a state is of type \<open>('w, 'a) op\<close>: state to result and state,
  where the result is \<open>Inl\<close> of a \<open>go_error\<close> or \<open>Inr\<close> of a value (\<open>Go_Prelude\<close>).  \<open>go_error\<close> has the sentinels of
  \<^verbatim>\<open>internal/domain/errors.go\<close> and \<^verbatim>\<open>internal/source/pool.go\<close>, the two ways the code wraps an error, and a panic;
  \<open>errors_is\<close> is \<open>errors.Is\<close>.  A context is the error its \<open>Err()\<close> gives when the method looks (\<open>guard\<close>).  Readings of the
  clock are arguments.  A pointer or interface that may be \<open>nil\<close> is an option.  A method that holds its mutex for all of
  its effect is one step; where a method gives the mutex up, its parts are separate steps of a machine.  Integers have
  their width where it matters (\<open>u16\<close>, \<open>u32\<close>, \<open>int64\<close> wrap-around by \<open>wrap64\<close>), prices are IEEE 754 bit patterns.

  \<^bold>\<open>The standard library, as far as it is used.\<close>
  \<^item> \<open>Go_Prelude\<close>: errors, operations, lists and maps.  \<open>Go_Strings\<close>: \<open>TrimSpace\<close>, case, splitting, \<open>Atoi\<close>, \<open>ParseUint\<close>, \<open>%q\<close>.
  \<^item> \<open>Go_Time\<close>, \<open>Go_Date\<close>: instants, zones, the civil calendar, dates read and written.  \<open>Go_Float\<close>: binary64 arithmetic with
    its rounding, computed on the bits.  \<open>Go_Sha1\<close>: SHA-1 for task identifiers.

  \<^bold>\<open>The components.\<close>
  \<^item> \<open>Domain\<close> (\<^verbatim>\<open>internal/domain\<close>): symbols, quotes, ticks, bars, requests; parsing of markets, periods and adjustment.
    C1: a symbol's key identifies it.
  \<^item> \<open>Keyed_Merge\<close>: the upsert-and-sort both stores and the service share, as a locale; \<open>History_Store\<close> and \<open>Backfill_Queue\<close>
    (\<^verbatim>\<open>internal/history/memory_store.go\<close>) interpret it: coverage, securities, ticks, bars and the queue of backfill
    tasks.  C2-C4: the invariant of every reachable store, ticks as a map the last writer wins, the task \<open>Next\<close> claims.
  \<^item> \<open>Memory_Cache\<close> (\<^verbatim>\<open>internal/cache/memory.go\<close>, \<^verbatim>\<open>store.go\<close>) with the locale \<open>ttl_cache\<close>, and \<open>Redis_Cache\<close>
    (\<^verbatim>\<open>redis.go\<close>), proved to answer every history of calls like the first (\<open>redis_refines_memory\<close>), with its lock.
  \<^item> \<open>Single_Flight\<close> (\<^verbatim>\<open>internal/cache/group.go\<close>): a machine of goroutines, each with its program counter; at most one load
    of a key, and what a panic of the load leaves behind.
  \<^item> \<open>Source_Pool\<close>, \<open>Pool_Machine\<close> (\<^verbatim>\<open>internal/source/pool.go\<close>): hosts, clients, leases and circuits; every method as a step
    under the mutex, and the interleaving of its users as an inductive relation whose invariant gives exclusive leases,
    one release per lease and exactly one close per client.
  \<^item> \<open>Live_Client\<close>, \<open>Live_Ops\<close> (\<^verbatim>\<open>internal/provider/gotdx/provider.go\<close>): reconnecting clients of both protocols, the
    choice of hosts, the opening of the pools.  \<open>Gotdx_Mapper\<close> (\<^verbatim>\<open>mapper.go\<close>): translation of the vendor's values.
    \<open>Kline_Paging\<close>: the page loops.  \<open>Gotdx_Provider\<close> (\<^verbatim>\<open>provider.go\<close>, \<^verbatim>\<open>trading_day.go\<close>): every request.
    \<open>Provider_Contract\<close>: each request settles its leases, over the laws of a pool's books (\<open>lease_laws\<close>).  \<open>Provider_Answers\<close>: a range of bars is exactly the server's, the trading day is consistent.
  \<^item> \<open>Bar_Coverage\<close>, \<open>Market_Service\<close> (\<^verbatim>\<open>internal/service/market_data.go\<close>): the arithmetic of gaps and coverage, and every
    method of the service over records of operations.  \<open>Market_World\<close>: the service on the in-memory store and cache
    and any provider; the laws it needs of them are locales interpreted there.
  \<^item> \<open>Http_Parse\<close>, \<open>Rate_Limiter\<close>, \<open>Http_Metrics\<close>, \<open>Http_Dto\<close>, \<open>Http_Handler\<close>, \<open>Http_Api\<close> (\<^verbatim>\<open>internal/api/http\<close>): parameters,
    token bucket, counters, values, routes and the wrapper of every request; a request for quotes is followed from its
    query to its answer.
  \<^item> \<open>Sql_Schema\<close>, \<open>Sql_Time\<close>, \<open>Sql_Database\<close>, \<open>Sql_Store\<close>, \<open>Sql_Queue\<close>, \<open>Sql_Open\<close> (\<^verbatim>\<open>internal/storage\<close>): the schema of
    three dialects rendered byte for byte, the statements typed against it, the reading of driver values, tables with
    transactions over an engine whose calls may fail at any point, every method of the store and the queue, opening
    and migration.  The SQL text is translated to operations on tables: a SELECT is a filter, a sort and a page, an
    upsert replaces or appends the row of its key.
    \<^bold>\<open>Interfaces as locales.\<close>  \<open>keyed_rows\<close> (\<open>Keyed_Merge\<close>) is interpreted on ticks and on bars, \<open>ttl_cache\<close> on each map of the
  cache, \<open>frame\<close> and \<open>local_first\<close> (\<open>Market_World\<close>) on the world of one process and its service, \<open>keyed_table\<close>
  (\<open>Sql_Database\<close>) on the four tables of the SQL store.  Each states what its client relies on, and the properties
  use the facts of the interpretations.

  \<^bold>\<open>Parameters.\<close>  Code that is not in the repository is an argument: the vendor's client (\<open>client_ops\<close>, a record of the
  methods of the interface \<open>Client\<close>) and its constants (\<open>gotdx_types\<close>), network and dialling (\<open>link\<close>, probes), the SQL
  engine and driver (\<open>sql_engine\<close>, \<open>sql_driver\<close>), the Redis client, JSON encoding.  What a property needs of them is a
  named hypothesis of its own: that a server serves its history newest first and in order (\<open>Kline_Paging\<close>), that a Redis
  server keeps a payload for its lifetime (\<open>redis_serves\<close>), that a payload survives JSON (\<open>storable\<close>).  Each such
  property has a witness on a concrete instance.

  \<^bold>\<open>Bounds and fuel.\<close>  The K-line loop is bounded by its own 16-bit offset: 83 pages of 799 bars reach the 66317 bars
  C21 allows.  The listing of securities may run for ever, so it takes fuel and answers \<open>None\<close> when that is used up: C22
  proves that one unit per started page of 800 is enough for every finite list, and that no fuel is enough on a server
  whose pages are always full.  Every other recursion is on a list or has a measure.

  \<^bold>\<open>Not modelled.\<close>  Log output throughout.
  \<close>

end
